(* ===== verification/Prelude.thy ===== *)
theory Prelude
  imports Main "HOL-Library.Word"
begin

text \<open>
  What the components share: names for the machine-integer types, the C \<open>for\<close> loop as a fold
  over its counter with the invariant rule, facts on array (list) updates, and facts on masked
  and shifted words. The collection \<open>loop_simps\<close> unrolls loops with literal bounds and
  \<open>wf_simps\<close> unfolds the well-formedness predicates of the components.
\<close>

unbundle bit_operations_syntax

named_theorems loop_simps "unrolling of counted loops with literal bounds"
named_theorems wf_simps "definitions of the well-formedness predicates"

type_synonym u8 = "8 word"
type_synonym u16 = "16 word"
type_synonym u32 = "32 word"
type_synonym u64 = "64 word"

section \<open>Counted loops\<close>

text \<open>\<open>for (i = lo; i < hi; i++) body\<close>, the state threaded through the body.\<close>

definition for_loop :: "nat \<Rightarrow> nat \<Rightarrow> (nat \<Rightarrow> 's \<Rightarrow> 's) \<Rightarrow> 's \<Rightarrow> 's" where
  "for_loop lo hi body s = fold body [lo..<hi] s"

lemma for_loop_done [simp]: "hi \<le> lo \<Longrightarrow> for_loop lo hi body s = s"
  by (simp add: for_loop_def)

lemma for_loop_step: "lo < hi \<Longrightarrow> for_loop lo hi body s = for_loop (Suc lo) hi body (body lo s)"
  by (simp add: for_loop_def upt_conv_Cons)

lemma for_loop_last: "lo \<le> hi \<Longrightarrow> for_loop lo (Suc hi) body s = body hi (for_loop lo hi body s)"
  by (simp add: for_loop_def)

lemma for_loop_numeral [loop_simps]:
  "for_loop (numeral a) (numeral b) body s =
     (if (numeral a :: nat) < numeral b
      then for_loop (Suc (numeral a)) (numeral b) body (body (numeral a) s) else s)"
  "for_loop 0 (numeral b) body s = for_loop (Suc 0) (numeral b) body (body 0 s)"
  "for_loop (Suc k) (numeral b) body s =
     (if Suc k < numeral b then for_loop (Suc (Suc k)) (numeral b) body (body (Suc k) s) else s)"
  by (simp_all add: for_loop_step)

lemma for_loop_split: "lo \<le> mid \<Longrightarrow> mid \<le> hi \<Longrightarrow>
    for_loop lo hi body s = for_loop mid hi body (for_loop lo mid body s)"
  using upt_add_eq_append [of lo mid "hi - mid"] by (simp add: for_loop_def)

lemma for_loop_invariant [consumes 2, case_names step]:
  assumes "P lo s" and "lo \<le> hi"
    and "\<And>i s. lo \<le> i \<Longrightarrow> i < hi \<Longrightarrow> P i s \<Longrightarrow> P (Suc i) (body i s)"
  shows "P hi (for_loop lo hi body s)"
  using assms(2,3)
proof (induction hi rule: dec_induct)
  case base
  then show ?case using assms(1) by simp
next
  case (step n)
  have "P n (for_loop lo n body s)" by (rule step.IH) (use step.prems in auto)
  then show ?case using step.hyps step.prems by (simp add: for_loop_last)
qed

lemma for_loop_keeps:
  assumes "P s" and "\<And>i s. lo \<le> i \<Longrightarrow> i < hi \<Longrightarrow> P s \<Longrightarrow> P (body i s)"
  shows "P (for_loop lo hi body s)"
proof (cases "lo \<le> hi")
  case True
  show ?thesis using for_loop_invariant [of "\<lambda>_. P", OF _ True] assms by blast
next
  case False
  then show ?thesis using assms(1) by simp
qed

lemma for_loop_const [simp]: "for_loop lo hi (\<lambda>_ s. s) s = s"
  by (rule for_loop_keeps [of "\<lambda>t. t = s"]) simp_all

text \<open>A loop that rewrites, or stores into, each cell below \<open>n\<close>.\<close>

lemma for_loop_map:
  "n \<le> length xs \<Longrightarrow>
     for_loop 0 n (\<lambda>i a. a[i := f i (a ! i)]) xs = map (\<lambda>i. f i (xs ! i)) [0..<n] @ drop n xs"
proof (induction n)
  case 0
  then show ?case by simp
next
  case (Suc n)
  have "drop n xs = xs ! n # drop (Suc n) xs"
    using Suc.prems by (simp add: Cons_nth_drop_Suc)
  with Suc show ?case by (simp add: for_loop_last list_update_append nth_append)
qed

lemma for_loop_fill:
  "n \<le> length xs \<Longrightarrow> for_loop 0 n (\<lambda>i a. a[i := f i]) xs = map f [0..<n] @ drop n xs"
  by (rule for_loop_map)

lemma for_loop_fill_const:
  "length xs = n \<Longrightarrow> for_loop 0 n (\<lambda>i a. a[i := x]) xs = replicate n x"
  by (simp add: for_loop_fill map_replicate_const)

lemma upt_4 [simp]: "[0..<4] = [0, 1, 2, 3]"
  by (simp add: upt_rec eval_nat_numeral)

lemma filter_upt_eq: "b < n \<Longrightarrow> filter (\<lambda>i. i = b) [0..<n] = [b]"
proof (induction n)
  case 0
  then show ?case by simp
next
  case (Suc n)
  show ?case
  proof (cases "b = n")
    case True
    have "filter (\<lambda>i. i = n) [0..<n] = []" by (simp add: filter_empty_conv)
    with True show ?thesis by simp
  next
    case False
    with Suc show ?thesis by simp
  qed
qed

section \<open>Arrays\<close>

lemma list_all_update: "list_all P xs \<Longrightarrow> P x \<Longrightarrow> list_all P (xs[i := x])"
  by (auto simp: list_all_iff dest!: set_update_subset_insert [THEN subsetD])

lemma list_all_nthD: "list_all P xs \<Longrightarrow> i < length xs \<Longrightarrow> P (xs ! i)"
  by (simp add: list_all_length)

lemma replicate_4: "replicate 4 x = [x, x, x, x]"
  by (simp add: eval_nat_numeral)

lemma length_4E:
  assumes "length xs = 4"
  obtains a b c d where "xs = [a, b, c, d]"
  using assms by (auto simp: length_Suc_conv eval_nat_numeral)

lemma length_2E:
  assumes "length xs = 2"
  obtains a b where "xs = [a, b]"
  using assms by (auto simp: length_Suc_conv eval_nat_numeral)

lemma less_4_cases: "(i :: nat) < 4 \<Longrightarrow> i = 0 \<or> i = 1 \<or> i = 2 \<or> i = 3"
  by arith

section \<open>Words\<close>

lemma unat_and_mask_less: "unat (x AND mask n) < 2 ^ n" for x :: "'a :: len word"
proof -
  have "uint (x AND mask n) < 2 ^ n" by (rule and_mask_lt_2p)
  then have "int (unat (x AND mask n)) < int (2 ^ n)" by simp
  then show ?thesis by linarith
qed

lemma unat_le_bound: "x \<le> y \<Longrightarrow> unat y = n \<Longrightarrow> unat x \<le> n" for x y :: "'a :: len word"
  by (simp add: word_le_nat_alt)

lemma unat_and_le: "unat (x AND y) \<le> unat y" for x y :: "'a :: len word"
  using word_and_le1 [of x y] by (simp add: word_le_nat_alt)

lemma bool_byte_bit: "x = 0 \<or> x = 1 \<Longrightarrow> x = of_bool (x \<noteq> 0)" for x :: "'a :: len word"
  by auto

lemma xor_swap: "a XOR c = b \<Longrightarrow> a = b XOR c" for a b c :: "'a :: len word"
  by (metis xor.assoc xor.right_neutral xor_self_eq)

end
