(* ===== verification/TageState.thy ===== *)
theory TageState
  imports Prelude
begin

text \<open>
  The data of the L-TAGE predictor (\<open>common_var.h\<close>) and its initialisation
  (\<open>initTagePredictor\<close> of \<open>tage_predictor.h\<close>, the same code as the start of \<open>main\<close> in
  \<open>predictor.c\<close>). Integers keep their C width; a signed 32-bit field is a word read with \<open>sint\<close>.
  The two bank numbers are \<open>uint64_t\<close> in C but only ever hold 0 to 4, so they are \<open>nat\<close>.
  \<open>ghr_pad\<close> is the byte of the structure right after \<open>ghr\<close>: \<open>ghr\<close> has 131 bytes and the
  next member is aligned to 8, so bytes 131 to 135 of the structure are padding, and
  \<open>update_predictor\<close> stores one byte there.
\<close>

unbundle bit_operations_syntax

section \<open>Constants and types\<close>

abbreviation (input) NUMTAGTABLES :: nat where "NUMTAGTABLES \<equiv> 4"
abbreviation (input) BIMODALLOG :: nat where "BIMODALLOG \<equiv> 14"
abbreviation (input) TAGPREDLOG :: nat where "TAGPREDLOG \<equiv> 12"
abbreviation (input) GHRLNGTH :: nat where "GHRLNGTH \<equiv> 131"
abbreviation (input) BIMODAL_CTR_MAX :: u64 where "BIMODAL_CTR_MAX \<equiv> 3"
abbreviation (input) BIMODAL_CTR_INIT :: u32 where "BIMODAL_CTR_INIT \<equiv> 2"
abbreviation (input) TAGPRED_CTR_MAX :: u64 where "TAGPRED_CTR_MAX \<equiv> 7"

record component =
  cpred :: u32
  ctag :: u32
  cu :: u32

record CompressedHist =
  geomLength :: u64
  targetLength :: u64
  compHist :: u64

record predictor =
  ghr :: "u8 list"
  ghr_pad :: u8
  phr :: u64
  bimodal :: "u32 list"
  historyLength :: u32
  numBimodalEntries :: u32
  bimodalLog :: u32
  tagPred :: "component list list"
  numberTagEntries :: u32
  tagPredLog :: u32
  geometric :: "u32 list"
  indexComp :: "CompressedHist list"
  tagComp :: "CompressedHist list list"
  primePred :: u64
  altPred :: u64
  primeBank :: nat
  altBank :: nat
  indexTagPred :: "u32 list"
  tagv :: "u32 list"
  clock :: u32
  clock_flip :: u64
  altBetterCount :: u32

text \<open>\<open>tagPred[b][indexTagPred[b]]\<close>, the entry that the current branch selects in bank \<open>b\<close>,
  as an lvalue: read and update.\<close>

definition sel :: "predictor \<Rightarrow> nat \<Rightarrow> component" where
  "sel p b = tagPred p ! b ! unat (indexTagPred p ! b)"

definition upd_sel :: "nat \<Rightarrow> (component \<Rightarrow> component) \<Rightarrow> predictor \<Rightarrow> predictor" where
  "upd_sel b f p =
     p\<lparr>tagPred := (tagPred p)[b := (tagPred p ! b)[unat (indexTagPred p ! b) := f (sel p b)]]\<rparr>"

section \<open>Initialisation\<close>

definition init_bimodal :: "predictor \<Rightarrow> predictor" where
  "init_bimodal p =
     p\<lparr>bimodal := for_loop 0 (unat (numBimodalEntries p)) (\<lambda>ii b. b[ii := BIMODAL_CTR_INIT]) (bimodal p)\<rparr>"

text \<open>\<open>mem ii\<close> is the block that \<open>malloc\<close> returned for table \<open>ii\<close>: its contents are arbitrary.\<close>

definition init_tables :: "(nat \<Rightarrow> component list) \<Rightarrow> predictor \<Rightarrow> predictor" where
  "init_tables mem p =
     (let allocated = for_loop 0 NUMTAGTABLES (\<lambda>ii t. t[ii := mem ii]) (tagPred p)
      in p\<lparr>tagPred := for_loop 0 NUMTAGTABLES
            (\<lambda>ii t. t[ii := for_loop 0 (unat (numberTagEntries p))
                (\<lambda>j blk. blk[j := \<lparr>cpred = 0, ctag = 0, cu = 0\<rparr>]) (t ! ii)]) allocated\<rparr>)"

definition init_geometric :: "predictor \<Rightarrow> predictor" where
  "init_geometric p = p\<lparr>geometric := ((geometric p)[0 := 130, 1 := 44, 2 := 15, 3 := 5])\<rparr>"

definition init_index_comp :: "predictor \<Rightarrow> predictor" where
  "init_index_comp p =
     p\<lparr>indexComp := for_loop 0 NUMTAGTABLES
        (\<lambda>i cs. cs[i := \<lparr>geomLength = ucast (geometric p ! i),
                         targetLength = of_nat TAGPREDLOG, compHist = 0\<rparr>]) (indexComp p)\<rparr>"

definition init_tag_comp :: "predictor \<Rightarrow> predictor" where
  "init_tag_comp p =
     p\<lparr>tagComp := for_loop 0 2
        (\<lambda>j rows. rows[j := for_loop 0 NUMTAGTABLES
           (\<lambda>i cs. cs[i := \<lparr>geomLength = ucast (geometric p ! i),
                            targetLength = (if j = 0 then (if i < 2 then 9 else 9)
                                            else (if i < 2 then 8 else 8)),
                            compHist = 0\<rparr>]) (rows ! j)]) (tagComp p)\<rparr>"

definition init_latches :: "predictor \<Rightarrow> predictor" where
  "init_latches p =
     p\<lparr>primePred := - 1, altPred := - 1, primeBank := NUMTAGTABLES, altBank := NUMTAGTABLES,
       indexTagPred := for_loop 0 NUMTAGTABLES (\<lambda>i a. a[i := 0]) (indexTagPred p),
       tagv := for_loop 0 NUMTAGTABLES (\<lambda>i a. a[i := 0]) (tagv p)\<rparr>"

definition init_misc :: "predictor \<Rightarrow> predictor" where
  "init_misc p =
     p\<lparr>clock := 0, clock_flip := 1, phr := 0, altBetterCount := 8,
       ghr := for_loop 0 GHRLNGTH (\<lambda>kk g. g[kk := 0]) (ghr p)\<rparr>"

definition initTagePredictor :: "(nat \<Rightarrow> component list) \<Rightarrow> predictor \<Rightarrow> predictor" where
  "initTagePredictor mem p =
     (let p = p\<lparr>numBimodalEntries := push_bit BIMODALLOG 1, numberTagEntries := push_bit TAGPREDLOG 1\<rparr>;
          p = init_bimodal p;
          p = init_tables mem p;
          p = init_geometric p;
          p = init_index_comp p;
          p = init_tag_comp p;
          p = init_latches p
      in init_misc p)"

section \<open>The shape of the arrays and the invariant\<close>

text \<open>The arrays have the lengths of their declarations; this holds of uninitialised memory too.\<close>

definition tage_shape :: "predictor \<Rightarrow> bool" where
  "tage_shape p \<longleftrightarrow>
     length (ghr p) = GHRLNGTH \<and> length (bimodal p) = 2 ^ BIMODALLOG \<and>
     length (tagPred p) = NUMTAGTABLES \<and> length (geometric p) = NUMTAGTABLES \<and>
     length (indexComp p) = NUMTAGTABLES \<and>
     length (tagComp p) = 2 \<and> list_all (\<lambda>r. length r = NUMTAGTABLES) (tagComp p) \<and>
     length (indexTagPred p) = NUMTAGTABLES \<and> length (tagv p) = NUMTAGTABLES"

definition component_wf :: "component \<Rightarrow> bool" where
  "component_wf c \<longleftrightarrow> unat (cpred c) \<le> 7 \<and> unat (cu c) \<le> 3 \<and> unat (ctag c) < 2 ^ 9"

definition tables_wf :: "component list list \<Rightarrow> bool" where
  "tables_wf ts \<longleftrightarrow> length ts = NUMTAGTABLES \<and>
     list_all (\<lambda>t. length t = 2 ^ TAGPREDLOG \<and> list_all component_wf t) ts"

definition bimodal_wf :: "u32 list \<Rightarrow> bool" where
  "bimodal_wf b \<longleftrightarrow> length b = 2 ^ BIMODALLOG \<and> list_all (\<lambda>c. unat c \<le> 3) b"

definition hist_wf :: "nat \<Rightarrow> nat \<Rightarrow> CompressedHist \<Rightarrow> bool" where
  "hist_wf L T c \<longleftrightarrow> unat (geomLength c) = L \<and> unat (targetLength c) = T \<and> unat (compHist c) < 2 ^ T"

definition hists_wf :: "nat \<Rightarrow> CompressedHist list \<Rightarrow> bool" where
  "hists_wf T cs \<longleftrightarrow> length cs = NUMTAGTABLES \<and>
     hist_wf 130 T (cs ! 0) \<and> hist_wf 44 T (cs ! 1) \<and> hist_wf 15 T (cs ! 2) \<and> hist_wf 5 T (cs ! 3)"

definition ghr_wf :: "u8 list \<Rightarrow> bool" where
  "ghr_wf g \<longleftrightarrow> length g = GHRLNGTH \<and> list_all (\<lambda>x. x = 0 \<or> x = 1) g"

definition latches_wf :: "predictor \<Rightarrow> bool" where
  "latches_wf p \<longleftrightarrow> primeBank p \<le> NUMTAGTABLES \<and> altBank p \<le> NUMTAGTABLES \<and>
     length (indexTagPred p) = NUMTAGTABLES \<and> list_all (\<lambda>i. unat i < 2 ^ TAGPREDLOG) (indexTagPred p) \<and>
     length (tagv p) = NUMTAGTABLES \<and> list_all (\<lambda>t. unat t < 2 ^ 9) (tagv p)"

definition counters_wf :: "predictor \<Rightarrow> bool" where
  "counters_wf p \<longleftrightarrow> unat (clock p) < 256 * 1024 \<and> (clock_flip p = 0 \<or> clock_flip p = 1) \<and>
     unat (altBetterCount p) \<le> 15 \<and> unat (phr p) < 2 ^ 16"

definition tage_wf :: "predictor \<Rightarrow> bool" where
  "tage_wf p \<longleftrightarrow> ghr_wf (ghr p) \<and> bimodal_wf (bimodal p) \<and> tables_wf (tagPred p) \<and>
     numBimodalEntries p = 2 ^ BIMODALLOG \<and> numberTagEntries p = 2 ^ TAGPREDLOG \<and>
     hists_wf TAGPREDLOG (indexComp p) \<and>
     length (tagComp p) = 2 \<and> hists_wf 9 (tagComp p ! 0) \<and> hists_wf 8 (tagComp p ! 1) \<and>
     latches_wf p \<and> counters_wf p"

lemmas tage_wf_defs [wf_simps] =
  tage_wf_def ghr_wf_def bimodal_wf_def tables_wf_def hists_wf_def hist_wf_def latches_wf_def
  counters_wf_def component_wf_def

text \<open>What the invariant gives about the entry that a bank selects, and what an update of it keeps.\<close>

lemma sel_in_range:
  assumes "tage_wf p" and "b < NUMTAGTABLES"
  shows "b < length (tagPred p)" and "unat (indexTagPred p ! b) < length (tagPred p ! b)"
    and "component_wf (sel p b)"
proof -
  from assms have tab: "tables_wf (tagPred p)" and lat: "latches_wf p"
    by (simp_all add: tage_wf_def)
  from tab assms(2) show b: "b < length (tagPred p)" by (simp add: tables_wf_def)
  with tab have t: "length (tagPred p ! b) = 2 ^ TAGPREDLOG" "list_all component_wf (tagPred p ! b)"
    by (auto simp: tables_wf_def list_all_length)
  from lat assms(2) have "unat (indexTagPred p ! b) < 2 ^ TAGPREDLOG"
    by (simp add: latches_wf_def list_all_length)
  with t show i: "unat (indexTagPred p ! b) < length (tagPred p ! b)" by simp
  show "component_wf (sel p b)" unfolding sel_def by (rule list_all_nthD [OF t(2) i])
qed

lemma sel_upd_sel:
  assumes "tage_wf p" and "b < NUMTAGTABLES"
  shows "sel (upd_sel b f p) b' = (if b' = b then f (sel p b) else sel p b')"
  using sel_in_range [OF assms] by (auto simp: sel_def upd_sel_def)

lemma upd_sel_simps [simp]:
  "ghr (upd_sel b f p) = ghr p" "ghr_pad (upd_sel b f p) = ghr_pad p" "phr (upd_sel b f p) = phr p"
  "bimodal (upd_sel b f p) = bimodal p" "numBimodalEntries (upd_sel b f p) = numBimodalEntries p"
  "numberTagEntries (upd_sel b f p) = numberTagEntries p" "geometric (upd_sel b f p) = geometric p"
  "indexComp (upd_sel b f p) = indexComp p" "tagComp (upd_sel b f p) = tagComp p"
  "primePred (upd_sel b f p) = primePred p" "altPred (upd_sel b f p) = altPred p"
  "primeBank (upd_sel b f p) = primeBank p" "altBank (upd_sel b f p) = altBank p"
  "indexTagPred (upd_sel b f p) = indexTagPred p" "tagv (upd_sel b f p) = tagv p"
  "clock (upd_sel b f p) = clock p" "clock_flip (upd_sel b f p) = clock_flip p"
  "altBetterCount (upd_sel b f p) = altBetterCount p"
  by (simp_all add: upd_sel_def)

lemma upd_sel_wf:
  assumes "tage_wf p" and "b < NUMTAGTABLES" and "component_wf (f (sel p b))"
  shows "tage_wf (upd_sel b f p)"
proof -
  from assms(1) have tab: "tables_wf (tagPred p)" by (simp add: tage_wf_def)
  then have "list_all component_wf (tagPred p ! b)" and "length (tagPred p ! b) = 2 ^ TAGPREDLOG"
    using assms(2) by (simp_all add: tables_wf_def list_all_length)
  then have "tables_wf (tagPred (upd_sel b f p))"
    using tab assms(3) by (simp add: tables_wf_def upd_sel_def list_all_update)
  then show ?thesis using assms(1) by (simp add: tage_wf_def latches_wf_def counters_wf_def)
qed

section \<open>The initial predictor satisfies the invariant\<close>

lemma init_bimodal_array:
  assumes "length (bimodal p) = 2 ^ BIMODALLOG" and "numBimodalEntries p = 2 ^ BIMODALLOG"
  shows "bimodal (init_bimodal p) = replicate (2 ^ BIMODALLOG) BIMODAL_CTR_INIT"
  using assms by (simp add: init_bimodal_def for_loop_fill_const)

lemma init_tables_array:
  assumes "length (tagPred p) = NUMTAGTABLES" and "numberTagEntries p = 2 ^ TAGPREDLOG"
    and "\<And>ii. ii < NUMTAGTABLES \<Longrightarrow> length (mem ii) = 2 ^ TAGPREDLOG"
  shows "tagPred (init_tables mem p) =
    replicate NUMTAGTABLES (replicate (2 ^ TAGPREDLOG) \<lparr>cpred = 0, ctag = 0, cu = 0\<rparr>)"
proof -
  have al: "for_loop 0 NUMTAGTABLES (\<lambda>ii t. t[ii := mem ii]) (tagPred p) = map mem [0..<4]"
    using assms(1) by (simp add: for_loop_fill)
  let ?blank = "\<lambda>ii t. for_loop 0 (2 ^ TAGPREDLOG) (\<lambda>j blk. blk[j := \<lparr>cpred = 0, ctag = 0, cu = 0\<rparr>]) t"
  have "tagPred (init_tables mem p) =
      for_loop 0 NUMTAGTABLES (\<lambda>ii t. t[ii := ?blank ii (t ! ii)]) (map mem [0..<4])"
    unfolding init_tables_def Let_def al using assms(2) by simp
  also have "\<dots> = map (\<lambda>ii. ?blank ii (map mem [0..<4] ! ii)) [0..<4]"
    by (subst for_loop_map [where f = ?blank]) simp_all
  also have "\<dots> = replicate NUMTAGTABLES (replicate (2 ^ TAGPREDLOG) \<lparr>cpred = 0, ctag = 0, cu = 0\<rparr>)"
    using assms(3) by (simp add: for_loop_fill_const replicate_4)
  finally show ?thesis .
qed

lemma init_hist_arrays:
  assumes "tage_shape p"
  shows "geometric (init_geometric p) = [130, 44, 15, 5]"
    and "indexComp (init_index_comp p) =
      map (\<lambda>i. \<lparr>geomLength = ucast (geometric p ! i), targetLength = 12, compHist = 0\<rparr>) [0..<4]"
    and "tagComp (init_tag_comp p) =
      [map (\<lambda>i. \<lparr>geomLength = ucast (geometric p ! i), targetLength = 9, compHist = 0\<rparr>) [0..<4],
       map (\<lambda>i. \<lparr>geomLength = ucast (geometric p ! i), targetLength = 8, compHist = 0\<rparr>) [0..<4]]"
proof -
  from assms obtain a b c d where "geometric p = [a, b, c, d]"
    by (auto simp: tage_shape_def elim: length_4E)
  then show "geometric (init_geometric p) = [130, 44, 15, 5]"
    by (simp add: init_geometric_def eval_nat_numeral)
  show "indexComp (init_index_comp p) =
      map (\<lambda>i. \<lparr>geomLength = ucast (geometric p ! i), targetLength = 12, compHist = 0\<rparr>) [0..<4]"
    using assms by (simp add: init_index_comp_def tage_shape_def for_loop_fill)
  from assms obtain r0 r1 where r: "tagComp p = [r0, r1]" "length r0 = 4" "length r1 = 4"
    by (auto simp: tage_shape_def elim!: length_2E)
  then show "tagComp (init_tag_comp p) =
      [map (\<lambda>i. \<lparr>geomLength = ucast (geometric p ! i), targetLength = 9, compHist = 0\<rparr>) [0..<4],
       map (\<lambda>i. \<lparr>geomLength = ucast (geometric p ! i), targetLength = 8, compHist = 0\<rparr>) [0..<4]]"
    by (simp add: init_tag_comp_def for_loop_step [of 0 2] for_loop_step [of "Suc 0" 2] for_loop_fill)
qed

text \<open>The fields of the initialised predictor.\<close>

lemma init_fields:
  assumes "tage_shape p" and "\<And>ii. ii < NUMTAGTABLES \<Longrightarrow> length (mem ii) = 2 ^ TAGPREDLOG"
  defines "q \<equiv> initTagePredictor mem p"
  shows "ghr q = replicate GHRLNGTH 0" and "bimodal q = replicate (2 ^ BIMODALLOG) 2"
    and "tagPred q = replicate NUMTAGTABLES (replicate (2 ^ TAGPREDLOG) \<lparr>cpred = 0, ctag = 0, cu = 0\<rparr>)"
    and "numBimodalEntries q = 16384" and "numberTagEntries q = 4096"
    and "geometric q = [130, 44, 15, 5]"
    and "indexComp q = map (\<lambda>L. \<lparr>geomLength = L, targetLength = 12, compHist = 0\<rparr>) [130, 44, 15, 5]"
    and "tagComp q = [map (\<lambda>L. \<lparr>geomLength = L, targetLength = 9, compHist = 0\<rparr>) [130, 44, 15, 5],
                      map (\<lambda>L. \<lparr>geomLength = L, targetLength = 8, compHist = 0\<rparr>) [130, 44, 15, 5]]"
    and "primeBank q = NUMTAGTABLES" and "altBank q = NUMTAGTABLES"
    and "indexTagPred q = [0, 0, 0, 0]" and "tagv q = [0, 0, 0, 0]"
    and "clock q = 0" and "clock_flip q = 1" and "phr q = 0" and "altBetterCount q = 8"
proof -
  let ?p0 = "p\<lparr>numBimodalEntries := push_bit BIMODALLOG 1, numberTagEntries := push_bit TAGPREDLOG 1\<rparr>"
  let ?p1 = "init_bimodal ?p0" let ?p2 = "init_tables mem ?p1" let ?p3 = "init_geometric ?p2"
  let ?p4 = "init_index_comp ?p3" let ?p5 = "init_tag_comp ?p4"
  have q: "q = init_misc (init_latches ?p5)" by (simp add: q_def initTagePredictor_def)
  have sh: "tage_shape ?p2" using assms(1)
    by (simp add: tage_shape_def init_bimodal_def init_tables_def init_bimodal_array Let_def
        for_loop_fill for_loop_keeps [of "\<lambda>t. length t = 4"] for_loop_keeps [of "\<lambda>t. length t = 16384"])
  have g: "geometric ?p3 = [130, 44, 15, 5]" by (rule init_hist_arrays(1) [OF sh])
  have sh3: "tage_shape ?p3" "tage_shape ?p4"
    using sh by (simp_all add: tage_shape_def init_geometric_def init_index_comp_def for_loop_fill)
  have len: "length (ghr p) = 131" "length (indexTagPred p) = 4" "length (tagv p) = 4"
    "length (bimodal p) = 2 ^ 14" "length (tagPred p) = 4"
    using assms(1) by (simp_all add: tage_shape_def)
  note outer = init_misc_def init_latches_def init_tag_comp_def init_index_comp_def init_geometric_def
  show "ghr q = replicate GHRLNGTH 0" using len
    by (simp add: q outer init_tables_def init_bimodal_def Let_def for_loop_fill_const)
  show "bimodal q = replicate (2 ^ BIMODALLOG) 2"
    using init_bimodal_array [of ?p0] len by (simp add: q outer init_tables_def Let_def)
  show "tagPred q = replicate NUMTAGTABLES (replicate (2 ^ TAGPREDLOG) \<lparr>cpred = 0, ctag = 0, cu = 0\<rparr>)"
    using init_tables_array [of ?p1 mem] len assms(2)
    by (simp add: q outer) (simp add: init_bimodal_def)
  show "numBimodalEntries q = 16384" "numberTagEntries q = 4096"
    by (simp_all add: q outer init_tables_def init_bimodal_def Let_def)
  show "geometric q = [130, 44, 15, 5]" using g
    by (simp add: q init_misc_def init_latches_def init_tag_comp_def init_index_comp_def)
  show "indexComp q = map (\<lambda>L. \<lparr>geomLength = L, targetLength = 12, compHist = 0\<rparr>) [130, 44, 15, 5]"
    using init_hist_arrays(2) [OF sh3(1)] g
    by (simp add: q init_misc_def init_latches_def init_tag_comp_def)
  show "tagComp q = [map (\<lambda>L. \<lparr>geomLength = L, targetLength = 9, compHist = 0\<rparr>) [130, 44, 15, 5],
                     map (\<lambda>L. \<lparr>geomLength = L, targetLength = 8, compHist = 0\<rparr>) [130, 44, 15, 5]]"
    using init_hist_arrays(3) [OF sh3(2)] g
    by (simp add: q init_misc_def init_latches_def init_index_comp_def)
  show "indexTagPred q = [0, 0, 0, 0]" "tagv q = [0, 0, 0, 0]" using len
    by (simp_all add: q outer init_tables_def init_bimodal_def Let_def for_loop_fill_const replicate_4)
  show "primeBank q = NUMTAGTABLES" "altBank q = NUMTAGTABLES" "clock q = 0" "clock_flip q = 1"
    "phr q = 0" "altBetterCount q = 8"
    by (simp_all add: q init_misc_def init_latches_def)
qed

lemma list_all_replicate_iff: "list_all P (replicate n x) \<longleftrightarrow> n = 0 \<or> P x"
  by (auto simp: list_all_iff)

lemma init_invariant:
  assumes "tage_shape p" and "\<And>ii. ii < NUMTAGTABLES \<Longrightarrow> length (mem ii) = 2 ^ TAGPREDLOG"
  shows "tage_wf (initTagePredictor mem p)"
  unfolding tage_wf_def ghr_wf_def bimodal_wf_def tables_wf_def hists_wf_def hist_wf_def
    latches_wf_def counters_wf_def component_wf_def
  by (simp add: init_fields [OF assms] list_all_replicate_iff component_wf_def)

text \<open>A concrete start, for closed instances: memory of zeros, initialised.\<close>

definition raw_memory :: predictor where
  "raw_memory =
     \<lparr>ghr = replicate GHRLNGTH 0, ghr_pad = 0, phr = 0, bimodal = replicate (2 ^ BIMODALLOG) 0,
      historyLength = 0, numBimodalEntries = 0, bimodalLog = 0,
      tagPred = replicate NUMTAGTABLES [], numberTagEntries = 0, tagPredLog = 0,
      geometric = replicate NUMTAGTABLES 0,
      indexComp = replicate NUMTAGTABLES \<lparr>geomLength = 0, targetLength = 0, compHist = 0\<rparr>,
      tagComp = replicate 2 (replicate NUMTAGTABLES \<lparr>geomLength = 0, targetLength = 0, compHist = 0\<rparr>),
      primePred = 0, altPred = 0, primeBank = 0, altBank = 0,
      indexTagPred = replicate NUMTAGTABLES 0, tagv = replicate NUMTAGTABLES 0,
      clock = 0, clock_flip = 0, altBetterCount = 0\<rparr>"

definition raw_blocks :: "nat \<Rightarrow> component list" where
  "raw_blocks _ = replicate (2 ^ TAGPREDLOG) \<lparr>cpred = 0, ctag = 0, cu = 0\<rparr>"

definition tage0 :: predictor where
  "tage0 = initTagePredictor raw_blocks raw_memory"

lemma raw_memory_shape: "tage_shape raw_memory"
  by (simp add: tage_shape_def raw_memory_def list_all_replicate_iff)

lemma raw_blocks_length: "length (raw_blocks ii) = 2 ^ TAGPREDLOG"
  by (simp add: raw_blocks_def)

lemmas tage0_fields = init_fields [where mem = raw_blocks, OF raw_memory_shape raw_blocks_length, folded tage0_def]

lemma tage0_wf: "tage_wf tage0"
  unfolding tage0_def by (rule init_invariant [OF raw_memory_shape raw_blocks_length])

end
