(* ===== verification/TagePredict.thy ===== *)
theory TagePredict
  imports TageState
begin

text \<open>
  \<open>get_prediction\<close> (\<open>get_prediction.h\<close>): the base prediction, the tags and indices of the four
  banks, the scan for the two hitting banks with the longest histories, and the choice between
  their predictions. The function returns the direction and the updated predictor.
\<close>

unbundle bit_operations_syntax

section \<open>The steps of \<open>get_prediction\<close>\<close>

definition bimodal_index :: "u64 \<Rightarrow> predictor \<Rightarrow> u64" where
  "bimodal_index PC p = PC mod ucast (numBimodalEntries p)"

definition base_prediction :: "u64 \<Rightarrow> predictor \<Rightarrow> bool" where
  "base_prediction PC p =
     (let bimodalCounter = ucast (bimodal p ! unat (bimodal_index PC p)) :: u64
      in bimodalCounter > BIMODAL_CTR_MAX div 2)"

definition compute_tags :: "u64 \<Rightarrow> predictor \<Rightarrow> predictor" where
  "compute_tags PC p =
     (let hashed = for_loop 0 NUMTAGTABLES
            (\<lambda>i t. t[i := ucast (PC XOR compHist (tagComp p ! 0 ! i)
                                 XOR push_bit 1 (compHist (tagComp p ! 1 ! i)))]) (tagv p)
      in p\<lparr>tagv := hashed[0 := hashed ! 0 AND (2 ^ 9 - 1), 1 := hashed ! 1 AND (2 ^ 9 - 1),
                          2 := hashed ! 2 AND (2 ^ 9 - 1), 3 := hashed ! 3 AND (2 ^ 9 - 1)]\<rparr>)"

definition compute_indices :: "u64 \<Rightarrow> predictor \<Rightarrow> predictor" where
  "compute_indices PC p =
     (let index_mask = 2 ^ TAGPREDLOG - 1 :: u64;
          hashed = (indexTagPred p)
            [0 := ucast (PC XOR drop_bit TAGPREDLOG PC XOR compHist (indexComp p ! 0)
                         XOR phr p XOR drop_bit TAGPREDLOG (phr p)),
             1 := ucast (PC XOR drop_bit (TAGPREDLOG - 1) PC XOR compHist (indexComp p ! 1) XOR phr p),
             2 := ucast (PC XOR drop_bit (TAGPREDLOG - 2) PC XOR compHist (indexComp p ! 2)
                         XOR (phr p AND 31)),
             3 := ucast (PC XOR drop_bit (TAGPREDLOG - 3) PC XOR compHist (indexComp p ! 3)
                         XOR (phr p AND 7))]
      in p\<lparr>indexTagPred := for_loop 0 NUMTAGTABLES
             (\<lambda>i t. t[i := ucast (ucast (t ! i) AND index_mask)]) hashed\<rparr>)"

text \<open>The two scans: the first bank from \<open>i\<close> on whose selected entry carries the tag.\<close>

definition hit :: "predictor \<Rightarrow> nat \<Rightarrow> bool" where
  "hit p i \<longleftrightarrow> ctag (sel p i) = tagv p ! i"

function scan_banks :: "predictor \<Rightarrow> nat \<Rightarrow> nat" where
  "scan_banks p i =
     (if i < NUMTAGTABLES then if hit p i then i else scan_banks p (Suc i) else NUMTAGTABLES)"
  by pat_completeness auto
termination by (relation "measure (\<lambda>(p, i). NUMTAGTABLES - i)") auto

declare scan_banks.simps [simp del]

definition find_banks :: "predictor \<Rightarrow> predictor" where
  "find_banks p =
     (let p = p\<lparr>primePred := - 1, altPred := - 1, primeBank := NUMTAGTABLES, altBank := NUMTAGTABLES\<rparr>;
          p = p\<lparr>primeBank := scan_banks p 0\<rparr>
      in p\<lparr>altBank := scan_banks p (primeBank p + 1)\<rparr>)"

text \<open>The comparison \<open>pred >= TAGPRED_CTR_MAX/2\<close> is on \<open>int32_t\<close>.\<close>

definition counter_taken :: "component \<Rightarrow> u64" where
  "counter_taken c = (if 7 div 2 \<le> sint (cpred c) then 1 else 0)"

text \<open>The guard that decides whether the provider is trusted, as the code writes it.\<close>

definition trust_provider :: "predictor \<Rightarrow> bool" where
  "trust_provider p \<longleftrightarrow>
     (let c = sel p (primeBank p)
      in cpred c \<noteq> 3 \<or> cpred c \<noteq> 4 \<or> cu c \<noteq> 0 \<or> altBetterCount p < 8)"

definition choose_prediction :: "bool \<Rightarrow> predictor \<Rightarrow> u64 \<times> predictor" where
  "choose_prediction basePrediction p =
     (if primeBank p < NUMTAGTABLES
      then let p = p\<lparr>altPred := (if altBank p = NUMTAGTABLES then of_bool basePrediction
                                  else counter_taken (sel p (altBank p)))\<rparr>
           in if trust_provider p
              then let p = p\<lparr>primePred := counter_taken (sel p (primeBank p))\<rparr> in (primePred p, p)
              else (altPred p, p)
      else let p = p\<lparr>altPred := of_bool basePrediction\<rparr> in (altPred p, p))"

definition get_prediction :: "u64 \<Rightarrow> predictor \<Rightarrow> u64 \<times> predictor" where
  "get_prediction PC p =
     (let basePrediction = base_prediction PC p;
          p = compute_tags PC p;
          p = compute_indices PC p;
          p = find_banks p
      in choose_prediction basePrediction p)"

section \<open>Facts about the steps\<close>

lemma scan_banks_le: "scan_banks p i \<le> NUMTAGTABLES"
proof (induction p i rule: scan_banks.induct)
  case (1 p i)
  then show ?case by (subst scan_banks.simps) auto
qed

lemma scan_banks_ge: "i \<le> NUMTAGTABLES \<Longrightarrow> i \<le> scan_banks p i"
proof (induction p i rule: scan_banks.induct)
  case (1 p i)
  then show ?case
    by (subst scan_banks.simps) (force dest: Suc_leD)
qed

lemma scan_banks_hit: "scan_banks p i < NUMTAGTABLES \<Longrightarrow> hit p (scan_banks p i)"
proof (induction p i rule: scan_banks.induct)
  case (1 p i)
  then show ?case
    by (cases "i < NUMTAGTABLES"; cases "hit p i") (simp_all add: scan_banks.simps [of p i])
qed

lemma scan_banks_least: "i \<le> j \<Longrightarrow> j < scan_banks p i \<Longrightarrow> \<not> hit p j"
proof (induction p i rule: scan_banks.induct)
  case (1 p i)
  have lt: "i < NUMTAGTABLES"
    using "1.prems" by (rule_tac ccontr) (simp add: scan_banks.simps [of p i])
  have nh: "\<not> hit p i"
    using "1.prems" lt by (rule_tac notI) (simp add: scan_banks.simps [of p i])
  show ?case
  proof (cases "j = i")
    case True
    then show ?thesis using nh by simp
  next
    case False
    then show ?thesis
      using "1.IH" [OF lt nh] "1.prems" lt nh by (simp add: scan_banks.simps [of p i])
  qed
qed

lemma scan_banks_found: "i \<le> j \<Longrightarrow> j < NUMTAGTABLES \<Longrightarrow> hit p j \<Longrightarrow> scan_banks p i \<le> j"
  using scan_banks_least [of i j p] by fastforce

text \<open>The steps change only the latches.\<close>

lemma compute_tags_simps [simp]:
  "ghr (compute_tags PC p) = ghr p" "phr (compute_tags PC p) = phr p"
  "bimodal (compute_tags PC p) = bimodal p" "tagPred (compute_tags PC p) = tagPred p"
  "indexComp (compute_tags PC p) = indexComp p" "tagComp (compute_tags PC p) = tagComp p"
  "indexTagPred (compute_tags PC p) = indexTagPred p"
  "numBimodalEntries (compute_tags PC p) = numBimodalEntries p"
  "altBetterCount (compute_tags PC p) = altBetterCount p"
  by (simp_all add: compute_tags_def Let_def)

lemma compute_indices_simps [simp]:
  "ghr (compute_indices PC p) = ghr p" "phr (compute_indices PC p) = phr p"
  "bimodal (compute_indices PC p) = bimodal p" "tagPred (compute_indices PC p) = tagPred p"
  "indexComp (compute_indices PC p) = indexComp p" "tagComp (compute_indices PC p) = tagComp p"
  "tagv (compute_indices PC p) = tagv p"
  "altBetterCount (compute_indices PC p) = altBetterCount p"
  by (simp_all add: compute_indices_def Let_def)

lemma find_banks_banks:
  "primeBank (find_banks p) \<le> NUMTAGTABLES" "altBank (find_banks p) \<le> NUMTAGTABLES"
  by (simp_all add: find_banks_def Let_def scan_banks_le)

text \<open>The guard that should send weak new entries to the alternate prediction always holds: a
  counter is different from 3 or different from 4.\<close>

lemma trust_provider_True [simp]: "trust_provider p"
  by (auto simp: trust_provider_def Let_def)

lemma choose_prediction_eq:
  "choose_prediction b p =
     (if primeBank p < NUMTAGTABLES
      then (counter_taken (sel p (primeBank p)),
            p\<lparr>altPred := (if altBank p = NUMTAGTABLES then of_bool b
                         else counter_taken (sel p (altBank p))),
              primePred := counter_taken (sel p (primeBank p))\<rparr>)
      else (of_bool b, p\<lparr>altPred := of_bool b\<rparr>))"
  by (simp add: choose_prediction_def Let_def sel_def)

lemma hit_find_banks [simp]: "hit (find_banks p) i = hit p i"
  by (simp add: hit_def sel_def find_banks_def Let_def)

section \<open>The invariant\<close>

lemma unat_ucast_and_less:
  "unat (x AND mask n) < 2 ^ n" "n \<le> 32 \<Longrightarrow> unat (ucast (y AND mask n) :: u32) < 2 ^ n"
  for x :: u32 and y :: u64
proof -
  show "unat (x AND mask n) < 2 ^ n" by (rule unat_and_mask_less)
  assume n: "n \<le> 32"
  have "unat (ucast (y AND mask n) :: u32) \<le> unat (y AND mask n)"
    by (simp add: unsigned_ucast_eq take_bit_nat_less_eq_self)
  also have "\<dots> < 2 ^ n" by (rule unat_and_mask_less)
  finally show "unat (ucast (y AND mask n) :: u32) < 2 ^ n" .
qed

lemma masks: "(511 :: u32) = mask 9" "(4095 :: u64) = mask 12"
  by (simp_all add: mask_eq_exp_minus_1)

lemma compute_tags_wf:
  assumes "tage_wf p"
  shows "tage_wf (compute_tags PC p)"
proof -
  have "length (tagv p) = 4" using assms by (simp add: tage_wf_def latches_wf_def)
  then have "tagv (compute_tags PC p) =
      map (\<lambda>i. ucast (PC XOR compHist (tagComp p ! 0 ! i)
                      XOR push_bit 1 (compHist (tagComp p ! 1 ! i))) AND mask 9) [0..<4]"
    by (simp add: compute_tags_def Let_def for_loop_fill masks numeral_2_eq_2 numeral_3_eq_3)
  then have "length (tagv (compute_tags PC p)) = 4"
    and "list_all (\<lambda>t. unat t < 2 ^ 9) (tagv (compute_tags PC p))"
    by (simp_all only: length_map list_all_iff set_map) (auto simp: unat_ucast_and_less(1) [of _ 9, simplified])
  then show ?thesis using assms
    by (simp add: tage_wf_def latches_wf_def counters_wf_def) (simp add: compute_tags_def Let_def)
qed

lemma compute_indices_wf:
  assumes "tage_wf p"
  shows "tage_wf (compute_indices PC p)"
proof -
  have "length (indexTagPred p) = 4" using assms by (simp add: tage_wf_def latches_wf_def)
  then have "length (indexTagPred (compute_indices PC p)) = 4"
    and "list_all (\<lambda>t. unat t < 2 ^ 12) (indexTagPred (compute_indices PC p))"
    using unat_ucast_and_less(2) [of 12]
    by (simp_all add: compute_indices_def Let_def for_loop_map [where f = "\<lambda>_ x. ucast (ucast x AND mask 12)"] masks)
  then show ?thesis using assms
    by (simp add: tage_wf_def latches_wf_def counters_wf_def) (simp add: compute_indices_def Let_def)
qed

lemma find_banks_wf: "tage_wf p \<Longrightarrow> tage_wf (find_banks p)"
  by (simp add: tage_wf_def latches_wf_def counters_wf_def find_banks_def Let_def scan_banks_le)

lemma choose_prediction_wf: "tage_wf p \<Longrightarrow> tage_wf (snd (choose_prediction b p))"
  by (simp add: choose_prediction_eq tage_wf_def latches_wf_def counters_wf_def)

lemma get_prediction_wf: "tage_wf p \<Longrightarrow> tage_wf (snd (get_prediction PC p))"
  by (simp add: get_prediction_def Let_def choose_prediction_wf find_banks_wf
      compute_indices_wf compute_tags_wf)

section \<open>What the prediction is\<close>

text \<open>A prediction reads the tables and the histories; it writes only the latches.\<close>

definition same_memory :: "predictor \<Rightarrow> predictor \<Rightarrow> bool" where
  "same_memory p q \<longleftrightarrow>
     ghr q = ghr p \<and> phr q = phr p \<and> bimodal q = bimodal p \<and> tagPred q = tagPred p \<and>
     indexComp q = indexComp p \<and> tagComp q = tagComp p \<and> clock q = clock p \<and>
     clock_flip q = clock_flip p \<and> altBetterCount q = altBetterCount p"

lemma choose_prediction_sel [simp]:
  "sel (snd (choose_prediction b p)) i = sel p i" "hit (snd (choose_prediction b p)) i = hit p i"
  "primeBank (snd (choose_prediction b p)) = primeBank p"
  "altBank (snd (choose_prediction b p)) = altBank p"
  by (simp_all add: choose_prediction_eq sel_def hit_def)

lemma find_banks_simps [simp]:
  "sel (find_banks p) i = sel p i" "indexTagPred (find_banks p) = indexTagPred p"
  "tagv (find_banks p) = tagv p" "tagPred (find_banks p) = tagPred p"
  by (simp_all add: sel_def find_banks_def Let_def)

lemma scan_banks_cong:
  assumes "\<And>j. hit p j = hit q j"
  shows "scan_banks p i = scan_banks q i"
  using assms
proof (induction p i rule: scan_banks.induct)
  case (1 p i)
  then show ?case by (simp add: scan_banks.simps [of p i] scan_banks.simps [of q i])
qed

lemma scan_banks_find_banks [simp]: "scan_banks (find_banks p) i = scan_banks p i"
  by (rule scan_banks_cong) simp

lemma find_banks_eq:
  "primeBank (find_banks p) = scan_banks p 0"
  "altBank (find_banks p) = scan_banks p (Suc (scan_banks p 0))"
proof -
  have c: "scan_banks (p\<lparr>primePred := x, altPred := y, altBank := b, primeBank := a\<rparr>) i = scan_banks p i"
    "scan_banks (p\<lparr>primePred := x, altPred := y, primeBank := a, altBank := b\<rparr>) i = scan_banks p i"
    for x y a b i by (rule scan_banks_cong, simp add: hit_def sel_def)+
  show "primeBank (find_banks p) = scan_banks p 0"
    "altBank (find_banks p) = scan_banks p (Suc (scan_banks p 0))"
    by (simp_all add: find_banks_def Let_def c)
qed

lemma choose_prediction_result:
  assumes "choose_prediction b r = (d, q)"
  shows "if primeBank r < NUMTAGTABLES
         then d = counter_taken (sel r (primeBank r)) \<and> primePred q = d \<and>
              altPred q = (if altBank r = NUMTAGTABLES then of_bool b else counter_taken (sel r (altBank r)))
         else d = of_bool b \<and> altPred q = d"
  using assms by (auto simp: choose_prediction_eq split: if_split_asm)

lemma find_banks_explicit:
  "find_banks p = p\<lparr>primePred := - 1, altPred := - 1, primeBank := scan_banks p 0,
                    altBank := scan_banks p (Suc (scan_banks p 0))\<rparr>"
  using find_banks_eq [of p] by (simp add: find_banks_def Let_def)

text \<open>What a prediction returns, over the state whose tags and indices are computed.\<close>

lemma get_prediction_banks:
  assumes "get_prediction PC p = (d, q)"
  defines "r \<equiv> find_banks (compute_indices PC (compute_tags PC p))"
  shows "choose_prediction (base_prediction PC p) r = (d, q)"
    and "primeBank q = scan_banks q 0" and "altBank q = scan_banks q (Suc (primeBank q))"
    and "primeBank r = primeBank q" and "altBank r = altBank q"
    and "sel r i = sel q i"
proof -
  show c: "choose_prediction (base_prediction PC p) r = (d, q)"
    using assms by (simp add: get_prediction_def Let_def)
  have h: "hit q j = hit r j" for j
    using choose_prediction_sel(2) [of "base_prediction PC p" r j] c by simp
  have sc: "scan_banks r j = scan_banks q j" for j
    by (rule scan_banks_cong) (simp add: h)
  show p: "primeBank r = primeBank q" and a: "altBank r = altBank q" and "sel r i = sel q i"
    using c choose_prediction_sel(1) [of "base_prediction PC p" r i]
      choose_prediction_sel(3,4) [of "base_prediction PC p" r] by simp_all
  show pq: "primeBank q = scan_banks q 0"
    using p sc by (simp add: r_def find_banks_eq)
  show "altBank q = scan_banks q (Suc (primeBank q))"
    using a p pq sc by (simp add: r_def find_banks_eq)
qed

text \<open>Two predictions of the freshly initialised predictor, computed: the branch at 5 has no entry
  and takes the bimodal counter; the tag of the branch at 0 is 0, which every blank entry carries,
  so it is predicted by bank 0, whose counter says not taken.\<close>

lemmas get_prediction_eval = get_prediction_def Let_def choose_prediction_eq find_banks_eq
  scan_banks.simps hit_def sel_def compute_tags_def compute_indices_def tage0_fields loop_simps
  base_prediction_def bimodal_index_def counter_taken_def

lemma predict_5_tage0:
  "fst (get_prediction 5 tage0) = 1" "primeBank (snd (get_prediction 5 tage0)) = 4"
  "indexTagPred (snd (get_prediction 5 tage0)) = [5, 5, 5, 5]"
  "tagv (snd (get_prediction 5 tage0)) = [5, 5, 5, 5]"
  by (simp_all add: get_prediction_eval)

lemma predict_0_tage0:
  "fst (get_prediction 0 tage0) = 0" "primeBank (snd (get_prediction 0 tage0)) = 0"
  "altBank (snd (get_prediction 0 tage0)) = 1"
  by (simp_all add: get_prediction_eval)

text \<open>C1: the bank that provides the prediction is the first, that is the one with the longest
  history, whose selected entry carries the branch's tag; its counter decides. When no bank hits,
  the bimodal table decides.\<close>

theorem get_prediction_provider:
  assumes "get_prediction PC p = (d, q)"
  shows "(\<forall>j < primeBank q. \<not> hit q j) \<and>
    (if primeBank q < NUMTAGTABLES
     then hit q (primeBank q) \<and> d = counter_taken (sel q (primeBank q)) \<and> primePred q = d
     else d = of_bool (base_prediction PC p) \<and> altPred q = d)"
proof -
  note b = get_prediction_banks [OF assms]
  have "\<forall>j < primeBank q. \<not> hit q j" using b(2) scan_banks_least [of 0] by simp
  moreover have "primeBank q < NUMTAGTABLES \<Longrightarrow> hit q (primeBank q)"
    using b(2) scan_banks_hit [of q 0] by simp
  ultimately show ?thesis using choose_prediction_result [OF b(1)] b(4,6) by simp
qed

theorem get_prediction_provider_witness:
  "\<not> hit (snd (get_prediction 5 tage0)) 0 \<and> base_prediction 5 tage0"
  using get_prediction_provider [OF prod.collapse [symmetric], of 5 tage0]
  by (simp add: predict_5_tage0)

text \<open>C20: the alternate prediction that the update compares against is the prediction of the next
  hitting bank after the provider, or the base prediction when there is none.\<close>

theorem get_prediction_alternate:
  assumes "get_prediction PC p = (d, q)" and "primeBank q < NUMTAGTABLES"
  shows "(\<forall>j. primeBank q < j \<and> j < altBank q \<longrightarrow> \<not> hit q j) \<and>
    (if altBank q < NUMTAGTABLES then primeBank q < altBank q \<and> hit q (altBank q) \<and>
        altPred q = counter_taken (sel q (altBank q))
     else altPred q = of_bool (base_prediction PC p))"
proof -
  note b = get_prediction_banks [OF assms(1)]
  have "\<forall>j. primeBank q < j \<and> j < altBank q \<longrightarrow> \<not> hit q j"
    using b(3) scan_banks_least [of "Suc (primeBank q)" _ q] by auto
  moreover have "altBank q < NUMTAGTABLES \<Longrightarrow> hit q (altBank q)"
    using b(3) scan_banks_hit [of q "Suc (primeBank q)"] by simp
  moreover have "primeBank q < altBank q" "altBank q \<le> NUMTAGTABLES"
    using b(3) assms(2) scan_banks_ge [of "Suc (primeBank q)" q] scan_banks_le [of q] by simp_all
  ultimately show ?thesis using choose_prediction_result [OF b(1)] b(4,5,6) assms(2) by simp
qed

theorem get_prediction_alternate_witness:
  "hit (snd (get_prediction 0 tage0)) 1 \<and>
   altPred (snd (get_prediction 0 tage0)) = counter_taken (sel (snd (get_prediction 0 tage0)) 1)"
  using get_prediction_alternate [OF prod.collapse [symmetric], of 0 tage0]
  by (simp add: predict_0_tage0)

text \<open>The counter \<open>altBetterCount\<close>, which the update maintains so that the prediction can prefer the
  alternate prediction of weak new entries, has no influence on any prediction.\<close>

theorem get_prediction_ignores_altBetterCount:
  "get_prediction PC (p\<lparr>altBetterCount := x\<rparr>) =
     (fst (get_prediction PC p), (snd (get_prediction PC p))\<lparr>altBetterCount := x\<rparr>)"
proof -
  have t: "compute_tags PC (p\<lparr>altBetterCount := x\<rparr>) = (compute_tags PC p)\<lparr>altBetterCount := x\<rparr>" for p
    by (simp add: compute_tags_def Let_def)
  have i: "compute_indices PC (p\<lparr>altBetterCount := x\<rparr>) = (compute_indices PC p)\<lparr>altBetterCount := x\<rparr>" for p
    by (simp add: compute_indices_def Let_def)
  have sc: "scan_banks (p\<lparr>altBetterCount := x\<rparr>) j = scan_banks p j" for p j
    by (rule scan_banks_cong) (simp add: hit_def sel_def)
  have f: "find_banks (p\<lparr>altBetterCount := x\<rparr>) = (find_banks p)\<lparr>altBetterCount := x\<rparr>" for p
    by (simp add: find_banks_explicit sc)
  have c: "choose_prediction b (p\<lparr>altBetterCount := x\<rparr>) =
      (fst (choose_prediction b p), (snd (choose_prediction b p))\<lparr>altBetterCount := x\<rparr>)" for b p
    by (simp add: choose_prediction_eq sel_def)
  show ?thesis
    by (simp add: get_prediction_def Let_def t i f c) (simp add: base_prediction_def bimodal_index_def)
qed

text \<open>Predicting trains nothing: the tables, the bimodal counters, the histories and the clock are
  those of before, and every latch the update will read is in range.\<close>

theorem get_prediction_frame:
  assumes "tage_wf p"
  shows "same_memory p (snd (get_prediction PC p)) \<and> tage_wf (snd (get_prediction PC p)) \<and>
    fst (get_prediction PC p) \<in> {0, 1}"
proof -
  have "same_memory p (snd (get_prediction PC p))"
    by (simp add: same_memory_def get_prediction_def Let_def choose_prediction_eq)
      (simp add: find_banks_def compute_indices_def compute_tags_def Let_def)
  moreover have "fst (get_prediction PC p) \<in> {0, 1}"
    by (simp add: get_prediction_def Let_def choose_prediction_eq counter_taken_def)
  ultimately show ?thesis using get_prediction_wf [OF assms] by simp
qed

theorem get_prediction_frame_witness: "tage_wf (snd (get_prediction 5 tage0))"
  using get_prediction_frame [OF tage0_wf, of 5] by simp

end
