(* ===== verification/TageHistory.thy ===== *)
theory TageHistory
  imports TageState
begin

text \<open>
  The compressed histories (\<open>compute_history\<close> of \<open>common_var.h\<close>). The reference is the folded
  history: the exclusive or of the \<open>L\<close> most recent outcomes, outcome \<open>i\<close> at bit \<open>i mod T\<close>. The code
  keeps it incrementally; \<open>history_step_folds\<close> is the correctness of that optimisation.
\<close>

unbundle bit_operations_syntax

section \<open>The code\<close>

text \<open>The masks are of type \<open>int\<close> and are converted to \<open>uint64_t\<close> where they meet the history.\<close>

definition history_step :: "u8 list \<Rightarrow> CompressedHist \<Rightarrow> CompressedHist" where
  "history_step g c =
     (let m = push_bit (unat (targetLength c)) 1 - 1 :: u32;
          mask1 = push_bit (unat (geomLength c mod targetLength c)) (ucast (g ! unat (geomLength c))) :: u32;
          mask2 = push_bit (unat (targetLength c)) 1 :: u32;
          h = push_bit 1 (compHist c) + ucast (g ! 0);
          h = h XOR drop_bit (unat (targetLength c)) (h AND scast mask2);
          h = h XOR scast mask1
      in c\<lparr>compHist := h AND scast m\<rparr>)"

definition compute_history :: "predictor \<Rightarrow> nat \<Rightarrow> nat \<Rightarrow> predictor" where
  "compute_history p row col =
     (if col = NUMTAGTABLES + 1
      then p\<lparr>indexComp := (indexComp p)[row := history_step (ghr p) (indexComp p ! row)]\<rparr>
      else p\<lparr>tagComp := (tagComp p)
               [row := (tagComp p ! row)[col := history_step (ghr p) (tagComp p ! row ! col)]]\<rparr>)"

section \<open>The folded history\<close>

fun folded :: "nat \<Rightarrow> (nat \<Rightarrow> bool) \<Rightarrow> nat \<Rightarrow> u64" where
  "folded T h 0 = 0"
| "folded T h (Suc i) = folded T h i XOR push_bit (i mod T) (of_bool (h i))"

definition rotate_in :: "nat \<Rightarrow> u64 \<Rightarrow> u64" where
  "rotate_in T x = (push_bit 1 x XOR drop_bit T (push_bit 1 x AND push_bit T 1)) AND mask T"

lemma bit_folded: "bit (folded T h L) n \<Longrightarrow> 0 < T \<Longrightarrow> n < T"
  by (induction L) (auto simp: bit_simps split: if_splits)

lemma rotate_in_xor: "rotate_in T (x XOR y) = rotate_in T x XOR rotate_in T y"
  by (rule bit_word_eqI) (auto simp: rotate_in_def bit_simps)

lemma rotate_in_push:
  assumes "0 < T" "T < 64"
  shows "rotate_in T (push_bit (i mod T) (of_bool b)) = push_bit (Suc i mod T) (of_bool b)"
proof -
  have i: "i mod T < T" "Suc (i mod T) \<noteq> T \<Longrightarrow> Suc (i mod T) < T"
    using assms by (simp_all add: Suc_lessI)
  have s: "Suc i mod T = (if Suc (i mod T) = T then 0 else Suc (i mod T))"
    using assms(1) by (simp add: mod_Suc)
  show ?thesis
    by (rule bit_word_eqI) (use i assms in \<open>auto simp: s rotate_in_def bit_simps\<close>)
qed

lemma rotate_in_folded:
  assumes "0 < T" "T < 64"
  shows "folded T (case_nat b h) (Suc L) = rotate_in T (folded T h L) XOR of_bool b"
proof (induction L)
  case 0
  then show ?case by (simp add: rotate_in_def)
next
  case (Suc L)
  have "folded T (case_nat b h) (Suc (Suc L)) =
      (rotate_in T (folded T h L) XOR of_bool b) XOR push_bit (Suc L mod T) (of_bool (h L))"
    by (simp only: folded.simps(2) [of T "case_nat b h" "Suc L"] Suc nat.case)
  also have "\<dots> = rotate_in T (folded T h (Suc L)) XOR of_bool b"
    by (simp only: folded.simps rotate_in_xor rotate_in_push [OF assms] ac_simps)
  finally show ?case .
qed

text \<open>The recurrence: shift in the new outcome, fold the top bit, and cancel the outcome that
  leaves the window, which after the shift is at position \<open>L\<close>.\<close>

lemma folded_recurrence:
  assumes "0 < T" "T < 64"
  shows "folded T (case_nat b h) L =
    rotate_in T (folded T h L) XOR of_bool b XOR push_bit (L mod T) (of_bool (case_nat b h L))"
proof -
  have "folded T (case_nat b h) L XOR push_bit (L mod T) (of_bool (case_nat b h L)) =
      rotate_in T (folded T h L) XOR of_bool b"
    using rotate_in_folded [OF assms, of b h L] by simp
  from xor_swap [OF this] show ?thesis by (simp only: xor.assoc)
qed

section \<open>The step computes the recurrence\<close>

lemma int_masks:
  assumes "T < 31"
  shows "scast (push_bit T 1 :: u32) = (push_bit T 1 :: u64)"
    and "scast (push_bit T 1 - 1 :: u32) = (mask T :: u64)"
    and "n < 31 \<Longrightarrow> scast (push_bit n (of_bool b) :: u32) = (push_bit n (of_bool b) :: u64)"
proof -
  show "scast (push_bit T 1 :: u32) = (push_bit T 1 :: u64)"
    by (rule bit_word_eqI) (use assms in \<open>auto simp: bit_simps min_def\<close>)
  have "push_bit T 1 - 1 = (mask T :: u32)" by (simp add: mask_eq_exp_minus_1)
  moreover have "scast (mask T :: u32) = (mask T :: u64)"
    by (rule bit_word_eqI) (use assms in \<open>auto simp: bit_simps min_def\<close>)
  ultimately show "scast (push_bit T 1 - 1 :: u32) = (mask T :: u64)" by simp
  assume "n < 31"
  then show "scast (push_bit n (of_bool b) :: u32) = (push_bit n (of_bool b) :: u64)"
    by (intro bit_word_eqI) (auto simp: bit_simps min_def)
qed

lemma double_plus_bit: "push_bit 1 x + of_bool b = push_bit 1 x XOR (of_bool b :: u64)"
  by (cases b) (simp_all add: xor_one_eq)

lemma history_step_value:
  assumes T: "unat (targetLength c) = T" "0 < T" "T < 31" and L: "unat (geomLength c) = L"
    and g0: "g ! 0 = of_bool b" and gL: "g ! L = of_bool d"
  shows "compHist (history_step g c) =
    (rotate_in T (compHist c) XOR of_bool b XOR push_bit (L mod T) (of_bool d)) AND mask T"
proof -
  have m: "unat (geomLength c mod targetLength c) = L mod T" using T L by (simp add: unat_mod_distrib)
  have lm: "L mod T < 31" using T by (meson mod_less_divisor order.strict_trans)
  have c1: "ucast (of_bool b :: u8) = (of_bool b :: u64)" "ucast (of_bool d :: u8) = (of_bool d :: u32)"
    by simp_all
  have "compHist (history_step g c) =
      ((push_bit 1 (compHist c) XOR of_bool b) XOR
        drop_bit T ((push_bit 1 (compHist c) XOR of_bool b) AND push_bit T 1) XOR
        push_bit (L mod T) (of_bool d)) AND mask T"
    unfolding history_step_def Let_def T(1) L m g0 gL c1 int_masks [OF T(3)]
      int_masks(3) [OF T(3) lm] double_plus_bit by (simp add: xor.assoc)
  also have "drop_bit T ((push_bit 1 (compHist c) XOR of_bool b) AND push_bit T 1) =
      drop_bit T (push_bit 1 (compHist c) AND push_bit T (1 :: u64))"
    by (rule bit_word_eqI) (use T in \<open>auto simp: bit_simps\<close>)
  also have "((push_bit 1 (compHist c) XOR of_bool b) XOR
        drop_bit T (push_bit 1 (compHist c) AND push_bit T 1) XOR push_bit (L mod T) (of_bool d)) AND mask T =
      (rotate_in T (compHist c) XOR of_bool b XOR push_bit (L mod T) (of_bool d)) AND mask T"
    by (rule bit_word_eqI) (auto simp: rotate_in_def bit_simps)
  finally show ?thesis .
qed

lemma history_step_simps [simp]:
  "geomLength (history_step g c) = geomLength c" "targetLength (history_step g c) = targetLength c"
  by (simp_all add: history_step_def Let_def)

lemma history_step_wf:
  assumes "hist_wf L T c" and "T < 31"
  shows "hist_wf L T (history_step g c)"
proof -
  have "compHist (history_step g c) =
      compHist (history_step g c) AND mask (unat (targetLength c))"
    using assms int_masks(2) [of "unat (targetLength c)"]
    by (simp add: history_step_def Let_def hist_wf_def)
  then have "unat (compHist (history_step g c)) < 2 ^ unat (targetLength c)"
    using unat_and_mask_less by metis
  then show ?thesis using assms by (simp add: hist_wf_def)
qed

text \<open>C3: one step of the incremental code turns the folded history of the outcomes before a branch
  into the folded history of the outcomes after it, provided the global history register holds
  the outcomes, the newest first.\<close>

theorem history_step_folds:
  assumes "unat (targetLength c) = T" and "unat (geomLength c) = L" and "0 < T" and "T < 31"
    and "compHist c = folded T h L"
    and "\<And>i. i \<le> L \<Longrightarrow> g ! i = of_bool (case_nat b h i)"
  shows "compHist (history_step g c) = folded T (case_nat b h) L"
proof -
  have g: "g ! 0 = of_bool b" "g ! L = of_bool (case_nat b h L)"
    using assms(6) [of 0] assms(6) [of L] by simp_all
  have "compHist (history_step g c) = folded T (case_nat b h) L AND mask T"
    unfolding history_step_value [OF assms(1,3,4,2) g] assms(5)
    using folded_recurrence [of T b h L] assms(3,4) by simp
  also have "\<dots> = folded T (case_nat b h) L"
    by (rule bit_word_eqI) (use bit_folded [OF _ assms(3)] in \<open>auto simp: bit_simps\<close>)
  finally show ?thesis .
qed

theorem history_step_folds_witness:
  "compHist (history_step [1, 0, 1, 1] \<lparr>geomLength = 3, targetLength = 2, compHist = folded 2 (\<lambda>i. i \<noteq> 0) 3\<rparr>)
     = folded 2 (case_nat True (\<lambda>i. i \<noteq> 0)) 3"
proof (rule history_step_folds)
  fix i :: nat
  assume "i \<le> 3"
  then show "[1, 0, 1, 1] ! i = (of_bool (case_nat True (\<lambda>i. i \<noteq> 0) i) :: u8)"
    using less_4_cases [of i] by (auto simp: numeral_2_eq_2 numeral_3_eq_3)
qed simp_all

end
