(* ===== verification/TageUpdate.thy ===== *)
theory TageUpdate
  imports TagePredict TageHistory
begin

text \<open>
  \<open>update_predictor\<close> (\<open>update_predictor.h\<close>), part by part in the order of the code: the useful bit
  and the counter of the provider, or the bimodal counter; the check for a new entry; the
  allocation after a misprediction; the periodic reset of the useful bits; the histories.

  \<open>rand() % 100\<close> is the parameter \<open>randNo\<close>. Two stores of the code go past the end of an array and
  are modelled as what they are: \<open>ghr[131]\<close> is the padding byte \<open>ghr_pad\<close>, and \<open>bank_store[3]\<close> is
  the memory cell after the local array \<open>bank_store\<close> of three elements, the third component of the
  state of the scan (its first content is the parameter \<open>junk\<close>).
\<close>

unbundle bit_operations_syntax

section \<open>The code\<close>

definition SatIncrement :: "u64 \<Rightarrow> u64 \<Rightarrow> u64" where
  "SatIncrement usefulBits max_val = (if max_val \<le> usefulBits then max_val else usefulBits + 1)"

definition SatDecrement :: "u64 \<Rightarrow> u64" where
  "SatDecrement usefulBits = (if usefulBits = 0 then 0 else usefulBits - 1)"

text \<open>The arguments are \<open>int32_t\<close> fields, so the conversion to \<open>uint64_t\<close> extends the sign.\<close>

definition inc32 :: "u32 \<Rightarrow> u64 \<Rightarrow> u32" where
  "inc32 x m = ucast (SatIncrement (scast x) m)"

definition dec32 :: "u32 \<Rightarrow> u32" where
  "dec32 x = ucast (SatDecrement (scast x))"

definition update_useful :: "u64 \<Rightarrow> u64 \<Rightarrow> predictor \<Rightarrow> predictor" where
  "update_useful resolveDir predDir p =
     (if predDir \<noteq> altPred p
      then if predDir = resolveDir
           then upd_sel (primeBank p) (\<lambda>c. c\<lparr>cu := inc32 (cu c) BIMODAL_CTR_MAX\<rparr>) p
           else upd_sel (primeBank p) (\<lambda>c. c\<lparr>cu := dec32 (cu c)\<rparr>) p
      else p)"

definition update_provider :: "u64 \<Rightarrow> predictor \<Rightarrow> predictor" where
  "update_provider resolveDir p =
     (if resolveDir \<noteq> 0
      then upd_sel (primeBank p) (\<lambda>c. c\<lparr>cpred := inc32 (cpred c) TAGPRED_CTR_MAX\<rparr>) p
      else upd_sel (primeBank p) (\<lambda>c. c\<lparr>cpred := dec32 (cpred c)\<rparr>) p)"

definition update_base :: "u64 \<Rightarrow> u64 \<Rightarrow> predictor \<Rightarrow> predictor" where
  "update_base PC resolveDir p =
     (let bimodalIndex = unat (bimodal_index PC p); ctr = ucast (bimodal p ! bimodalIndex) :: u64
      in if resolveDir \<noteq> 0
         then p\<lparr>bimodal := (bimodal p)[bimodalIndex := ucast (SatIncrement ctr BIMODAL_CTR_MAX)]\<rparr>
         else p\<lparr>bimodal := (bimodal p)[bimodalIndex := ucast (SatDecrement ctr)]\<rparr>)"

definition update_counters :: "u64 \<Rightarrow> u64 \<Rightarrow> u64 \<Rightarrow> predictor \<Rightarrow> predictor" where
  "update_counters PC resolveDir predDir p =
     (if primeBank p < NUMTAGTABLES
      then update_provider resolveDir (update_useful resolveDir predDir p)
      else update_base PC resolveDir p)"

text \<open>The check for a new entry, with the maintenance of \<open>altBetterCount\<close>.\<close>

definition check_new_entry :: "u64 \<Rightarrow> predictor \<Rightarrow> bool \<times> predictor" where
  "check_new_entry resolveDir p =
     (if primeBank p < NUMTAGTABLES \<and> cu (sel p (primeBank p)) = 0 \<and>
         (cpred (sel p (primeBank p)) = 3 \<or> cpred (sel p (primeBank p)) = 4)
      then (True,
            if primePred p \<noteq> altPred p
            then if altPred p = resolveDir
                 then if altBetterCount p < 15 then p\<lparr>altBetterCount := altBetterCount p + 1\<rparr> else p
                 else if altBetterCount p > 0 then p\<lparr>altBetterCount := altBetterCount p - 1\<rparr> else p
            else p)
      else (False, p))"

text \<open>The first loop of the allocation. Its \<open>if\<close> has an empty body (a semicolon follows the
  condition), so the assignment below it runs in every iteration.\<close>

definition strong_old_present :: "predictor \<Rightarrow> nat" where
  "strong_old_present p = for_loop 0 (primeBank p) (\<lambda>i s. 1) 0"

fun decrement_useful :: "nat \<Rightarrow> predictor \<Rightarrow> predictor" where
  "decrement_useful 0 p = p"
| "decrement_useful (Suc i) p = decrement_useful i (upd_sel i (\<lambda>c. c\<lparr>cu := cu c - 1\<rparr>) p)"

text \<open>\<open>bank_store[i] = i; count++\<close>: three cells and the one after them.\<close>

definition store_bank :: "nat \<Rightarrow> nat \<times> int list \<times> int \<Rightarrow> nat \<times> int list \<times> int" where
  "store_bank i st =
     (case st of (count, bank_store, beyond) \<Rightarrow>
        if i < 3 then (count + 1, bank_store[i := int i], beyond)
        else (count + 1, bank_store, int i))"

definition read_bank :: "nat \<Rightarrow> nat \<times> int list \<times> int \<Rightarrow> int" where
  "read_bank k st = (case st of (count, bank_store, beyond) \<Rightarrow> if k < 3 then bank_store ! k else beyond)"

definition scan_useless :: "int \<Rightarrow> predictor \<Rightarrow> nat \<times> int list \<times> int" where
  "scan_useless junk p =
     for_loop 0 (primeBank p) (\<lambda>i st. if cu (sel p i) = 0 then store_bank i st else st)
       (0, [- 1, - 1, - 1], junk)"

definition choose_bank :: "nat \<Rightarrow> nat \<times> int list \<times> int \<Rightarrow> int" where
  "choose_bank randNo st =
     (if fst st = 1 then read_bank 0 st
      else if fst st > 1
      then if randNo > 33 \<and> randNo \<le> 99 then read_bank (fst st - 1) st else read_bank (fst st - 2) st
      else 0)"

text \<open>\<open>for (i = matchBank; i > -1; i--)\<close> with its \<open>break\<close>; the first argument is \<open>i + 1\<close>.\<close>

fun allocate_down :: "nat \<Rightarrow> u64 \<Rightarrow> predictor \<Rightarrow> predictor" where
  "allocate_down 0 resolveDir p = p"
| "allocate_down (Suc i) resolveDir p =
     (if cu (sel p i) = 0
      then upd_sel i (\<lambda>c. c\<lparr>cpred := (if resolveDir \<noteq> 0 then 4 else 3), ctag := tagv p ! i, cu := 0\<rparr>) p
      else allocate_down i resolveDir p)"

definition allocate :: "nat \<Rightarrow> int \<Rightarrow> u64 \<Rightarrow> u64 \<Rightarrow> bool \<Rightarrow> predictor \<Rightarrow> predictor" where
  "allocate randNo junk resolveDir predDir new_entry p =
     (if \<not> new_entry \<or> (new_entry \<and> primePred p \<noteq> resolveDir)
      then if predDir \<noteq> resolveDir \<and> 0 < primeBank p
           then if strong_old_present p = 0 then decrement_useful (primeBank p) p
                else allocate_down (nat (choose_bank randNo (scan_useless junk p) + 1)) resolveDir p
           else p
      else p)"

definition reset_useful :: "u32 \<Rightarrow> predictor \<Rightarrow> predictor" where
  "reset_useful m p =
     p\<lparr>tagPred := for_loop 0 NUMTAGTABLES
        (\<lambda>jj t. t[jj := for_loop 0 (unat (numberTagEntries p))
                   (\<lambda>ii blk. blk[ii := (blk ! ii)\<lparr>cu := cu (blk ! ii) AND m\<rparr>]) (t ! jj)]) (tagPred p)\<rparr>"

definition tick :: "predictor \<Rightarrow> predictor" where
  "tick p =
     (let p = p\<lparr>clock := clock p + 1\<rparr>
      in if clock p = 256 * 1024
         then let p = p\<lparr>clock := 0\<rparr>;
                  p = p\<lparr>clock_flip := (if clock_flip p = 1 then 0 else 1)\<rparr>
              in if clock_flip p = 1 then reset_useful 1 p else reset_useful 2 p
         else p)"

definition shift_ghr :: "u64 \<Rightarrow> predictor \<Rightarrow> predictor" where
  "shift_ghr resolveDir p =
     (let (g, pad) = for_loop 0 GHRLNGTH
            (\<lambda>kk (g, pad). if kk + 1 < GHRLNGTH then (g[kk + 1 := g ! kk], pad) else (g, g ! kk))
            (ghr p, ghr_pad p);
          g = g[0 := 0];
          g = (if resolveDir = 1 then g[0 := 1] else g)
      in p\<lparr>ghr := g, ghr_pad := pad\<rparr>)"

definition update_histories :: "predictor \<Rightarrow> predictor" where
  "update_histories p =
     for_loop 0 NUMTAGTABLES
       (\<lambda>i p. compute_history (compute_history (compute_history p i (NUMTAGTABLES + 1)) 0 i) 1 i) p"

definition update_phr :: "u64 \<Rightarrow> predictor \<Rightarrow> predictor" where
  "update_phr PC p =
     (let p = p\<lparr>phr := push_bit 1 (phr p)\<rparr>;
          p = (if PC AND 1 \<noteq> 0 then p\<lparr>phr := phr p + 1\<rparr> else p)
      in p\<lparr>phr := phr p AND (2 ^ 16 - 1)\<rparr>)"

definition update_predictor ::
  "nat \<Rightarrow> int \<Rightarrow> u64 \<Rightarrow> u64 \<Rightarrow> u64 \<Rightarrow> u64 \<Rightarrow> predictor \<Rightarrow> predictor" where
  "update_predictor randNo junk PC resolveDir predDir branchTarget p =
     (let p = update_counters PC resolveDir predDir p;
          (new_entry, p) = check_new_entry resolveDir p;
          p = allocate randNo junk resolveDir predDir new_entry p;
          p = tick p;
          p = shift_ghr resolveDir p;
          p = update_histories p
      in update_phr PC p)"

section \<open>Saturating counters\<close>

lemma small_u32_cases: "unat x \<le> 7 \<Longrightarrow> x = 0 \<or> x = 1 \<or> x = 2 \<or> x = 3 \<or> x = 4 \<or> x = 5 \<or> x = 6 \<or> x = 7"
  for x :: u32
proof -
  assume "unat x \<le> 7"
  then have "unat x \<in> {0, 1, 2, 3, 4, 5, 6, 7}" by auto
  then have "x \<in> of_nat ` {0, 1, 2, 3, 4, 5, 6, 7}" by (rule image_eqI [rotated]) simp
  then show ?thesis by auto
qed

lemma inc32_unat:
  "unat x \<le> 7 \<Longrightarrow> unat (inc32 x 7) = min 7 (unat x + 1)"
  "unat x \<le> 3 \<Longrightarrow> unat (inc32 x 3) = min 3 (unat x + 1)"
  using small_u32_cases [of x] by (auto simp: inc32_def SatIncrement_def word_le_nat_alt)

lemma dec32_unat: "unat x \<le> 7 \<Longrightarrow> unat (dec32 x) = unat x - 1"
  using small_u32_cases [of x] by (auto simp: dec32_def SatDecrement_def)

lemma base_counter_unat:
  "unat x \<le> 3 \<Longrightarrow> unat (ucast (SatIncrement (ucast x) 3) :: u32) = min 3 (unat x + 1)"
  "unat x \<le> 3 \<Longrightarrow> unat (ucast (SatDecrement (ucast x)) :: u32) = unat x - 1" for x :: u32
  using small_u32_cases [of x] by (auto simp: SatIncrement_def SatDecrement_def word_le_nat_alt)

section \<open>Every part keeps the invariant\<close>

lemma update_useful_wf:
  assumes "tage_wf p" and "primeBank p < NUMTAGTABLES"
  shows "tage_wf (update_useful resolveDir predDir p)"
  using assms sel_in_range(3) [OF assms]
  by (auto simp: update_useful_def component_wf_def inc32_unat dec32_unat intro!: upd_sel_wf)

lemma update_provider_wf:
  assumes "tage_wf p" and "primeBank p < NUMTAGTABLES"
  shows "tage_wf (update_provider resolveDir p)"
  using assms sel_in_range(3) [OF assms]
  by (auto simp: update_provider_def component_wf_def inc32_unat dec32_unat intro!: upd_sel_wf)

lemma bimodal_index_less:
  assumes "tage_wf p"
  shows "unat (bimodal_index PC p) < 2 ^ BIMODALLOG" and "unat (bimodal_index PC p) < length (bimodal p)"
  using assms by (simp_all add: bimodal_index_def tage_wf_def bimodal_wf_def unat_mod_distrib)

lemma update_base_wf:
  assumes "tage_wf p"
  shows "tage_wf (update_base PC resolveDir p)"
proof -
  have b: "bimodal_wf (bimodal p)" using assms by (simp add: tage_wf_def)
  then have "unat (bimodal p ! unat (bimodal_index PC p)) \<le> 3"
    using bimodal_index_less [OF assms] by (simp add: bimodal_wf_def list_all_length)
  then have "bimodal_wf (bimodal (update_base PC resolveDir p))"
    using b by (auto simp: bimodal_wf_def update_base_def Let_def base_counter_unat intro!: list_all_update)
  then show ?thesis using assms
    by (auto simp: tage_wf_def latches_wf_def counters_wf_def update_base_def Let_def)
qed

lemma update_useful_simps [simp]:
  "primeBank (update_useful r d p) = primeBank p" "altPred (update_useful r d p) = altPred p"
  by (simp_all add: update_useful_def)

lemma update_counters_wf:
  "tage_wf p \<Longrightarrow> tage_wf (update_counters PC resolveDir predDir p)"
  by (simp add: update_counters_def update_provider_wf update_useful_wf update_base_wf)

lemma check_new_entry_wf:
  assumes "tage_wf p"
  shows "tage_wf (snd (check_new_entry resolveDir p))"
proof -
  have a: "unat (altBetterCount p) \<le> 15" using assms by (simp add: tage_wf_def counters_wf_def)
  have i: "altBetterCount p < 15 \<Longrightarrow> unat (altBetterCount p + 1) \<le> 15"
    by (simp add: unat_word_ariths word_less_nat_alt)
  have d: "altBetterCount p > 0 \<Longrightarrow> unat (altBetterCount p - 1) \<le> 15"
    using a by (metis diff_le_self le_trans unat_minus_one word_neq_0_conv)
  show ?thesis using assms i d
    by (auto simp: check_new_entry_def tage_wf_def latches_wf_def counters_wf_def)
qed

lemma allocate_down_wf:
  assumes "tage_wf p" and "n \<le> NUMTAGTABLES"
  shows "tage_wf (allocate_down n resolveDir p)"
  using assms
proof (induction n)
  case 0
  then show ?case by simp
next
  case (Suc i)
  have "unat (tagv p ! i) < 2 ^ 9"
    using Suc.prems by (auto simp: tage_wf_def latches_wf_def list_all_length)
  then show ?case using Suc
    by (auto simp: component_wf_def intro!: upd_sel_wf)
qed

section \<open>The choice of the bank to allocate in\<close>

definition useless :: "predictor \<Rightarrow> nat \<Rightarrow> bool" where
  "useless p i \<longleftrightarrow> cu (sel p i) = 0"

text \<open>What the scan leaves: the number of useless entries below the provider, and in each cell its
  own index when that bank is useless.\<close>

lemma scan_useless_value:
  assumes "primeBank p \<le> NUMTAGTABLES"
  shows "scan_useless junk p =
    (length (filter (useless p) [0..<primeBank p]),
     map (\<lambda>k. if k < primeBank p \<and> useless p k then int k else - 1) [0, 1, 2],
     if 3 < primeBank p \<and> useless p 3 then 3 else junk)"
proof -
  have "primeBank p = 0 \<or> primeBank p = 1 \<or> primeBank p = 2 \<or> primeBank p = 3 \<or> primeBank p = 4"
    using assms by auto
  then show ?thesis
    by (elim disjE) (simp_all add: scan_useless_def for_loop_step store_bank_def useless_def upt_rec
        eval_nat_numeral)
qed

lemma choose_bank_range:
  fixes randNo :: nat and junk :: int
  assumes "0 < primeBank p" and "primeBank p \<le> NUMTAGTABLES"
  defines "c \<equiv> choose_bank randNo (scan_useless junk p)"
  shows "c = - 1 \<or> (0 \<le> c \<and> c < int (primeBank p))"
proof -
  have "length (filter (useless p) [0..<primeBank p]) \<le> primeBank p"
    by (metis length_filter_le length_upt minus_nat.diff_0)
  moreover have "primeBank p = 1 \<or> primeBank p = 2 \<or> primeBank p = 3 \<or> primeBank p = 4"
    using assms(1,2) by auto
  ultimately show ?thesis
    unfolding c_def scan_useless_value [OF assms(2)]
    by (elim disjE) (auto simp: choose_bank_def read_bank_def upt_rec eval_nat_numeral)
qed

lemma choose_bank_stop:
  assumes "0 < primeBank p" and "primeBank p \<le> NUMTAGTABLES"
  shows "nat (choose_bank randNo (scan_useless junk p) + 1) \<le> primeBank p"
  using choose_bank_range [OF assms, of randNo junk] by auto

text \<open>The branch that would age the entries when none is useless is never taken.\<close>

lemma strong_old_present_eq: "0 < primeBank p \<Longrightarrow> strong_old_present p = 1"
  unfolding strong_old_present_def
  by (cases "primeBank p") (simp_all add: for_loop_last)

lemma allocate_eq:
  "allocate randNo junk resolveDir predDir new_entry p =
     (if (new_entry \<longrightarrow> primePred p \<noteq> resolveDir) \<and> predDir \<noteq> resolveDir \<and> 0 < primeBank p
      then allocate_down (nat (choose_bank randNo (scan_useless junk p) + 1)) resolveDir p else p)"
  by (auto simp: allocate_def strong_old_present_eq)

lemma allocate_wf:
  assumes "tage_wf p"
  shows "tage_wf (allocate randNo junk resolveDir predDir new_entry p)"
proof -
  have "primeBank p \<le> NUMTAGTABLES" using assms by (simp add: tage_wf_def latches_wf_def)
  then show ?thesis
    using assms choose_bank_stop [of p randNo junk]
    by (auto simp: allocate_eq intro!: allocate_down_wf)
qed

section \<open>The clock, the histories\<close>

lemma reset_useful_array:
  assumes "tage_wf p"
  shows "tagPred (reset_useful m p) = map (map (\<lambda>c. c\<lparr>cu := cu c AND m\<rparr>)) (tagPred p)"
proof -
  let ?row = "\<lambda>jj t. for_loop 0 4096 (\<lambda>ii blk. blk[ii := (blk ! ii)\<lparr>cu := cu (blk ! ii) AND m\<rparr>]) t"
  have n: "unat (numberTagEntries p) = 4096" "length (tagPred p) = 4"
    and l: "\<And>t. t \<in> set (tagPred p) \<Longrightarrow> length t = 4096"
    using assms by (auto simp: tage_wf_def tables_wf_def list_all_iff)
  have row: "?row jj t = map (\<lambda>c. c\<lparr>cu := cu c AND m\<rparr>) t" if "length t = 4096" for jj t
    using that for_loop_map [of 4096 t "\<lambda>_ c. c\<lparr>cu := cu c AND m\<rparr>"]
    by (auto intro!: nth_equalityI)
  have "tagPred (reset_useful m p) = for_loop 0 4 (\<lambda>jj t. t[jj := ?row jj (t ! jj)]) (tagPred p)"
    by (simp add: reset_useful_def n)
  also have "\<dots> = map (\<lambda>jj. ?row jj (tagPred p ! jj)) [0..<4]"
    by (subst for_loop_map [where f = ?row]) (simp_all add: n)
  also have "\<dots> = map (map (\<lambda>c. c\<lparr>cu := cu c AND m\<rparr>)) (tagPred p)"
    using n(2) l by (elim length_4E) (simp add: row del: upt_4, simp add: row)
  finally show ?thesis .
qed

lemma and_small: "unat (x AND 1) \<le> 3" "unat (x AND 2) \<le> 3" for x :: u32
  using unat_and_le [of x 1] unat_and_le [of x 2] by simp_all

lemma reset_useful_wf:
  assumes "tage_wf p" and "m = 1 \<or> m = 2"
  shows "tage_wf (reset_useful m p)"
proof -
  have "tables_wf (tagPred p)" using assms(1) by (simp add: tage_wf_def)
  then have "tables_wf (tagPred (reset_useful m p))"
    using assms(2) and_small unfolding reset_useful_array [OF assms(1)] tables_wf_def
    by (auto simp: list_all_iff component_wf_def)
  then show ?thesis using assms(1)
    by (auto simp: tage_wf_def latches_wf_def counters_wf_def) (simp_all add: reset_useful_def)
qed

lemma tick_wf:
  assumes "tage_wf p"
  shows "tage_wf (tick p)"
proof -
  have c: "unat (clock p) < 256 * 1024" using assms by (simp add: tage_wf_def counters_wf_def)
  then have u: "unat (clock p + 1) = unat (clock p) + 1"
    by (simp add: unat_word_ariths)
  show ?thesis
  proof (cases "clock p + 1 = 256 * 1024")
    case True
    have "tage_wf (p\<lparr>clock := 0, clock_flip := f\<rparr>)" if "f = 0 \<or> f = 1" for f
      using assms that by (auto simp: tage_wf_def latches_wf_def counters_wf_def)
    with True show ?thesis by (auto simp: tick_def Let_def intro!: reset_useful_wf)
  next
    case False
    then have "unat (clock p + 1) \<noteq> unat (256 * 1024 :: u32)" by (simp add: word_unat_eq_iff)
    then have "unat (clock p + 1) < 256 * 1024" using u c by simp
    with False assms show ?thesis
      by (auto simp: tick_def Let_def tage_wf_def latches_wf_def counters_wf_def)
  qed
qed

text \<open>The loop copies upwards, so every copy reads the cell that the copy before it wrote: the whole
  register, and the byte after it, end up holding the old newest outcome.\<close>

lemma shift_loop:
  assumes "length g = GHRLNGTH" and "n < GHRLNGTH"
  shows "for_loop 0 n (\<lambda>kk (g, pad). if kk + 1 < GHRLNGTH then (g[kk + 1 := g ! kk], pad) else (g, g ! kk)) (g, pad)
    = (replicate (Suc n) (g ! 0) @ drop (Suc n) g, pad)"
  using assms(2)
proof (induction n)
  case 0
  then show ?case using assms(1) by (cases g) simp_all
next
  case (Suc n)
  have "drop (Suc n) g = g ! Suc n # drop (Suc (Suc n)) g"
    using Suc.prems assms(1) by (simp add: Cons_nth_drop_Suc)
  with Suc assms(1) show ?case
    by (simp add: for_loop_last nth_append list_update_append replicate_append_same [symmetric]
        del: replicate_Suc) (simp add: replicate_append_same)
qed

lemma shift_ghr_value:
  assumes "length (ghr p) = GHRLNGTH"
  shows "shift_ghr resolveDir p =
    p\<lparr>ghr := of_bool (resolveDir = 1) # replicate (GHRLNGTH - 1) (ghr p ! 0), ghr_pad := ghr p ! 0\<rparr>"
proof -
  have "for_loop 0 131 (\<lambda>kk (g, pad). if kk + 1 < 131 then (g[kk + 1 := g ! kk], pad) else (g, g ! kk))
      (ghr p, ghr_pad p) = (replicate 131 (ghr p ! 0), ghr p ! 0)"
    using for_loop_last [of 0 130 "\<lambda>kk (g, pad). if kk + 1 < 131 then (g[kk + 1 := g ! kk], pad) else (g, g ! kk)"
        "(ghr p, ghr_pad p)"] shift_loop [OF assms, of 130 "ghr_pad p"] assms
    by (simp add: nth_append)
  then show ?thesis
    using replicate_Suc [of 130 "ghr p ! 0"] by (auto simp: shift_ghr_def Let_def)
qed

lemma shift_ghr_wf:
  assumes "tage_wf p"
  shows "tage_wf (shift_ghr resolveDir p)"
proof -
  have g: "length (ghr p) = GHRLNGTH" "ghr p ! 0 = 0 \<or> ghr p ! 0 = 1"
    using assms by (auto simp: tage_wf_def ghr_wf_def list_all_length)
  then show ?thesis using assms unfolding shift_ghr_value [OF g(1)]
    by (auto simp: tage_wf_def latches_wf_def counters_wf_def ghr_wf_def list_all_iff)
qed

lemma compute_history_simps [simp]:
  "ghr (compute_history p r c) = ghr p" "ghr_pad (compute_history p r c) = ghr_pad p"
  "phr (compute_history p r c) = phr p" "bimodal (compute_history p r c) = bimodal p"
  "tagPred (compute_history p r c) = tagPred p"
  "numBimodalEntries (compute_history p r c) = numBimodalEntries p"
  "numberTagEntries (compute_history p r c) = numberTagEntries p"
  "primePred (compute_history p r c) = primePred p" "altPred (compute_history p r c) = altPred p"
  "primeBank (compute_history p r c) = primeBank p" "altBank (compute_history p r c) = altBank p"
  "indexTagPred (compute_history p r c) = indexTagPred p" "tagv (compute_history p r c) = tagv p"
  "clock (compute_history p r c) = clock p" "clock_flip (compute_history p r c) = clock_flip p"
  "altBetterCount (compute_history p r c) = altBetterCount p"
  by (simp_all add: compute_history_def)

lemma hists_wf_update:
  assumes "hists_wf T cs" and "i < NUMTAGTABLES" and "T < 31"
  shows "hists_wf T (cs[i := history_step g (cs ! i)])"
  using assms less_4_cases [OF assms(2)]
  by (auto simp: hists_wf_def intro!: history_step_wf)

lemma compute_history_wf:
  assumes "tage_wf p"
  shows "i < NUMTAGTABLES \<Longrightarrow> tage_wf (compute_history p i (NUMTAGTABLES + 1))"
    and "i < NUMTAGTABLES \<Longrightarrow> row < 2 \<Longrightarrow> tage_wf (compute_history p row i)"
proof -
  assume i: "i < NUMTAGTABLES"
  have "hists_wf 12 (indexComp p)" using assms by (simp add: tage_wf_def)
  from hists_wf_update [OF this i] show "tage_wf (compute_history p i (NUMTAGTABLES + 1))"
    using assms by (simp add: tage_wf_def latches_wf_def counters_wf_def) (simp add: compute_history_def)
next
  assume i: "i < NUMTAGTABLES" and r: "row < 2"
  have h: "hists_wf 9 (tagComp p ! 0)" "hists_wf 8 (tagComp p ! 1)" "length (tagComp p) = 2"
    using assms by (simp_all add: tage_wf_def)
  from i r h hists_wf_update [OF h(1) i, of "ghr p"] hists_wf_update [OF h(2) i, of "ghr p"]
  show "tage_wf (compute_history p row i)"
    using assms
    by (simp add: tage_wf_def latches_wf_def counters_wf_def)
      (auto simp: compute_history_def nth_list_update less_2_cases_iff)
qed

lemma update_histories_wf:
  assumes "tage_wf p"
  shows "tage_wf (update_histories p)"
  unfolding update_histories_def
  by (rule for_loop_keeps [where P = tage_wf, OF assms]) (intro compute_history_wf; simp)

lemma update_histories_simps [simp]:
  "ghr (update_histories p) = ghr p" "phr (update_histories p) = phr p"
  "bimodal (update_histories p) = bimodal p" "tagPred (update_histories p) = tagPred p"
  "indexTagPred (update_histories p) = indexTagPred p" "clock (update_histories p) = clock p"
  "clock_flip (update_histories p) = clock_flip p"
  by (simp_all add: update_histories_def for_loop_def)

text \<open>Each of the twelve compressed histories takes one step.\<close>

lemma update_histories_value:
  assumes "length (indexComp p) = NUMTAGTABLES" and "length (tagComp p) = 2"
    and "length (tagComp p ! 0) = NUMTAGTABLES" and "length (tagComp p ! 1) = NUMTAGTABLES"
  shows "indexComp (update_histories p) = map (history_step (ghr p)) (indexComp p)"
    and "tagComp (update_histories p) = map (map (history_step (ghr p))) (tagComp p)"
proof -
  obtain a b c d where i: "indexComp p = [a, b, c, d]" using length_4E [OF assms(1)] by blast
  obtain r s where rs: "tagComp p = [r, s]" using length_2E [OF assms(2)] by blast
  have l: "length r = 4" "length s = 4" using assms(3,4) rs by simp_all
  obtain a0 b0 c0 d0 where t0: "r = [a0, b0, c0, d0]" using length_4E [OF l(1)] by blast
  obtain a1 b1 c1 d1 where t1: "s = [a1, b1, c1, d1]" using length_4E [OF l(2)] by blast
  show "indexComp (update_histories p) = map (history_step (ghr p)) (indexComp p)"
    "tagComp (update_histories p) = map (map (history_step (ghr p))) (tagComp p)"
    by (simp_all add: update_histories_def loop_simps for_loop_step i rs t0 t1 compute_history_def
        del: compute_history_simps)
qed

lemma update_phr_value:
  "update_phr PC p = p\<lparr>phr := (push_bit 1 (phr p) OR (PC AND 1)) AND mask 16\<rparr>"
proof -
  have e: "PC AND 1 = (if bit PC 0 then 1 else 0)" by (simp add: and_one_eq bit_0 odd_iff_mod_2_eq_one)
  have "push_bit 1 (phr p) + 1 = push_bit 1 (phr p) OR 1"
    by (rule disjunctive_add) (simp only: bit_push_bit_iff bit_1_iff, auto)
  then show ?thesis by (simp add: update_phr_def Let_def e mask_eq_exp_minus_1)
qed

lemma update_phr_wf: "tage_wf p \<Longrightarrow> tage_wf (update_phr PC p)"
  using unat_and_mask_less [of _ 16]
  by (simp add: update_phr_value tage_wf_def latches_wf_def counters_wf_def)

end
