(* ===== verification/TageProps.thy ===== *)
theory TageProps
  imports TageUpdate
begin

text \<open>
  What a call of \<open>update_predictor\<close> does as a whole: the theorems on the initial state, the
  invariant, the counters, the allocation, the ageing and the histories. They rest on the lemmas
  of the parts, composed by \<open>update_predictor_phases\<close>.
\<close>

unbundle bit_operations_syntax

section \<open>Composing the parts\<close>

abbreviation trained :: "nat \<Rightarrow> int \<Rightarrow> u64 \<Rightarrow> u64 \<Rightarrow> u64 \<Rightarrow> predictor \<Rightarrow> predictor" where
  "trained randNo junk PC resolveDir predDir p \<equiv>
     let p1 = update_counters PC resolveDir predDir p
     in allocate randNo junk resolveDir predDir (fst (check_new_entry resolveDir p1))
          (snd (check_new_entry resolveDir p1))"

lemma update_predictor_phases:
  "update_predictor randNo junk PC resolveDir predDir branchTarget p =
     update_phr PC (update_histories (shift_ghr resolveDir (tick (trained randNo junk PC resolveDir predDir p))))"
  by (simp add: update_predictor_def Let_def case_prod_beta)

lemma update_predictor_wf:
  "tage_wf p \<Longrightarrow> tage_wf (update_predictor randNo junk PC resolveDir predDir branchTarget p)"
  by (simp add: update_predictor_phases Let_def update_phr_wf update_histories_wf shift_ghr_wf tick_wf
      allocate_wf check_new_entry_wf update_counters_wf)

lemma trained_wf: "tage_wf p \<Longrightarrow> tage_wf (trained randNo junk PC resolveDir predDir p)"
  by (simp add: Let_def allocate_wf check_new_entry_wf update_counters_wf)

lemma check_new_entry_simps [simp]:
  "sel (snd (check_new_entry r p)) b = sel p b" "tagPred (snd (check_new_entry r p)) = tagPred p"
  "bimodal (snd (check_new_entry r p)) = bimodal p" "ghr (snd (check_new_entry r p)) = ghr p"
  "phr (snd (check_new_entry r p)) = phr p" "clock (snd (check_new_entry r p)) = clock p"
  "clock_flip (snd (check_new_entry r p)) = clock_flip p"
  "indexComp (snd (check_new_entry r p)) = indexComp p" "tagComp (snd (check_new_entry r p)) = tagComp p"
  "indexTagPred (snd (check_new_entry r p)) = indexTagPred p" "tagv (snd (check_new_entry r p)) = tagv p"
  "primeBank (snd (check_new_entry r p)) = primeBank p" "primePred (snd (check_new_entry r p)) = primePred p"
  "altPred (snd (check_new_entry r p)) = altPred p"
  by (simp_all add: check_new_entry_def sel_def)

lemma update_counters_simps [simp]:
  "ghr (update_counters PC r d p) = ghr p" "phr (update_counters PC r d p) = phr p"
  "clock (update_counters PC r d p) = clock p" "clock_flip (update_counters PC r d p) = clock_flip p"
  "indexComp (update_counters PC r d p) = indexComp p" "tagComp (update_counters PC r d p) = tagComp p"
  "indexTagPred (update_counters PC r d p) = indexTagPred p" "tagv (update_counters PC r d p) = tagv p"
  "primeBank (update_counters PC r d p) = primeBank p" "primePred (update_counters PC r d p) = primePred p"
  "altPred (update_counters PC r d p) = altPred p"
  by (simp_all add: update_counters_def update_provider_def update_useful_def update_base_def Let_def)

lemma allocate_down_simps [simp]:
  "ghr (allocate_down n r p) = ghr p" "phr (allocate_down n r p) = phr p"
  "bimodal (allocate_down n r p) = bimodal p"
  "clock (allocate_down n r p) = clock p" "clock_flip (allocate_down n r p) = clock_flip p"
  "indexComp (allocate_down n r p) = indexComp p" "tagComp (allocate_down n r p) = tagComp p"
  "indexTagPred (allocate_down n r p) = indexTagPred p" "tagv (allocate_down n r p) = tagv p"
  by (induction n) simp_all

lemma allocate_simps [simp]:
  "ghr (allocate rn j r d n p) = ghr p" "phr (allocate rn j r d n p) = phr p"
  "bimodal (allocate rn j r d n p) = bimodal p" "clock (allocate rn j r d n p) = clock p"
  "clock_flip (allocate rn j r d n p) = clock_flip p" "indexComp (allocate rn j r d n p) = indexComp p"
  "tagComp (allocate rn j r d n p) = tagComp p" "indexTagPred (allocate rn j r d n p) = indexTagPred p"
  "tagv (allocate rn j r d n p) = tagv p"
  by (simp_all add: allocate_eq)

text \<open>The allocation touches banks below its starting point only.\<close>

lemma allocate_down_sel:
  assumes "tage_wf p" and "n \<le> b" and "b \<le> NUMTAGTABLES"
  shows "sel (allocate_down n r p) b = sel p b"
  using assms by (induction n) (simp_all add: sel_upd_sel)

lemma allocate_sel_above:
  assumes "tage_wf p" and "primeBank p \<le> b" and "b < NUMTAGTABLES"
  shows "sel (allocate rn j r d n p) b = sel p b"
proof (cases "0 < primeBank p")
  case True
  have "nat (choose_bank rn (scan_useless j p) + 1) \<le> primeBank p"
    using assms by (intro choose_bank_stop True) simp
  then show ?thesis using assms by (simp add: allocate_eq allocate_down_sel)
qed (simp add: allocate_eq)

definition wraps :: "predictor \<Rightarrow> bool" where
  "wraps p \<longleftrightarrow> clock p + 1 = 256 * 1024"

definition age_mask :: "predictor \<Rightarrow> u32" where
  "age_mask p = (if clock_flip p = 1 then 2 else 1)"

lemma tick_eq:
  "tick p = (if wraps p
             then reset_useful (age_mask p) (p\<lparr>clock := 0, clock_flip := (if clock_flip p = 1 then 0 else 1)\<rparr>)
             else p\<lparr>clock := clock p + 1\<rparr>)"
  by (simp add: tick_def wraps_def age_mask_def Let_def)

lemma reset_useful_simps [simp]:
  "ghr (reset_useful m p) = ghr p" "phr (reset_useful m p) = phr p" "bimodal (reset_useful m p) = bimodal p"
  "indexComp (reset_useful m p) = indexComp p" "tagComp (reset_useful m p) = tagComp p"
  "indexTagPred (reset_useful m p) = indexTagPred p" "clock (reset_useful m p) = clock p"
  "clock_flip (reset_useful m p) = clock_flip p"
  by (simp_all add: reset_useful_def)

lemma tick_simps [simp]:
  "ghr (tick p) = ghr p" "phr (tick p) = phr p" "bimodal (tick p) = bimodal p"
  "indexComp (tick p) = indexComp p" "tagComp (tick p) = tagComp p"
  "indexTagPred (tick p) = indexTagPred p"
  by (simp_all add: tick_eq)

lemma tick_tables:
  assumes "tage_wf p"
  shows "tagPred (tick p) =
    (if wraps p then map (map (\<lambda>c. c\<lparr>cu := cu c AND age_mask p\<rparr>)) (tagPred p) else tagPred p)"
proof -
  have "tage_wf (p\<lparr>clock := 0, clock_flip := (if clock_flip p = 1 then 0 else 1)\<rparr>)"
    using assms by (auto simp: tage_wf_def latches_wf_def counters_wf_def)
  from reset_useful_array [OF this] show ?thesis by (simp add: tick_eq)
qed

lemma tick_sel:
  assumes "tage_wf p" and "b < NUMTAGTABLES"
  shows "sel (tick p) b =
    (if wraps p then (sel p b)\<lparr>cu := cu (sel p b) AND age_mask p\<rparr> else sel p b)"
  using sel_in_range [OF assms] by (simp add: sel_def tick_tables [OF assms(1)])

lemma shift_ghr_simps [simp]:
  "phr (shift_ghr r p) = phr p" "bimodal (shift_ghr r p) = bimodal p" "tagPred (shift_ghr r p) = tagPred p"
  "indexComp (shift_ghr r p) = indexComp p" "tagComp (shift_ghr r p) = tagComp p"
  "indexTagPred (shift_ghr r p) = indexTagPred p" "clock (shift_ghr r p) = clock p"
  "clock_flip (shift_ghr r p) = clock_flip p"
  by (simp_all add: shift_ghr_def Let_def split: prod.split)

lemma update_phr_simps [simp]:
  "ghr (update_phr PC p) = ghr p" "bimodal (update_phr PC p) = bimodal p"
  "tagPred (update_phr PC p) = tagPred p" "indexComp (update_phr PC p) = indexComp p"
  "tagComp (update_phr PC p) = tagComp p" "indexTagPred (update_phr PC p) = indexTagPred p"
  "clock (update_phr PC p) = clock p" "clock_flip (update_phr PC p) = clock_flip p"
  by (simp_all add: update_phr_value)

text \<open>The fields after a call, in terms of the phases that write them.\<close>

lemma update_predictor_fields:
  defines "q \<equiv> \<lambda>randNo junk PC resolveDir predDir branchTarget p.
      update_predictor randNo junk PC resolveDir predDir branchTarget p"
  shows "bimodal (q rn j PC r d t p) = bimodal (update_counters PC r d p)"
    and "tagPred (q rn j PC r d t p) = tagPred (tick (trained rn j PC r d p))"
    and "indexTagPred (q rn j PC r d t p) = indexTagPred p"
    and "sel (q rn j PC r d t p) b = sel (tick (trained rn j PC r d p)) b"
    and "clock (q rn j PC r d t p) = (if wraps p then 0 else clock p + 1)"
    and "clock_flip (q rn j PC r d t p) =
      (if wraps p then (if clock_flip p = 1 then 0 else 1) else clock_flip p)"
    and "phr (q rn j PC r d t p) = (push_bit 1 (phr p) OR (PC AND 1)) AND mask 16"
    and "wraps (trained rn j PC r d p) = wraps p" and "age_mask (trained rn j PC r d p) = age_mask p"
proof -
  show w: "wraps (trained rn j PC r d p) = wraps p" and "age_mask (trained rn j PC r d p) = age_mask p"
    by (simp_all add: wraps_def age_mask_def Let_def)
  show "bimodal (q rn j PC r d t p) = bimodal (update_counters PC r d p)"
    "tagPred (q rn j PC r d t p) = tagPred (tick (trained rn j PC r d p))"
    "indexTagPred (q rn j PC r d t p) = indexTagPred p"
    "sel (q rn j PC r d t p) b = sel (tick (trained rn j PC r d p)) b"
    by (simp_all add: q_def update_predictor_phases sel_def) (simp_all add: Let_def)
  show "clock (q rn j PC r d t p) = (if wraps p then 0 else clock p + 1)"
    "clock_flip (q rn j PC r d t p) =
      (if wraps p then (if clock_flip p = 1 then 0 else 1) else clock_flip p)"
    using w by (simp_all add: q_def update_predictor_phases tick_eq) (simp_all add: Let_def)
  show "phr (q rn j PC r d t p) = (push_bit 1 (phr p) OR (PC AND 1)) AND mask 16"
    by (simp add: q_def update_predictor_phases update_phr_value) (simp add: Let_def)
qed

text \<open>A concrete state to train, for closed instances: the fresh predictor after one prediction.\<close>

definition after_predict :: "u64 \<Rightarrow> predictor" where
  "after_predict PC = snd (get_prediction PC tage0)"

lemma get_prediction_memory [simp]:
  "bimodal (snd (get_prediction PC p)) = bimodal p" "tagPred (snd (get_prediction PC p)) = tagPred p"
  "ghr (snd (get_prediction PC p)) = ghr p" "phr (snd (get_prediction PC p)) = phr p"
  "indexComp (snd (get_prediction PC p)) = indexComp p" "tagComp (snd (get_prediction PC p)) = tagComp p"
  "clock (snd (get_prediction PC p)) = clock p" "clock_flip (snd (get_prediction PC p)) = clock_flip p"
  by (simp_all add: get_prediction_def Let_def choose_prediction_eq)
    (simp_all add: find_banks_def compute_indices_def compute_tags_def Let_def)

lemma after_predict_wf: "tage_wf (after_predict PC)"
  unfolding after_predict_def by (rule get_prediction_wf [OF tage0_wf])

lemma after_predict_fields:
  "bimodal (after_predict PC) = replicate (2 ^ BIMODALLOG) 2"
  "tagPred (after_predict PC) = replicate NUMTAGTABLES (replicate (2 ^ TAGPREDLOG) \<lparr>cpred = 0, ctag = 0, cu = 0\<rparr>)"
  "ghr (after_predict PC) = replicate GHRLNGTH 0" "phr (after_predict PC) = 0"
  "clock (after_predict PC) = 0"
  "clock_flip (after_predict PC) = 1"
  "primeBank (after_predict 5) = 4" "primeBank (after_predict 0) = 0"
  by (simp_all add: after_predict_def tage0_fields predict_5_tage0 predict_0_tage0)

lemma after_predict_sel: "b < NUMTAGTABLES \<Longrightarrow> sel (after_predict PC) b = \<lparr>cpred = 0, ctag = 0, cu = 0\<rparr>"
  using sel_in_range(1,2) [OF after_predict_wf, of b PC]
  by (simp add: sel_def after_predict_fields)

section \<open>The counters\<close>

lemma update_counters_sel:
  fixes PC resolveDir predDir
  assumes "tage_wf p" and "primeBank p < NUMTAGTABLES"
  defines "c \<equiv> sel p (primeBank p)"
  defines "c' \<equiv> sel (update_counters PC resolveDir predDir p) (primeBank p)"
  shows "unat (cpred c') = (if resolveDir \<noteq> 0 then min 7 (unat (cpred c) + 1) else unat (cpred c) - 1)"
    and "ctag c' = ctag c"
    and "unat (cu c') = (if predDir = altPred p then unat (cu c)
                         else if predDir = resolveDir then min 3 (unat (cu c) + 1) else unat (cu c) - 1)"
proof -
  have w: "tage_wf (update_useful resolveDir predDir p)" by (rule update_useful_wf [OF assms(1,2)])
  have cw: "unat (cpred c) \<le> 7" "unat (cu c) \<le> 3"
    using sel_in_range(3) [OF assms(1,2)] by (simp_all add: component_wf_def c_def)
  note u = sel_upd_sel [OF assms(1,2)] sel_upd_sel [OF w]
  have s: "sel (update_useful resolveDir predDir p) (primeBank p) =
      (if predDir = altPred p then c else if predDir = resolveDir
       then c\<lparr>cu := inc32 (cu c) 3\<rparr> else c\<lparr>cu := dec32 (cu c)\<rparr>)"
    by (simp add: update_useful_def u(1) c_def)
  define X where "X = update_useful resolveDir predDir p"
  define m where "m = sel X (primeBank p)"
  have m: "cpred m = cpred c" "ctag m = ctag c"
    "unat (cu m) = (if predDir = altPred p then unat (cu c)
                    else if predDir = resolveDir then min 3 (unat (cu c) + 1) else unat (cu c) - 1)"
    using cw by (auto simp: m_def X_def s inc32_unat dec32_unat)
  have "primeBank X = primeBank p" by (simp add: X_def)
  then have "c' = (if resolveDir \<noteq> 0 then m\<lparr>cpred := inc32 (cpred m) 7\<rparr> else m\<lparr>cpred := dec32 (cpred m)\<rparr>)"
    using assms(2) u(2) [folded X_def]
    by (simp add: c'_def update_counters_def update_provider_def m_def X_def [symmetric])
  then show "unat (cpred c') = (if resolveDir \<noteq> 0 then min 7 (unat (cpred c) + 1) else unat (cpred c) - 1)"
    "ctag c' = ctag c"
    "unat (cu c') = (if predDir = altPred p then unat (cu c)
                     else if predDir = resolveDir then min 3 (unat (cu c) + 1) else unat (cu c) - 1)"
    using cw m by (simp_all add: inc32_unat dec32_unat)
qed

lemma trained_provider:
  assumes "tage_wf p" and "primeBank p < NUMTAGTABLES"
  shows "sel (trained rn j PC r d p) (primeBank p) = sel (update_counters PC r d p) (primeBank p)"
  using assms by (simp add: Let_def allocate_sel_above check_new_entry_wf update_counters_wf)

text \<open>C13: an update trains the entry that provided the prediction: its 3-bit counter moves one step
  towards the outcome and saturates; its tag stays; its useful counter moves only when the
  alternate prediction differed, up after a correct prediction and down after a wrong one (and
  loses one bit when this call wraps the clock); the bimodal table is not touched.\<close>

theorem update_trains_provider:
  fixes randNo junk PC resolveDir predDir branchTarget
  assumes "tage_wf p" and "primeBank p < NUMTAGTABLES"
  defines "q \<equiv> update_predictor randNo junk PC resolveDir predDir branchTarget p"
  defines "c \<equiv> sel p (primeBank p)" and "c' \<equiv> sel q (primeBank p)"
  shows "unat (cpred c') = (if resolveDir \<noteq> 0 then min 7 (unat (cpred c) + 1) else unat (cpred c) - 1)
    \<and> ctag c' = ctag c \<and> bimodal q = bimodal p \<and>
    (\<exists>u. unat u = (if predDir = altPred p then unat (cu c)
                   else if predDir = resolveDir then min 3 (unat (cu c) + 1) else unat (cu c) - 1)
         \<and> cu c' = (if wraps p then u AND age_mask p else u))"
proof -
  let ?u = "sel (update_counters PC resolveDir predDir p) (primeBank p)"
  have "c' = (if wraps p then ?u\<lparr>cu := cu ?u AND age_mask p\<rparr> else ?u)"
    unfolding c'_def q_def update_predictor_fields(4)
    using tick_sel [OF trained_wf [OF assms(1)] assms(2)] trained_provider [OF assms(1,2)]
    by (simp only: update_predictor_fields(8,9))
  moreover have "bimodal q = bimodal p"
    using assms(2) by (simp add: q_def update_predictor_fields(1) update_counters_def
        update_provider_def update_useful_def)
  ultimately show ?thesis
    using update_counters_sel [OF assms(1,2), of PC resolveDir predDir] unfolding c_def
    by (cases "wraps p") auto
qed

theorem update_trains_provider_witness:
  "unat (cpred (sel (update_predictor 50 0 0 1 0 64 (after_predict 0)) 0)) = 1"
  using update_trains_provider [OF after_predict_wf, of 0 50 0 0 1 0 64]
  by (simp add: after_predict_fields after_predict_sel)

text \<open>C33: when no bank hit, an update trains the bimodal counter of the branch, one step towards the
  outcome with saturation at 0 and 3, and no other counter of that table.\<close>

theorem update_trains_base:
  fixes randNo junk PC resolveDir predDir branchTarget
  assumes "tage_wf p" and "primeBank p = NUMTAGTABLES"
  defines "q \<equiv> update_predictor randNo junk PC resolveDir predDir branchTarget p"
  defines "k \<equiv> unat (PC mod 2 ^ BIMODALLOG)"
  shows "unat (bimodal q ! k) =
      (if resolveDir \<noteq> 0 then min 3 (unat (bimodal p ! k) + 1) else unat (bimodal p ! k) - 1) \<and>
    (\<forall>i. i \<noteq> k \<longrightarrow> bimodal q ! i = bimodal p ! i)"
proof -
  have k: "unat (bimodal_index PC p) = k" "k < length (bimodal p)"
    using assms(1) bimodal_index_less(2) [OF assms(1), of PC]
    by (simp_all add: k_def bimodal_index_def tage_wf_def)
  then have "unat (bimodal p ! k) \<le> 3"
    using assms(1) by (simp add: tage_wf_def bimodal_wf_def list_all_length)
  then show ?thesis
    using k assms(2) by (simp add: q_def update_predictor_fields(1) update_counters_def update_base_def
        Let_def base_counter_unat)
qed

theorem update_trains_base_witness:
  "unat (bimodal (update_predictor 50 0 5 0 1 64 (after_predict 5)) ! 5) = 1"
  using update_trains_base [OF after_predict_wf, of 5 50 0 5 0 1 64]
  by (simp add: after_predict_fields)

section \<open>Allocation\<close>

lemma component_overwrite: "c\<lparr>cpred := x, ctag := y, cu := z\<rparr> = \<lparr>cpred = x, ctag = y, cu = z\<rparr>"
  by (cases c) simp

text \<open>The first useless bank at or below the start of the downward scan.\<close>

lemma allocate_down_value:
  "allocate_down n r p = p \<or> (\<exists>b < n. useless p b \<and>
     allocate_down n r p = upd_sel b (\<lambda>c. c\<lparr>cpred := (if r \<noteq> 0 then 4 else 3), ctag := tagv p ! b, cu := 0\<rparr>) p)"
proof (induction n)
  case 0
  then show ?case by simp
next
  case (Suc i)
  then show ?case by (auto simp: useless_def less_Suc_eq)
qed

text \<open>C17: an allocation writes at most one entry; it happens only after a misprediction of a branch
  whose provider is not the bank of the longest history, in a bank with a longer history than the
  provider's whose selected entry was useless; the entry starts useless, with the branch's tag and
  a weak counter.\<close>

theorem allocate_at_most_one:
  assumes "tage_wf p" and "allocate randNo junk resolveDir predDir new_entry p \<noteq> p"
  shows "predDir \<noteq> resolveDir \<and>
    (\<exists>b < primeBank p. useless p b \<and>
      allocate randNo junk resolveDir predDir new_entry p =
        upd_sel b (\<lambda>_. \<lparr>cpred = (if resolveDir \<noteq> 0 then 4 else 3), ctag = tagv p ! b, cu = 0\<rparr>) p)"
proof -
  let ?n = "nat (choose_bank randNo (scan_useless junk p) + 1)"
  let ?new = "\<lambda>b c. c\<lparr>cpred := (if resolveDir \<noteq> 0 then 4 else 3), ctag := tagv p ! b, cu := 0\<rparr>"
  from assms(2) have g: "predDir \<noteq> resolveDir" "0 < primeBank p"
    and ne: "allocate_down ?n resolveDir p \<noteq> p"
    and eq: "allocate randNo junk resolveDir predDir new_entry p = allocate_down ?n resolveDir p"
    by (auto simp: allocate_eq split: if_split_asm)
  have "?n \<le> primeBank p"
    using assms(1) g(2) by (intro choose_bank_stop) (simp_all add: tage_wf_def latches_wf_def)
  moreover obtain b where b: "b < ?n" "useless p b" "allocate_down ?n resolveDir p = upd_sel b (?new b) p"
    using allocate_down_value [of ?n resolveDir p] ne by blast
  moreover have "upd_sel b (?new b) p =
      upd_sel b (\<lambda>_. \<lparr>cpred = (if resolveDir \<noteq> 0 then 4 else 3), ctag = tagv p ! b, cu = 0\<rparr>) p"
    by (simp only: component_overwrite)
  ultimately show ?thesis using g(1) eq by (intro conjI exI [of _ b]) simp_all
qed

lemma after_predict_useless: "b < NUMTAGTABLES \<Longrightarrow> useless (after_predict PC) b"
  by (simp add: useless_def after_predict_sel)

lemma after_predict_5_allocates: "allocate 50 0 0 1 False (after_predict 5) \<noteq> after_predict 5"
proof -
  let ?p = "after_predict 5"
  have "choose_bank 50 (scan_useless 0 ?p) = 3"
    using after_predict_useless
    by (simp add: scan_useless_value after_predict_fields choose_bank_def read_bank_def)
  then have "allocate 50 0 0 1 False ?p = allocate_down (Suc 3) 0 ?p"
    by (simp add: allocate_eq after_predict_fields)
  also have "\<dots> = upd_sel 3 (\<lambda>c. c\<lparr>cpred := 3, ctag := tagv ?p ! 3, cu := 0\<rparr>) ?p"
    by (simp only: allocate_down.simps) (simp add: after_predict_sel)
  finally have "cpred (sel (allocate 50 0 0 1 False ?p) 3) = 3"
    by (simp add: sel_upd_sel [OF after_predict_wf] after_predict_sel)
  moreover have "cpred (sel ?p 3) = 0" by (simp add: after_predict_sel)
  ultimately show ?thesis by auto
qed

theorem allocate_at_most_one_witness:
  "\<exists>b < 4. allocate 50 0 0 1 False (after_predict 5) =
     upd_sel b (\<lambda>_. \<lparr>cpred = 3, ctag = tagv (after_predict 5) ! b, cu = 0\<rparr>) (after_predict 5)"
  using allocate_at_most_one [OF after_predict_wf after_predict_5_allocates]
  by (auto simp: after_predict_fields)

text \<open>An allocation can be lost. When exactly one bank below the provider is useless and it is
  not bank 0, the code starts its downward scan at \<open>bank_store[0]\<close>, which still holds \<open>-1\<close>, and
  allocates nothing, whatever the random number.\<close>

theorem allocate_lost:
  assumes "tage_wf p" and "b < primeBank p" and "0 < b" and "\<And>i. i < primeBank p \<Longrightarrow> useless p i \<longleftrightarrow> i = b"
  shows "allocate randNo junk resolveDir predDir new_entry p = p"
proof -
  have pb: "primeBank p \<le> NUMTAGTABLES" using assms(1) by (simp add: tage_wf_def latches_wf_def)
  have "filter (useless p) [0..<primeBank p] = filter (\<lambda>i. i = b) [0..<primeBank p]"
    by (rule filter_cong) (simp_all add: assms(4))
  also have "\<dots> = [b]" by (rule filter_upt_eq [OF assms(2)])
  finally have f: "filter (useless p) [0..<primeBank p] = [b]" .
  have "\<not> useless p 0" using assms by simp
  then have "choose_bank randNo (scan_useless junk p) = - 1"
    by (simp add: scan_useless_value [OF pb] f choose_bank_def read_bank_def)
  then show ?thesis by (simp add: allocate_eq)
qed

definition one_useless :: predictor where
  "one_useless = upd_sel 0 (\<lambda>c. c\<lparr>cu := 1\<rparr>) (upd_sel 2 (\<lambda>c. c\<lparr>cu := 1\<rparr>) (upd_sel 3 (\<lambda>c. c\<lparr>cu := 1\<rparr>) (after_predict 5)))"

lemma one_useless_facts:
  "tage_wf one_useless" "primeBank one_useless = 4" "i < 4 \<Longrightarrow> useless one_useless i \<longleftrightarrow> i = 1"
proof -
  let ?f = "\<lambda>c. c\<lparr>cu := 1\<rparr>"
  have c: "component_wf \<lparr>cpred = 0, ctag = 0, cu = 1\<rparr>" by (simp add: component_wf_def)
  have w3: "tage_wf (upd_sel 3 ?f (after_predict 5))"
    using c by (rule_tac upd_sel_wf [OF after_predict_wf]) (simp_all add: after_predict_sel)
  then have w2: "tage_wf (upd_sel 2 ?f (upd_sel 3 ?f (after_predict 5)))"
    using c by (rule_tac upd_sel_wf [OF w3]) (simp_all add: sel_upd_sel [OF after_predict_wf] after_predict_sel)
  show "tage_wf one_useless" unfolding one_useless_def
    using c by (rule_tac upd_sel_wf [OF w2])
      (simp_all add: sel_upd_sel [OF after_predict_wf] sel_upd_sel [OF w3] after_predict_sel)
  show "primeBank one_useless = 4" by (simp add: one_useless_def after_predict_fields)
  show "i < 4 \<Longrightarrow> useless one_useless i \<longleftrightarrow> i = 1"
    by (drule less_4_cases) (auto simp: useless_def one_useless_def sel_upd_sel [OF after_predict_wf]
        sel_upd_sel [OF w3] sel_upd_sel [OF w2] after_predict_sel)
qed

theorem allocate_lost_witness: "allocate 99 7 0 1 False one_useless = one_useless"
  using allocate_lost [OF one_useless_facts(1), of 1 99 7 0 1 False] one_useless_facts(2,3) by simp

text \<open>A fresh entry predicts taken whatever the outcome it was allocated for: the entry of a
  not-taken branch gets the counter 3, and the threshold \<open>TAGPRED_CTR_MAX/2\<close> is 3 as well.\<close>

theorem fresh_entry_predicts_taken:
  assumes "tage_wf p" and "b < NUMTAGTABLES" and "useless p b"
  shows "counter_taken (sel (allocate_down (Suc b) resolveDir p) b) = 1"
  using assms by (simp add: sel_upd_sel useless_def counter_taken_def)

theorem fresh_entry_predicts_taken_witness:
  "counter_taken (sel (allocate_down 3 0 (after_predict 5)) 2) = 1"
  using fresh_entry_predicts_taken [OF after_predict_wf, of 2 5 0] after_predict_useless [of 2 5]
  by (simp add: numeral_3_eq_3)

section \<open>The invariant\<close>

text \<open>C2: training keeps the invariant whatever the branch, the outcome, the prediction passed in and
  the random number: counters stay in 0 to 7 and 0 to 3, tags below 512, compressed histories
  within their lengths, the clock below 256 K and every latch in range.\<close>

theorem update_predictor_invariant:
  assumes "tage_wf p"
  shows "tage_wf (update_predictor randNo junk PC resolveDir predDir branchTarget p)"
  using update_predictor_wf [OF assms] .

theorem update_predictor_invariant_witness:
  "tage_wf (update_predictor 50 0 5 0 1 64 (after_predict 5))"
  by (rule update_predictor_invariant [OF after_predict_wf])

lemma fresh_prediction:
  assumes "tagPred p = replicate NUMTAGTABLES (replicate (2 ^ TAGPREDLOG) \<lparr>cpred = 0, ctag = 0, cu = 0\<rparr>)"
    and "bimodal p = replicate (2 ^ BIMODALLOG) 2" and "numBimodalEntries p = 2 ^ BIMODALLOG"
    and "tagComp p = [map (\<lambda>L. \<lparr>geomLength = L, targetLength = 9, compHist = 0\<rparr>) [130, 44, 15, 5],
                      map (\<lambda>L. \<lparr>geomLength = L, targetLength = 8, compHist = 0\<rparr>) [130, 44, 15, 5]]"
    and "tage_wf p"
  shows "fst (get_prediction PC p) = (if PC AND 511 = 0 then 0 else 1)"
proof -
  let ?t = "compute_tags PC p"
  let ?q = "compute_indices PC ?t"
  have w: "tage_wf ?q" using assms(5) by (intro compute_indices_wf compute_tags_wf)
  have s: "sel ?q b = \<lparr>cpred = 0, ctag = 0, cu = 0\<rparr>" if "b < 4" for b
    using sel_in_range(1,2) [OF w that] that by (simp add: sel_def assms(1))
  have "length (tagv p) = 4" using assms(5) by (simp add: tage_wf_def latches_wf_def)
  then have tv: "tagv ?t = [ucast PC AND 511, ucast PC AND 511, ucast PC AND 511, ucast PC AND 511]"
    by (simp add: compute_tags_def Let_def for_loop_fill assms(4) numeral_2_eq_2 numeral_3_eq_3)
  have z: "(ucast PC AND 511 :: u32) = 0 \<longleftrightarrow> PC AND 511 = 0"
  proof -
    have "(ucast PC AND 511 :: u32) = ucast (PC AND 511)" by (simp add: word_of_int_eq_iff unsigned_and_eq)
    moreover have "ucast (PC AND 511 :: u64) = (0 :: u32) \<longleftrightarrow> PC AND 511 = 0"
    proof -
      have "unat (PC AND 511) \<le> 511" using unat_and_le [of PC 511] by simp
      then show ?thesis
        by (simp add: word_unat_eq_iff unsigned_ucast_eq take_bit_nat_eq_self)
    qed
    ultimately show ?thesis by simp
  qed
  have h: "hit ?q b \<longleftrightarrow> PC AND 511 = 0" if "b < 4" for b
    using less_4_cases [OF that] z by (elim disjE) (auto simp: hit_def s tv)
  have b: "base_prediction PC p"
  proof -
    have "unat (bimodal_index PC p) < 16384" using bimodal_index_less(1) [OF assms(5), of PC] by simp
    then show ?thesis by (simp add: base_prediction_def assms(2))
  qed
  have "scan_banks ?q 0 = (if PC AND 511 = 0 then 0 else 4)"
    by (simp add: scan_banks.simps h)
  then show ?thesis
    by (simp add: get_prediction_def Let_def choose_prediction_eq find_banks_eq b s counter_taken_def)
qed

text \<open>C18: from any memory, the initialisation establishes the invariant, and the fresh predictor
  predicts every branch taken from its bimodal table, except the branches whose address ends in
  nine zero bits: their tag is that of the blank entries, so they hit and are predicted not taken.\<close>

theorem initTagePredictor_correct:
  assumes "tage_shape p" and "\<And>ii. ii < NUMTAGTABLES \<Longrightarrow> length (mem ii) = 2 ^ TAGPREDLOG"
  shows "tage_wf (initTagePredictor mem p) \<and>
    fst (get_prediction PC (initTagePredictor mem p)) = (if PC AND 511 = 0 then 0 else 1)"
  using init_invariant [OF assms] init_fields [OF assms] by (simp add: fresh_prediction)

theorem initTagePredictor_correct_witness:
  "fst (get_prediction 1024 (initTagePredictor raw_blocks raw_memory)) = 0"
  using initTagePredictor_correct [where mem = raw_blocks and PC = 1024, OF raw_memory_shape raw_blocks_length] by simp

section \<open>The ageing of the useful counters\<close>

text \<open>Over \<open>n\<close> updates the clock counts modulo 256 K and the phase flips once per turn, so
  the useful counters lose their low bit and their high bit in alternate turns.\<close>

theorem tick_period:
  assumes "tage_wf p" and "clock_flip p = of_bool f"
  shows "unat (clock ((tick ^^ n) p)) = (unat (clock p) + n) mod 2 ^ 18 \<and>
    clock_flip ((tick ^^ n) p) = of_bool (f \<longleftrightarrow> even ((unat (clock p) + n) div 2 ^ 18)) \<and>
    tage_wf ((tick ^^ n) p)"
proof (induction n)
  case 0
  then show ?case using assms by (simp add: tage_wf_def counters_wf_def)
next
  case (Suc n)
  define q where "q = (tick ^^ n) p"
  define m where "m = unat (clock p) + n"
  from Suc have c: "unat (clock q) = m mod 2 ^ 18" and f: "clock_flip q = of_bool (f \<longleftrightarrow> even (m div 2 ^ 18))"
    and w: "tage_wf q" by (simp_all add: q_def m_def)
  have u: "unat (clock q + 1) = m mod 2 ^ 18 + 1"
    using c by (subst unat_word_ariths) simp
  have wr: "wraps q \<longleftrightarrow> Suc (m mod 2 ^ 18) = 2 ^ 18"
    using u by (auto simp: wraps_def word_unat_eq_iff)
  have d: "Suc m mod 2 ^ 18 = (if wraps q then 0 else Suc (m mod 2 ^ 18))"
    "Suc m div 2 ^ 18 = (if wraps q then Suc (m div 2 ^ 18) else m div 2 ^ 18)"
    unfolding wr by (simp_all only: mod_Suc div_Suc) auto
  have "unat (clock (tick q)) = Suc m mod 2 ^ 18" using u d by (simp add: tick_eq)
  moreover have "clock_flip (tick q) = of_bool (f \<longleftrightarrow> even (Suc m div 2 ^ 18))"
    unfolding d(2) using f by (simp add: tick_eq)
  ultimately show ?case using tick_wf [OF w] by (simp add: q_def m_def)
qed

theorem tick_period_witness:
  "unat (clock ((tick ^^ 300000) (after_predict 5))) = 37856 \<and>
   clock_flip ((tick ^^ 300000) (after_predict 5)) = 0"
  using tick_period [OF after_predict_wf, of 5 True 300000] by (simp add: after_predict_fields)

text \<open>A turn of the clock clears, in every entry of every bank, the low bit of the useful counter
  when the phase was 1 and the high bit when it was 0, and changes nothing else of the tables.\<close>

theorem tick_ages_all_entries:
  assumes "tage_wf p" and "wraps p"
  shows "tagPred (tick p) = map (map (\<lambda>c. c\<lparr>cu := cu c AND (if clock_flip p = 1 then 2 else 1)\<rparr>)) (tagPred p)"
  using assms by (simp add: tick_tables age_mask_def)

theorem tick_ages_all_entries_witness:
  "tagPred (tick (one_useless\<lparr>clock := 262143\<rparr>)) =
     map (map (\<lambda>c. c\<lparr>cu := cu c AND 2\<rparr>)) (tagPred one_useless)"
proof -
  have "tage_wf (one_useless\<lparr>clock := 262143\<rparr>)"
    using one_useless_facts(1) by (simp add: tage_wf_def latches_wf_def counters_wf_def)
  from tick_ages_all_entries [OF this] show ?thesis
    by (simp add: wraps_def one_useless_def after_predict_fields)
qed

section \<open>The histories\<close>

text \<open>C19: the global history register remembers only two outcomes. Its shift loop runs upwards, so
  after an update cell 0 holds the new outcome and all the 130 others hold the newest outcome of
  before; the byte after the array is overwritten with it too. Hence the outcome that each of the
  twelve compressed histories cancels is always the previous one, never the one that leaves its
  window.\<close>

theorem update_smears_history:
  fixes randNo junk PC resolveDir predDir branchTarget
  assumes "tage_wf p" and "ghr p ! 0 = of_bool e"
  defines "q \<equiv> update_predictor randNo junk PC resolveDir predDir branchTarget p"
  defines "step \<equiv> \<lambda>c. (rotate_in (unat (targetLength c)) (compHist c) XOR of_bool (resolveDir = 1)
      XOR push_bit (unat (geomLength c) mod unat (targetLength c)) (of_bool e)) AND mask (unat (targetLength c))"
  shows "ghr q = of_bool (resolveDir = 1) # replicate 130 (of_bool e) \<and> ghr_pad q = of_bool e \<and>
    map compHist (indexComp q) = map step (indexComp p) \<and>
    map (map compHist) (tagComp q) = map (map step) (tagComp p)"
proof -
  let ?t = "tick (trained randNo junk PC resolveDir predDir p)"
  let ?g = "of_bool (resolveDir = 1) # replicate 130 (of_bool e) :: u8 list"
  let ?s = "shift_ghr resolveDir ?t"
  have same: "ghr ?t = ghr p" "indexComp ?t = indexComp p" "tagComp ?t = tagComp p"
    by (simp_all add: Let_def)
  have len: "length (ghr p) = 131" using assms(1) by (simp add: tage_wf_def ghr_wf_def)
  have sg: "ghr ?s = ?g" "ghr_pad ?s = of_bool e"
    using shift_ghr_value [of ?t resolveDir] same(1) len assms(2) by simp_all
  have q: "q = update_phr PC (update_histories ?s)" by (simp only: q_def update_predictor_phases)
  have h: "hists_wf 12 (indexComp p)" "length (tagComp p) = 2" "hists_wf 9 (tagComp p ! 0)" "hists_wf 8 (tagComp p ! 1)"
    using assms(1) by (simp_all add: tage_wf_def)
  have one: "compHist (history_step ?g c) = step c" if "hist_wf L T c" "T \<in> {8, 9, 12}" "L \<in> {130, 44, 15, 5}" for L T c
  proof -
    have "?g ! L = of_bool e" using that(3) by (auto simp: nth_Cons')
    with that show ?thesis unfolding step_def
      by (subst history_step_value [where T = T and L = L and b = "resolveDir = 1" and d = e])
        (auto simp: hist_wf_def)
  qed
  have row: "map compHist (map (history_step ?g) cs) = map step cs" if "hists_wf T cs" "T \<in> {8, 9, 12}" for T cs
  proof -
    from that(1) obtain a b c d where "cs = [a, b, c, d]" by (auto simp: hists_wf_def elim: length_4E)
    moreover from this that(1) have "hist_wf 130 T a" "hist_wf 44 T b" "hist_wf 15 T c" "hist_wf 5 T d"
      by (simp_all add: hists_wf_def)
    note one [OF this(1) that(2)] one [OF this(2) that(2)] one [OF this(3) that(2)] one [OF this(4) that(2)]
    ultimately show ?thesis by (simp only: list.map insertI1 insertI2 insert_iff simp_thms)
  qed
  have v: "indexComp (update_histories ?s) = map (history_step ?g) (indexComp p)"
    "tagComp (update_histories ?s) = map (map (history_step ?g)) (tagComp p)"
    using update_histories_value [of ?s] h same sg(1) by (simp_all add: hists_wf_def)
  obtain r s where rs: "tagComp p = [r, s]" using length_2E [OF h(2)] by blast
  have "map (map compHist) (tagComp q) = map (map step) (tagComp p)"
    using row [OF h(3)] row [OF h(4)] by (simp add: q v rs)
  moreover have "map compHist (indexComp q) = map step (indexComp p)"
    using row [OF h(1)] by (simp add: q v)
  moreover have "ghr_pad (update_histories ?s) = ghr_pad ?s"
    by (simp add: update_histories_def for_loop_def)
  ultimately show ?thesis using sg by (simp add: q update_phr_value)
qed

theorem update_smears_history_witness:
  "ghr (update_predictor 50 0 5 1 1 64 (after_predict 5)) = 1 # replicate 130 0"
  using update_smears_history [OF after_predict_wf, of 5 False 50 0 5 1 1 64]
  by (simp add: after_predict_fields)

end
