(* ===== verification/TraceFile.thy ===== *)
theory TraceFile
  imports Prelude
begin

text \<open>
  The trace file: what \<open>HELPER(printer)\<close> of \<open>Src_qemu_tofile/helper-a64.c\<close> appends to
  \<open>test.txt\<close>, what \<open>acquire\<close> of the two file-driven predictors reads back, and the
  listing of \<open>UINT64_TO_READABLE/read.c\<close>. A file is its list of bytes; \<open>fwrite\<close> and \<open>fread\<close>
  of 64-bit elements use the little-endian layout of the machines this runs on (the writer and the
  reader run on the same host, so any fixed layout gives the same theorems).
\<close>

unbundle bit_operations_syntax

type_synonym bytes = "u8 list"
type_synonym branch_record = "u64 \<times> u64 \<times> u64"

section \<open>Elements and bytes\<close>

definition bytes_of :: "u64 \<Rightarrow> bytes" where
  "bytes_of x = map (\<lambda>i. ucast (drop_bit (8 * i) x)) [0..<8]"

fun of_bytes :: "bytes \<Rightarrow> u64" where
  "of_bytes [] = 0"
| "of_bytes (b # bs) = ucast b OR push_bit 8 (of_bytes bs)"

definition fwrite :: "u64 list \<Rightarrow> bytes \<Rightarrow> bytes" where
  "fwrite buff fp = fp @ concat (map bytes_of buff)"

text \<open>\<open>fread(buffer, 8, n, fp)\<close>: the number of complete elements, the buffer with them stored and the
  rest of the file. A trailing partial element is consumed.\<close>

fun fread :: "nat \<Rightarrow> bytes \<Rightarrow> u64 list \<times> bytes" where
  "fread 0 fp = ([], fp)"
| "fread (Suc n) fp =
     (if length fp < 8 then ([], [])
      else let (xs, rest) = fread n (drop 8 fp) in (of_bytes (take 8 fp) # xs, rest))"

section \<open>Writing: the instrumentation of the emulator\<close>

abbreviation (input) BUFFER_SIZE :: nat where "BUFFER_SIZE \<equiv> 126"

record printer_state =
  buff :: "u64 list"
  added_length :: nat
  cicle :: u32
  trace_file :: bytes

text \<open>\<open>opened\<close> says whether \<open>fopen\<close> succeeded; when it fails the code prints a message and then
  passes the null pointer to \<open>fwrite\<close>, which is undefined: the result is \<open>None\<close>.\<close>

definition printer :: "bool \<Rightarrow> branch_record \<Rightarrow> printer_state \<Rightarrow> printer_state option" where
  "printer opened r s =
     (case r of (pc, addr, T_NT) \<Rightarrow>
        if 0 \<le> sint (cicle s)
        then let stored = (buff s)[added_length s := pc, added_length s + 1 := addr, added_length s + 2 := T_NT]
             in if added_length s < BUFFER_SIZE - 3
                then Some (s\<lparr>buff := stored, added_length := added_length s + 3\<rparr>)
                else if \<not> opened then None
                else Some (s\<lparr>buff := stored, trace_file := fwrite stored (trace_file s),
                             added_length := 0, cicle := cicle s + 1\<rparr>)
        else Some s)"

definition printer_init :: "bytes \<Rightarrow> printer_state" where
  "printer_init f = \<lparr>buff = replicate BUFFER_SIZE 0, added_length = 0, cicle = 0, trace_file = f\<rparr>"

fun print_all :: "branch_record list \<Rightarrow> printer_state \<Rightarrow> printer_state option" where
  "print_all [] s = Some s"
| "print_all (r # rs) s = Option.bind (printer True r s) (print_all rs)"

section \<open>Reading: the predictors' side\<close>

definition acquire :: "bytes \<Rightarrow> (branch_record \<times> bytes) option" where
  "acquire fp =
     (case fread 3 fp of
        ([pc, addr, T_NT], rest) \<Rightarrow> Some ((pc, addr, T_NT), rest)
      | _ \<Rightarrow> None)"

section \<open>The listing\<close>

fun decimal :: "nat \<Rightarrow> string" where
  "decimal n = (if n < 10 then [char_of (48 + n)] else decimal (n div 10) @ [char_of (48 + n mod 10)])"

declare decimal.simps [simp del]

definition readable_line :: "u64 list \<Rightarrow> nat \<Rightarrow> string" where
  "readable_line buffer i =
     decimal (unat (buffer ! i)) @ '' '' @ decimal (unat (buffer ! (i + 1))) @ '' '' @
     decimal (unat (buffer ! (i + 2))) @ [char_of (10 :: nat)]"

text \<open>One round: \<open>fread\<close> overwrites the front of the buffer with what it got, its result is not
  looked at, and all 42 records of the buffer are printed.\<close>

definition read_round :: "u64 list \<times> bytes \<times> string list \<Rightarrow> u64 list \<times> bytes \<times> string list" where
  "read_round st =
     (case st of (buffer, fp, scr) \<Rightarrow>
        let (got, rest) = fread BUFFER_SIZE fp;
            buffer = got @ drop (length got) buffer
        in (buffer, rest, scr @ map (\<lambda>k. readable_line buffer (3 * k)) [0..<42]))"

definition read_main :: "u64 list \<Rightarrow> bytes \<Rightarrow> string list" where
  "read_main buffer fp = snd (snd (for_loop 0 1000 (\<lambda>_. read_round) (buffer, fp, [])))"

section \<open>Round trip of the elements\<close>

lemma bytes_of_length [simp]: "length (bytes_of x) = 8"
  by (simp add: bytes_of_def)

lemma bit_of_bytes: "n < 64 \<Longrightarrow> bit (of_bytes bs) n \<longleftrightarrow> n < 8 * length bs \<and> bit (bs ! (n div 8)) (n mod 8)"
proof (induction bs arbitrary: n)
  case Nil
  then show ?case by simp
next
  case (Cons b bs)
  show ?case
  proof (cases "n < 8")
    case True
    then show ?thesis by (simp add: bit_or_iff bit_push_bit_iff bit_ucast_iff)
  next
    case False
    then obtain m where m: "n = m + 8" by (metis add.commute le_Suc_ex not_less)
    have "\<not> bit (ucast b :: u64) n" using False by (auto simp: bit_ucast_iff dest: bit_imp_le_length)
    moreover have "(m + 8) div 8 = Suc (m div 8)" by simp
    ultimately show ?thesis using Cons m by (simp add: bit_or_iff bit_push_bit_iff)
  qed
qed

lemma of_bytes_of [simp]: "of_bytes (bytes_of x) = x"
proof (rule bit_word_eqI)
  fix n
  assume n: "n < LENGTH(64)"
  then have "n div 8 < 8" by simp
  then show "bit (of_bytes (bytes_of x)) n = bit x n"
    using n by (simp add: bit_of_bytes) (simp add: bytes_of_def bit_ucast_iff bit_drop_bit_eq)
qed

lemma fread_written: "fread (length xs) (concat (map bytes_of xs) @ rest) = (xs, rest)"
  by (induction xs) simp_all

lemma fread_empty: "fread (Suc n) [] = ([], [])"
  by simp

definition record_words :: "branch_record \<Rightarrow> u64 list" where
  "record_words r = (case r of (pc, addr, T_NT) \<Rightarrow> [pc, addr, T_NT])"

definition record_bytes :: "branch_record list \<Rightarrow> bytes" where
  "record_bytes rs = concat (map bytes_of (concat (map record_words rs)))"

lemma record_words_length [simp]: "length (record_words r) = 3"
  by (simp add: record_words_def split: prod.split)

lemma record_bytes_simps [simp]:
  "record_bytes [] = []"
  "record_bytes (r # rs) = concat (map bytes_of (record_words r)) @ record_bytes rs"
  "record_bytes (rs @ rs') = record_bytes rs @ record_bytes rs'"
  by (simp_all add: record_bytes_def)

lemma acquire_record: "acquire (record_bytes (r # rs)) = Some (r, record_bytes rs)"
  by (cases r) (simp add: acquire_def record_words_def numeral_3_eq_3)

lemma acquire_end: "length fp < 24 \<Longrightarrow> acquire fp = None"
  by (auto simp: acquire_def eval_nat_numeral(3) numeral_2_eq_2 Let_def split: prod.split list.split)

section \<open>The writer: 42 records at a time\<close>

text \<open>The state after the records \<open>rs\<close>: whole groups of 42 are in the file, the rest is in the
  buffer.\<close>

definition holds :: "bytes \<Rightarrow> branch_record list \<Rightarrow> printer_state \<Rightarrow> bool" where
  "holds f0 rs s \<longleftrightarrow>
     (let n = 42 * (length rs div 42)
      in length (buff s) = BUFFER_SIZE \<and> added_length s = 3 * (length rs mod 42) \<and>
         take (added_length s) (buff s) = concat (map record_words (drop n rs)) \<and>
         trace_file s = f0 @ record_bytes (take n rs) \<and> unat (cicle s) = length rs div 42)"

lemma concat_record_length: "length (concat (map record_words rs)) = 3 * length rs"
  by (induction rs) simp_all

lemma take_store_record:
  assumes "k + 2 < length b"
  shows "take (k + 3) (b[k := x, k + 1 := y, k + 2 := z]) = take k b @ [x, y, z]"
proof -
  have "take (Suc (Suc (Suc k))) (b[k := x, Suc k := y, Suc (Suc k) := z]) = take k b @ [x, y, z]"
    using assms by (simp only: take_Suc_conv_app_nth length_list_update) (simp add: take_Suc_conv_app_nth)
  then show ?thesis by (simp add: numeral_3_eq_3)
qed

lemma sint_small: "unat x < 2 ^ 31 \<Longrightarrow> 0 \<le> sint x" for x :: u32
proof -
  assume "unat x < 2 ^ 31"
  then have "int (unat x) < int (2 ^ 31)" by (simp only: of_nat_less_iff)
  then have "uint x < 2 ^ 31" by simp
  then have "uint x div 2 ^ 31 = 0" by (simp add: div_pos_pos_trivial)
  then have "\<not> bit (uint x) 31" by (simp only: bit_iff_odd) simp
  then show ?thesis by (simp only: sint_uint) simp
qed

lemma printer_holds:
  assumes "holds f0 rs s" and "length rs < 42 * 2 ^ 31 - 1"
  shows "\<exists>s'. printer True r s = Some s' \<and> holds f0 (rs @ [r]) s'"
proof -
  define q m where "q = length rs div 42" and "m = length rs mod 42"
  have m: "m < 42" "length rs = 42 * q + m" by (simp_all add: q_def m_def)
  obtain pc addr t where r: "r = (pc, addr, t)" by (cases r) auto
  from assms(1) have h: "length (buff s) = 126" "added_length s = 3 * m"
    "take (3 * m) (buff s) = concat (map record_words (drop (42 * q) rs))"
    "trace_file s = f0 @ record_bytes (take (42 * q) rs)" "unat (cicle s) = q"
    unfolding holds_def Let_def q_def [symmetric] m_def [symmetric] by auto
  have c: "0 \<le> sint (cicle s)" using h(5) assms(2) m by (intro sint_small) simp
  let ?b = "(buff s)[3 * m := pc, 3 * m + 1 := addr, 3 * m + 2 := t]"
  have st: "take (3 * m + 3) ?b = concat (map record_words (drop (42 * q) (rs @ [r])))"
    using take_store_record [of "3 * m" "buff s" pc addr t] m h(1,3) by (simp add: r record_words_def)
  show ?thesis
  proof (cases "m = 41")
    case False
    then have d: "Suc (42 * q + m) div 42 = q" "Suc (42 * q + m) mod 42 = Suc m" using m(1) by simp_all
    let ?s = "s\<lparr>buff := ?b, added_length := 3 * m + 3\<rparr>"
    have "printer True r s = Some ?s" using False m(1) c by (simp add: printer_def r h(2))
    moreover have "holds f0 (rs @ [r]) ?s"
      unfolding holds_def Let_def using h st m d by (simp add: add.commute)
    ultimately show ?thesis by blast
  next
    case True
    then have d: "Suc (42 * q + m) div 42 = Suc q" "Suc (42 * q + m) mod 42 = 0" by simp_all
    have b: "?b = concat (map record_words (drop (42 * q) (rs @ [r])))"
      using st True h(1) by simp
    let ?s = "s\<lparr>buff := ?b, trace_file := fwrite ?b (trace_file s), added_length := 0, cicle := cicle s + 1\<rparr>"
    have "printer True r s = Some ?s" using True c by (simp add: printer_def r h(2) Let_def)
    moreover have "trace_file ?s = f0 @ record_bytes (rs @ [r])"
    proof -
      have "record_bytes (rs @ [r]) = record_bytes (take (42 * q) rs) @ record_bytes (drop (42 * q) rs @ [r])"
        by (metis append.assoc append_take_drop_id record_bytes_simps(3))
      moreover have "concat (map bytes_of ?b) = record_bytes (drop (42 * q) rs @ [r])"
        unfolding b record_bytes_def using m by simp
      ultimately show ?thesis by (simp add: fwrite_def h(4))
    qed
    moreover have "unat (cicle s + 1) = Suc q" using h(5) assms(2) m by (simp add: unat_word_ariths)
    ultimately show ?thesis using h(1) m d by (auto simp: holds_def Let_def)
  qed
qed

lemma holds_init: "holds f0 [] (printer_init f0)"
  by (simp add: holds_def printer_init_def)

lemma print_all_holds:
  assumes "length rs < 42 * 2 ^ 31" and "holds f0 rs0 s" and "length (rs0 @ rs) < 42 * 2 ^ 31"
  shows "\<exists>s'. print_all rs s = Some s' \<and> holds f0 (rs0 @ rs) s'"
  using assms(2,3)
proof (induction rs arbitrary: rs0 s)
  case Nil
  then show ?case by simp
next
  case (Cons r rs)
  obtain s1 where s1: "printer True r s = Some s1" "holds f0 (rs0 @ [r]) s1"
    using printer_holds [OF Cons.prems(1), of r] Cons.prems(2) by auto
  from Cons.IH [OF s1(2)] Cons.prems(2) s1(1) show ?case by auto
qed

text \<open>Reading records back from the bytes of a file.\<close>

fun acquire_all :: "nat \<Rightarrow> bytes \<Rightarrow> branch_record list" where
  "acquire_all 0 fp = []"
| "acquire_all (Suc n) fp =
     (case acquire fp of None \<Rightarrow> [] | Some (r, rest) \<Rightarrow> r # acquire_all n rest)"

lemma acquire_all_records: "acquire_all (length rs + n) (record_bytes rs) = rs"
proof (induction rs)
  case Nil
  then show ?case by (cases n) (simp_all add: acquire_end)
next
  case (Cons r rs)
  then show ?case by (simp add: acquire_record del: record_bytes_simps)
qed

text \<open>What the instrumented emulator logs is what the predictor reads back, in order and complete
  up to the last group of 42 records: the records of an unfinished group stay in the writer's
  static buffer and never reach the file.\<close>

theorem trace_round_trip:
  assumes "length rs < 42 * 2 ^ 31" and "length rs \<le> n"
  shows "\<exists>s. print_all rs (printer_init []) = Some s \<and>
    acquire_all n (trace_file s) = take (42 * (length rs div 42)) rs"
proof -
  obtain s where s: "print_all rs (printer_init []) = Some s" "holds [] rs s"
    using print_all_holds [OF assms(1) holds_init] assms(1) by auto
  let ?k = "42 * (length rs div 42)"
  have k: "?k \<le> length rs" by simp
  then have "n = length (take ?k rs) + (n - ?k)" using assms(2) by simp
  then have "acquire_all n (record_bytes (take ?k rs)) = take ?k rs"
    by (metis acquire_all_records)
  then show ?thesis using s by (auto simp: holds_def Let_def)
qed

theorem trace_round_trip_witness:
  "\<exists>s. print_all (replicate 85 (64, 128, 1)) (printer_init []) = Some s \<and>
     acquire_all 100 (trace_file s) = replicate 84 (64, 128, 1)"
  using trace_round_trip [of "replicate 85 (64, 128, 1)" 100] by simp

section \<open>The listing\<close>

fun parse_decimal :: "nat \<Rightarrow> string \<Rightarrow> nat" where
  "parse_decimal acc [] = acc"
| "parse_decimal acc (c # cs) = parse_decimal (10 * acc + (of_char c - 48)) cs"

lemma parse_decimal_append: "parse_decimal acc (s @ t) = parse_decimal (parse_decimal acc s) t"
  by (induction s arbitrary: acc) simp_all

lemma of_char_digit: "d < 10 \<Longrightarrow> of_char (char_of (48 + d :: nat)) = 48 + d"
  by simp

text \<open>The decimal rendering of a value reads back as that value, so the listing loses nothing of
  a field, and different fields are listed differently.\<close>

theorem decimal_round_trip: "parse_decimal 0 (decimal n) = n"
proof (induction n rule: decimal.induct)
  case (1 n)
  then show ?case
    by (cases "n < 10") (simp_all add: decimal.simps [of n] parse_decimal_append)
qed

definition line_of :: "branch_record \<Rightarrow> string" where
  "line_of r = (case r of (pc, addr, t) \<Rightarrow>
     decimal (unat pc) @ '' '' @ decimal (unat addr) @ '' '' @ decimal (unat t) @ [char_of (10 :: nat)])"

lemma nth_record_words:
  "i < length rs \<Longrightarrow> concat (map record_words rs) ! (3 * i) = fst (rs ! i) \<and>
     concat (map record_words rs) ! (3 * i + 1) = fst (snd (rs ! i)) \<and>
     concat (map record_words rs) ! (3 * i + 2) = snd (snd (rs ! i))"
proof (induction rs arbitrary: i)
  case Nil
  then show ?case by simp
next
  case (Cons r rs)
  show ?case
  proof (cases i)
    case 0
    then show ?thesis by (cases r) (simp add: record_words_def)
  next
    case (Suc j)
    have n: "(record_words r @ ys) ! (k + 3) = ys ! k" for ys k by (simp add: nth_append)
    have "3 * i = 3 * j + 3" "3 * i + 1 = (3 * j + 1) + 3" "3 * i + 2 = (3 * j + 2) + 3" using Suc by simp_all
    then have "(record_words r @ ys) ! (3 * i) = ys ! (3 * j)"
      "(record_words r @ ys) ! (3 * i + 1) = ys ! (3 * j + 1)"
      "(record_words r @ ys) ! (3 * i + 2) = ys ! (3 * j + 2)" for ys
      using n by metis+
    then show ?thesis using Cons.IH [of j] Cons.prems Suc by (simp only: list.map concat.simps) simp
  qed
qed

lemma lines_of_block:
  assumes "length rs = 42"
  shows "map (\<lambda>k. readable_line (concat (map record_words rs)) (3 * k)) [0..<42] = map line_of rs"
proof (rule nth_equalityI)
  show "length (map (\<lambda>k. readable_line (concat (map record_words rs)) (3 * k)) [0..<42]) = length (map line_of rs)"
    using assms by simp
  fix k
  assume "k < length (map (\<lambda>k. readable_line (concat (map record_words rs)) (3 * k)) [0..<42])"
  then have k: "k < 42" by simp
  with nth_record_words [of k rs] assms
  have "readable_line (concat (map record_words rs)) (3 * k) = line_of (rs ! k)"
    by (simp only: readable_line_def line_of_def split_beta)
  then show "map (\<lambda>k. readable_line (concat (map record_words rs)) (3 * k)) [0..<42] ! k = map line_of rs ! k"
    using k assms by simp
qed

lemma read_round_block:
  assumes "length rs = 42"  and "length buffer = 126"
  shows "read_round (buffer, record_bytes rs @ rest, scr) =
    (concat (map record_words rs), rest, scr @ map line_of rs)"
proof -
  let ?w = "concat (map record_words rs)"
  have l: "length ?w = 126" using assms concat_record_length [of rs] by simp
  have "fread 126 (record_bytes rs @ rest) = (?w, rest)"
    using fread_written [of ?w rest] unfolding l record_bytes_def .
  with l assms show ?thesis by (simp add: read_round_def lines_of_block [OF assms(1)])
qed

lemma read_round_end:
  assumes "length rs = 42"
  shows "read_round (concat (map record_words rs), [], scr) =
    (concat (map record_words rs), [], scr @ map line_of rs)"
  using fread_empty [of 125] by (simp add: read_round_def lines_of_block [OF assms])

lemma for_loop_funpow: "for_loop 0 n (\<lambda>_. f) s = (f ^^ n) s"
  by (induction n) (simp_all add: for_loop_last)

lemma read_rounds_end:
  assumes "length rs = 42"
  shows "(read_round ^^ n) (concat (map record_words rs), [], scr) =
    (concat (map record_words rs), [], scr @ concat (replicate n (map line_of rs)))"
proof (induction n)
  case (Suc n)
  have "concat (replicate n xs) @ xs = xs @ concat (replicate n xs)" for xs :: "string list"
    by (induction n) simp_all
  with Suc show ?case by (simp add: read_round_end [OF assms])
qed simp

lemma read_rounds_blocks:
  assumes "\<And>b. b \<in> set blocks \<Longrightarrow> length b = 42" and "length buffer = 126" and "blocks \<noteq> []"
  shows "(read_round ^^ length blocks) (buffer, record_bytes (concat blocks), scr) =
    (concat (map record_words (last blocks)), [], scr @ map line_of (concat blocks))"
  using assms
proof (induction blocks arbitrary: buffer scr)
  case Nil
  then show ?case by simp
next
  case (Cons b bs)
  have b: "length b = 42" using Cons.prems by simp
  then have l: "length (concat (map record_words b)) = 126" by (simp add: concat_record_length)
  show ?case
  proof (cases "bs = []")
    case True
    then show ?thesis using read_round_block [OF b Cons.prems(2), of "[]"] by simp
  next
    case False
    with Cons b l show ?thesis
      by (simp add: funpow_swap1 read_round_block del: funpow.simps) (simp add: funpow_swap1 read_round_block)
  qed
qed

text \<open>The listing of a log of \<open>k\<close> groups, at most 1000, shows every record on its line in order, and
  then repeats the last group up to the thousandth, because the result of \<open>fread\<close> is not checked.\<close>

theorem read_main_listing:
  assumes "\<And>b. b \<in> set blocks \<Longrightarrow> length b = 42" and "length buffer = BUFFER_SIZE"
    and "blocks \<noteq> []" and "length blocks \<le> 1000"
  shows "read_main buffer (record_bytes (concat blocks)) =
    map line_of (concat blocks) @ concat (replicate (1000 - length blocks) (map line_of (last blocks)))"
proof -
  have last: "length (last blocks) = 42" using assms(1,3) by simp
  have "(read_round ^^ 1000) (buffer, record_bytes (concat blocks), []) =
      (read_round ^^ (1000 - length blocks)) ((read_round ^^ length blocks) (buffer, record_bytes (concat blocks), []))"
    using funpow_add [of "1000 - length blocks" "length blocks" read_round] assms(4) by simp
  also have "\<dots> = (read_round ^^ (1000 - length blocks))
      (concat (map record_words (last blocks)), [], map line_of (concat blocks))"
    using read_rounds_blocks [OF assms(1,2,3), where scr = "[]"] by simp
  finally show ?thesis by (simp add: read_main_def for_loop_funpow read_rounds_end [OF last])
qed

theorem read_main_listing_witness:
  "read_main (replicate 126 0) (record_bytes (replicate 42 (64, 128, 1))) =
     replicate 42 (line_of (64, 128, 1)) @ concat (replicate 999 (replicate 42 (line_of (64, 128, 1))))"
  using read_main_listing [of "[replicate 42 (64, 128, 1)]" "replicate 126 0"] by simp

end
