(* ===== verification/TraceLoop.thy ===== *)
theory TraceLoop
  imports TraceFile Complex_Main
begin

text \<open>
  The measurement loop that the predictors share: acquire a record, let the predictor see it, count
  the branch and the hit. The locale \<open>trace_predictor\<close> is the contract between the loop and a
  predictor: the step for the \<open>i\<close>-th branch keeps the predictor's invariant. The counters of the
  C code are \<open>double\<close> or \<open>int\<close>; they count branches one by one and are exact far beyond any trace,
  so they are \<open>nat\<close> here.
\<close>

section \<open>The loop\<close>

text \<open>\<open>while(acquire(fp, buffer) != -1 && iCount < desired)\<close>: the record is read before the count is
  compared. The state is the count, the hits and the predictor.\<close>

type_synonym 's progress = "nat \<times> nat \<times> 's"

definition count_branch :: "bool \<Rightarrow> 's \<Rightarrow> 's progress \<Rightarrow> 's progress" where
  "count_branch good s' st = (case st of (iCount, hits, s) \<Rightarrow>
     (iCount + 1, if good then hits + 1 else hits, s'))"

definition measure_branch :: "(nat \<Rightarrow> 'r \<Rightarrow> 's \<Rightarrow> bool \<times> 's) \<Rightarrow> 'r \<Rightarrow> 's progress \<Rightarrow> 's progress" where
  "measure_branch step r st = (case st of (iCount, hits, s) \<Rightarrow>
     (case step iCount r s of (good, s') \<Rightarrow> count_branch good s' st))"

lemma fread_length: "length (snd (fread n fp)) \<le> length fp"
proof (induction n arbitrary: fp)
  case 0
  then show ?case by simp
next
  case (Suc n)
  show ?case using Suc [of "drop 8 fp"] by (auto simp: Let_def split: prod.split)
qed

lemma acquire_shrinks: "acquire fp = Some (r, rest) \<Longrightarrow> length rest < length fp"
proof -
  assume a: "acquire fp = Some (r, rest)"
  then have "\<not> length fp < 24" using acquire_end [of fp] by auto
  moreover from a have "rest = snd (fread 3 fp)"
    by (auto simp: acquire_def split: prod.splits list.splits)
  moreover have "snd (fread (Suc n) fp) = snd (fread n (drop 8 fp))" if "8 \<le> length fp" for n
    using that by (simp add: Let_def split: prod.split)
  ultimately show ?thesis
    using fread_length [of "Suc (Suc 0)" "drop 8 fp"] by (simp add: numeral_3_eq_3 del: fread.simps)
qed

function trace_loop ::
  "(nat \<Rightarrow> branch_record \<Rightarrow> 's \<Rightarrow> bool \<times> 's) \<Rightarrow> int \<Rightarrow> bytes \<Rightarrow> 's progress \<Rightarrow> 's progress" where
  "trace_loop step desired fp st =
     (case acquire fp of
        None \<Rightarrow> st
      | Some (r, rest) \<Rightarrow>
          if int (fst st) < desired then trace_loop step desired rest (measure_branch step r st) else st)"
  by pat_completeness auto
termination
  by (relation "measure (\<lambda>(step, desired, fp, st). length fp)") (auto dest: acquire_shrinks)

declare trace_loop.simps [simp del]

text \<open>The accuracy in percent and the mispredictions per thousand branches, as the programs report
  them; with no branch measured the C code divides zero by zero, which is not a number.\<close>

definition accurate :: "nat \<Rightarrow> nat \<Rightarrow> real option" where
  "accurate iCount hits = (if iCount = 0 then None else Some (real hits * 100 / real iCount))"

definition MPKBr :: "nat \<Rightarrow> nat \<Rightarrow> real option" where
  "MPKBr iCount hits = (if iCount = 0 then None else Some ((1 - real hits / real iCount) * 1000))"

text \<open>The reference: measure the first \<open>desired\<close> records of a list.\<close>

definition measured :: "(nat \<Rightarrow> 'r \<Rightarrow> 's \<Rightarrow> bool \<times> 's) \<Rightarrow> 'r list \<Rightarrow> 's progress \<Rightarrow> 's progress" where
  "measured step rs st = fold (measure_branch step) rs st"

lemma fst_measure_branch [simp]: "fst (measure_branch step r st) = Suc (fst st)"
  by (simp add: measure_branch_def count_branch_def split: prod.split)

lemma fst_measured [simp]: "fst (measured step rs st) = fst st + length rs"
  by (induction rs arbitrary: st) (simp_all add: measured_def)

lemma measured_simps [simp]:
  "measured step [] st = st" "measured step (r # rs) st = measured step rs (measure_branch step r st)"
  "measured step (rs @ rs') st = measured step rs' (measured step rs st)"
  by (simp_all add: measured_def)

lemma trace_loop_measured:
  "trace_loop step desired (record_bytes rs) st = measured step (take (nat (desired - int (fst st))) rs) st"
proof (induction rs arbitrary: st)
  case Nil
  then show ?case by (simp add: trace_loop.simps acquire_end)
next
  case (Cons r rs)
  show ?case
  proof (cases "int (fst st) < desired")
    case True
    then have "nat (desired - int (fst st)) = Suc (nat (desired - int (Suc (fst st))))" by simp
    then show ?thesis
      using Cons True by (subst trace_loop.simps) (simp add: acquire_record del: record_bytes_simps)
  next
    case False
    then show ?thesis
      by (subst trace_loop.simps) (simp add: acquire_record del: record_bytes_simps)
  qed
qed

lemma progress_eq: "(fst st, fst (snd st), snd (snd st)) = st"
  by simp

section \<open>The contract of a predictor\<close>

locale trace_predictor =
  fixes step :: "nat \<Rightarrow> 'r \<Rightarrow> 's \<Rightarrow> bool \<times> 's" and inv :: "'s \<Rightarrow> bool"
  assumes step_inv: "inv s \<Longrightarrow> inv (snd (step i r s))"
begin

lemma measure_branch_sound:
  assumes "inv (snd (snd st))" and "fst (snd st) \<le> fst st"
  shows "inv (snd (snd (measure_branch step r st)))"
    and "fst (snd (measure_branch step r st)) \<le> fst (measure_branch step r st)"
  using assms step_inv [of "snd (snd st)" "fst st" r]
  by (auto simp: measure_branch_def count_branch_def split: prod.splits)

lemma measured_sound:
  assumes "inv (snd (snd st))" and "fst (snd st) \<le> fst st"
  shows "inv (snd (snd (measured step rs st))) \<and> fst (snd (measured step rs st)) \<le> fst st + length rs"
  using assms
proof (induction rs arbitrary: st)
  case Nil
  then show ?case by simp
next
  case (Cons r rs)
  from Cons.IH [OF measure_branch_sound [OF Cons.prems, of r]] show ?case by simp
qed

lemma accuracy_range:
  assumes "inv s" and "rs \<noteq> []"
  obtains a where "accurate (fst (measured step rs (0, 0, s))) (fst (snd (measured step rs (0, 0, s)))) = Some a"
    and "0 \<le> a" and "a \<le> 100"
    and "MPKBr (fst (measured step rs (0, 0, s))) (fst (snd (measured step rs (0, 0, s)))) = Some (1000 - 10 * a)"
proof -
  let ?n = "length rs" and ?h = "fst (snd (measured step rs (0, 0, s)))"
  have h: "?h \<le> ?n" using measured_sound [of "(0, 0, s)" rs] assms(1) by simp
  have n: "0 < ?n" using assms(2) by simp
  show thesis
  proof (rule that)
    show "accurate (fst (measured step rs (0, 0, s))) ?h = Some (real ?h * 100 / real ?n)"
      using n by (simp add: accurate_def)
    show "0 \<le> real ?h * 100 / real ?n" by simp
    show "real ?h * 100 / real ?n \<le> 100" using h n by (simp add: divide_le_eq)
    show "MPKBr (fst (measured step rs (0, 0, s))) ?h = Some (1000 - 10 * (real ?h * 100 / real ?n))"
      using n by (simp add: MPKBr_def)
  qed
qed

end

end
