(* ===== verification/TageDriver.thy ===== *)
theory TageDriver
  imports TageProps TraceLoop
begin

text \<open>
  The two programs that drive the L-TAGE predictor: the file-driven \<open>predictor.c\<close> and the inner loop
  of the shared-memory \<open>server.c\<close>. The random number and the memory cell after \<open>bank_store\<close> that
  the \<open>i\<close>-th update meets are the parameters \<open>rnd\<close> and \<open>junk\<close>.
\<close>

section \<open>The code\<close>

definition tage_step :: "(nat \<Rightarrow> nat) \<Rightarrow> (nat \<Rightarrow> int) \<Rightarrow> nat \<Rightarrow> branch_record \<Rightarrow> predictor \<Rightarrow> bool \<times> predictor" where
  "tage_step rnd junk i r p =
     (case r of (pc, tAddr, t_nt) \<Rightarrow>
        let (tmp_tage_pred, p) = get_prediction pc p;
            p = update_predictor (rnd i) (junk i) pc t_nt tmp_tage_pred tAddr p
        in (tmp_tage_pred = t_nt, p))"

text \<open>\<open>main\<close> of \<open>predictor.c\<close>: the count, the hits and the final predictor.\<close>

definition tage_main ::
  "(nat \<Rightarrow> nat) \<Rightarrow> (nat \<Rightarrow> int) \<Rightarrow> (nat \<Rightarrow> component list) \<Rightarrow> predictor \<Rightarrow> int \<Rightarrow> bytes \<Rightarrow> predictor progress" where
  "tage_main rnd junk mem p desired fp =
     trace_loop (tage_step rnd junk) desired fp (0, 0, initTagePredictor mem p)"

text \<open>The server's loop over one sector: \<open>for(i = 0; i < NDATA && iCount < desiredIstr; i++)\<close>.\<close>

fun sector_loop ::
  "(nat \<Rightarrow> branch_record \<Rightarrow> 's \<Rightarrow> bool \<times> 's) \<Rightarrow> int \<Rightarrow> branch_record list \<Rightarrow> 's progress \<Rightarrow> 's progress" where
  "sector_loop step desiredIstr [] st = st"
| "sector_loop step desiredIstr (r # rs) st =
     (if int (fst st) < desiredIstr
      then sector_loop step desiredIstr rs (measure_branch step r st) else st)"

text \<open>\<open>while(iCount < desiredIstr)\<close> over the sectors that the client filled, in order.\<close>

fun server_loop ::
  "(nat \<Rightarrow> branch_record \<Rightarrow> 's \<Rightarrow> bool \<times> 's) \<Rightarrow> int \<Rightarrow> branch_record list list \<Rightarrow> 's progress \<Rightarrow> 's progress" where
  "server_loop step desiredIstr [] st = st"
| "server_loop step desiredIstr (sector # sectors) st =
     (if int (fst st) < desiredIstr
      then server_loop step desiredIstr sectors (sector_loop step desiredIstr sector st) else st)"

section \<open>The predictor meets the contract of the loop\<close>

lemma tage_step_wf: "tage_wf p \<Longrightarrow> tage_wf (snd (tage_step rnd junk i r p))"
  using get_prediction_wf [of p "fst r"]
  by (auto simp: tage_step_def Let_def update_predictor_wf split: prod.split)

interpretation tage: trace_predictor "tage_step rnd junk" tage_wf for rnd junk
  by unfold_locales (rule tage_step_wf)

lemma sector_loop_measured:
  "sector_loop step d rs st = measured step (take (nat (d - int (fst st))) rs) st"
proof (induction rs arbitrary: st)
  case Nil
  then show ?case by simp
next
  case (Cons r rs)
  show ?case
  proof (cases "int (fst st) < d")
    case True
    then have "nat (d - int (fst st)) = Suc (nat (d - int (Suc (fst st))))" by simp
    with True Cons show ?thesis by simp
  qed simp
qed

lemma server_loop_measured:
  "server_loop step d ss st = measured step (take (nat (d - int (fst st))) (concat ss)) st"
proof (induction ss arbitrary: st)
  case Nil
  then show ?case by simp
next
  case (Cons s ss)
  show ?case
  proof (cases "int (fst st) < d")
    case True
    let ?n = "nat (d - int (fst st))"
    have "nat (d - int (fst st + length (take ?n s))) = ?n - length s" by auto
    with True Cons show ?thesis by (simp add: sector_loop_measured take_append)
  qed simp
qed

text \<open>C21: the shared-memory server and the file-driven program compute the same measurement: the server
  fed with sectors reaches the count, the hits and the predictor state that the file program
  reaches on the file of the same records, whatever the sector boundaries.\<close>

theorem server_equals_file:
  "server_loop (tage_step rnd junk) desired sectors (0, 0, initTagePredictor mem p) =
     tage_main rnd junk mem p desired (record_bytes (concat sectors))"
  by (simp add: server_loop_measured tage_main_def trace_loop_measured)

text \<open>A run of the file program over a log measures the first \<open>desired\<close> branches of it, keeps the
  predictor's invariant, and reports an accuracy between 0 and 100 percent with the mispredictions
  per thousand branches that match it.\<close>

theorem tage_main_measures:
  assumes "tage_shape p" and "\<And>ii. ii < NUMTAGTABLES \<Longrightarrow> length (mem ii) = 2 ^ TAGPREDLOG"
    and "tage_main rnd junk mem p desired (record_bytes rs) = (iCount, hits, q)"
    and "0 < desired" and "rs \<noteq> []"
  shows "iCount = min (nat desired) (length rs) \<and> tage_wf q \<and>
    (\<exists>a. accurate iCount hits = Some a \<and> 0 \<le> a \<and> a \<le> 100 \<and> MPKBr iCount hits = Some (1000 - 10 * a))"
proof -
  let ?rs = "take (nat desired) rs"
  let ?m = "measured (tage_step rnd junk) ?rs (0, 0, initTagePredictor mem p)"
  have w: "tage_wf (initTagePredictor mem p)" by (rule init_invariant [OF assms(1,2)])
  have m: "?m = (iCount, hits, q)" using assms(3) by (simp add: tage_main_def trace_loop_measured)
  have ne: "?rs \<noteq> []" using assms(4,5) by simp
  obtain a where "accurate (fst ?m) (fst (snd ?m)) = Some a" "0 \<le> a" "a \<le> 100"
    "MPKBr (fst ?m) (fst (snd ?m)) = Some (1000 - 10 * a)"
    using tage.accuracy_range [OF w ne] by blast
  moreover have "tage_wf (snd (snd ?m))"
    using tage.measured_sound [of "(0, 0, initTagePredictor mem p)" rnd junk ?rs] w by simp
  moreover have "fst ?m = min (nat desired) (length rs)" by (simp add: min.commute)
  ultimately show ?thesis unfolding m by simp
qed

theorem tage_main_measures_witness:
  "fst (tage_main (\<lambda>_. 50) (\<lambda>_. 0) raw_blocks raw_memory 2 (record_bytes [(4, 8, 1), (8, 12, 0), (4, 8, 1)])) = 2"
  using tage_main_measures [where mem = raw_blocks, OF raw_memory_shape raw_blocks_length
      progress_eq [symmetric], of 2 "[(4, 8, 1), (8, 12, 0), (4, 8, 1)]" "\<lambda>_. 50" "\<lambda>_. 0"]
  by simp

end
