(* ===== verification/Bimodal.thy ===== *)
theory Bimodal
  imports TraceLoop
begin

text \<open>
  The bimodal predictor (\<open>branch.c\<close>): a hash table of 1024 chains of nodes. A chain is the list of its
  nodes from the head on; a node is only reachable through its chain, so lists lose nothing. The
  code finds the node of the branch in the chain but reads and trains the counter of the head.
\<close>

unbundle bit_operations_syntax

section \<open>The code\<close>

record node =
  PC :: u64
  target_addr :: u64
  state :: u64

type_synonym table = "node list list"

abbreviation (input) INITIAL_VALUE :: u64 where "INITIAL_VALUE \<equiv> 3"

definition APHash :: "u64 \<Rightarrow> u64" where
  "APHash addr =
     for_loop 0 63
       (\<lambda>i hash. hash XOR
          (if of_nat i AND 1 = (0 :: u32)
           then push_bit 7 hash XOR ((drop_bit i addr AND 1) * drop_bit 3 hash)
           else NOT (push_bit 11 hash + ((drop_bit i addr AND 1) XOR drop_bit 5 hash))))
       0xCCCCCCCCCCCCCCCC"

definition bucket :: "u64 \<Rightarrow> nat" where
  "bucket pc = unat (APHash pc mod 1024)"

definition add_node :: "u64 \<Rightarrow> u64 \<Rightarrow> u64 \<Rightarrow> node" where
  "add_node pc target decision = \<lparr>PC = pc, target_addr = target, state = INITIAL_VALUE\<rparr>"

fun size_loop :: "node list \<Rightarrow> int \<Rightarrow> int" where
  "size_loop (n # m # ns) counter_size = size_loop (m # ns) (counter_size + 1)"
| "size_loop _ counter_size = counter_size"

definition size_counter :: "table \<Rightarrow> nat \<Rightarrow> int" where
  "size_counter t index = (if t ! index = [] then 1 else size_loop (t ! index) 1)"

text \<open>\<open>while(temp_node->next != NULL && temp_node->PC != PC)\<close>: the node it stops at.\<close>

fun find_node :: "u64 \<Rightarrow> node list \<Rightarrow> node option" where
  "find_node pc [] = None"
| "find_node pc [n] = Some n"
| "find_node pc (n # m # ns) = (if PC n \<noteq> pc then find_node pc (m # ns) else Some n)"

text \<open>The two switches on the counter: whether the prediction was right, and the new counter.\<close>

definition train :: "u64 \<Rightarrow> u64 \<Rightarrow> bool \<times> u64" where
  "train taken s =
     (if taken = 1
      then if s = 0 then (False, s + 1) else if s = 1 then (False, s + 1)
           else if s = 2 then (True, s + 1) else if s = 3 then (True, s) else (False, s)
      else if s = 0 then (True, s) else if s = 1 then (True, s - 1)
           else if s = 2 then (False, s - 1) else if s = 3 then (False, s - 1) else (False, s))"

definition set_head_state :: "u64 \<Rightarrow> node list \<Rightarrow> node list" where
  "set_head_state s ns = (case ns of [] \<Rightarrow> [] | n # ns \<Rightarrow> n\<lparr>state := s\<rparr> # ns)"

definition bimodal_implementation :: "table \<Rightarrow> u64 \<Rightarrow> u64 \<Rightarrow> u64 \<Rightarrow> bool \<times> table" where
  "bimodal_implementation t pc taken target =
     (let b = bucket pc; chain = t ! b
      in case find_node pc chain of
           None \<Rightarrow> (False, t[b := [add_node pc target taken]])
         | Some temp_node \<Rightarrow>
             if PC temp_node = pc
             then let (correct, s) = train taken (state (hd chain))
                  in (correct, t[b := set_head_state s chain])
             else (False, t[b := chain @ [add_node pc target taken]]))"

definition bimodal_step :: "nat \<Rightarrow> branch_record \<Rightarrow> table \<Rightarrow> bool \<times> table" where
  "bimodal_step i r t = (case r of (pc, target, taken) \<Rightarrow> bimodal_implementation t pc taken target)"

definition empty_table :: table where
  "empty_table = replicate 1024 []"

definition table_size :: "table \<Rightarrow> int" where
  "table_size t = for_loop 0 1024 (\<lambda>i tot. tot + size_counter t i) 0"

definition bimodal_main :: "int \<Rightarrow> bytes \<Rightarrow> nat \<times> nat \<times> int" where
  "bimodal_main desired fp =
     (case trace_loop bimodal_step desired fp (0, 0, empty_table) of
        (iCount, hits, t) \<Rightarrow> (iCount, hits, table_size t))"

section \<open>The invariant of the table\<close>

definition chain_wf :: "nat \<Rightarrow> node list \<Rightarrow> bool" where
  "chain_wf b ns \<longleftrightarrow> distinct (map PC ns) \<and> list_all (\<lambda>n. bucket (PC n) = b) ns \<and>
     list_all (\<lambda>n. unat (state n) \<le> 3) ns \<and> list_all (\<lambda>n. state n = INITIAL_VALUE) (tl ns)"

definition table_wf :: "table \<Rightarrow> bool" where
  "table_wf t \<longleftrightarrow> length t = 1024 \<and> (\<forall>b < 1024. chain_wf b (t ! b))"

definition known :: "table \<Rightarrow> u64 \<Rightarrow> bool" where
  "known t pc \<longleftrightarrow> pc \<in> PC ` set (t ! bucket pc)"

lemma bucket_less: "bucket pc < 1024"
  by (simp add: bucket_def unat_mod_distrib)

lemma find_node_None: "find_node pc ns = None \<longleftrightarrow> ns = []"
  by (induction pc ns rule: find_node.induct) auto

lemma find_node_known: "find_node pc ns = Some n \<Longrightarrow> PC n = pc \<longleftrightarrow> pc \<in> PC ` set ns"
  by (induction pc ns rule: find_node.induct) (auto split: if_split_asm)

text \<open>The code without its loop: a known branch trains the head of its chain, an unknown one is
  appended to it.\<close>

lemma bimodal_implementation_eq:
  "bimodal_implementation t pc taken target =
     (if known t pc
      then (fst (train taken (state (hd (t ! bucket pc)))),
            t[bucket pc := set_head_state (snd (train taken (state (hd (t ! bucket pc))))) (t ! bucket pc)])
      else (False, t[bucket pc := t ! bucket pc @ [add_node pc target taken]]))"
proof (cases "find_node pc (t ! bucket pc)")
  case None
  then show ?thesis by (simp add: bimodal_implementation_def known_def find_node_None)
next
  case (Some n)
  from find_node_known [OF Some] Some show ?thesis
    by (simp add: bimodal_implementation_def known_def Let_def case_prod_beta)
qed

lemma small_state_cases: "unat s \<le> 3 \<Longrightarrow> s = 0 \<or> s = 1 \<or> s = 2 \<or> s = 3" for s :: u64
proof -
  assume "unat s \<le> 3"
  then have "unat s \<in> {0, 1, 2, 3}" by auto
  then have "s \<in> of_nat ` {0, 1, 2, 3}" by (rule image_eqI [rotated]) simp
  then show ?thesis by auto
qed

lemma train_reference:
  assumes "unat s \<le> 3"
  shows "fst (train taken s) \<longleftrightarrow> (taken = 1 \<longleftrightarrow> 2 \<le> unat s)"
    and "unat (snd (train taken s)) = (if taken = 1 then min 3 (unat s + 1) else unat s - 1)"
  using small_state_cases [OF assms] by (auto simp: train_def)

lemma set_head_state_simps [simp]:
  "map PC (set_head_state s ns) = map PC ns" "tl (set_head_state s ns) = tl ns"
  "ns \<noteq> [] \<Longrightarrow> state (hd (set_head_state s ns)) = s" "set_head_state s ns = [] \<longleftrightarrow> ns = []"
  "length (set_head_state s ns) = length ns"
  by (simp_all add: set_head_state_def split: list.split)

lemma chain_wf_head:
  assumes "chain_wf b ns" and "unat s \<le> 3"
  shows "chain_wf b (set_head_state s ns)"
  using assms by (cases ns) (auto simp: chain_wf_def set_head_state_def)

lemma chain_wf_add:
  assumes "chain_wf (bucket pc) ns" and "pc \<notin> PC ` set ns"
  shows "chain_wf (bucket pc) (ns @ [add_node pc target taken])"
  using assms by (cases ns) (auto simp: chain_wf_def add_node_def)

lemma known_chain: "known t pc \<Longrightarrow> t ! bucket pc \<noteq> []"
  by (auto simp: known_def)

lemma head_state_range:
  assumes "table_wf t" and "known t pc"
  shows "unat (state (hd (t ! bucket pc))) \<le> 3"
proof -
  have "chain_wf (bucket pc) (t ! bucket pc)" using assms(1) bucket_less by (simp add: table_wf_def)
  then show ?thesis using known_chain [OF assms(2)] by (cases "t ! bucket pc") (auto simp: chain_wf_def)
qed

lemma bimodal_wf:
  assumes "table_wf t"
  shows "table_wf (snd (bimodal_implementation t pc taken target))"
proof -
  have c: "chain_wf (bucket pc) (t ! bucket pc)" using assms bucket_less by (simp add: table_wf_def)
  have "known t pc \<Longrightarrow> unat (snd (train taken (state (hd (t ! bucket pc))))) \<le> 3"
    using head_state_range [OF assms, of pc]
    by (auto simp: train_reference intro: le_trans [OF diff_le_self])
  with c have "chain_wf (bucket pc) (snd (bimodal_implementation t pc taken target) ! bucket pc)"
    using assms bucket_less [of pc] chain_wf_head chain_wf_add
    by (simp add: bimodal_implementation_eq table_wf_def) (simp add: known_def)
  moreover have "snd (bimodal_implementation t pc taken target) ! b = t ! b" if "b \<noteq> bucket pc" for b
    using that by (simp add: bimodal_implementation_eq)
  moreover have "length (snd (bimodal_implementation t pc taken target)) = 1024"
    using assms by (simp add: bimodal_implementation_eq table_wf_def)
  ultimately show ?thesis using assms by (metis table_wf_def)
qed

lemma empty_table_wf: "table_wf empty_table"
  by (simp add: table_wf_def empty_table_def chain_wf_def)

interpretation bimodal: trace_predictor bimodal_step table_wf
  by unfold_locales (auto simp: bimodal_step_def bimodal_wf split: prod.split)

section \<open>What the predictor does\<close>

text \<open>A branch seen before is predicted taken exactly when the counter at the head of its chain is 2
  or 3, and that counter, not the branch's own, moves one step towards the outcome and saturates;
  a new branch counts as mispredicted and is appended. No other chain changes and the table's
  invariant holds again: distinct addresses in the chain of their hash, counters up to 3.\<close>

theorem bimodal_implementation_correct:
  fixes taken target
  assumes "table_wf t" and "bimodal_implementation t pc taken target = (correct, t')"
  defines "s \<equiv> unat (state (hd (t ! bucket pc)))" and "s' \<equiv> unat (state (hd (t' ! bucket pc)))"
  shows "table_wf t' \<and> (\<forall>b. b \<noteq> bucket pc \<longrightarrow> t' ! b = t ! b) \<and>
    (if known t pc
     then (correct \<longleftrightarrow> (taken = 1 \<longleftrightarrow> 2 \<le> s)) \<and> s' = (if taken = 1 then min 3 (s + 1) else s - 1) \<and>
          map PC (t' ! bucket pc) = map PC (t ! bucket pc) \<and> tl (t' ! bucket pc) = tl (t ! bucket pc)
     else \<not> correct \<and> t' ! bucket pc = t ! bucket pc @ [\<lparr>PC = pc, target_addr = target, state = 3\<rparr>])"
proof -
  have b: "bucket pc < length t" using assms(1) bucket_less by (simp add: table_wf_def)
  have w: "table_wf t'" using bimodal_wf [OF assms(1), of pc taken target] assms(2) by simp
  have f: "\<forall>b. b \<noteq> bucket pc \<longrightarrow> t' ! b = t ! b"
    using assms(2) by (auto simp: bimodal_implementation_eq split: if_split_asm)
  show ?thesis
  proof (cases "known t pc")
    case True
    note r = head_state_range [OF assms(1) True]
    have "correct = fst (train taken (state (hd (t ! bucket pc))))"
      and "t' ! bucket pc = set_head_state (snd (train taken (state (hd (t ! bucket pc))))) (t ! bucket pc)"
      using assms(2) True b by (auto simp: bimodal_implementation_eq)
    then show ?thesis
      using True w f known_chain [OF True] train_reference [OF r, of taken] by (simp add: s_def s'_def)
  next
    case False
    then show ?thesis using assms(2) b w f by (auto simp: bimodal_implementation_eq add_node_def)
  qed
qed

theorem bimodal_implementation_correct_witness:
  "table_wf (snd (bimodal_implementation empty_table 64 1 128)) \<and>
   \<not> fst (bimodal_implementation empty_table 64 1 128)"
  using bimodal_implementation_correct [OF empty_table_wf prod.collapse [symmetric], of 64 1 128]
  by (simp add: known_def empty_table_def bucket_less)

text \<open>The counter of a branch is the counter of its chain. Two known branches of one chain are
  always predicted alike, and the counter of every node behind the head stays at the initial
  value 3 for ever.\<close>

theorem bimodal_shares_counter:
  assumes "table_wf t" and "known t pc" and "known t pc'" and "bucket pc' = bucket pc"
  shows "fst (bimodal_implementation t pc taken target) = fst (bimodal_implementation t pc' taken target') \<and>
    snd (bimodal_implementation t pc taken target) = snd (bimodal_implementation t pc' taken target') \<and>
    (\<forall>n \<in> set (tl (t ! bucket pc)). state n = 3)"
proof -
  have "chain_wf (bucket pc) (t ! bucket pc)" using assms(1) bucket_less by (simp add: table_wf_def)
  then show ?thesis using assms(2-4) by (simp add: bimodal_implementation_eq chain_wf_def list_all_iff)
qed

text \<open>The last bit of an address has no influence on its hash, so its branch shares a chain with the
  branch that differs there.\<close>

lemma drop_bit_and_1: "drop_bit i a AND 1 = of_bool (bit a i)" for a :: u64
  by (rule bit_word_eqI) (auto simp: bit_simps)

lemma APHash_top_bit: "APHash (a XOR push_bit 63 1) = APHash a"
proof -
  have "drop_bit i (a XOR push_bit 63 1) AND 1 = drop_bit i a AND 1" if "i < 63" for i
    using that by (simp only: drop_bit_and_1 bit_xor_iff bit_push_bit_iff bit_1_iff) auto
  then have "fold (\<lambda>i hash. hash XOR
          (if of_nat i AND 1 = (0 :: u32)
           then push_bit 7 hash XOR ((drop_bit i (a XOR push_bit 63 1) AND 1) * drop_bit 3 hash)
           else NOT (push_bit 11 hash + ((drop_bit i (a XOR push_bit 63 1) AND 1) XOR drop_bit 5 hash))))
      [0..<63] x = fold (\<lambda>i hash. hash XOR
          (if of_nat i AND 1 = (0 :: u32)
           then push_bit 7 hash XOR ((drop_bit i a AND 1) * drop_bit 3 hash)
           else NOT (push_bit 11 hash + ((drop_bit i a AND 1) XOR drop_bit 5 hash)))) [0..<63] x" for x
    by (intro fold_cong) auto
  then show ?thesis by (simp only: APHash_def for_loop_def)
qed

definition pair_table :: table where
  "pair_table = empty_table[bucket 64 := [add_node 64 128 1, add_node (64 XOR push_bit 63 1) 128 1]]"

lemma pair_table_facts:
  "table_wf pair_table" "known pair_table 64" "known pair_table (64 XOR push_bit 63 1)"
  "bucket (64 XOR push_bit 63 1) = bucket 64"
proof -
  show b: "bucket (64 XOR push_bit 63 1) = bucket 64" by (simp only: bucket_def APHash_top_bit)
  have "chain_wf (bucket 64) [add_node 64 128 1, add_node (64 XOR push_bit 63 1) 128 1]"
    using b by (simp add: chain_wf_def add_node_def)
  then show "table_wf pair_table"
    using empty_table_wf bucket_less [of 64] by (auto simp: pair_table_def table_wf_def nth_list_update)
  show "known pair_table 64" "known pair_table (64 XOR push_bit 63 1)"
    by (simp_all only: known_def pair_table_def b)
      (simp_all add: empty_table_def bucket_less add_node_def)
qed

theorem bimodal_shares_counter_witness:
  "fst (bimodal_implementation pair_table 64 0 128) =
     fst (bimodal_implementation pair_table (64 XOR push_bit 63 1) 0 256)"
  using bimodal_shares_counter [OF pair_table_facts, of 0 128 256] by simp

section \<open>Hysteresis\<close>

lemma known_after:
  assumes "table_wf t" and "known t pc"
  shows "known (snd (bimodal_implementation t pc taken target)) pc"
proof -
  have "bucket pc < length t" using assms(1) bucket_less by (simp add: table_wf_def)
  moreover have "PC ` set (set_head_state s ns) = PC ` set ns" for s ns
    by (metis list.set_map set_head_state_simps(1))
  ultimately show ?thesis using assms(2) by (simp add: bimodal_implementation_eq known_def)
qed

fun repeat_branch :: "nat \<Rightarrow> u64 \<Rightarrow> u64 \<Rightarrow> u64 \<Rightarrow> table \<Rightarrow> table" where
  "repeat_branch 0 pc taken target t = t"
| "repeat_branch (Suc n) pc taken target t =
     repeat_branch n pc taken target (snd (bimodal_implementation t pc taken target))"

lemma repeat_branch_state:
  assumes "table_wf t" and "known t pc"
  defines "s \<equiv> unat (state (hd (t ! bucket pc)))"
  shows "table_wf (repeat_branch n pc taken target t) \<and> known (repeat_branch n pc taken target t) pc \<and>
    unat (state (hd (repeat_branch n pc taken target t ! bucket pc))) =
      (if taken = 1 then min 3 (s + n) else s - n)"
  using assms(1,2) unfolding s_def
proof (induction n arbitrary: t)
  case 0
  then show ?case using head_state_range [OF 0] by simp
next
  case (Suc n)
  let ?t = "snd (bimodal_implementation t pc taken target)"
  have b: "bucket pc < length t" using Suc.prems bucket_less by (simp add: table_wf_def)
  have "unat (state (hd (?t ! bucket pc))) =
      (if taken = 1 then min 3 (unat (state (hd (t ! bucket pc))) + 1) else unat (state (hd (t ! bucket pc))) - 1)"
    using Suc.prems b known_chain [OF Suc.prems(2)] train_reference(2) [OF head_state_range [OF Suc.prems]]
    by (simp add: bimodal_implementation_eq)
  with Suc.IH [OF bimodal_wf [OF Suc.prems(1)] known_after [OF Suc.prems]]
  show ?case by auto
qed

text \<open>Two outcomes in one direction are enough to learn it: after a known branch went the same way
  at least twice in a row, with no other branch in between, that way is predicted.\<close>

theorem bimodal_learns:
  assumes "table_wf t" and "known t pc" and "2 \<le> n"
  shows "fst (bimodal_implementation (repeat_branch n pc taken target t) pc taken target)"
proof -
  let ?t = "repeat_branch n pc taken target t"
  have r: "table_wf ?t" "known ?t pc" "unat (state (hd (?t ! bucket pc))) =
      (if taken = 1 then min 3 (unat (state (hd (t ! bucket pc))) + n) else unat (state (hd (t ! bucket pc))) - n)"
    using repeat_branch_state [OF assms(1,2)] by blast+
  have "unat (state (hd (t ! bucket pc))) \<le> 3" by (rule head_state_range [OF assms(1,2)])
  then show ?thesis
    using r(3) assms(3) train_reference(1) [OF head_state_range [OF r(1,2)], of taken] r(2)
    by (auto simp: bimodal_implementation_eq)
qed

theorem bimodal_learns_witness:
  "fst (bimodal_implementation (repeat_branch 2 64 0 128 pair_table) 64 0 128)"
  using bimodal_learns [OF pair_table_facts(1,2), of 2] by simp

section \<open>The reported size\<close>

lemma size_loop_length: "ns \<noteq> [] \<Longrightarrow> size_loop ns k = k + int (length ns) - 1"
  by (induction ns k rule: size_loop.induct) auto

lemma size_counter_eq: "size_counter t i = (if t ! i = [] then 1 else int (length (t ! i)))"
  by (simp add: size_counter_def size_loop_length)

lemma table_size_sum: "table_size t = (\<Sum>i < 1024. size_counter t i)"
proof -
  have "for_loop 0 n (\<lambda>i tot. tot + size_counter t i) 0 = (\<Sum>i < n. size_counter t i)" for n
    by (induction n) (simp_all add: for_loop_last)
  then show ?thesis by (simp add: table_size_def)
qed

text \<open>The table length that the program prints is the number of branches in the table plus the
  number of empty chains, since an empty chain is counted as one.\<close>

theorem table_size_counts:
  assumes "length t = 1024"
  shows "table_size t = int (length (concat t)) + int (length (filter (\<lambda>c. c = []) t))"
proof -
  have "table_size t = (\<Sum>i < length t. int (length (t ! i)) + (if t ! i = [] then 1 else 0))"
    unfolding table_size_sum assms by (rule sum.cong) (simp_all add: size_counter_eq)
  also have "\<dots> = (\<Sum>c \<leftarrow> t. int (length c) + (if c = [] then 1 else 0))"
    by (simp add: sum_list_sum_nth atLeast0LessThan)
  also have "\<dots> = int (length (concat t)) + int (length (filter (\<lambda>c. c = []) t))"
    by (induction t) (simp_all add: length_concat)
  finally show ?thesis .
qed

theorem table_size_counts_witness: "table_size empty_table = 1024"
  using table_size_counts [of empty_table] by (simp add: empty_table_def)

text \<open>A run of the program measures the first \<open>desired\<close> branches of the log with an accuracy between
  0 and 100 percent, from a table that stays well formed.\<close>

theorem bimodal_main_measures:
  assumes "bimodal_main desired (record_bytes rs) = (iCount, hits, tot)" and "0 < desired" and "rs \<noteq> []"
  shows "iCount = min (nat desired) (length rs) \<and> hits \<le> iCount \<and>
    (\<exists>a. accurate iCount hits = Some a \<and> 0 \<le> a \<and> a \<le> 100 \<and> MPKBr iCount hits = Some (1000 - 10 * a))"
proof -
  let ?rs = "take (nat desired) rs"
  let ?m = "measured bimodal_step ?rs (0, 0, empty_table)"
  obtain t where "?m = (iCount, hits, t)"
    using assms(1) by (auto simp: bimodal_main_def trace_loop_measured split: prod.splits)
  then have m: "fst ?m = iCount" "fst (snd ?m) = hits" by (simp_all only: fst_conv snd_conv)
  have "?rs \<noteq> []" using assms(2,3) by simp
  from bimodal.accuracy_range [OF empty_table_wf this]
  obtain a where "accurate (fst ?m) (fst (snd ?m)) = Some a" "0 \<le> a" "a \<le> 100"
    "MPKBr (fst ?m) (fst (snd ?m)) = Some (1000 - 10 * a)" by blast
  moreover have "fst ?m = min (nat desired) (length rs)" by (simp add: min.commute)
  moreover have "fst (snd ?m) \<le> fst ?m"
    using bimodal.measured_sound [of "(0, 0, empty_table)" ?rs] empty_table_wf by simp
  ultimately show ?thesis unfolding m by simp
qed

theorem bimodal_main_measures_witness:
  "fst (bimodal_main 2 (record_bytes [(4, 8, 1), (8, 12, 0), (4, 8, 1)])) = 2"
  using bimodal_main_measures [OF progress_eq [symmetric], of 2 "[(4, 8, 1), (8, 12, 0), (4, 8, 1)]"]
  by simp

end
