(* ===== verification/ShmProtocol.thy ===== *)
theory ShmProtocol
  imports TraceLoop "HOL-Library.Sublist"
begin

text \<open>
  The exchange of branch records through shared memory: the emulator's \<open>HELPER(printer)\<close>
  (\<open>qemu_src_shm/helper-a64.c\<close>) is the client, \<open>main\<close> of \<open>server.c\<close> the server. Each process is a
  program counter and a step function that executes the code up to its next access of the shared
  memory or of a semaphore; \<open>None\<close> means that the process is blocked in \<open>sem_wait\<close> or has ended.
  \<open>step\<close> interleaves the two. A sector has \<open>nd\<close> cells (\<open>NDATA\<close>, 0x80000 in the code; any positive
  number here). The model starts where the server has created and initialised the shared memory and
  the semaphores.

  Ghost components record what happened: \<open>offered\<close> lists the records of all calls, \<open>accepted\<close> those
  stored in the shared memory, \<open>dropped\<close> those of the calls that returned without storing,
  \<open>consumed\<close> those the predictor saw, \<open>published\<close> and \<open>released\<close> count the sectors handed over and
  back.
\<close>

unbundle bit_operations_syntax

section \<open>State\<close>

datatype client_pc =
    CIdle | CFirst branch_record
  | CLock1 branch_record | CRead branch_record | CUnlock1 branch_record int | CStore branch_record
  | CLock2 | CUpdate | CPostCW | CUnlock2 | CWaitSR branch_record | CError

datatype server_pc =
    SLoop | SLock1 | SRead | SUnlock1 int | SWaitCW | SProc nat nat
  | SLock2 | SUpdate | SPostSR | SUnlock2 | SDone | SError

record 's shm_state =
  shm_s0 :: "branch_record list"
  shm_s1 :: "branch_record list"
  status :: int
  nextToRead :: nat
  nextToWrite :: nat
  clientWrote_sem :: nat
  serverRead_sem :: nat
  statusMutex_sem :: nat
  firstTime :: bool
  cnt :: nat
  cpc :: client_pc
  spc :: server_pc
  prog :: "'s progress"
  offered :: "branch_record list"
  accepted :: "branch_record list"
  dropped :: "branch_record list"
  consumed :: "branch_record list"
  published :: nat
  released :: nat


definition sector :: "'s shm_state \<Rightarrow> nat \<Rightarrow> branch_record list" where
  "sector s k = (if k = 0 then shm_s0 s else shm_s1 s)"

definition store_cell :: "nat \<Rightarrow> nat \<Rightarrow> branch_record \<Rightarrow> 's shm_state \<Rightarrow> 's shm_state" where
  "store_cell k i r s =
     (if k = 0 then s\<lparr>shm_s0 := (shm_s0 s)[i := r]\<rparr> else s\<lparr>shm_s1 := (shm_s1 s)[i := r]\<rparr>)"

section \<open>The code\<close>

text \<open>The two switches on \<open>status\<close>; \<open>None\<close> is the branch that reports an error and exits.\<close>

definition client_switch :: "int \<Rightarrow> nat \<Rightarrow> int option" where
  "client_switch st next =
     (if st = 1 \<or> st = 2 then Some 3
      else if st = 0 then Some (if next = 0 then 1 else 2) else None)"

definition server_switch :: "int \<Rightarrow> nat \<Rightarrow> int option" where
  "server_switch st next =
     (if st = 1 \<or> st = 2 then Some 0
      else if st = 3 then Some (if next = 0 then 2 else 1) else None)"

definition client_step :: "nat \<Rightarrow> branch_record \<Rightarrow> 's shm_state \<Rightarrow> 's shm_state option" where
  "client_step nd new s =
     (case cpc s of
        CIdle \<Rightarrow> Some (s\<lparr>cpc := (if firstTime s then CFirst new else CLock1 new), offered := offered s @ [new]\<rparr>)
      | CFirst r \<Rightarrow>
          if serverRead_sem s = 0 then None
          else Some (s\<lparr>serverRead_sem := serverRead_sem s - 1, firstTime := False, cpc := CIdle,
                       dropped := dropped s @ [r]\<rparr>)
      | CLock1 r \<Rightarrow>
          if statusMutex_sem s = 0 then None
          else Some (s\<lparr>statusMutex_sem := statusMutex_sem s - 1, cpc := CRead r\<rparr>)
      | CRead r \<Rightarrow> Some (s\<lparr>cpc := CUnlock1 r (status s)\<rparr>)
      | CUnlock1 r currStatus \<Rightarrow>
          Some (s\<lparr>statusMutex_sem := statusMutex_sem s + 1,
                  cpc := (if currStatus \<noteq> 3 then CStore r else CWaitSR r)\<rparr>)
      | CStore r \<Rightarrow>
          let s' = store_cell (nextToWrite s) (cnt s) r s
          in if cnt s \<noteq> nd - 1
             then Some (s'\<lparr>cnt := cnt s + 1, cpc := CIdle, accepted := accepted s @ [r]\<rparr>)
             else Some (s'\<lparr>cnt := 0, cpc := CLock2, accepted := accepted s @ [r]\<rparr>)
      | CLock2 \<Rightarrow>
          if statusMutex_sem s = 0 then None
          else Some (s\<lparr>statusMutex_sem := statusMutex_sem s - 1, cpc := CUpdate\<rparr>)
      | CUpdate \<Rightarrow>
          (case client_switch (status s) (nextToWrite s) of
             None \<Rightarrow> Some (s\<lparr>cpc := CError\<rparr>)
           | Some st \<Rightarrow> Some (s\<lparr>status := st, nextToWrite := nextToWrite s XOR 1, cpc := CPostCW,
                               published := published s + 1\<rparr>))
      | CPostCW \<Rightarrow> Some (s\<lparr>clientWrote_sem := clientWrote_sem s + 1, cpc := CUnlock2\<rparr>)
      | CUnlock2 \<Rightarrow> Some (s\<lparr>statusMutex_sem := statusMutex_sem s + 1, cpc := CIdle\<rparr>)
      | CWaitSR r \<Rightarrow>
          if serverRead_sem s = 0 then None
          else Some (s\<lparr>serverRead_sem := serverRead_sem s - 1, cpc := CIdle, dropped := dropped s @ [r]\<rparr>)
      | CError \<Rightarrow> None)"

definition server_step ::
  "nat \<Rightarrow> (nat \<Rightarrow> branch_record \<Rightarrow> 's \<Rightarrow> bool \<times> 's) \<Rightarrow> nat \<Rightarrow> 's shm_state \<Rightarrow> 's shm_state option" where
  "server_step nd predict desired s =
     (case spc s of
        SLoop \<Rightarrow> Some (s\<lparr>spc := (if fst (prog s) < desired then SLock1 else SDone)\<rparr>)
      | SLock1 \<Rightarrow>
          if statusMutex_sem s = 0 then None
          else Some (s\<lparr>statusMutex_sem := statusMutex_sem s - 1, spc := SRead\<rparr>)
      | SRead \<Rightarrow> Some (s\<lparr>spc := SUnlock1 (status s)\<rparr>)
      | SUnlock1 currStatus \<Rightarrow>
          Some (s\<lparr>statusMutex_sem := statusMutex_sem s + 1,
                  spc := (if currStatus = 0 then SWaitCW else SProc (nextToRead s) 0)\<rparr>)
      | SWaitCW \<Rightarrow>
          if clientWrote_sem s = 0 then None
          else Some (s\<lparr>clientWrote_sem := clientWrote_sem s - 1, spc := SLoop\<rparr>)
      | SProc k i \<Rightarrow>
          if i < nd \<and> fst (prog s) < desired
          then Some (s\<lparr>spc := SProc k (i + 1), prog := measure_branch predict (sector s k ! i) (prog s),
                       consumed := consumed s @ [sector s k ! i]\<rparr>)
          else Some (s\<lparr>spc := SLock2\<rparr>)
      | SLock2 \<Rightarrow>
          if statusMutex_sem s = 0 then None
          else Some (s\<lparr>statusMutex_sem := statusMutex_sem s - 1, spc := SUpdate\<rparr>)
      | SUpdate \<Rightarrow>
          (case server_switch (status s) (nextToRead s) of
             None \<Rightarrow> Some (s\<lparr>spc := SError\<rparr>)
           | Some st \<Rightarrow> Some (s\<lparr>status := st, nextToRead := nextToRead s XOR 1, spc := SPostSR,
                               released := released s + 1\<rparr>))
      | SPostSR \<Rightarrow> Some (s\<lparr>serverRead_sem := serverRead_sem s + 1, spc := SUnlock2\<rparr>)
      | SUnlock2 \<Rightarrow> Some (s\<lparr>statusMutex_sem := statusMutex_sem s + 1, spc := SLoop\<rparr>)
      | SDone \<Rightarrow> None
      | SError \<Rightarrow> None)"

definition shm_init :: "branch_record list \<Rightarrow> branch_record list \<Rightarrow> 's \<Rightarrow> 's shm_state" where
  "shm_init m0 m1 p =
     \<lparr>shm_s0 = m0, shm_s1 = m1, status = 0, nextToRead = 0, nextToWrite = 0,
      clientWrote_sem = 0, serverRead_sem = 1, statusMutex_sem = 1, firstTime = True, cnt = 0,
      cpc = CIdle, spc = SLoop, prog = (0, 0, p),
      offered = [], accepted = [], dropped = [], consumed = [], published = 0, released = 0\<rparr>"

inductive step ::
  "nat \<Rightarrow> (nat \<Rightarrow> branch_record \<Rightarrow> 's \<Rightarrow> bool \<times> 's) \<Rightarrow> nat \<Rightarrow> 's shm_state \<Rightarrow> 's shm_state \<Rightarrow> bool"
  for nd predict desired where
  client: "client_step nd r s = Some s' \<Longrightarrow> step nd predict desired s s'"
| server: "server_step nd predict desired s = Some s' \<Longrightarrow> step nd predict desired s s'"

inductive reach ::
  "nat \<Rightarrow> (nat \<Rightarrow> branch_record \<Rightarrow> 's \<Rightarrow> bool \<times> 's) \<Rightarrow> nat \<Rightarrow> 's \<Rightarrow> 's shm_state \<Rightarrow> bool"
  for nd predict desired p where
  start: "length m0 = nd \<Longrightarrow> length m1 = nd \<Longrightarrow> reach nd predict desired p (shm_init m0 m1 p)"
| continue: "reach nd predict desired p s \<Longrightarrow> step nd predict desired s s' \<Longrightarrow> reach nd predict desired p s'"

inductive_cases stepE: "step nd predict desired s s'"

section \<open>The control invariant\<close>

fun client_holds :: "client_pc \<Rightarrow> bool" where
  "client_holds (CRead r) = True"
| "client_holds (CUnlock1 r st) = True"
| "client_holds CUpdate = True"
| "client_holds CPostCW = True"
| "client_holds CUnlock2 = True"
| "client_holds _ = False"

fun server_holds :: "server_pc \<Rightarrow> bool" where
  "server_holds SRead = True"
| "server_holds (SUnlock1 st) = True"
| "server_holds SUpdate = True"
| "server_holds SPostSR = True"
| "server_holds SUnlock2 = True"
| "server_holds _ = False"

text \<open>The status that the handed-over and handed-back sectors determine.\<close>

definition status_of :: "nat \<Rightarrow> nat \<Rightarrow> int" where
  "status_of w r = (if w = r then 0 else if w = r + 2 then 3 else if even r then 1 else 2)"

text \<open>The client may store: the sector it writes is not in the server's hands.\<close>

fun client_ready :: "client_pc \<Rightarrow> bool" where
  "client_ready (CStore r) = True"
| "client_ready CLock2 = True"
| "client_ready CUpdate = True"
| "client_ready (CUnlock1 r st) = (st \<noteq> 3)"
| "client_ready _ = False"

fun client_waits :: "client_pc \<Rightarrow> bool" where
  "client_waits (CWaitSR r) = True"
| "client_waits (CUnlock1 r st) = (st = 3)"
| "client_waits _ = False"

fun client_first :: "client_pc \<Rightarrow> bool" where
  "client_first (CFirst r) = True"
| "client_first _ = False"

fun server_ready :: "server_pc \<Rightarrow> bool" where
  "server_ready (SProc k i) = True"
| "server_ready SLock2 = True"
| "server_ready SUpdate = True"
| "server_ready (SUnlock1 st) = (st \<noteq> 0)"
| "server_ready _ = False"

fun server_waits :: "server_pc \<Rightarrow> bool" where
  "server_waits SWaitCW = True"
| "server_waits (SUnlock1 st) = (st = 0)"
| "server_waits _ = False"

fun server_posts :: "server_pc \<Rightarrow> bool" where
  "server_posts SPostSR = True"
| "server_posts _ = False"

fun client_posts :: "client_pc \<Rightarrow> bool" where
  "client_posts CPostCW = True"
| "client_posts _ = False"

text \<open>The sector under the server's pointer is the one it has to read next.\<close>

fun server_sector :: "server_pc \<Rightarrow> nat \<Rightarrow> bool" where
  "server_sector (SProc k i) n = (k = n)"
| "server_sector _ n = True"

lemma posts_holds [simp]:
  "\<not> server_holds c \<Longrightarrow> \<not> server_posts c" "\<not> client_holds d \<Longrightarrow> \<not> client_posts d"
  by (cases c; simp) (cases d; simp)

definition control_inv :: "nat \<Rightarrow> 's shm_state \<Rightarrow> bool" where
  "control_inv nd s \<longleftrightarrow>
     statusMutex_sem s + of_bool (client_holds (cpc s)) + of_bool (server_holds (spc s)) = 1 \<and>
     released s \<le> published s \<and> published s \<le> released s + 2 \<and>
     status s = status_of (published s) (released s) \<and>
     nextToWrite s = published s mod 2 \<and> nextToRead s = released s mod 2 \<and>
     (client_ready (cpc s) \<longrightarrow> published s \<le> released s + 1) \<and>
     (server_ready (spc s) \<longrightarrow> released s < published s) \<and>
     (client_waits (cpc s) \<longrightarrow>
        released s + 2 \<le> serverRead_sem s + of_bool (server_posts (spc s)) + published s) \<and>
     (server_waits (spc s) \<longrightarrow>
        published s \<le> clientWrote_sem s + of_bool (client_posts (cpc s)) + released s) \<and>
     (firstTime s \<longrightarrow> 1 \<le> serverRead_sem s \<and> (cpc s = CIdle \<or> client_first (cpc s))) \<and>
     (client_first (cpc s) \<longrightarrow> firstTime s) \<and>
     server_sector (spc s) (nextToRead s) \<and>
     cpc s \<noteq> CError \<and> spc s \<noteq> SError \<and>
     (0 < cnt s \<longrightarrow> published s \<le> released s + 1) \<and> cnt s < nd \<and>
     (cpc s = CLock2 \<or> cpc s = CUpdate \<longrightarrow> cnt s = 0)"

lemma xor_1_mod_2: "(n mod 2) XOR 1 = Suc n mod 2" for n :: nat
proof (cases "even n")
  case True
  then have "n mod 2 = 0" "Suc n mod 2 = 1" by presburger+
  then show ?thesis by simp
next
  case False
  then have "n mod 2 = 1" "Suc n mod 2 = 0" by presburger+
  then show ?thesis by simp
qed

text \<open>The switches follow the counts of sectors, and their error branches are not taken.\<close>

lemma client_switch_status:
  "r \<le> w \<Longrightarrow> w \<le> Suc r \<Longrightarrow> client_switch (status_of w r) (w mod 2) = Some (status_of (Suc w) r)"
  by (cases "w = r"; cases "even r")
    (simp_all add: client_switch_def status_of_def even_iff_mod_2_eq_zero odd_iff_mod_2_eq_one le_Suc_eq)

lemma server_switch_status:
  "r < w \<Longrightarrow> w \<le> Suc (Suc r) \<Longrightarrow> server_switch (status_of w r) (r mod 2) = Some (status_of w (Suc r))"
  by (cases "w = Suc r"; cases "even r")
    (simp_all add: server_switch_def status_of_def even_iff_mod_2_eq_zero odd_iff_mod_2_eq_one le_Suc_eq mod_Suc)

lemma store_cell_simps [simp]:
  "status (store_cell k i r s) = status s" "nextToRead (store_cell k i r s) = nextToRead s"
  "nextToWrite (store_cell k i r s) = nextToWrite s" "clientWrote_sem (store_cell k i r s) = clientWrote_sem s"
  "serverRead_sem (store_cell k i r s) = serverRead_sem s" "statusMutex_sem (store_cell k i r s) = statusMutex_sem s"
  "firstTime (store_cell k i r s) = firstTime s" "cnt (store_cell k i r s) = cnt s"
  "cpc (store_cell k i r s) = cpc s" "spc (store_cell k i r s) = spc s" "prog (store_cell k i r s) = prog s"
  "offered (store_cell k i r s) = offered s" "accepted (store_cell k i r s) = accepted s"
  "dropped (store_cell k i r s) = dropped s" "consumed (store_cell k i r s) = consumed s"
  "published (store_cell k i r s) = published s" "released (store_cell k i r s) = released s"
  by (simp_all add: store_cell_def)

lemma status_of_iff:
  "status_of w r = 0 \<longleftrightarrow> w = r" "status_of w r = 3 \<longleftrightarrow> w = r + 2"
  by (simp_all add: status_of_def)

lemmas pc_simps = shm_state.simps client_holds.simps client_ready.simps client_waits.simps
  client_first.simps client_posts.simps client_pc.simps server_holds.simps server_ready.simps
  server_waits.simps server_posts.simps server_sector.simps server_pc.simps store_cell_simps

lemma control_init: "0 < nd \<Longrightarrow> control_inv nd (shm_init m0 m1 p)"
  by (simp add: control_inv_def shm_init_def status_of_def)

lemma client_keeps_control:
  assumes "control_inv nd s" and "client_step nd r s = Some s'" and "0 < nd"
  shows "control_inv nd s'"
proof (cases "cpc s")
  case CIdle
  with assms(2) have s': "s' = s\<lparr>cpc := (if firstTime s then CFirst r else CLock1 r), offered := offered s @ [r]\<rparr>"
    by (simp add: client_step_def Let_def split: if_split_asm)
  show ?thesis using assms(1) CIdle unfolding s' control_inv_def
    by (simp only: pc_simps) auto
next
  case (CFirst x)
  with assms(2) have s': "s' = s\<lparr>serverRead_sem := serverRead_sem s - 1, firstTime := False, cpc := CIdle, dropped := dropped s @ [x]\<rparr>"
    by (simp add: client_step_def Let_def split: if_split_asm)
  show ?thesis using assms(1) CFirst unfolding s' control_inv_def
    by (elim conjE, intro conjI impI; simp add: status_of_iff)
next
  case (CLock1 x)
  then show ?thesis using assms
    by (cases "server_holds (spc s)"; clarsimp simp: client_step_def control_inv_def split: if_split_asm)
next
  case (CRead x)
  with assms(2) have s': "s' = s\<lparr>cpc := CUnlock1 x (status s)\<rparr>"
    by (simp add: client_step_def Let_def split: if_split_asm)
  show ?thesis using assms(1) CRead unfolding s' control_inv_def
    by (elim conjE, intro conjI impI; simp add: status_of_iff)
next
  case (CUnlock1 x st)
  with assms(2) have s': "s' = s\<lparr>statusMutex_sem := statusMutex_sem s + 1, cpc := (if st \<noteq> 3 then CStore x else CWaitSR x)\<rparr>"
    by (simp add: client_step_def split: if_split_asm)
  show ?thesis using assms(1) CUnlock1 unfolding s' control_inv_def
    by (simp only: pc_simps) auto
next
  case (CStore x)
  show ?thesis
  proof (cases "cnt s \<noteq> nd - 1")
    case True
    with CStore assms(2) have s': "s' = (store_cell (nextToWrite s) (cnt s) x s)
        \<lparr>cnt := cnt s + 1, cpc := CIdle, accepted := accepted s @ [x]\<rparr>" by (simp add: client_step_def Let_def)
    show ?thesis using assms(1) CStore True unfolding s' control_inv_def by (simp only: pc_simps) auto
  next
    case False
    with CStore assms(2) have s': "s' = (store_cell (nextToWrite s) (cnt s) x s)
        \<lparr>cnt := 0, cpc := CLock2, accepted := accepted s @ [x]\<rparr>" by (simp add: client_step_def Let_def)
    show ?thesis using assms(1,3) CStore unfolding s' control_inv_def by (simp only: pc_simps) auto
  qed
next
  case CLock2
  then show ?thesis using assms
    by (cases "server_holds (spc s)"; clarsimp simp: client_step_def control_inv_def split: if_split_asm)
next
  case CUpdate
  have "client_switch (status s) (nextToWrite s) = Some (status_of (Suc (published s)) (released s))"
    using assms(1) CUpdate by (simp add: control_inv_def client_switch_status)
  with CUpdate assms(2) have s': "s' = s\<lparr>status := status_of (Suc (published s)) (released s),
      nextToWrite := nextToWrite s XOR 1, cpc := CPostCW, published := published s + 1\<rparr>"
    by (simp add: client_step_def)
  show ?thesis using assms(1) CUpdate unfolding s' control_inv_def
    by (simp only: shm_state.simps client_holds.simps client_ready.simps client_waits.simps client_first.simps
        client_posts.simps xor_1_mod_2 client_pc.simps) auto
next
  case CPostCW
  then show ?thesis using assms
    by (cases "server_holds (spc s)"; clarsimp simp: client_step_def control_inv_def)
next
  case CUnlock2
  then show ?thesis using assms
    by (cases "server_holds (spc s)"; clarsimp simp: client_step_def control_inv_def)
next
  case (CWaitSR x)
  with assms(2) have s': "s' = s\<lparr>serverRead_sem := serverRead_sem s - 1, cpc := CIdle, dropped := dropped s @ [x]\<rparr>"
    by (simp add: client_step_def Let_def split: if_split_asm)
  show ?thesis using assms(1) CWaitSR unfolding s' control_inv_def
    by (simp only: pc_simps status_of_iff) auto
next
  case CError
  then show ?thesis using assms by (simp add: client_step_def)
qed

lemma server_keeps_control:
  assumes "control_inv nd s" and "server_step nd predict desired s = Some s'"
  shows "control_inv nd s'"
proof (cases "spc s")
  case SLoop
  with assms(2) have s': "s' = s\<lparr>spc := (if fst (prog s) < desired then SLock1 else SDone)\<rparr>"
    by (simp add: server_step_def split: if_split_asm)
  show ?thesis using assms(1) SLoop unfolding s' control_inv_def
    by (simp only: pc_simps) auto
next
  case SLock1
  then show ?thesis using assms
    by (cases "client_holds (cpc s)"; clarsimp simp: server_step_def control_inv_def split: if_split_asm)
next
  case SRead
  with assms(2) have s': "s' = s\<lparr>spc := SUnlock1 (status s)\<rparr>" by (simp add: server_step_def)
  show ?thesis using assms(1) SRead unfolding s' control_inv_def
    by (elim conjE, intro conjI impI; simp add: status_of_iff)
next
  case (SUnlock1 st)
  with assms(2) have s': "s' = s\<lparr>statusMutex_sem := statusMutex_sem s + 1, spc := (if st = 0 then SWaitCW else SProc (nextToRead s) 0)\<rparr>"
    by (simp add: server_step_def split: if_split_asm)
  show ?thesis using assms(1) SUnlock1 unfolding s' control_inv_def
    by (simp only: pc_simps) auto
next
  case SWaitCW
  with assms(2) have s': "s' = s\<lparr>clientWrote_sem := clientWrote_sem s - 1, spc := SLoop\<rparr>"
    by (simp add: server_step_def split: if_split_asm)
  show ?thesis using assms(1) SWaitCW unfolding s' control_inv_def
    by (simp only: pc_simps) simp
next
  case (SProc k i)
  show ?thesis
  proof (cases "i < nd \<and> fst (prog s) < desired")
    case True
    with SProc assms(2) have s': "s' = s\<lparr>spc := SProc k (i + 1), prog := measure_branch predict (sector s k ! i) (prog s),
        consumed := consumed s @ [sector s k ! i]\<rparr>" by (simp add: server_step_def)
    show ?thesis using assms(1) SProc unfolding s' control_inv_def by (simp only: pc_simps) simp
  next
    case False
    with SProc assms(2) have s': "s' = s\<lparr>spc := SLock2\<rparr>" by (simp add: server_step_def split: if_split_asm)
    show ?thesis using assms(1) SProc unfolding s' control_inv_def by (simp only: pc_simps) simp
  qed
next
  case SLock2
  then show ?thesis using assms
    by (cases "client_holds (cpc s)"; clarsimp simp: server_step_def control_inv_def split: if_split_asm)
next
  case SUpdate
  have "server_switch (status s) (nextToRead s) = Some (status_of (published s) (Suc (released s)))"
    using assms(1) SUpdate by (simp add: control_inv_def server_switch_status)
  with SUpdate assms(2) have s': "s' = s\<lparr>status := status_of (published s) (Suc (released s)),
      nextToRead := nextToRead s XOR 1, spc := SPostSR, released := released s + 1\<rparr>"
    by (simp add: server_step_def)
  show ?thesis using assms(1) SUpdate unfolding s' control_inv_def
    by (simp only: shm_state.simps server_holds.simps server_ready.simps server_waits.simps
        server_posts.simps server_sector.simps xor_1_mod_2 server_pc.simps) auto
next
  case SPostSR
  then show ?thesis using assms
    by (cases "client_holds (cpc s)"; clarsimp simp: server_step_def control_inv_def)
next
  case SUnlock2
  then show ?thesis using assms
    by (cases "client_holds (cpc s)"; clarsimp simp: server_step_def control_inv_def)
next
  case SDone
  then show ?thesis using assms by (simp add: server_step_def)
next
  case SError
  then show ?thesis using assms by (simp add: server_step_def)
qed

end
