(* ===== verification/ShmProps.thy ===== *)
theory ShmProps
  imports ShmProtocol TageDriver
begin

text \<open>
  What the shared-memory exchange guarantees and what it loses: the theorems over the reachable
  states of \<open>ShmProtocol\<close>. The data invariant describes the cells of the two sectors and the ghost
  lists; with the control invariant it gives the order, the integrity and the progress of the
  exchange.
\<close>

lemma reach_control: "reach nd predict desired p s \<Longrightarrow> 0 < nd \<Longrightarrow> control_inv nd s"
proof (induction rule: reach.induct)
  case (start m0 m1)
  then show ?case by (simp add: control_init)
next
  case (continue s s')
  from continue.hyps(2) show ?case
  proof (cases rule: step.cases)
    case (client r)
    then show ?thesis using continue client_keeps_control by blast
  next
    case server
    then show ?thesis using continue server_keeps_control by blast
  qed
qed

text \<open>Consequences of the control invariant, and what the steps of one process leave alone.\<close>

lemma control_facts:
  assumes "control_inv nd s"
  shows "0 < nd" "cnt s < nd" "nextToWrite s = published s mod 2" "nextToRead s = released s mod 2"
    "released s \<le> published s" "published s \<le> released s + 2"
    "client_ready (cpc s) \<Longrightarrow> published s \<le> released s + 1" "server_ready (spc s) \<Longrightarrow> released s < published s"
    "server_sector (spc s) (nextToRead s)" "cpc s \<noteq> CError" "spc s \<noteq> SError"
    "cpc s = CUpdate \<Longrightarrow> cnt s = 0" "status s = status_of (published s) (released s)"
proof -
  from assms show "cnt s < nd" unfolding control_inv_def by blast
  then show "0 < nd" by simp
qed (use assms in \<open>unfold control_inv_def, blast+\<close>)

lemma client_step_frame:
  assumes "client_step nd r s = Some s'"
  shows "spc s' = spc s" "prog s' = prog s" "consumed s' = consumed s" "released s' = released s"
    "\<exists>t. accepted s' = accepted s @ t"
proof -
  have "spc s' = spc s \<and> prog s' = prog s \<and> consumed s' = consumed s \<and> released s' = released s \<and>
      (\<exists>t. accepted s' = accepted s @ t)"
    using assms
    by (cases "cpc s") (auto simp: client_step_def Let_def split: if_split_asm option.split_asm)
  then show "spc s' = spc s" "prog s' = prog s" "consumed s' = consumed s" "released s' = released s"
    "\<exists>t. accepted s' = accepted s @ t" by blast+
qed

lemma server_step_frame:
  assumes "server_step nd predict desired s = Some s'"
  shows "shm_s0 s' = shm_s0 s" "shm_s1 s' = shm_s1 s" "accepted s' = accepted s" "dropped s' = dropped s"
    "offered s' = offered s" "published s' = published s" "cpc s' = cpc s" "cnt s' = cnt s"
    "firstTime s' = firstTime s" "released s \<le> released s'"
proof -
  have "shm_s0 s' = shm_s0 s \<and> shm_s1 s' = shm_s1 s \<and> accepted s' = accepted s \<and> dropped s' = dropped s \<and>
      offered s' = offered s \<and> published s' = published s \<and> cpc s' = cpc s \<and> cnt s' = cnt s \<and>
      firstTime s' = firstTime s \<and> released s \<le> released s'"
    using assms by (cases "spc s") (auto simp: server_step_def split: if_split_asm option.split_asm)
  then show "shm_s0 s' = shm_s0 s" "shm_s1 s' = shm_s1 s" "accepted s' = accepted s" "dropped s' = dropped s"
    "offered s' = offered s" "published s' = published s" "cpc s' = cpc s" "cnt s' = cnt s"
    "firstTime s' = firstTime s" "released s \<le> released s'" by blast+
qed

section \<open>The data invariant\<close>

fun client_full :: "client_pc \<Rightarrow> bool" where
  "client_full CLock2 = True"
| "client_full CUpdate = True"
| "client_full _ = False"

definition filled :: "nat \<Rightarrow> 's shm_state \<Rightarrow> nat" where
  "filled nd s = (if client_full (cpc s) then nd else cnt s)"

text \<open>The cells: every handed-over sector, and the part of the current one that is written, hold the
  accepted records.\<close>

definition cells_inv :: "nat \<Rightarrow> 's shm_state \<Rightarrow> bool" where
  "cells_inv nd s \<longleftrightarrow>
     length (shm_s0 s) = nd \<and> length (shm_s1 s) = nd \<and>
     length (accepted s) = published s * nd + filled nd s \<and>
     (\<forall>b i. released s \<le> b \<and> b < published s \<and> i < nd \<longrightarrow>
        sector s (b mod 2) ! i = accepted s ! (b * nd + i)) \<and>
     (\<forall>i < filled nd s. sector s (published s mod 2) ! i = accepted s ! (published s * nd + i))"

lemma sector_store_cell:
  assumes "k < 2" and "k' < 2" and "length (shm_s0 s) = nd" and "length (shm_s1 s) = nd" and "i < nd"
  shows "sector (store_cell k i r s) k' ! j = (if k' = k \<and> j = i then r else sector s k' ! j)"
    and "length (shm_s0 (store_cell k i r s)) = nd" and "length (shm_s1 (store_cell k i r s)) = nd"
  using assms by (auto simp: sector_def store_cell_def less_2_cases_iff nth_list_update)

lemma cells_init: "length m0 = nd \<Longrightarrow> length m1 = nd \<Longrightarrow> cells_inv nd (shm_init m0 m1 p)"
  by (simp add: cells_inv_def shm_init_def filled_def)

text \<open>A step that leaves the cells, the accepted records and the fill level alone, and at most hands a
  sector back, keeps the invariant.\<close>

lemma cells_frame:
  assumes "cells_inv nd s" and "shm_s0 s' = shm_s0 s" and "shm_s1 s' = shm_s1 s"
    and "accepted s' = accepted s" and "published s' = published s" and "released s \<le> released s'"
    and "filled nd s' = filled nd s"
  shows "cells_inv nd s'"
proof -
  have "sector s' k = sector s k" for k using assms(2,3) by (simp add: sector_def)
  then show ?thesis using assms(1,4-7) order_trans [OF assms(6)] by (simp add: cells_inv_def assms(2,3))
qed

lemma cells_store:
  assumes "cells_inv nd s" and "control_inv nd s" and "cpc s = CStore x"
    and "client_step nd r s = Some s'"
  shows "cells_inv nd s'"
proof -
  let ?w = "published s mod 2"
  have c: "nextToWrite s = ?w" "published s \<le> released s + 1" "cnt s < nd"
    using control_facts(3,7,2) [OF assms(2)] assms(3) by simp_all
  have f: "filled nd s = cnt s" using assms(3) by (simp add: filled_def)
  have v: "length (shm_s0 s) = nd" "length (shm_s1 s) = nd" "length (accepted s) = published s * nd + cnt s"
    "\<And>b i. released s \<le> b \<Longrightarrow> b < published s \<Longrightarrow> i < nd \<Longrightarrow> sector s (b mod 2) ! i = accepted s ! (b * nd + i)"
    "\<And>i. i < cnt s \<Longrightarrow> sector s ?w ! i = accepted s ! (published s * nd + i)"
    using assms(1) f by (auto simp: cells_inv_def)
  let ?t = "store_cell ?w (cnt s) x s"
  have s': "sector s' k = sector ?t k" "shm_s0 s' = shm_s0 ?t" "shm_s1 s' = shm_s1 ?t"
    "accepted s' = accepted s @ [x]" "published s' = published s" "released s' = released s"
    "filled nd s' = cnt s + 1" for k
    using assms(3,4) c by (auto simp: client_step_def Let_def filled_def sector_def split: if_split_asm)
  have t: "sector ?t (k mod 2) ! j = (if k mod 2 = ?w \<and> j = cnt s then x else sector s (k mod 2) ! j)" for k j
    using v(1,2) c(3) by (intro sector_store_cell(1)) simp_all
  have len: "length (shm_s0 ?t) = nd" "length (shm_s1 ?t) = nd"
    using sector_store_cell(2,3) [OF _ _ v(1,2) c(3), of ?w 0 x] by simp_all
  have old: "(accepted s @ [x]) ! (b * nd + i) = accepted s ! (b * nd + i)" if "b < published s" "i < nd" for b i
  proof -
    have "Suc b * nd \<le> published s * nd" using that(1) by (intro mult_le_mono1) simp
    then show ?thesis using that(2) v(3) by (simp add: nth_append)
  qed
  have odd: "b mod 2 \<noteq> ?w" if "released s \<le> b" "b < published s" for b
  proof -
    from that c(2) have "published s = Suc b" by simp
    then show ?thesis by (simp add: mod_Suc)
  qed
  have cur: "sector ?t ?w ! i = (accepted s @ [x]) ! (published s * nd + i)" if "i < cnt s + 1" for i
    using that v(3,5) t [of "published s" i] by (auto simp: nth_append less_Suc_eq)
  show ?thesis
    using len v(3,4) t odd old cur unfolding cells_inv_def s' by auto
qed

lemma cells_publish:
  assumes "cells_inv nd s" and "control_inv nd s" and "cpc s = CUpdate"
    and "client_step nd r s = Some s'"
  shows "cells_inv nd s'"
proof -
  have c: "cnt s = 0" by (rule control_facts(12) [OF assms(2,3)])
  have f: "filled nd s = nd" using assms(3) by (simp add: filled_def)
  have "cpc s' \<noteq> CError"
    by (rule control_facts(10) [OF client_keeps_control [OF assms(2,4) control_facts(1) [OF assms(2)]]])
  then have s': "shm_s0 s' = shm_s0 s" "shm_s1 s' = shm_s1 s" "accepted s' = accepted s"
    "published s' = Suc (published s)" "released s' = released s" "filled nd s' = 0"
    using assms(3,4) c by (auto simp: client_step_def filled_def split: option.split_asm)
  have sec: "sector s' k = sector s k" for k using s' by (simp add: sector_def)
  show ?thesis using assms(1) unfolding cells_inv_def s' f sec
    by (auto simp: less_Suc_eq)
qed

lemma client_keeps_cells:
  assumes "cells_inv nd s" and "control_inv nd s" and "client_step nd r s = Some s'"
  shows "cells_inv nd s'"
proof (cases "cpc s = CUpdate \<or> (\<exists>x. cpc s = CStore x)")
  case True
  then show ?thesis using assms cells_store cells_publish by blast
next
  case False
  then have "shm_s0 s' = shm_s0 s \<and> shm_s1 s' = shm_s1 s \<and> accepted s' = accepted s \<and>
      published s' = published s \<and> filled nd s' = filled nd s"
    using assms(3) by (cases "cpc s") (auto simp: client_step_def filled_def split: if_split_asm)
  then show ?thesis using client_step_frame(4) [OF assms(3)] by (intro cells_frame [OF assms(1)]) simp_all
qed

lemma server_keeps_cells:
  assumes "cells_inv nd s" and "server_step nd predict desired s = Some s'"
  shows "cells_inv nd s'"
  using server_step_frame [OF assms(2)] by (intro cells_frame [OF assms(1)]) (simp_all add: filled_def)

lemma reach_cells: "reach nd predict desired p s \<Longrightarrow> 0 < nd \<Longrightarrow> cells_inv nd s"
proof (induction rule: reach.induct)
  case (start m0 m1)
  then show ?case by (simp add: cells_init)
next
  case (continue s s')
  have c: "control_inv nd s" by (rule reach_control [OF continue.hyps(1) continue.prems])
  from continue.hyps(2) show ?case
  proof (cases rule: step.cases)
    case (client r)
    from client_keeps_cells [OF continue.IH [OF continue.prems] c this] show ?thesis .
  next
    case server
    from server_keeps_cells [OF continue.IH [OF continue.prems] this] show ?thesis .
  qed
qed

section \<open>What the server consumes\<close>

fun server_checked :: "server_pc \<Rightarrow> bool" where
  "server_checked SLock1 = True"
| "server_checked SRead = True"
| "server_checked (SUnlock1 st) = True"
| "server_checked _ = False"

fun consumed_at :: "nat \<Rightarrow> nat \<Rightarrow> nat \<Rightarrow> server_pc \<Rightarrow> nat" where
  "consumed_at nd desired r (SProc k i) = r * nd + i"
| "consumed_at nd desired r SLock2 = min desired (Suc r * nd)"
| "consumed_at nd desired r SUpdate = min desired (Suc r * nd)"
| "consumed_at nd desired r _ = min desired (r * nd)"

fun index_ok :: "nat \<Rightarrow> server_pc \<Rightarrow> bool" where
  "index_ok nd (SProc k i) = (i \<le> nd)"
| "index_ok nd _ = True"

definition consume_inv ::
  "nat \<Rightarrow> (nat \<Rightarrow> branch_record \<Rightarrow> 's \<Rightarrow> bool \<times> 's) \<Rightarrow> nat \<Rightarrow> 's \<Rightarrow> 's shm_state \<Rightarrow> bool" where
  "consume_inv nd predict desired p s \<longleftrightarrow>
     consumed s = take (length (consumed s)) (accepted s) \<and>
     prog s = measured predict (consumed s) (0, 0, p) \<and>
     length (consumed s) = consumed_at nd desired (released s) (spc s) \<and>
     index_ok nd (spc s) \<and> length (consumed s) \<le> desired \<and>
     (server_checked (spc s) \<longrightarrow> length (consumed s) < desired) \<and>
     (spc s = SDone \<longrightarrow> length (consumed s) = desired)"

lemma measured_snoc: "measured predict (rs @ [r]) st = measure_branch predict r (measured predict rs st)"
  by simp

lemma consume_read:
  assumes "consume_inv nd predict desired p s" and "control_inv nd s" and "cells_inv nd s"
    and "spc s = SProc k i" and "i < nd" and "fst (prog s) < desired"
    and "server_step nd predict desired s = Some s'"
  shows "consume_inv nd predict desired p s'"
proof -
  let ?n = "length (consumed s)"
  have k: "k = released s mod 2" "released s < published s"
    using control_facts(4,8,9) [OF assms(2)] assms(4) by simp_all
  have n: "?n = released s * nd + i" "fst (prog s) = ?n"
    using assms(1,4) by (simp_all add: consume_inv_def)
  have x: "sector s k ! i = accepted s ! ?n" using assms(3,5) k n by (simp add: cells_inv_def)
  have "Suc (released s) * nd \<le> published s * nd" using k(2) by (intro mult_le_mono1) simp
  then have lt: "?n < length (accepted s)" using assms(3,5) n(1) by (simp add: cells_inv_def)
  have s': "s' = s\<lparr>spc := SProc k (i + 1), prog := measure_branch predict (sector s k ! i) (prog s),
      consumed := consumed s @ [sector s k ! i]\<rparr>"
    using assms(4-7) by (simp add: server_step_def)
  show ?thesis using assms(1,4,5,6) n lt x unfolding s' consume_inv_def
    by (simp add: take_Suc_conv_app_nth)
qed

lemma server_keeps_consume:
  assumes "consume_inv nd predict desired p s" and "control_inv nd s" and "cells_inv nd s"
    and "server_step nd predict desired s = Some s'"
  shows "consume_inv nd predict desired p s'"
proof (cases "spc s")
  case (SProc k i)
  have n: "fst (prog s) = length (consumed s)" using assms(1) by (simp add: consume_inv_def)
  show ?thesis
  proof (cases "i < nd \<and> fst (prog s) < desired")
    case True
    then show ?thesis using consume_read [OF assms(1-3) SProc _ _ assms(4)] by blast
  next
    case False
    then have "s' = s\<lparr>spc := SLock2\<rparr>" using SProc assms(4) by (auto simp: server_step_def)
    then show ?thesis using assms(1) SProc False n by (auto simp: consume_inv_def)
  qed
next
  case (SUnlock1 st)
  then show ?thesis using assms(1,4) by (auto simp: server_step_def consume_inv_def split: if_split_asm)
next
  case SUpdate
  have "server_switch (status s) (nextToRead s) \<noteq> None"
    using control_facts(4,6,8,13) [OF assms(2)] SUpdate by (simp add: server_switch_status)
  then show ?thesis using assms(1,4) SUpdate by (auto simp: server_step_def consume_inv_def)
next
  case SLoop
  then show ?thesis using assms(1,4) by (auto simp: server_step_def consume_inv_def split: if_split_asm)
qed (use assms(1,4) in \<open>auto simp: server_step_def consume_inv_def split: if_split_asm option.splits\<close>)

lemma client_keeps_consume:
  assumes "consume_inv nd predict desired p s" and "client_step nd r s = Some s'"
  shows "consume_inv nd predict desired p s'"
proof -
  note f = client_step_frame [OF assms(2)]
  obtain t where t: "accepted s' = accepted s @ t" using f(5) by blast
  have c: "consumed s = take (length (consumed s)) (accepted s)" using assms(1) unfolding consume_inv_def by blast
  then have "length (consumed s) \<le> length (accepted s)" by (metis length_take min.cobounded1)
  then have tk: "take (length (consumed s)) (accepted s @ t) = consumed s" using c by simp
  show ?thesis using assms(1) unfolding consume_inv_def f(1-4) t tk by blast
qed

lemma reach_consume: "reach nd predict desired p s \<Longrightarrow> 0 < nd \<Longrightarrow> consume_inv nd predict desired p s"
proof (induction rule: reach.induct)
  case (start m0 m1)
  then show ?case by (simp add: consume_inv_def shm_init_def)
next
  case (continue s s')
  have c: "control_inv nd s" "cells_inv nd s"
    by (rule reach_control [OF continue.hyps(1) continue.prems], rule reach_cells [OF continue.hyps(1) continue.prems])
  from continue.hyps(2) show ?case
  proof (cases rule: step.cases)
    case (client r)
    from client_keeps_consume [OF continue.IH [OF continue.prems] this] show ?thesis .
  next
    case server
    from server_keeps_consume [OF continue.IH [OF continue.prems] c this] show ?thesis .
  qed
qed

section \<open>Offered, accepted and dropped records\<close>

text \<open>The record of the call in progress, as long as it is neither stored nor dropped.\<close>

fun inflight :: "client_pc \<Rightarrow> branch_record list" where
  "inflight (CFirst r) = [r]"
| "inflight (CLock1 r) = [r]"
| "inflight (CRead r) = [r]"
| "inflight (CUnlock1 r st) = [r]"
| "inflight (CStore r) = [r]"
| "inflight (CWaitSR r) = [r]"
| "inflight _ = []"

fun client_begun :: "client_pc \<Rightarrow> bool" where
  "client_begun CIdle = False"
| "client_begun (CFirst r) = False"
| "client_begun _ = True"

definition offer_inv :: "'s shm_state \<Rightarrow> bool" where
  "offer_inv s \<longleftrightarrow>
     (\<exists>done. offered s = done @ inflight (cpc s) \<and> length done = length (accepted s) + length (dropped s) \<and>
        subseq (accepted s) done \<and> (firstTime s \<longrightarrow> done = []) \<and>
        (\<not> firstTime s \<longrightarrow> done \<noteq> [] \<and> subseq (accepted s) (tl done)) \<and>
        (client_begun (cpc s) \<longrightarrow> \<not> firstTime s) \<and> (client_first (cpc s) \<longrightarrow> firstTime s))"

lemma offer_init: "offer_inv (shm_init m0 m1 p)"
  by (simp add: offer_inv_def shm_init_def)

lemma subseq_snoc: "subseq xs ys \<Longrightarrow> subseq (xs @ [x]) (ys @ [x])"
  by (rule list_emb_append_mono) simp_all

lemma subseq_extend: "subseq xs ys \<Longrightarrow> subseq xs (ys @ [y])"
  by (rule subseq_rev_drop_many)

lemma client_keeps_offer:
  assumes "offer_inv s" and "client_step nd r s = Some s'"
  shows "offer_inv s'"
proof -
  obtain dn where d: "offered s = dn @ inflight (cpc s)" "length dn = length (accepted s) + length (dropped s)"
    "subseq (accepted s) dn" "firstTime s \<Longrightarrow> dn = []" "\<not> firstTime s \<Longrightarrow> dn \<noteq> [] \<and> subseq (accepted s) (tl dn)"
    "client_begun (cpc s) \<Longrightarrow> \<not> firstTime s" "client_first (cpc s) \<Longrightarrow> firstTime s"
    using assms(1) by (auto simp: offer_inv_def)
  show ?thesis
  proof (cases "inflight (cpc s)")
    case Nil
    then show ?thesis using assms(2) d unfolding offer_inv_def
      by (intro exI [of _ dn]; cases "cpc s") (auto simp: client_step_def split: if_split_asm option.split_asm)
  next
    case (Cons x xs)
    show ?thesis
    proof (cases "inflight (cpc s') = []")
      case True
      then show ?thesis using assms(2) Cons d unfolding offer_inv_def
        by (intro exI [of _ "dn @ [x]"]; cases "cpc s")
          (auto simp: client_step_def Let_def subseq_snoc subseq_extend split: if_split_asm)
    next
      case False
      then show ?thesis using assms(2) Cons d unfolding offer_inv_def
        by (intro exI [of _ dn]; cases "cpc s") (auto simp: client_step_def Let_def split: if_split_asm)
    qed
  qed
qed

lemma server_keeps_offer: "offer_inv s \<Longrightarrow> server_step nd predict desired s = Some s' \<Longrightarrow> offer_inv s'"
  using server_step_frame [of nd predict desired s s'] by (simp add: offer_inv_def)

lemma reach_offer: "reach nd predict desired p s \<Longrightarrow> offer_inv s"
proof (induction rule: reach.induct)
  case (start m0 m1)
  then show ?case by (simp add: offer_init)
next
  case (continue s s')
  from continue.hyps(2) show ?case
  proof (cases rule: step.cases)
    case (client r)
    from client_keeps_offer [OF continue.IH this] show ?thesis .
  next
    case server
    from server_keeps_offer [OF continue.IH this] show ?thesis .
  qed
qed

section \<open>Executing schedules\<close>

text \<open>A schedule says which process makes the next step; a client step carries the record that a new
  call would bring. It gives the concrete runs of the closed instances.\<close>

fun run_schedule ::
  "nat \<Rightarrow> (nat \<Rightarrow> branch_record \<Rightarrow> 's \<Rightarrow> bool \<times> 's) \<Rightarrow> nat \<Rightarrow> branch_record option list \<Rightarrow> 's shm_state \<Rightarrow> 's shm_state option" where
  "run_schedule nd predict desired [] s = Some s"
| "run_schedule nd predict desired (Some r # es) s = Option.bind (client_step nd r s) (run_schedule nd predict desired es)"
| "run_schedule nd predict desired (None # es) s = Option.bind (server_step nd predict desired s) (run_schedule nd predict desired es)"

lemma run_schedule_reach:
  assumes "run_schedule nd predict desired es s = Some s'" and "reach nd predict desired p s"
  shows "reach nd predict desired p s'"
  using assms
proof (induction nd predict desired es s rule: run_schedule.induct)
  case (1 nd predict desired s)
  then show ?case by simp
next
  case (2 nd predict desired r es s)
  from 2(2) obtain t where t: "client_step nd r s = Some t" "run_schedule nd predict desired es t = Some s'"
    by (auto simp: bind_eq_Some_conv)
  show ?case by (rule 2(1) [OF t(1) t(2) reach.continue [OF 2(3) step.client [OF t(1)]]])
next
  case (3 nd predict desired es s)
  from 3(2) obtain t where t: "server_step nd predict desired s = Some t" "run_schedule nd predict desired es t = Some s'"
    by (auto simp: bind_eq_Some_conv)
  show ?case by (rule 3(1) [OF t(1) t(2) reach.continue [OF 3(3) step.server [OF t(1)]]])
qed

section \<open>The promises of the exchange\<close>

lemma consumed_prefix:
  assumes "reach nd predict desired p s" and "0 < nd"
  shows "consumed s = take (length (consumed s)) (accepted s)" "prog s = measured predict (consumed s) (0, 0, p)"
    "length (consumed s) \<le> desired" "length (consumed s) \<le> length (accepted s)"
proof -
  have c: "consume_inv nd predict desired p s" by (rule reach_consume [OF assms])
  then show a: "consumed s = take (length (consumed s)) (accepted s)"
    and "prog s = measured predict (consumed s) (0, 0, p)" and "length (consumed s) \<le> desired"
    unfolding consume_inv_def by blast+
  from a show "length (consumed s) \<le> length (accepted s)" by (metis length_take min.cobounded1)
qed

text \<open>A small run: sectors of one cell, a server that wants one branch, and a client that keeps calling.
  The server reads its branch and leaves; the client fills both sectors and then waits for a reader
  that no longer exists.\<close>

definition small_start :: "nat shm_state" where
  "small_start = shm_init [(0, 0, 0)] [(0, 0, 0)] 0"

definition count_step :: "nat \<Rightarrow> branch_record \<Rightarrow> nat \<Rightarrow> bool \<times> nat" where
  "count_step i r n = (True, n + 1)"

abbreviation (input) "call \<equiv> Some (4, 8, 1) :: branch_record option"

definition store_schedule :: "branch_record option list" where
  "store_schedule = [call, call] @ replicate 9 call"

definition serve_schedule :: "branch_record option list" where
  "serve_schedule = replicate 11 None"

definition hang_schedule :: "branch_record option list" where
  "hang_schedule = store_schedule @ serve_schedule @ replicate 9 call @ replicate 9 call @ replicate 5 call @ replicate 4 call"

lemma small_reach: "reach 1 predict desired 0 small_start"
  unfolding small_start_def by (rule reach.start) simp_all

lemmas schedule_eval = small_start_def shm_init_def client_step_def server_step_def client_switch_def
  server_switch_def store_cell_def sector_def count_step_def measure_branch_def count_branch_def Let_def

definition stored_one :: "nat shm_state" where
  "stored_one = the (run_schedule 1 count_step 1 store_schedule small_start)"

definition hung :: "nat shm_state" where
  "hung = the (run_schedule 1 count_step 1 hang_schedule small_start)"

lemma stored_one_run:
  "run_schedule 1 count_step 1 store_schedule small_start = Some stored_one"
  "accepted stored_one = [(4, 8, 1)]" "dropped stored_one = [(4, 8, 1)]" "cpc stored_one = CIdle"
  "spc stored_one = SLoop" "firstTime stored_one = False" "status stored_one = 1"
  by (simp_all add: stored_one_def store_schedule_def schedule_eval numeral_eq_Suc)

lemma hung_run:
  "run_schedule 1 count_step 1 hang_schedule small_start = Some hung"
  "cpc hung = CWaitSR (4, 8, 1)" "spc hung = SDone" "serverRead_sem hung = 0" "consumed hung = [(4, 8, 1)]"
  by (simp_all add: hung_def hang_schedule_def store_schedule_def serve_schedule_def schedule_eval numeral_eq_Suc)

lemma stored_one_reach: "reach 1 count_step 1 0 stored_one"
  by (rule run_schedule_reach [OF stored_one_run(1) small_reach])

lemma hung_reach: "reach 1 count_step 1 0 hung"
  by (rule run_schedule_reach [OF hung_run(1) small_reach])






text \<open>C11: the status mutex is exclusive and the sectors never collide: when the client is about to store
  a record and the server is reading a sector, they are on different sectors; and \<open>status\<close> always
  tells how many sectors are full and which is next.\<close>

theorem shm_exclusion:
  assumes "reach nd predict desired p s" and "0 < nd"
  shows "\<not> (client_holds (cpc s) \<and> server_holds (spc s)) \<and>
    (cpc s = CStore r \<and> spc s = SProc k i \<longrightarrow> nextToWrite s \<noteq> k) \<and>
    status s = status_of (published s) (released s) \<and> published s \<le> released s + 2"
proof -
  have c: "control_inv nd s" by (rule reach_control [OF assms])
  note f = control_facts [OF c]
  have "statusMutex_sem s + of_bool (client_holds (cpc s)) + of_bool (server_holds (spc s)) = 1"
    using c unfolding control_inv_def by blast
  moreover have "nextToWrite s \<noteq> k" if "cpc s = CStore r" "spc s = SProc k i"
  proof -
    have "published s = Suc (released s)" using f(7,8) that by simp
    then show ?thesis using f(3,4,9) that by (simp add: mod_Suc)
  qed
  ultimately show ?thesis using f(6,13) by (auto split: if_splits)
qed

theorem shm_exclusion_witness: "status stored_one = status_of (published stored_one) (released stored_one)"
  using shm_exclusion [OF stored_one_reach, of "(0, 0, 0)" 0 0] by simp

text \<open>The error branches of the two switches on \<open>status\<close> are never taken.\<close>

theorem shm_no_status_error:
  assumes "reach nd predict desired p s" and "0 < nd"
  shows "cpc s \<noteq> CError \<and> spc s \<noteq> SError \<and>
    (cpc s = CUpdate \<longrightarrow> client_switch (status s) (nextToWrite s) \<noteq> None) \<and>
    (spc s = SUpdate \<longrightarrow> server_switch (status s) (nextToRead s) \<noteq> None)"
proof -
  note f = control_facts [OF reach_control [OF assms]]
  show ?thesis
    using f(3-8,10,11,13) by (auto simp: client_switch_status server_switch_status)
qed

theorem shm_no_status_error_witness: "cpc hung \<noteq> CError \<and> spc hung \<noteq> SError"
  using shm_no_status_error [OF hung_reach] by simp

text \<open>C12: no deadlock while the server runs: the client and the server are never both blocked.\<close>

theorem shm_no_deadlock:
  assumes "reach nd predict desired p s" and "0 < nd" and "spc s \<noteq> SDone"
  shows "client_step nd r s \<noteq> None \<or> server_step nd predict desired s \<noteq> None"
proof (rule ccontr)
  assume "\<not> ?thesis"
  then have b: "client_step nd r s = None" "server_step nd predict desired s = None" by simp_all
  have c: "control_inv nd s" by (rule reach_control [OF assms(1,2)])
  note f = control_facts [OF c]
  have m: "statusMutex_sem s + of_bool (client_holds (cpc s)) + of_bool (server_holds (spc s)) = 1"
    using c unfolding control_inv_def by blast
  have cl: "(statusMutex_sem s = 0 \<and> \<not> client_holds (cpc s)) \<or>
      (serverRead_sem s = 0 \<and> \<not> client_holds (cpc s) \<and> (client_first (cpc s) \<or> client_waits (cpc s)))"
    using b(1) f(10) by (cases "cpc s") (auto simp: client_step_def Let_def split: if_split_asm option.split_asm)
  have sv: "(statusMutex_sem s = 0 \<and> \<not> server_holds (spc s)) \<or>
      (clientWrote_sem s = 0 \<and> \<not> server_holds (spc s) \<and> server_waits (spc s))"
    using b(2) assms(3) f(11)
    by (cases "spc s") (auto simp: server_step_def split: if_split_asm option.split_asm)
  have "statusMutex_sem s = 1" using m cl sv by auto
  then have sr: "serverRead_sem s = 0" and cw: "clientWrote_sem s = 0"
    and st: "client_first (cpc s) \<or> client_waits (cpc s)" and wt: "server_waits (spc s)"
    and h: "\<not> client_holds (cpc s)" "\<not> server_holds (spc s)"
    using cl sv by auto
  have "client_first (cpc s) \<Longrightarrow> 1 \<le> serverRead_sem s"
    using c unfolding control_inv_def by blast
  then have "client_waits (cpc s)" using st sr by auto
  then have "released s + 2 \<le> serverRead_sem s + of_bool (server_posts (spc s)) + published s"
    using c unfolding control_inv_def by blast
  moreover have "published s \<le> clientWrote_sem s + of_bool (client_posts (cpc s)) + released s"
    using c wt unfolding control_inv_def by blast
  ultimately show False using sr cw h by simp
qed

theorem shm_no_deadlock_witness:
  "\<not> (client_step 1 (0, 0, 0) stored_one = None \<and> server_step 1 count_step 1 stored_one = None)"
  using shm_no_deadlock [OF stored_one_reach, of "(0, 0, 0)"] stored_one_run(5) by auto

text \<open>When the server has measured what it was asked for and ends, the emulator can block for ever:
  there is a run in which the client waits for a reader and neither process can move.\<close>

theorem shm_client_hangs_after_server:
  "\<exists>s. reach 1 count_step 1 0 s \<and> spc s = SDone \<and> length (consumed s) = 1 \<and>
     (\<forall>r. client_step 1 r s = None) \<and> server_step 1 count_step 1 s = None"
proof (intro exI conjI)
  show "reach 1 count_step 1 0 hung" by (rule hung_reach)
  show "spc hung = SDone" "length (consumed hung) = 1" by (simp_all add: hung_run)
  show "\<forall>r. client_step 1 r hung = None" "server_step 1 count_step 1 hung = None"
    by (simp_all add: client_step_def server_step_def hung_run)
qed

text \<open>Records are lost. Every call's record is stored, dropped or in progress; the stored ones keep
  their order; and the very first record of the run is always dropped, because the first call only
  waits for the server.\<close>

theorem shm_loses_records:
  assumes "reach nd predict desired p s"
  shows "length (offered s) = length (accepted s) + length (dropped s) + length (inflight (cpc s)) \<and>
    subseq (accepted s) (offered s) \<and> subseq (accepted s) (tl (offered s))"
proof -
  obtain dn where d: "offered s = dn @ inflight (cpc s)" "length dn = length (accepted s) + length (dropped s)"
    "subseq (accepted s) dn" "firstTime s \<Longrightarrow> dn = []" "\<not> firstTime s \<Longrightarrow> dn \<noteq> [] \<and> subseq (accepted s) (tl dn)"
    using reach_offer [OF assms] unfolding offer_inv_def by blast
  have "subseq (accepted s) (tl (offered s))"
  proof (cases "firstTime s")
    case True
    then show ?thesis using d by simp
  next
    case False
    then show ?thesis using d(1,5) subseq_rev_drop_many [of "accepted s" "tl dn" "inflight (cpc s)"] by simp
  qed
  then show ?thesis using d(1-3) subseq_rev_drop_many [of "accepted s" dn "inflight (cpc s)"] by simp
qed

theorem shm_loses_records_witness: "length (offered stored_one) = 2 \<and> length (accepted stored_one) = 1"
  using shm_loses_records [OF stored_one_reach] by (simp add: stored_one_run)

definition pending :: "'s shm_state \<Rightarrow> branch_record list" where
  "pending s = drop (length (consumed s)) (accepted s)"

inductive queue_step ::
  "(nat \<Rightarrow> branch_record \<Rightarrow> 's \<Rightarrow> bool \<times> 's) \<Rightarrow> branch_record list \<times> 's progress \<Rightarrow> branch_record list \<times> 's progress \<Rightarrow> bool"
  for predict where
  put: "queue_step predict (q, m) (q @ [r], m)"
| get: "queue_step predict (r # q, m) (q, measure_branch predict r m)"
| idle: "queue_step predict (q, m) (q, m)"

lemma client_puts:
  assumes "client_step nd r s = Some s'"
  shows "accepted s' = accepted s \<or> (\<exists>x. accepted s' = accepted s @ [x])"
  using assms by (cases "cpc s") (auto simp: client_step_def Let_def split: if_split_asm option.split_asm)

lemma server_gets:
  assumes "server_step nd predict desired s = Some s'"
  shows "(consumed s' = consumed s \<and> prog s' = prog s) \<or>
    (\<exists>x. consumed s' = consumed s @ [x] \<and> prog s' = measure_branch predict x (prog s))"
  using assms
  by (cases "spc s") (auto simp: server_step_def simp del: split_paired_Ex split_paired_All split: if_split_asm option.split_asm)

lemma queue_bound:
  assumes "reach nd predict desired p s" and "0 < nd" and "length (consumed s) < desired"
  shows "length (pending s) \<le> 2 * nd"
proof -
  have k: "control_inv nd s" by (rule reach_control [OF assms(1,2)])
  note f = control_facts [OF k]
  have a: "length (accepted s) = published s * nd + filled nd s"
    using reach_cells [OF assms(1,2)] unfolding cells_inv_def by blast
  have n: "length (consumed s) = consumed_at nd desired (released s) (spc s)"
    using reach_consume [OF assms(1,2)] unfolding consume_inv_def by blast
  have "released s * nd \<le> length (consumed s)"
    using n assms(3) by (cases "spc s") (auto simp: min_def split: if_split_asm)
  moreover have "published s * nd + filled nd s \<le> released s * nd + 2 * nd"
  proof (cases "filled nd s = 0")
    case True
    have "published s * nd \<le> (released s + 2) * nd" using f(6) by (rule mult_le_mono1)
    with True show ?thesis by (simp add: algebra_simps)
  next
    case False
    then have "published s \<le> released s + 1"
    proof (cases "client_full (cpc s)")
      case True
      then have "client_ready (cpc s)" by (cases "cpc s") simp_all
      then show ?thesis by (rule f(7))
    next
      case nf: False
      with False have "0 < cnt s" by (simp add: filled_def)
      then show ?thesis using k unfolding control_inv_def by blast
    qed
    then have "published s * nd \<le> (released s + 1) * nd" by (rule mult_le_mono1)
    moreover have "filled nd s \<le> nd" using f(2) by (simp add: filled_def)
    ultimately show ?thesis by (simp add: algebra_simps)
  qed
  ultimately show ?thesis using a by (simp add: pending_def)
qed

text \<open>C10: the exchange refines a queue: over the records stored but not yet seen by the predictor every
  step of the two processes is an append at the end, a removal of the head, which the predictor
  then measures, or no change; and the queue holds at most the two sectors while the server still
  wants branches.\<close>

theorem shm_refines_queue:
  assumes "reach nd predict desired p s" and "0 < nd" and "step nd predict desired s s'"
  shows "queue_step predict (pending s, prog s) (pending s', prog s') \<and>
    (length (consumed s) < desired \<longrightarrow> length (pending s) \<le> 2 * nd)"
proof -
  have r': "reach nd predict desired p s'" by (rule reach.continue [OF assms(1,3)])
  note c = consumed_prefix [OF assms(1,2)] and c' = consumed_prefix [OF r' assms(2)]
  have "queue_step predict (pending s, prog s) (pending s', prog s')"
    using assms(3)
  proof (cases rule: step.cases)
    case (client r)
    note f = client_step_frame [OF client]
    from client_puts [OF client] show ?thesis
    proof
      assume "accepted s' = accepted s"
      then show ?thesis using f by (simp add: pending_def queue_step.idle)
    next
      assume "\<exists>x. accepted s' = accepted s @ [x]"
      then obtain x where "accepted s' = accepted s @ [x]" by blast
      then have "pending s' = pending s @ [x]" using f(3) c(4) by (simp add: pending_def)
      then show ?thesis using f(2) by (simp add: queue_step.put)
    qed
  next
    case server
    note f = server_step_frame [OF server]
    from server_gets [OF server] show ?thesis
    proof
      assume "consumed s' = consumed s \<and> prog s' = prog s"
      then show ?thesis using f(3) by (simp add: pending_def queue_step.idle)
    next
      assume "\<exists>x. consumed s' = consumed s @ [x] \<and> prog s' = measure_branch predict x (prog s)"
      then obtain x where x: "consumed s' = consumed s @ [x]" "prog s' = measure_branch predict x (prog s)" by blast
      let ?n = "length (consumed s)"
      have lt: "?n < length (accepted s)" using c'(4) x(1) f(3) by simp
      have "consumed s @ [x] = take (Suc ?n) (accepted s)" using c'(1) x(1) f(3) by simp
      then have "x = accepted s ! ?n" using c(1) lt by (simp add: take_Suc_conv_app_nth)
      then have "pending s = x # pending s'"
        using lt x(1) f(3) by (simp add: pending_def Cons_nth_drop_Suc)
      then show ?thesis using x(2) by (simp add: queue_step.get)
    qed
  qed
  then show ?thesis using queue_bound [OF assms(1,2)] by blast
qed

theorem shm_refines_queue_witness: "length (pending stored_one) \<le> 2"
proof -
  have "step 1 count_step 1 stored_one (stored_one\<lparr>spc := SLock1\<rparr>)"
    by (rule step.server) (use consumed_prefix(2) [OF stored_one_reach] in
        \<open>simp add: server_step_def stored_one_def store_schedule_def schedule_eval numeral_eq_Suc\<close>)
  from shm_refines_queue [OF stored_one_reach _ this] show ?thesis
    by (simp add: stored_one_def store_schedule_def schedule_eval numeral_eq_Suc)
qed

end
