(* ===== verification/ShmEmulation.thy ===== *)
theory ShmEmulation
  imports ShmProps
begin

text \<open>
  The stand-alone client \<open>client.c\<close>, which emulates the instrumented emulator: the same protocol in a
  loop, with records it makes up itself from its cell counter \<open>cnt\<close> and the running number \<open>tmp\<close>.
  A record that meets a full memory is not lost here, since the loop computes it again.
\<close>

text \<open>The record of the next store; in the last cell of a sector \<open>tmp\<close> is incremented before it is
  used, elsewhere after.\<close>

definition emu_cell :: "nat \<Rightarrow> nat \<Rightarrow> u64 \<Rightarrow> branch_record" where
  "emu_cell nd c tmp = (of_nat c, if c \<noteq> nd - 1 then tmp else tmp + 1, 0xf0f0f0f0)"

definition emu_tmp :: "client_pc \<Rightarrow> u64 \<Rightarrow> u64" where
  "emu_tmp c tmp = (case c of CStore r \<Rightarrow> tmp + 1 | _ \<Rightarrow> tmp)"

inductive emu_step ::
  "nat \<Rightarrow> (nat \<Rightarrow> branch_record \<Rightarrow> 's \<Rightarrow> bool \<times> 's) \<Rightarrow> nat \<Rightarrow> 's shm_state \<times> u64 \<Rightarrow> 's shm_state \<times> u64 \<Rightarrow> bool"
  for nd predict desired where
  client: "client_step nd (emu_cell nd (cnt s) tmp) s = Some s' \<Longrightarrow>
    emu_step nd predict desired (s, tmp) (s', emu_tmp (cpc s) tmp)"
| server: "server_step nd predict desired s = Some s' \<Longrightarrow> emu_step nd predict desired (s, tmp) (s', tmp)"

inductive emu_reach ::
  "nat \<Rightarrow> (nat \<Rightarrow> branch_record \<Rightarrow> 's \<Rightarrow> bool \<times> 's) \<Rightarrow> nat \<Rightarrow> 's \<Rightarrow> 's shm_state \<times> u64 \<Rightarrow> bool"
  for nd predict desired p where
  start: "length m0 = nd \<Longrightarrow> length m1 = nd \<Longrightarrow> emu_reach nd predict desired p (shm_init m0 m1 p, 0)"
| continue: "emu_reach nd predict desired p s \<Longrightarrow> emu_step nd predict desired s s' \<Longrightarrow> emu_reach nd predict desired p s'"

inductive_cases emu_stepE: "emu_step nd predict desired (s, tmp) (s', tmp')"

lemma emu_reach_reach: "emu_reach nd predict desired p st \<Longrightarrow> reach nd predict desired p (fst st)"
proof (induction rule: emu_reach.induct)
  case (start m0 m1)
  then show ?case by (simp add: reach.start)
next
  case (continue s s')
  from continue.hyps(2) show ?case
    by (cases rule: emu_step.cases) (use continue.IH in \<open>auto intro: reach.continue step.client step.server\<close>)
qed

text \<open>The sequence that the client means to send, and the one that it sends.\<close>

definition emu_record :: "nat \<Rightarrow> nat \<Rightarrow> branch_record" where
  "emu_record nd k = emu_cell nd (k mod nd) (of_nat k)"

definition emu_inv :: "nat \<Rightarrow> 's shm_state \<times> u64 \<Rightarrow> bool" where
  "emu_inv nd st \<longleftrightarrow> (case st of (s, tmp) \<Rightarrow>
     tmp = of_nat (length (accepted s)) \<and>
     (\<forall>r. inflight (cpc s) = [r] \<longrightarrow> r = emu_cell nd (cnt s) tmp) \<and>
     accepted s = map (emu_record nd) [0..<length (accepted s)])"

lemma store_position:
  assumes "reach nd predict desired p s" and "0 < nd" and "cpc s = CStore r"
  shows "cnt s = length (accepted s) mod nd"
proof -
  have "length (accepted s) = published s * nd + filled nd s"
    using reach_cells [OF assms(1,2)] unfolding cells_inv_def by blast
  moreover have "filled nd s = cnt s" using assms(3) by (simp add: filled_def)
  moreover have "cnt s < nd" by (rule control_facts(2) [OF reach_control [OF assms(1,2)]])
  ultimately show ?thesis by simp
qed

lemma client_inflight:
  assumes "client_step nd r s = Some s'"
  shows "(\<exists>x. cpc s = CStore x \<and> accepted s' = accepted s @ [x] \<and> inflight (cpc s') = []) \<or>
    ((\<forall>x. cpc s \<noteq> CStore x) \<and> accepted s' = accepted s \<and> cnt s' = cnt s \<and>
     (inflight (cpc s') = [] \<or> inflight (cpc s') = inflight (cpc s) \<or> inflight (cpc s') = [r]))"
  using assms
  by (cases "cpc s") (auto simp: client_step_def Let_def split: if_split_asm option.split_asm)

lemma emu_keeps:
  assumes "emu_inv nd (s, tmp)" and "reach nd predict desired p s" and "0 < nd"
    and "client_step nd (emu_cell nd (cnt s) tmp) s = Some s'"
  shows "emu_inv nd (s', emu_tmp (cpc s) tmp)"
proof -
  let ?n = "length (accepted s)"
  have i: "tmp = of_nat ?n" "\<And>r. inflight (cpc s) = [r] \<Longrightarrow> r = emu_cell nd (cnt s) tmp"
    "accepted s = map (emu_record nd) [0..<?n]"
    using assms(1) by (auto simp: emu_inv_def)
  from client_inflight [OF assms(4)] show ?thesis
  proof
    assume "\<exists>x. cpc s = CStore x \<and> accepted s' = accepted s @ [x] \<and> inflight (cpc s') = []"
    then obtain x where x: "cpc s = CStore x" "accepted s' = accepted s @ [x]" "inflight (cpc s') = []" by blast
    have "x = emu_record nd ?n"
      using i(2) [of x] x(1) i(1) store_position [OF assms(2,3) x(1)] by (simp add: emu_record_def)
    then have "accepted s' = map (emu_record nd) [0..<length (accepted s')]"
      using i(3) x(2) by simp
    then show ?thesis using x i(1) by (simp add: emu_inv_def emu_tmp_def)
  next
    assume a: "(\<forall>x. cpc s \<noteq> CStore x) \<and> accepted s' = accepted s \<and> cnt s' = cnt s \<and>
      (inflight (cpc s') = [] \<or> inflight (cpc s') = inflight (cpc s) \<or>
       inflight (cpc s') = [emu_cell nd (cnt s) tmp])"
    then have "emu_tmp (cpc s) tmp = tmp" by (simp add: emu_tmp_def split: client_pc.split)
    then show ?thesis using a i by (auto simp: emu_inv_def)
  qed
qed

lemma emu_reach_inv: "emu_reach nd predict desired p st \<Longrightarrow> 0 < nd \<Longrightarrow> emu_inv nd st"
proof (induction rule: emu_reach.induct)
  case (start m0 m1)
  then show ?case by (simp add: emu_inv_def shm_init_def)
next
  case (continue s s')
  have r: "reach nd predict desired p (fst s)" by (rule emu_reach_reach [OF continue.hyps(1)])
  note inv = continue.IH [OF continue.prems]
  from continue.hyps(2) show ?case
  proof (cases rule: emu_step.cases)
    case (client t tmp t')
    with emu_keeps [of nd t tmp predict desired p t'] inv r continue.prems show ?thesis by simp
  next
    case (server t t' tmp)
    note f = server_step_frame [OF server(3)]
    from inv show ?thesis unfolding server(1,2) emu_inv_def prod.case f .
  qed
qed

text \<open>The emulated client loses nothing and repeats one number per sector: its \<open>k\<close>-th record is the one
  of cell \<open>k mod nd\<close> with number \<open>k\<close>, except that the last cell of each sector carries \<open>k + 1\<close>, the
  number of the first cell of the next sector.\<close>

theorem emulated_client_sequence:
  assumes "emu_reach nd predict desired p (s, tmp)" and "0 < nd" and "k < length (accepted s)"
  shows "accepted s ! k = (of_nat (k mod nd), of_nat (if k mod nd = nd - 1 then k + 1 else k), 0xf0f0f0f0) \<and>
    prefix (consumed s) (accepted s)"
proof -
  have "accepted s = map (emu_record nd) [0..<length (accepted s)]"
    using emu_reach_inv [OF assms(1,2)] by (simp add: emu_inv_def)
  then have "accepted s ! k = map (emu_record nd) [0..<length (accepted s)] ! k" by simp
  then have "accepted s ! k = emu_record nd k" using assms(3) by simp
  moreover have "prefix (consumed s) (accepted s)"
    using consumed_prefix(1) [OF emu_reach_reach [OF assms(1)]] assms(2) take_is_prefix by (metis fst_conv)
  ultimately show ?thesis by (simp add: emu_record_def emu_cell_def add.commute)
qed

text \<open>A closed instance: the first store of a run with sectors of one cell.\<close>

fun emu_run :: "nat \<Rightarrow> 's shm_state \<times> u64 \<Rightarrow> ('s shm_state \<times> u64) option" where
  "emu_run 0 st = Some st"
| "emu_run (Suc n) (s, tmp) =
     (case client_step 1 (emu_cell 1 (cnt s) tmp) s of
        None \<Rightarrow> None
      | Some s' \<Rightarrow> emu_run n (s', emu_tmp (cpc s) tmp))"

lemma emu_run_reach:
  "emu_run n st = Some st' \<Longrightarrow> emu_reach 1 predict desired p st \<Longrightarrow> emu_reach 1 predict desired p st'"
proof (induction n st rule: emu_run.induct)
  case (1 st)
  then show ?case by simp
next
  case (2 n s tmp)
  then obtain t where t: "client_step 1 (emu_cell 1 (cnt s) tmp) s = Some t"
    "emu_run n (t, emu_tmp (cpc s) tmp) = Some st'" by (auto split: option.split_asm)
  show ?case by (rule 2(1) [OF t(1) t(2) emu_reach.continue [OF 2(3) emu_step.client [OF t(1)]]])
qed

definition emu_stored :: "nat shm_state \<times> u64" where
  "emu_stored = the (emu_run 8 (small_start, 0))"

lemma emu_stored_facts:
  "emu_run 8 (small_start, 0) = Some emu_stored" "accepted (fst emu_stored) = [(0, 1, 0xf0f0f0f0)]"
  by (simp_all add: emu_stored_def schedule_eval emu_cell_def emu_tmp_def numeral_eq_Suc)

lemma emu_stored_reach: "emu_reach 1 count_step 1 0 emu_stored"
proof (rule emu_run_reach [OF emu_stored_facts(1)])
  show "emu_reach 1 count_step 1 0 (small_start, 0)"
    unfolding small_start_def by (rule emu_reach.start) simp_all
qed

theorem emulated_client_sequence_witness: "accepted (fst emu_stored) ! 0 = (0, 1, 0xf0f0f0f0)"
  using emulated_client_sequence [of 1 count_step 1 0 "fst emu_stored" "snd emu_stored" 0] emu_stored_reach
    emu_stored_facts(2) by simp

end
