(* ===== verification/CoreUtil.thy ===== *)
theory CoreUtil
  imports Prelude
begin

text \<open>
  CoreMark's service functions (\<open>core_util.c\<close>): the bitwise 16-bit CRC and the number parser of the
  command line. The reference for the CRC is the shift register itself, \<open>lfsr\<close>: one step of the
  reflected division by the polynomial 0xA001. The code feeds the data bits one by one; the theorem
  is that this is the register run on the exclusive or of data and remainder, so that the CRC is a
  bijection in the data and in the remainder.
\<close>

unbundle bit_operations_syntax

section \<open>The CRC\<close>

text \<open>One iteration of the loop of \<open>crcu8\<close>: the state is \<open>data\<close> and \<open>crc\<close>.\<close>

definition crc_bit :: "u8 \<times> u16 \<Rightarrow> u8 \<times> u16" where
  "crc_bit st =
     (case st of (data, crc) \<Rightarrow>
        let x16 = (data AND 1) XOR (ucast crc AND 1);
            data = drop_bit 1 data;
            (crc, carry) = (if x16 = 1 then (crc XOR 0x4002, True) else (crc, False));
            crc = drop_bit 1 crc;
            crc = (if carry then crc OR 0x8000 else crc AND 0x7fff)
        in (data, crc))"

definition crcu8 :: "u8 \<Rightarrow> u16 \<Rightarrow> u16" where
  "crcu8 data crc = snd (for_loop 0 8 (\<lambda>i. crc_bit) (data, crc))"

definition crcu16 :: "u16 \<Rightarrow> u16 \<Rightarrow> u16" where
  "crcu16 newval crc =
     (let crc = crcu8 (ucast newval) crc
      in crcu8 (ucast (drop_bit 8 newval)) crc)"

definition crc16 :: "u16 \<Rightarrow> u16 \<Rightarrow> u16" where
  "crc16 newval crc = crcu16 newval crc"

definition crcu32 :: "u32 \<Rightarrow> u16 \<Rightarrow> u16" where
  "crcu32 newval crc =
     (let crc = crc16 (ucast newval) crc
      in crc16 (ucast (drop_bit 16 newval)) crc)"

text \<open>The reference register.\<close>

definition lfsr :: "u16 \<Rightarrow> u16" where
  "lfsr x = drop_bit 1 x XOR (if bit x 0 then 0xA001 else 0)"

lemma crc_constants:
  "(0xA001 :: u16) = push_bit 15 1 OR push_bit 13 1 OR push_bit 0 1" "(0x4002 :: u16) = push_bit 14 1 OR push_bit 1 1"
  "(0x8000 :: u16) = push_bit 15 1" "(0x7fff :: u16) = mask 15"
  by (simp_all add: mask_eq_exp_minus_1)

lemmas bits = bit_xor_iff bit_or_iff bit_and_iff bit_push_bit_iff bit_drop_bit_eq bit_1_iff bit_mask_iff
  bit_ucast_iff bit_0_eq comp_def

lemma bit_lfsr:
  "n < 16 \<Longrightarrow> bit (lfsr x) n \<longleftrightarrow> (bit x (Suc n) \<noteq> (bit x 0 \<and> (n = 0 \<or> n = 13 \<or> n = 15)))"
  unfolding lfsr_def crc_constants by (cases "bit x 0") (simp_all only: bits if_True if_False, auto)

lemma lfsr_xor: "lfsr (x XOR y) = lfsr x XOR lfsr y"
  by (rule bit_word_eqI) (auto simp: bit_lfsr bit_simps)

lemma lfsr_inj: "lfsr x = lfsr y \<Longrightarrow> x = y"
proof -
  assume e: "lfsr x = lfsr y"
  have b: "bit (lfsr x) n \<longleftrightarrow> bit (lfsr y) n" for n using e by simp
  have "\<not> bit x 16" "\<not> bit y 16" using bit_imp_le_length by fastforce+
  then have z: "bit x 0 \<longleftrightarrow> bit y 0" using b [of 15] by (simp add: bit_lfsr)
  have s: "bit x (Suc n) \<longleftrightarrow> bit y (Suc n)" if "n < 16" for n
    using b [of n] that z by (auto simp: bit_lfsr)
  show ?thesis
  proof (rule bit_word_eqI)
    fix n
    assume "n < LENGTH(16)"
    then show "bit x n \<longleftrightarrow> bit y n" using z s [of "n - 1"] by (cases n) auto
  qed
qed

lemma lfsr_pow_xor: "(lfsr ^^ k) (x XOR y) = (lfsr ^^ k) x XOR (lfsr ^^ k) y"
  by (induction k) (simp_all add: lfsr_xor)

lemma lfsr_pow_inj: "(lfsr ^^ k) x = (lfsr ^^ k) y \<Longrightarrow> x = y"
  by (induction k) (auto dest: lfsr_inj)

text \<open>As long as no bit reaches the end, the register only shifts.\<close>

lemma lfsr_pow_shift:
  assumes "k \<le> 8"
  shows "(lfsr ^^ k) (push_bit 8 (ucast (h :: u8))) = push_bit (8 - k) (ucast h)"
  using assms
proof (induction k)
  case 0
  then show ?case by simp
next
  case (Suc k)
  then obtain j where j: "8 - k = Suc j" "8 - Suc k = j" "j < 8" by (metis Suc_diff_Suc Suc_le_lessD diff_less diff_is_0_eq less_Suc_eq_le less_imp_diff_less not_less_eq_eq numeral_eq_Suc zero_less_numeral)
  have "lfsr (push_bit (Suc j) (ucast h)) = push_bit j (ucast h)"
  proof (rule bit_word_eqI)
    fix n
    assume "n < LENGTH(16)"
    then have n: "n < 16" by simp
    show "bit (lfsr (push_bit (Suc j) (ucast h))) n \<longleftrightarrow> bit (push_bit j (ucast h) :: u16) n"
      unfolding bit_lfsr [OF n] using n j(3)
      by (simp only: bits) (auto dest: bit_imp_le_length)
  qed
  with Suc j show ?case by simp
qed

text \<open>The code's step is the register's step on the exclusive or.\<close>

lemma and_1: "x AND 1 = of_bool (bit x 0)" for x :: "'a :: len word"
  by (simp add: and_one_eq bit_0 mod2_eq_if)

lemma of_bool_xor: "(of_bool p :: 'a :: len word) XOR of_bool q = of_bool (p \<noteq> q)"
  by (cases p; cases q) simp_all

lemma crc_bit_eq:
  "crc_bit (data, crc) = (drop_bit 1 data,
     if bit data 0 \<noteq> bit crc 0 then drop_bit 1 (crc XOR 0x4002) OR 0x8000 else drop_bit 1 crc AND 0x7fff)"
proof -
  have "(ucast crc AND 1 :: u8) = of_bool (bit crc 0)" by (simp add: and_1 bit_ucast_iff)
  then have "(data AND 1) XOR (ucast crc AND 1) = of_bool (bit data 0 \<noteq> bit crc 0)"
    by (simp only: and_1 of_bool_xor)
  then show ?thesis by (simp add: crc_bit_def Let_def)
qed

lemma crc_bit_lfsr:
  "snd (crc_bit (data, crc)) XOR ucast (fst (crc_bit (data, crc))) = lfsr (crc XOR ucast data)"
proof (rule bit_word_eqI)
  fix n
  assume "n < LENGTH(16)"
  then have n: "n < 16" by simp
  have l: "\<not> bit crc 16" "\<not> bit data 16" "n < 15 \<or> n = 15"
    using bit_imp_le_length [of crc 16] bit_imp_le_length [of data 16] n by auto
  show "bit (snd (crc_bit (data, crc)) XOR ucast (fst (crc_bit (data, crc)))) n \<longleftrightarrow> bit (lfsr (crc XOR ucast data)) n"
    unfolding bit_lfsr [OF n] crc_bit_eq fst_conv snd_conv crc_constants
    by (cases "bit data 0 \<noteq> bit crc 0") (simp_all only: if_True if_False simp_thms not_True_eq_False not_False_eq_True bits, insert n l, auto)
qed

lemma crcu8_lfsr: "crcu8 data crc = (lfsr ^^ 8) (crc XOR ucast data)"
proof -
  let ?st = "\<lambda>k. for_loop 0 k (\<lambda>i. crc_bit) (data, crc)"
  have "fst (?st k) = drop_bit k data \<and> snd (?st k) XOR ucast (fst (?st k)) = (lfsr ^^ k) (crc XOR ucast data)" for k
  proof (induction k)
    case 0
    then show ?case by simp
  next
    case (Suc k)
    obtain d c where dc: "?st k = (d, c)" by (cases "?st k")
    have "fst (crc_bit (d, c)) = drop_bit 1 d" by (simp add: crc_bit_eq)
    moreover from Suc dc have "d = drop_bit k data" "c XOR ucast d = (lfsr ^^ k) (crc XOR ucast data)" by auto
    ultimately show ?case using crc_bit_lfsr [of d c] dc by (simp add: for_loop_last)
  qed
  from this [of 8] have "fst (?st 8) = drop_bit 8 data" "snd (?st 8) XOR ucast (fst (?st 8)) = (lfsr ^^ 8) (crc XOR ucast data)"
    by blast+
  moreover have "drop_bit 8 data = 0"
    by (rule bit_word_eqI) (auto simp: bit_drop_bit_eq dest: bit_imp_le_length)
  ultimately show ?thesis by (simp add: crcu8_def)
qed

lemma split_u16: "ucast (ucast x :: u8) XOR push_bit 8 (ucast (ucast (drop_bit 8 x) :: u8)) = x" for x :: u16
  by (rule bit_word_eqI) (simp only: bits, auto dest: bit_imp_le_length)

lemma crcu16_lfsr: "crcu16 newval crc = (lfsr ^^ 16) (crc XOR newval)"
proof -
  let ?lo = "ucast (ucast newval :: u8) :: u16" and ?hi = "ucast (ucast (drop_bit 8 newval) :: u8) :: u16"
  have "crcu16 newval crc = (lfsr ^^ 8) ((lfsr ^^ 8) (crc XOR ?lo) XOR (lfsr ^^ 8) (push_bit 8 ?hi))"
    using lfsr_pow_shift [of 8 "ucast (drop_bit 8 newval)"] by (simp add: crcu16_def crcu8_lfsr Let_def)
  also have "\<dots> = (lfsr ^^ 8) ((lfsr ^^ 8) (crc XOR (?lo XOR push_bit 8 ?hi)))"
    by (simp only: lfsr_pow_xor xor.assoc)
  also have "\<dots> = (lfsr ^^ 16) (crc XOR newval)"
    using funpow_add [of 8 8 lfsr] by (simp add: split_u16)
  finally show ?thesis .
qed

text \<open>The bitwise CRC is the linear feedback shift register of the polynomial 0xA001: a byte runs it
  eight steps and a half-word sixteen steps on the exclusive or of value and remainder.\<close>

theorem crc_is_lfsr:
  "crcu8 data crc = (lfsr ^^ 8) (crc XOR ucast data) \<and> crcu16 newval crc = (lfsr ^^ 16) (crc XOR newval)"
  by (simp add: crcu8_lfsr crcu16_lfsr)

text \<open>The CRC of a half-word is a bijection: from one remainder, different values give different
  remainders, and one value maps different remainders to different ones. A corrupted result of a
  benchmark step is therefore never masked by a later step on correct data.\<close>

theorem crc16_injective:
  "(crc16 a crc = crc16 b crc \<longleftrightarrow> a = b) \<and> (crc16 a crc = crc16 a crc' \<longleftrightarrow> crc = crc') \<and>
   (crcu32 w crc = crcu32 w crc' \<longleftrightarrow> crc = crc')"
proof -
  have i: "crcu16 a crc = crcu16 b crc' \<longleftrightarrow> crc XOR a = crc' XOR b" for a b crc crc'
    using lfsr_pow_inj by (auto simp: crcu16_lfsr)
  have "crc XOR a = crc XOR b \<longleftrightarrow> a = b" "crc XOR a = crc' XOR a \<longleftrightarrow> crc = crc'" for a b crc crc' :: u16
    by (auto simp: bit_eq_iff bit_xor_iff)
  then show ?thesis by (simp add: crc16_def crcu32_def Let_def i)
qed

section \<open>The number parser\<close>

text \<open>\<open>*valstring\<close> on a zero-terminated string: the list of its characters without the terminator.
  \<open>ee_s32\<close> arithmetic wraps here (overflow is undefined in C; the theorem stays below it).\<close>

definition at0 :: "u8 list \<Rightarrow> u8" where
  "at0 s = (case s of [] \<Rightarrow> 0 | c # _ \<Rightarrow> c)"

fun hex_loop :: "u8 list \<Rightarrow> u32 \<Rightarrow> u8 list \<times> u32" where
  "hex_loop [] retval = ([], retval)"
| "hex_loop (c # cs) retval =
     (if (48 \<le> c \<and> c \<le> 57) \<or> (97 \<le> c \<and> c \<le> 102)
      then let digit = ucast c - 48; digit = (if digit > 9 then 10 + ucast c - 97 else digit)
           in hex_loop cs (retval * 16 + digit)
      else (c # cs, retval))"

fun dec_loop :: "u8 list \<Rightarrow> u32 \<Rightarrow> u8 list \<times> u32" where
  "dec_loop [] retval = ([], retval)"
| "dec_loop (c # cs) retval =
     (if 48 \<le> c \<and> c \<le> 57 then dec_loop cs (retval * 10 + (ucast c - 48)) else (c # cs, retval))"

definition parseval :: "u8 list \<Rightarrow> u32" where
  "parseval valstring =
     (let (neg, s) = (if at0 valstring = 45 then (- 1, tl valstring) else (1, valstring));
          (hexmode, s) = (if at0 s = 48 \<and> at0 (tl s) = 120 then (True, tl (tl s)) else (False, s));
          (s, retval) = (if hexmode then hex_loop s 0 else dec_loop s 0);
          retval = (if at0 s = 75 then retval * 1024 else retval);
          retval = (if at0 s = 77 then retval * (1024 * 1024) else retval)
      in retval * neg)"

definition get_seed_args :: "nat \<Rightarrow> u8 list list \<Rightarrow> u32" where
  "get_seed_args i argv = (if length argv > i then parseval (argv ! i) else 0)"

text \<open>Printing in decimal, the inverse.\<close>

fun digits :: "nat \<Rightarrow> u8 list" where
  "digits n = (if n < 10 then [48 + of_nat n] else digits (n div 10) @ [48 + of_nat (n mod 10)])"

declare digits.simps [simp del]

lemma digit_range:
  assumes "d < 10"
  shows "48 \<le> (48 + of_nat d :: u8)" "(48 + of_nat d :: u8) \<le> 57" "ucast (48 + of_nat d :: u8) - 48 = (of_nat d :: u32)"
    "(48 + of_nat d :: u8) \<noteq> 45" "(48 + of_nat d :: u8) = 48 \<longleftrightarrow> d = 0"
proof -
  have "d = 0 \<or> d = 1 \<or> d = 2 \<or> d = 3 \<or> d = 4 \<or> d = 5 \<or> d = 6 \<or> d = 7 \<or> d = 8 \<or> d = 9" using assms by arith
  then show "48 \<le> (48 + of_nat d :: u8)" "(48 + of_nat d :: u8) \<le> 57" "ucast (48 + of_nat d :: u8) - 48 = (of_nat d :: u32)"
    "(48 + of_nat d :: u8) \<noteq> 45" "(48 + of_nat d :: u8) = 48 \<longleftrightarrow> d = 0"
    by (elim disjE; simp)+
qed

lemma dec_loop_snoc:
  assumes "dec_loop s v = ([], w)" and "d < 10"
  shows "dec_loop (s @ (48 + of_nat d) # t) v = dec_loop t (w * 10 + of_nat d)"
  using assms(1)
  by (induction s v rule: dec_loop.induct) (use digit_range [OF assms(2)] in \<open>auto split: if_splits\<close>)

lemma dec_loop_digits: "dec_loop (digits n) 0 = ([], of_nat n)"
proof (induction n rule: digits.induct)
  case (1 n)
  show ?case
  proof (cases "n < 10")
    case True
    then show ?thesis using dec_loop_snoc [of "[]" 0 0 n "[]"] by (simp add: digits.simps [of n])
  next
    case False
    then have "dec_loop (digits n) 0 = dec_loop [] (of_nat (n div 10) * 10 + of_nat (n mod 10))"
      using dec_loop_snoc [OF 1 [OF False], of "n mod 10" "[]"] by (subst digits.simps) simp
    also have "of_nat (n div 10) * 10 + of_nat (n mod 10) = (of_nat (n div 10 * 10 + n mod 10) :: u32)"
      by (simp only: of_nat_add of_nat_mult of_nat_numeral)
    finally show ?thesis by simp
  qed
qed

lemma digits_head: "digits n \<noteq> [] \<and> at0 (digits n) \<noteq> 45 \<and> at0 (digits n) \<noteq> 0"
proof (induction n rule: digits.induct)
  case (1 n)
  show ?case
  proof (cases "n < 10")
    case True
    then show ?thesis using digit_range [OF True] by (auto simp: digits.simps [of n] at0_def)
  next
    case False
    from 1 [OF False] show ?thesis using False
      by (cases "digits (n div 10)") (auto simp: digits.simps [of n] at0_def)
  qed
qed

lemma digits_no_x: "c \<in> set (digits n) \<Longrightarrow> c \<noteq> 120"
proof (induction n rule: digits.induct)
  case (1 n)
  have "(48 + of_nat d :: u8) \<noteq> 120" if "d < 10" for d using digit_range(2) [OF that] by auto
  then show ?case using 1 by (cases "n < 10") (auto simp: digits.simps [of n])
qed

text \<open>Parsing the decimal representation of a number gives the number, negated after a minus sign,
  for every 32-bit value.\<close>

theorem parseval_decimal:
  "parseval (digits n) = of_nat n \<and> parseval (45 # digits n) = - of_nat n"
proof -
  have nx: "at0 (tl (digits n)) \<noteq> 120"
    using digits_no_x [of _ n] by (cases "digits n"; cases "tl (digits n)") (auto simp: at0_def)
  have "parseval (45 # digits n) = - of_nat n"
    using nx dec_loop_digits [of n] by (simp add: parseval_def at0_def [of "45 # digits n"] Let_def) (simp add: at0_def)
  moreover have "parseval (digits n) = of_nat n"
    using nx digits_head [of n] dec_loop_digits [of n] by (simp add: parseval_def Let_def) (simp add: at0_def)
  ultimately show ?thesis by blast
qed

section \<open>Seeds and data types\<close>

definition get_seed_32 :: "(nat \<Rightarrow> u32) \<Rightarrow> int \<Rightarrow> u32" where
  "get_seed_32 seed_volatile i =
     (if i = 1 then seed_volatile 1 else if i = 2 then seed_volatile 2 else if i = 3 then seed_volatile 3
      else if i = 4 then seed_volatile 4 else if i = 5 then seed_volatile 5 else 0)"

text \<open>The sizes of \<open>ee_u8\<close>, \<open>ee_u16\<close>, \<open>ee_s16\<close>, \<open>ee_s32\<close>, \<open>ee_u32\<close>, \<open>ee_ptr_int\<close> and \<open>int *\<close>.\<close>

definition check_data_types :: "nat \<Rightarrow> nat \<Rightarrow> nat \<Rightarrow> nat \<Rightarrow> nat \<Rightarrow> nat \<Rightarrow> nat \<Rightarrow> u8" where
  "check_data_types u8s u16s s16s s32s u32s ptr_int int_ptr =
     (let retval = 0;
          retval = (if u8s \<noteq> 1 then retval + 1 else retval);
          retval = (if u16s \<noteq> 2 then retval + 1 else retval);
          retval = (if s16s \<noteq> 2 then retval + 1 else retval);
          retval = (if s32s \<noteq> 4 then retval + 1 else retval);
          retval = (if u32s \<noteq> 4 then retval + 1 else retval)
      in if ptr_int \<noteq> int_ptr then retval + 1 else retval)"

lemma check_data_types_ok:
  "check_data_types u8s u16s s16s s32s u32s ptr_int int_ptr = 0 \<longleftrightarrow>
     u8s = 1 \<and> u16s = 2 \<and> s16s = 2 \<and> s32s = 4 \<and> u32s = 4 \<and> ptr_int = int_ptr"
  by (auto simp: check_data_types_def Let_def)

end
