(* ===== verification/CoreState.thy ===== *)
theory CoreState
  imports CoreUtil
begin

text \<open>
  CoreMark's state machine benchmark (\<open>core_state.c\<close>): the recogniser of numbers, the pass over a
  block of comma-separated tokens, the corruption of the block and its undoing, and the
  initialisation of the block. A block is the list of its bytes; reading past its end is \<open>None\<close>.
\<close>

unbundle bit_operations_syntax

section \<open>The recogniser\<close>

datatype CORE_STATE =
    CORE_START | CORE_INVALID | CORE_S1 | CORE_S2 | CORE_INT | CORE_FLOAT | CORE_EXPONENT | CORE_SCIENTIFIC

fun state_index :: "CORE_STATE \<Rightarrow> nat" where
  "state_index CORE_START = 0"
| "state_index CORE_INVALID = 1"
| "state_index CORE_S1 = 2"
| "state_index CORE_S2 = 3"
| "state_index CORE_INT = 4"
| "state_index CORE_FLOAT = 5"
| "state_index CORE_EXPONENT = 6"
| "state_index CORE_SCIENTIFIC = 7"

type_synonym counts = "u32 list"

definition bump :: "CORE_STATE \<Rightarrow> counts \<Rightarrow> counts" where
  "bump s c = c[state_index s := c ! state_index s + 1]"

definition ee_isdigit :: "u8 \<Rightarrow> bool" where
  "ee_isdigit c \<longleftrightarrow> 48 \<le> c \<and> c \<le> 57"

text \<open>The characters \<open>+\<close>, \<open>-\<close>, \<open>.\<close>, \<open>,\<close>, \<open>E\<close> and \<open>e\<close> are 43, 45, 46, 44, 69 and 101.\<close>

fun core_switch :: "CORE_STATE \<Rightarrow> u8 \<Rightarrow> counts \<Rightarrow> CORE_STATE \<times> counts" where
  "core_switch CORE_START c n =
     (if ee_isdigit c then (CORE_INT, bump CORE_START n)
      else if c = 43 \<or> c = 45 then (CORE_S1, bump CORE_START n)
      else if c = 46 then (CORE_FLOAT, bump CORE_START n)
      else (CORE_INVALID, bump CORE_START (bump CORE_INVALID n)))"
| "core_switch CORE_S1 c n =
     (if ee_isdigit c then (CORE_INT, bump CORE_S1 n)
      else if c = 46 then (CORE_FLOAT, bump CORE_S1 n)
      else (CORE_INVALID, bump CORE_S1 n))"
| "core_switch CORE_INT c n =
     (if c = 46 then (CORE_FLOAT, bump CORE_INT n)
      else if \<not> ee_isdigit c then (CORE_INVALID, bump CORE_INT n) else (CORE_INT, n))"
| "core_switch CORE_FLOAT c n =
     (if c = 69 \<or> c = 101 then (CORE_S2, bump CORE_FLOAT n)
      else if \<not> ee_isdigit c then (CORE_INVALID, bump CORE_FLOAT n) else (CORE_FLOAT, n))"
| "core_switch CORE_S2 c n =
     (if c = 43 \<or> c = 45 then (CORE_EXPONENT, bump CORE_S2 n) else (CORE_INVALID, bump CORE_S2 n))"
| "core_switch CORE_EXPONENT c n =
     (if ee_isdigit c then (CORE_SCIENTIFIC, bump CORE_EXPONENT n)
      else (CORE_INVALID, bump CORE_EXPONENT n))"
| "core_switch CORE_SCIENTIFIC c n =
     (if \<not> ee_isdigit c then (CORE_INVALID, bump CORE_INVALID n) else (CORE_SCIENTIFIC, n))"
| "core_switch CORE_INVALID c n = (CORE_INVALID, n)"

text \<open>\<open>for( ; *str && state != CORE_INVALID; str++ )\<close>: the end state, the remaining input, the counts.\<close>

fun core_scan :: "CORE_STATE \<Rightarrow> u8 list \<Rightarrow> counts \<Rightarrow> (CORE_STATE \<times> u8 list \<times> counts) option" where
  "core_scan state [] n = None"
| "core_scan state (c # cs) n =
     (if c = 0 \<or> state = CORE_INVALID then Some (state, c # cs, n)
      else if c = 44 then Some (state, cs, n)
      else case core_switch state c n of (state', n') \<Rightarrow> core_scan state' cs n')"

definition core_state_transition :: "u8 list \<Rightarrow> counts \<Rightarrow> (CORE_STATE \<times> u8 list \<times> counts) option" where
  "core_state_transition instr n = core_scan CORE_START instr n"

lemma core_scan_length: "core_scan s cs n = Some (s', rest, n') \<Longrightarrow> length rest \<le> length cs"
  by (induction s cs n rule: core_scan.induct) (auto split: if_split_asm prod.split_asm)

lemma core_transition_progress:
  "core_state_transition (c # cs) n = Some (s', rest, n') \<Longrightarrow> c \<noteq> 0 \<Longrightarrow> length rest < Suc (length cs)"
  by (auto simp: core_state_transition_def dest!: core_scan_length split: if_split_asm prod.split_asm)

section \<open>The benchmark\<close>

text \<open>\<open>while (*p!=0)\<close>: the counts of the end states and of the transitions.\<close>

function run_machine :: "u8 list \<Rightarrow> counts \<Rightarrow> counts \<Rightarrow> (counts \<times> counts) option" where
  "run_machine [] final track = None"
| "run_machine (c # cs) final track =
     (if c = 0 then Some (final, track)
      else case core_state_transition (c # cs) track of
             None \<Rightarrow> None
           | Some (fstate, rest, track') \<Rightarrow> run_machine rest (bump fstate final) track')"
  by pat_completeness auto
termination
  by (relation "measure (\<lambda>(p, final, track). length p)") (auto dest: core_transition_progress)

text \<open>\<open>while (p < (memblock+blksize))\<close> with \<open>p+=step\<close>: for ever when the step is 0.\<close>

partial_function (option) corrupt_loop :: "nat \<Rightarrow> nat \<Rightarrow> u8 \<Rightarrow> nat \<Rightarrow> u8 list \<Rightarrow> u8 list option" where
  "corrupt_loop blksize step seed p m =
     (if p < blksize
      then if p < length m
           then corrupt_loop blksize step seed (p + step) (if m ! p \<noteq> 44 then m[p := m ! p XOR seed] else m)
           else None
      else Some m)"

declare corrupt_loop.simps [code]

definition core_bench_state :: "nat \<Rightarrow> u8 list \<Rightarrow> u16 \<Rightarrow> u16 \<Rightarrow> nat \<Rightarrow> u16 \<Rightarrow> (u16 \<times> u8 list) option" where
  "core_bench_state blksize m seed1 seed2 step crc =
     (case run_machine m (replicate 8 0) (replicate 8 0) of None \<Rightarrow> None
      | Some (final, track) \<Rightarrow>
     (case corrupt_loop blksize step (ucast seed1) 0 m of None \<Rightarrow> None
      | Some m1 \<Rightarrow>
     (case run_machine m1 final track of None \<Rightarrow> None
      | Some (final, track) \<Rightarrow>
     (case corrupt_loop blksize step (ucast seed2) 0 m1 of None \<Rightarrow> None
      | Some m2 \<Rightarrow>
          Some (for_loop 0 8 (\<lambda>i crc. crcu32 (track ! i) (crcu32 (final ! i) crc)) crc, m2)))))"

section \<open>The initialisation of the block\<close>

definition intpat :: "u8 list list" where
  "intpat = [[53, 48, 49, 50], [49, 50, 51, 52], [45, 56, 55, 52], [43, 49, 50, 50]]"

definition floatpat :: "u8 list list" where
  "floatpat = [[51, 53, 46, 53, 52, 52, 48, 48], [46, 49, 50, 51, 52, 53, 48, 48],
               [45, 49, 49, 48, 46, 55, 48, 48], [43, 48, 46, 54, 52, 52, 48, 48]]"

definition scipat :: "u8 list list" where
  "scipat = [[53, 46, 53, 48, 48, 101, 43, 51], [45, 46, 49, 50, 51, 101, 45, 50],
             [45, 56, 55, 101, 43, 56, 51, 50], [43, 48, 46, 54, 101, 45, 49, 50]]"

definition errpat :: "u8 list list" where
  "errpat = [[84, 48, 46, 51, 101, 45, 49, 70], [45, 84, 46, 84, 43, 43, 84, 113],
             [49, 84, 51, 46, 52, 101, 52, 122], [51, 52, 46, 48, 101, 45, 84, 94]]"

definition choose_pattern :: "u16 \<Rightarrow> u8 list" where
  "choose_pattern seed =
     (let k = unat (seed AND 7); j = unat (drop_bit 3 seed AND 3)
      in if k \<le> 2 then intpat ! j else if k \<le> 4 then floatpat ! j else if k \<le> 6 then scipat ! j else errpat ! j)"

lemma patterns_length: "choose_pattern seed \<noteq> []" "length (choose_pattern seed) \<le> 8"
proof -
  let ?j = "unat (drop_bit 3 seed AND 3)"
  have "?j < 2 ^ 2" using unat_and_mask_less [of "drop_bit 3 seed" 2] by (simp add: mask_eq_exp_minus_1)
  then have "?j = 0 \<or> ?j = 1 \<or> ?j = 2 \<or> ?j = 3" by auto
  then show "choose_pattern seed \<noteq> []" "length (choose_pattern seed) \<le> 8"
    by (auto simp: choose_pattern_def Let_def intpat_def floatpat_def scipat_def errpat_def)
qed

text \<open>
  The fill loop: \<open>buf\<close> is the pattern chosen last and its length is \<open>next\<close>, 0 before the first.
  A store past the end of the memory is \<open>None\<close>.
\<close>

function init_loop :: "nat \<Rightarrow> u16 \<Rightarrow> u8 list \<Rightarrow> nat \<Rightarrow> u8 list \<Rightarrow> (nat \<times> u8 list) option" where
  "init_loop sz seed buf tot m =
     (if tot + length buf + 1 < sz
      then if buf = [] then init_loop sz (seed + 1) (choose_pattern (seed + 1)) tot m
           else if tot + length buf < length m
           then init_loop sz (seed + 1) (choose_pattern (seed + 1)) (tot + length buf + 1)
                  ((for_loop 0 (length buf) (\<lambda>i m. m[tot + i := buf ! i]) m)[tot + length buf := 44])
           else None
      else Some (tot, m))"
  by pat_completeness auto

termination
  by (relation "measures [\<lambda>(sz, seed, buf, tot, m). sz - tot, \<lambda>(sz, seed, buf, tot, m). if buf = [] then 1 else 0]")
    (auto simp: patterns_length split: if_split_asm)

declare init_loop.simps [simp del]

definition core_init_state :: "u32 \<Rightarrow> u16 \<Rightarrow> u8 list \<Rightarrow> u8 list option" where
  "core_init_state sz seed m =
     (case init_loop (unat (sz - 1)) seed [] 0 m of
        None \<Rightarrow> None
      | Some (tot, m) \<Rightarrow>
          if unat sz \<le> length m then Some (for_loop tot (unat sz) (\<lambda>k m. m[k := 0]) m) else None)"

section \<open>The recogniser decides a grammar\<close>

text \<open>
  The reference: an optional sign, then digits (an integer), or digits, a point and digits (a
  float), or a float, \<open>E\<close> or \<open>e\<close>, a sign and digits (scientific); the other states are prefixes.
\<close>

definition signed :: "u8 list \<Rightarrow> bool" where
  "signed t \<longleftrightarrow> t \<noteq> [] \<and> (hd t = 43 \<or> hd t = 45)"

definition exponent_class :: "u8 list \<Rightarrow> CORE_STATE" where
  "exponent_class x =
     (if x = [] then CORE_S2
      else if \<not> signed x then CORE_INVALID
      else if tl x = [] then CORE_EXPONENT
      else if list_all ee_isdigit (tl x) then CORE_SCIENTIFIC else CORE_INVALID)"

definition fraction_class :: "u8 list \<Rightarrow> CORE_STATE" where
  "fraction_class v =
     (let w = dropWhile ee_isdigit v in
      if w = [] then CORE_FLOAT
      else if hd w = 69 \<or> hd w = 101 then exponent_class (tl w) else CORE_INVALID)"

definition number_class :: "u8 list \<Rightarrow> CORE_STATE" where
  "number_class t =
     (let u = (if signed t then tl t else t); r = dropWhile ee_isdigit u in
      if t = [] then CORE_START
      else if u = [] then CORE_S1
      else if r = [] then CORE_INT
      else if hd r = 46 then fraction_class (tl r) else CORE_INVALID)"

definition delta :: "CORE_STATE \<Rightarrow> u8 \<Rightarrow> CORE_STATE" where
  "delta s c = fst (core_switch s c [])"

lemma core_switch_delta: "fst (core_switch s c n) = delta s c"
  by (cases s) (simp_all add: delta_def)

lemma delta_simps [simp]:
  "delta CORE_START c = (if ee_isdigit c then CORE_INT else if c = 43 \<or> c = 45 then CORE_S1
     else if c = 46 then CORE_FLOAT else CORE_INVALID)"
  "delta CORE_S1 c = (if ee_isdigit c then CORE_INT else if c = 46 then CORE_FLOAT else CORE_INVALID)"
  "delta CORE_INT c = (if c = 46 then CORE_FLOAT else if ee_isdigit c then CORE_INT else CORE_INVALID)"
  "delta CORE_FLOAT c = (if c = 69 \<or> c = 101 then CORE_S2 else if ee_isdigit c then CORE_FLOAT else CORE_INVALID)"
  "delta CORE_S2 c = (if c = 43 \<or> c = 45 then CORE_EXPONENT else CORE_INVALID)"
  "delta CORE_EXPONENT c = (if ee_isdigit c then CORE_SCIENTIFIC else CORE_INVALID)"
  "delta CORE_SCIENTIFIC c = (if ee_isdigit c then CORE_SCIENTIFIC else CORE_INVALID)"
  "delta CORE_INVALID c = CORE_INVALID"
  by (simp_all add: delta_def)

lemma not_digits [simp]:
  "\<not> ee_isdigit 43" "\<not> ee_isdigit 45" "\<not> ee_isdigit 46" "\<not> ee_isdigit 69" "\<not> ee_isdigit 101"
  by (simp_all add: ee_isdigit_def)

lemma fold_invalid: "foldl delta CORE_INVALID t = CORE_INVALID"
  by (induction t) simp_all

lemma fold_scientific:
  "foldl delta CORE_SCIENTIFIC t = (if list_all ee_isdigit t then CORE_SCIENTIFIC else CORE_INVALID)"
  by (induction t) (simp_all add: fold_invalid)

lemma fold_s2: "foldl delta CORE_S2 t = exponent_class t"
proof (cases t)
  case (Cons c cs)
  then show ?thesis
    by (cases cs) (auto simp: exponent_class_def signed_def fold_invalid fold_scientific)
qed (simp add: exponent_class_def)

lemma fold_float: "foldl delta CORE_FLOAT t = fraction_class t"
  by (induction t) (auto simp: fraction_class_def fold_invalid fold_s2)

lemma fold_int:
  "foldl delta CORE_INT t =
     (let r = dropWhile ee_isdigit t in
      if r = [] then CORE_INT else if hd r = 46 then fraction_class (tl r) else CORE_INVALID)"
  by (induction t) (auto simp: fold_invalid fold_float Let_def)

lemma fold_s1: "u \<noteq> [] \<Longrightarrow> foldl delta CORE_S1 u = foldl delta CORE_INT u"
  by (cases u) auto

lemma fold_start: "foldl delta CORE_START t = number_class t"
proof (cases t)
  case (Cons c cs)
  show ?thesis
  proof (cases "c = 43 \<or> c = 45")
    case True
    then show ?thesis
      using Cons fold_s1 [of cs] by (auto simp: number_class_def signed_def fold_int Let_def)
  next
    case False
    then show ?thesis
      using Cons by (auto simp: number_class_def signed_def fold_int fold_float fold_invalid Let_def)
  qed
qed (simp add: number_class_def)


lemma scan_invalid:
  assumes "0 \<notin> set t" and "44 \<notin> set t" and "s \<noteq> CORE_INVALID" and "foldl delta s t \<noteq> CORE_INVALID"
    and "delta (foldl delta s t) c = CORE_INVALID" and "c \<noteq> 0" and "c \<noteq> 44" and "rest \<noteq> []"
  shows "\<exists>n'. core_scan s (t @ c # rest) n = Some (CORE_INVALID, rest, n')"
  using assms
proof (induction t arbitrary: s n)
  case Nil
  obtain n' where "core_switch s c n = (CORE_INVALID, n')"
    using core_switch_delta [of s c n] Nil.prems(5) by (metis foldl_Nil prod.collapse)
  then show ?case using Nil by (cases rest) auto
next
  case (Cons d t)
  obtain n' where "core_switch s d n = (delta s d, n')"
    using core_switch_delta [of s d n] by (metis prod.collapse)
  moreover have "delta s d \<noteq> CORE_INVALID" using Cons.prems fold_invalid by force
  ultimately show ?case using Cons by simp
qed

lemma split_invalid:
  "foldl delta s t = CORE_INVALID \<Longrightarrow> s \<noteq> CORE_INVALID \<Longrightarrow>
     \<exists>u c v. t = u @ c # v \<and> foldl delta s u \<noteq> CORE_INVALID \<and> delta (foldl delta s u) c = CORE_INVALID"
proof (induction t rule: rev_induct)
  case (snoc x t)
  show ?case
  proof (cases "foldl delta s t = CORE_INVALID")
    case True
    with snoc obtain u c v where "t = u @ c # v" "foldl delta s u \<noteq> CORE_INVALID"
      "delta (foldl delta s u) c = CORE_INVALID" by blast
    then show ?thesis by (intro exI [of _ u] exI [of _ c] exI [of _ "v @ [x]"]) simp
  next
    case False
    with snoc.prems show ?thesis by (intro exI [of _ t] exI [of _ x] exI [of _ "[]"]) simp
  qed
qed simp



text \<open>A token outside the grammar stops the machine just after its first offending character, so
  the rest of the token is scanned again as a token of its own.\<close>

theorem core_transition_rejects:
  assumes "0 \<notin> set t" and "44 \<notin> set t" and "number_class t = CORE_INVALID"
  shows "\<exists>u c v n'. t = u @ c # v \<and> number_class u \<noteq> CORE_INVALID \<and> number_class (u @ [c]) = CORE_INVALID \<and>
     core_state_transition (t @ 44 # rest) n = Some (CORE_INVALID, v @ 44 # rest, n')"
proof -
  obtain u c v where t: "t = u @ c # v" "foldl delta CORE_START u \<noteq> CORE_INVALID"
      "delta (foldl delta CORE_START u) c = CORE_INVALID"
    using split_invalid [of CORE_START t] assms(3) by (auto simp: fold_start)
  then have "\<exists>n'. core_scan CORE_START (u @ c # (v @ 44 # rest)) n = Some (CORE_INVALID, v @ 44 # rest, n')"
    using assms(1,2) by (intro scan_invalid) auto
  moreover have "number_class (u @ [c]) = CORE_INVALID"
    using t(3) by (simp flip: fold_start)
  ultimately show ?thesis
    using t by (auto simp: core_state_transition_def fold_start)
qed

theorem core_transition_rejects_witness:
  "\<exists>u c v n'. [84, 48] = u @ c # v \<and> number_class u \<noteq> CORE_INVALID \<and> number_class (u @ [c]) = CORE_INVALID \<and>
     core_state_transition ([84, 48] @ 44 # [0]) (replicate 8 0) = Some (CORE_INVALID, v @ 44 # [0], n')"
  using core_transition_rejects [of "[84, 48]" "[0]" "replicate 8 0"]
  by (simp add: number_class_def signed_def ee_isdigit_def)

section \<open>The benchmark stays inside its block\<close>

lemma transition_zero:
  "0 \<in> set cs \<Longrightarrow> \<exists>s' rest n'. core_scan s cs n = Some (s', rest, n') \<and> 0 \<in> set rest"
  by (induction s cs n rule: core_scan.induct) (auto split: prod.split)

lemma run_machine_returns: "0 \<in> set p \<Longrightarrow> \<exists>r. run_machine p final track = Some r"
proof (induction p final track rule: run_machine.induct)
  case (2 c cs final track)
  show ?case
  proof (cases "c = 0")
    case False
    obtain s' rest n' where t: "core_state_transition (c # cs) track = Some (s', rest, n')" "0 \<in> set rest"
      using transition_zero [OF "2.prems", of CORE_START track] unfolding core_state_transition_def by blast
    then show ?thesis using "2.IH" [OF False t(1)] False by simp
  qed simp
qed simp

text \<open>The corruption loop visits the cells \<open>p\<close>, \<open>p + step\<close>, and so on below the block size.\<close>

definition corrupt :: "u8 \<Rightarrow> u8 \<Rightarrow> u8" where
  "corrupt seed b = (if b = 44 then b else b XOR seed)"

definition strided :: "nat \<Rightarrow> nat \<Rightarrow> nat \<Rightarrow> nat \<Rightarrow> bool" where
  "strided blk step p i \<longleftrightarrow> p \<le> i \<and> i < blk \<and> step dvd i - p"

lemma strided_unfold: "p < blk \<Longrightarrow> 0 < step \<Longrightarrow> strided blk step p i \<longleftrightarrow> i = p \<or> strided blk step (p + step) i"
proof -
  assume a: "p < blk" "0 < step"
  { assume "strided blk step p i" and "i \<noteq> p"
    then have d: "step dvd i - p" "p < i" "i < blk" by (auto simp: strided_def)
    then have "step \<le> i - p" by (auto intro: dvd_imp_le)
    with d have "strided blk step (p + step) i"
      using dvd_diff_nat [OF d(1) dvd_refl] by (simp add: strided_def) }
  moreover
  { assume "strided blk step (p + step) i"
    then have d: "step dvd i - (p + step)" "p + step \<le> i" "i < blk" by (auto simp: strided_def)
    have "step dvd (i - (p + step)) + step" using d(1) by simp
    then have "strided blk step p i" using d a by (simp add: strided_def) }
  moreover have "strided blk step p p" using a by (simp add: strided_def)
  ultimately show ?thesis by blast
qed

lemma corrupt_loop_spec:
  assumes "0 < step" and "blk \<le> length m"
  shows "\<exists>m'. corrupt_loop blk step seed p m = Some m' \<and> length m' = length m \<and>
    (\<forall>i<length m. m' ! i = (if strided blk step p i then corrupt seed (m ! i) else m ! i))"
  using assms
proof (induction "blk - p" arbitrary: p m rule: less_induct)
  case less
  show ?case
  proof (cases "p < blk")
    case True
    let ?m = "if m ! p \<noteq> 44 then m[p := m ! p XOR seed] else m"
    have "blk - (p + step) < blk - p" and "blk \<le> length ?m" using True less.prems by simp_all
    then obtain m' where m': "corrupt_loop blk step seed (p + step) ?m = Some m'" "length m' = length ?m"
        "\<forall>i<length ?m. m' ! i = (if strided blk step (p + step) i then corrupt seed (?m ! i) else ?m ! i)"
      using less.hyps less.prems(1) by blast
    have "m' ! i = (if strided blk step p i then corrupt seed (m ! i) else m ! i)" if "i < length m" for i
    proof (cases "i = p")
      case True
      then have "\<not> strided blk step (p + step) i" using less.prems by (simp add: strided_def)
      moreover have "strided blk step p i" using \<open>p < blk\<close> True by (simp add: strided_def)
      ultimately show ?thesis using m'(3) that True by (simp add: corrupt_def)
    next
      case False
      then show ?thesis
        using m'(3) that strided_unfold [OF \<open>p < blk\<close> less.prems(1), of i] by simp
    qed
    with m'(1,2) show ?thesis
      using True less.prems by (subst corrupt_loop.simps) simp
  next
    case False
    then show ?thesis by (subst corrupt_loop.simps) (auto simp: strided_def)
  qed
qed

lemma strided_apart: "strided blk step p i \<Longrightarrow> strided blk step p (i + 1) \<Longrightarrow> step \<le> 1"
  using dvd_diff_nat [of step "i + 1 - p" "i - p"] by (auto simp: strided_def intro: dvd_imp_le)

lemma adjacent_zeros_survive:
  assumes "2 \<le> step" and "k + 1 < length m" and "m ! k = 0" and "m ! (k + 1) = 0" and "length m' = length m"
    and "\<forall>i<length m. m' ! i = (if strided blk step 0 i then corrupt seed (m ! i) else m ! i)"
  shows "0 \<in> set m'"
proof -
  have "\<not> strided blk step 0 k \<or> \<not> strided blk step 0 (k + 1)"
    using strided_apart [of blk step 0 k] assms(1) by auto
  then have "m' ! k = 0 \<or> m' ! (k + 1) = 0" using assms by auto
  then show ?thesis using assms(2,5) by (metis Suc_eq_plus1 Suc_lessD nth_mem)
qed

text \<open>The effect of the benchmark on the block: the corruption by one seed, then by the other.\<close>

lemma core_bench_state_block:
  assumes "2 \<le> step" and "blk \<le> length m" and "k + 1 < length m" and "m ! k = 0" and "m ! (k + 1) = 0"
  shows "\<exists>crc' m'. core_bench_state blk m seed1 seed2 step crc = Some (crc', m') \<and> length m' = length m \<and>
    (\<forall>i<length m. m' ! i =
      (if strided blk step 0 i then corrupt (ucast seed2) (corrupt (ucast seed1) (m ! i)) else m ! i))"
proof -
  have step: "0 < step" using assms(1) by simp
  let ?z = "replicate 8 (0 :: u32)"
  have "0 \<in> set m" using assms by (metis Suc_eq_plus1 Suc_lessD nth_mem)
  then obtain f1 t1 where r1: "run_machine m ?z ?z = Some (f1, t1)"
    using run_machine_returns by fast
  obtain m1 where c1: "corrupt_loop blk step (ucast seed1) 0 m = Some m1" "length m1 = length m"
      "\<forall>i<length m. m1 ! i = (if strided blk step 0 i then corrupt (ucast seed1) (m ! i) else m ! i)"
    using corrupt_loop_spec [OF step assms(2)] by blast
  have "0 \<in> set m1" using adjacent_zeros_survive [OF assms(1,3-5) c1(2,3)] .
  then obtain f2 t2 where r2: "run_machine m1 f1 t1 = Some (f2, t2)"
    using run_machine_returns by fast
  obtain m2 where c2: "corrupt_loop blk step (ucast seed2) 0 m1 = Some m2" "length m2 = length m"
      "\<forall>i<length m. m2 ! i = (if strided blk step 0 i then corrupt (ucast seed2) (m1 ! i) else m1 ! i)"
    using corrupt_loop_spec [OF step, of blk m1 "ucast seed2" 0] assms(2) unfolding c1(2) by blast
  show ?thesis
    using r1 c1 r2 c2 by (auto simp: core_bench_state_def)
qed

text \<open>The fill loop leaves at least the last two bytes of the block to the zeros.\<close>

lemma init_loop_bound:
  assumes "sz \<le> length m" and "tot < sz"
  shows "\<exists>tot' m'. init_loop sz seed buf tot m = Some (tot', m') \<and> length m' = length m \<and> tot' < sz"
  using assms
proof (induction sz seed buf tot m rule: init_loop.induct)
  case (1 sz seed buf tot m)
  have len: "length ((for_loop 0 n (\<lambda>i m. m[tot + i := f i]) m)[k := x]) = length m" for n f k x
    unfolding length_list_update by (rule for_loop_keeps) simp_all
  show ?case
  proof (cases "tot + length buf + 1 < sz")
    case False
    then show ?thesis using "1.prems" by (subst init_loop.simps) auto
  next
    case True
    show ?thesis
    proof (cases "buf = []")
      case empty: True
      then show ?thesis using "1.IH"(1) [OF True empty] "1.prems" True
        by (subst init_loop.simps) simp
    next
      case full: False
      have "tot + length buf < length m" using True "1.prems" by simp
      then show ?thesis using "1.IH"(2) [OF True full] "1.prems" True full len
        by (subst init_loop.simps) auto
    qed
  qed
qed

lemma core_init_state_zeros:
  assumes "2 \<le> unat sz" and "unat sz \<le> length m"
  shows "\<exists>m'. core_init_state sz seed m = Some m' \<and> length m' = length m \<and>
    m' ! (unat sz - 2) = 0 \<and> m' ! (unat sz - 1) = 0"
proof -
  have s: "unat (sz - 1) = unat sz - 1"
    using assms(1) by (metis One_nat_def add.right_neutral add_leD2 numeral_2_eq_2 plus_1_eq_Suc unat_minus_one unat_0 not_less_eq_eq bot_nat_0.extremum)
  have "unat sz - 1 \<le> length m" and "0 < unat sz - 1" using assms by simp_all
  then obtain t m1 where i: "init_loop (unat sz - 1) seed [] 0 m = Some (t, m1)" "length m1 = length m" "t < unat sz - 1"
    using init_loop_bound [of "unat sz - 1" m 0 seed "[]"] by blast
  let ?r = "for_loop t (unat sz) (\<lambda>k m. m[k := 0]) m1"
  have "length ?r = length m1 \<and> (\<forall>k. t \<le> k \<and> k < unat sz \<longrightarrow> ?r ! k = 0)"
    by (rule for_loop_invariant [where P = "\<lambda>j r. length r = length m1 \<and> (\<forall>k. t \<le> k \<and> k < j \<longrightarrow> r ! k = 0)"])
      (use i assms in \<open>auto simp: nth_list_update\<close>)
  then show ?thesis
    using i assms by (simp add: core_init_state_def s)
qed

lemma core_bench_after_init:
  assumes "2 \<le> unat sz" and "unat sz \<le> length m" and "2 \<le> step" and "core_init_state sz seed m = Some b"
  shows "\<exists>crc' b'. core_bench_state (unat sz) b seed1 seed2 step crc = Some (crc', b') \<and> length b' = length m \<and>
    (\<forall>i<length m. b' ! i =
      (if strided (unat sz) step 0 i then corrupt (ucast seed2) (corrupt (ucast seed1) (b ! i)) else b ! i))"
proof -
  have b: "length b = length m" "b ! (unat sz - 2) = 0" "b ! (unat sz - 1) = 0"
    using core_init_state_zeros [OF assms(1,2), of seed] unfolding assms(4) by auto
  moreover have "unat sz - 2 + 1 = unat sz - 1" using assms(1) by simp
  moreover have "unat sz \<le> length b" "unat sz - 1 < length b" using assms(1,2) b(1) by simp_all
  ultimately show ?thesis
    using core_bench_state_block [OF assms(3), of "unat sz" b "unat sz - 2" seed1 seed2 crc] unfolding b(1) by metis
qed

text \<open>On a block the initialisation filled, the benchmark returns: its scans stop at a zero byte
  inside the block, whatever the seeds do to the rest, and its corruption leaves every byte off the
  stride alone.\<close>

theorem core_bench_state_returns:
  assumes "2 \<le> unat sz" and "unat sz \<le> length m" and "2 \<le> step"
  shows "\<exists>b crc' b'. core_init_state sz seed m = Some b \<and>
     core_bench_state (unat sz) b seed1 seed2 step crc = Some (crc', b') \<and> length b' = length m \<and>
     {i. i < length m \<and> b' ! i \<noteq> b ! i} \<subseteq> {i. strided (unat sz) step 0 i}"
proof -
  obtain b where b: "core_init_state sz seed m = Some b"
    using core_init_state_zeros [OF assms(1,2)] by blast
  obtain crc' b' where b': "core_bench_state (unat sz) b seed1 seed2 step crc = Some (crc', b')"
      "length b' = length m" "\<forall>i<length m. b' ! i = (if strided (unat sz) step 0 i
        then corrupt (ucast seed2) (corrupt (ucast seed1) (b ! i)) else b ! i)"
    using core_bench_after_init [OF assms b] by blast
  have "{i. i < length m \<and> b' ! i \<noteq> b ! i} \<subseteq> {i. strided (unat sz) step 0 i}"
    using b'(3) by (auto split: if_split_asm)
  with b b'(1,2) show ?thesis by blast
qed

theorem core_bench_state_returns_witness:
  "\<exists>b crc' b'. core_init_state 16 0 (replicate 16 1) = Some b \<and>
     core_bench_state (unat (16 :: u32)) b 3 5 2 0 = Some (crc', b') \<and> length b' = length (replicate 16 (1 :: u8)) \<and>
     {i. i < length (replicate 16 (1 :: u8)) \<and> b' ! i \<noteq> b ! i} \<subseteq> {i. strided (unat (16 :: u32)) 2 0 i}"
  by (rule core_bench_state_returns) simp_all

text \<open>Equal seeds undo the corruption, except that a byte on the stride that the seed turns into
  a comma is skipped by the second pass and stays a comma.\<close>

theorem core_bench_state_undoes:
  assumes "2 \<le> unat sz" and "unat sz \<le> length m" and "2 \<le> step"
    and "core_init_state sz seed m = Some b" and "i < length m"
  shows "\<exists>crc' b'. core_bench_state (unat sz) b seed1 seed1 step crc = Some (crc', b') \<and>
    b' ! i = (if strided (unat sz) step 0 i \<and> b ! i XOR ucast seed1 = 44 then 44 else b ! i)"
proof -
  obtain crc' b' where b': "core_bench_state (unat sz) b seed1 seed1 step crc = Some (crc', b')"
      "\<forall>i<length m. b' ! i = (if strided (unat sz) step 0 i
        then corrupt (ucast seed1) (corrupt (ucast seed1) (b ! i)) else b ! i)"
    using core_bench_after_init [OF assms(1-4)] by blast
  have "corrupt (ucast seed1) (corrupt (ucast seed1) x) = (if x XOR ucast seed1 = 44 then 44 else x)" for x
    by (auto simp: corrupt_def xor.assoc)
  with b' assms(5) show ?thesis by (intro exI [of _ crc'] exI [of _ b']) simp
qed

lemma core_init_8: "core_init_state 8 0 (replicate 8 1) = Some [53, 48, 49, 50, 44, 0, 0, 0]"
  by code_simp

text \<open>With the seed 29 the second digit string keeps a comma in the place of its character \<open>1\<close>.\<close>

theorem core_bench_state_undoes_witness:
  "\<exists>crc' b'. core_bench_state (unat (8 :: u32)) [53, 48, 49, 50, 44, 0, 0, 0] 29 29 2 0 = Some (crc', b') \<and> b' ! 2 = 44"
  using core_bench_state_undoes [OF _ _ _ core_init_8, of 2 2 29 0]
  by (simp add: strided_def)

lemma corrupt_loop_stuck:
  assumes "corrupt_loop blk step seed p m = Some y"
  shows "step = 0 \<longrightarrow> \<not> p < blk"
  by (rule corrupt_loop.raw_induct [where P = "\<lambda>blk step seed p m y. step = 0 \<longrightarrow> \<not> p < blk", OF _ assms])
    (fastforce split: if_split_asm)

text \<open>On a non-empty block in memory the corruption loop ends exactly when its step is positive,
  which the benchmark's caller has to see to.\<close>

theorem corrupt_loop_terminates:
  assumes "0 < blk" and "blk \<le> length m"
  shows "corrupt_loop blk step seed 0 m \<noteq> None \<longleftrightarrow> 0 < step"
proof (cases "step = 0")
  case True
  then show ?thesis using corrupt_loop_stuck [of blk step seed 0 m] assms(1) by (cases "corrupt_loop blk step seed 0 m") auto
next
  case False
  then show ?thesis using corrupt_loop_spec [of step blk m seed 0] assms(2) by auto
qed

theorem corrupt_loop_terminates_witness:
  "corrupt_loop 2 0 1 0 [7, 8] = None \<and> corrupt_loop 2 3 1 0 [7, 8] \<noteq> None"
  using corrupt_loop_terminates [of 2 "[7, 8]" 0 1] corrupt_loop_terminates [of 2 "[7, 8]" 3 1] by simp

end
