(* ===== verification/CoreMatrix.thy ===== *)
theory CoreMatrix
  imports CoreUtil "HOL-Library.Signed_Division"
begin

text \<open>
  CoreMark's matrix benchmark (\<open>core_matrix.c\<close>), with the integer types of its default
  configuration: \<open>MATDAT\<close> is a signed 16-bit and \<open>MATRES\<close> a signed 32-bit integer, kept as words
  and read with \<open>sint\<close> where the code compares them. A matrix is the list of its \<open>N * N\<close> cells,
  row by row.
\<close>

unbundle bit_operations_syntax

type_synonym MATDAT = "16 word"
type_synonym MATRES = "32 word"

section \<open>The operations\<close>

definition matrix_clip :: "MATDAT \<Rightarrow> bool \<Rightarrow> MATDAT" where
  "matrix_clip x y = (if y then x AND 0xff else x AND 0xffff)"

definition matrix_big :: "MATDAT \<Rightarrow> MATDAT" where
  "matrix_big x = 0xf000 OR x"

definition bit_extract :: "MATRES \<Rightarrow> nat \<Rightarrow> nat \<Rightarrow> MATRES" where
  "bit_extract x from to = signed_drop_bit from x AND NOT (push_bit to 0xffffffff)"

definition matrix_add_const :: "nat \<Rightarrow> MATDAT list \<Rightarrow> MATDAT \<Rightarrow> MATDAT list" where
  "matrix_add_const N A val =
     for_loop 0 N (\<lambda>i. for_loop 0 N (\<lambda>j A. A[i * N + j := A ! (i * N + j) + val])) A"

definition matrix_mul_const :: "nat \<Rightarrow> MATRES list \<Rightarrow> MATDAT list \<Rightarrow> MATDAT \<Rightarrow> MATRES list" where
  "matrix_mul_const N C A val =
     for_loop 0 N (\<lambda>i. for_loop 0 N (\<lambda>j C. C[i * N + j := scast (A ! (i * N + j)) * scast val])) C"

definition matrix_mul_vect :: "nat \<Rightarrow> MATRES list \<Rightarrow> MATDAT list \<Rightarrow> MATDAT list \<Rightarrow> MATRES list" where
  "matrix_mul_vect N C A B =
     for_loop 0 N (\<lambda>i C.
       for_loop 0 N (\<lambda>j C. C[i := C ! i + scast (A ! (i * N + j)) * scast (B ! j)]) (C[i := 0])) C"

definition matrix_mul_matrix :: "nat \<Rightarrow> MATRES list \<Rightarrow> MATDAT list \<Rightarrow> MATDAT list \<Rightarrow> MATRES list" where
  "matrix_mul_matrix N C A B =
     for_loop 0 N (\<lambda>i. for_loop 0 N (\<lambda>j C.
       for_loop 0 N (\<lambda>k C. C[i * N + j := C ! (i * N + j) + scast (A ! (i * N + k)) * scast (B ! (k * N + j))])
         (C[i * N + j := 0]))) C"

definition matrix_mul_matrix_bitextract :: "nat \<Rightarrow> MATRES list \<Rightarrow> MATDAT list \<Rightarrow> MATDAT list \<Rightarrow> MATRES list" where
  "matrix_mul_matrix_bitextract N C A B =
     for_loop 0 N (\<lambda>i. for_loop 0 N (\<lambda>j C.
       for_loop 0 N (\<lambda>k C.
           let tmp = scast (A ! (i * N + k)) * scast (B ! (k * N + j))
           in C[i * N + j := C ! (i * N + j) + bit_extract tmp 2 4 * bit_extract tmp 5 7])
         (C[i * N + j := 0]))) C"

text \<open>The accumulator, the previous cell and the result, over the cells in order.\<close>

definition sum_step :: "MATDAT \<Rightarrow> MATRES \<Rightarrow> MATRES \<times> MATRES \<times> MATDAT \<Rightarrow> MATRES \<times> MATRES \<times> MATDAT" where
  "sum_step clipval cur st =
     (case st of (tmp, prev, ret) \<Rightarrow>
        let tmp = tmp + cur
        in if sint tmp > sint clipval then (0, cur, ret + 10)
           else (tmp, cur, ret + (if sint cur > sint prev then 1 else 0)))"

definition matrix_sum :: "nat \<Rightarrow> MATRES list \<Rightarrow> MATDAT \<Rightarrow> MATDAT" where
  "matrix_sum N C clipval =
     snd (snd (for_loop 0 N (\<lambda>i. for_loop 0 N (\<lambda>j. sum_step clipval (C ! (i * N + j)))) (0, 0, 0)))"

definition matrix_test :: "nat \<Rightarrow> MATRES list \<Rightarrow> MATDAT list \<Rightarrow> MATDAT list \<Rightarrow> MATDAT \<Rightarrow>
    u16 \<times> MATRES list \<times> MATDAT list" where
  "matrix_test N C A B val =
     (let crc = 0; clipval = matrix_big val;
          A = matrix_add_const N A val;
          C = matrix_mul_const N C A val; crc = crc16 (matrix_sum N C clipval) crc;
          C = matrix_mul_vect N C A B; crc = crc16 (matrix_sum N C clipval) crc;
          C = matrix_mul_matrix N C A B; crc = crc16 (matrix_sum N C clipval) crc;
          C = matrix_mul_matrix_bitextract N C A B; crc = crc16 (matrix_sum N C clipval) crc;
          A = matrix_add_const N A (- val)
      in (crc, C, A))"

text \<open>\<open>mat_params\<close>: the dimension, the addresses of the matrices, and their contents.\<close>

record mat_params =
  N_of :: nat
  A_at :: u64
  B_at :: u64
  C_at :: u64
  A_of :: "MATDAT list"
  B_of :: "MATDAT list"
  C_of :: "MATRES list"

definition core_bench_matrix :: "mat_params \<Rightarrow> u16 \<Rightarrow> u16 \<Rightarrow> u16 \<times> mat_params" where
  "core_bench_matrix p seed crc =
     (case matrix_test (N_of p) (C_of p) (A_of p) (B_of p) seed of
        (r, C, A) \<Rightarrow> (crc16 r crc, p\<lparr>C_of := C, A_of := A\<rparr>))"

definition align_mem :: "u64 \<Rightarrow> u64" where
  "align_mem x = 4 + ((x - 1) AND NOT 3)"

text \<open>\<open>while (j<blksize) { i++; j=i*i*2*4; }\<close>, in 32-bit arithmetic.\<close>

partial_function (option) dimension_loop :: "u32 \<Rightarrow> u32 \<Rightarrow> u32 \<Rightarrow> u32 option" where
  "dimension_loop blksize i j =
     (if j < blksize then dimension_loop blksize (i + 1) ((i + 1) * (i + 1) * 2 * 4) else Some i)"

declare dimension_loop.simps [code]

text \<open>C's \<open>%\<close> on signed integers is \<open>smod\<close>: the remainder has the sign of the dividend.\<close>

definition init_cell :: "nat \<Rightarrow> u32 \<times> u32 \<times> MATDAT list \<times> MATDAT list \<Rightarrow> u32 \<times> u32 \<times> MATDAT list \<times> MATDAT list" where
  "init_cell p st =
     (case st of (seed, order, A, B) \<Rightarrow>
        let seed = word_of_int (sint (order * seed) smod 65536);
            val = ucast (seed + order);
            val = matrix_clip val False;
            B = B[p := val];
            val = ucast (scast val + order :: u32);
            val = matrix_clip val True;
            A = A[p := val]
        in (seed, order + 1, A, B))"

definition core_init_matrix :: "u32 \<Rightarrow> u64 \<Rightarrow> u32 \<Rightarrow> MATDAT list \<Rightarrow> MATDAT list \<Rightarrow> MATRES list \<Rightarrow> mat_params option" where
  "core_init_matrix blksize memblk seed A B C =
     (let seed = (if seed = 0 then 1 else seed)
      in case dimension_loop blksize 0 0 of
           None \<Rightarrow> None
         | Some i \<Rightarrow>
             let N = unat (i - 1);
                 A_ptr = align_mem memblk;
                 B_ptr = A_ptr + of_nat (2 * (N * N));
                 (seed, order, A, B) =
                   for_loop 0 N (\<lambda>i. for_loop 0 N (\<lambda>j. init_cell (i * N + j))) (seed, 1, A, B)
             in Some \<lparr>N_of = N, A_at = A_ptr, B_at = B_ptr, C_at = align_mem (B_ptr + of_nat (2 * (N * N))),
                      A_of = A, B_of = B, C_of = C\<rparr>)"

section \<open>Loops over the cells\<close>

lemma for_loop_shift: "for_loop (a + lo) (a + hi) f s = for_loop lo hi (\<lambda>j. f (a + j)) s"
proof (induction hi)
  case (Suc hi)
  then show ?case
    by (cases "lo \<le> hi") (simp_all add: for_loop_last)
qed simp

lemma for_loop_nested:
  "for_loop 0 M (\<lambda>i. for_loop 0 N (\<lambda>j. f (i * N + j))) s = for_loop 0 (M * N) f s"
proof (induction M)
  case (Suc M)
  have "for_loop 0 (M * N + N) f s = for_loop (M * N) (M * N + N) f (for_loop 0 (M * N) f s)"
    by (rule for_loop_split) simp_all
  also have "\<dots> = for_loop 0 N (\<lambda>j. f (M * N + j)) (for_loop 0 (M * N) f s)"
    using for_loop_shift [of "M * N" 0 N f] by simp
  finally show ?case using Suc by (simp add: for_loop_last add.commute)
qed simp

lemma for_loop_cong:
  "(\<And>i s. lo \<le> i \<Longrightarrow> i < hi \<Longrightarrow> f i s = g i s) \<Longrightarrow> for_loop lo hi f s = for_loop lo hi g s"
proof (induction hi arbitrary: s)
  case (Suc hi)
  then show ?case by (cases "lo \<le> hi") (simp_all add: for_loop_last)
qed simp

text \<open>A nested loop whose body computes the cell \<open>(i, j)\<close> from the two counters.\<close>

lemma for_loop_cells:
  assumes "\<And>i j s. i < N \<Longrightarrow> j < N \<Longrightarrow> f i j s = s[i * N + j := g i j]" and "N * N \<le> length C"
  shows "for_loop 0 N (\<lambda>i. for_loop 0 N (\<lambda>j. f i j)) C =
    map (\<lambda>p. g (p div N) (p mod N)) [0..<N * N] @ drop (N * N) C"
proof -
  have "for_loop 0 N (\<lambda>j. f i j) s =
      for_loop 0 N (\<lambda>j. (\<lambda>p s. s[p := g (p div N) (p mod N)]) (i * N + j)) s" if "i < N" for i s
    by (rule for_loop_cong) (simp add: assms(1) that)
  then have "for_loop 0 N (\<lambda>i. for_loop 0 N (\<lambda>j. f i j)) C =
      for_loop 0 N (\<lambda>i. for_loop 0 N (\<lambda>j. (\<lambda>p s. s[p := g (p div N) (p mod N)]) (i * N + j))) C"
    by (rule for_loop_cong) simp
  also have "\<dots> = for_loop 0 (N * N) (\<lambda>p s. s[p := g (p div N) (p mod N)]) C"
    by (rule for_loop_nested)
  finally show ?thesis using assms(2) by (simp add: for_loop_fill)
qed

lemma for_loop_accumulate:
  "for_loop 0 n (\<lambda>k C. C[p := C ! p + f k]) (C[p := 0]) = C[p := (\<Sum>k<n. f k)]"
proof (cases "p < length C")
  case True
  then show ?thesis by (induction n) (simp_all add: for_loop_last)
next
  case False
  then show ?thesis by (induction n) (simp_all add: for_loop_last list_update_beyond)
qed

lemma for_loop_fold: "n \<le> length C \<Longrightarrow> for_loop 0 n (\<lambda>p. g (C ! p)) s = fold g (take n C) s"
  by (induction n) (simp_all add: for_loop_last take_Suc_conv_app_nth)

lemma cell_index:
  fixes N :: nat
  assumes "i < N" and "j < N"
  shows "i * N + j < N * N"
proof -
  have "i * N + j < Suc i * N" using assms(2) by simp
  also have "\<dots> \<le> N * N" using assms(1) by (intro mult_le_mono1) simp
  finally show ?thesis .
qed

section \<open>The operations as sums of products\<close>

definition product :: "nat \<Rightarrow> (MATRES \<Rightarrow> MATRES) \<Rightarrow> MATDAT list \<Rightarrow> MATDAT list \<Rightarrow> MATRES list" where
  "product N g A B =
     map (\<lambda>p. \<Sum>k<N. g (scast (A ! (p div N * N + k)) * scast (B ! (k * N + p mod N)))) [0..<N * N]"

definition fields :: "MATRES \<Rightarrow> MATRES" where
  "fields x = of_nat (unat x div 2 ^ 2 mod 2 ^ 4) * of_nat (unat x div 2 ^ 5 mod 2 ^ 7)"

lemma bit_extract_field:
  assumes "from + to \<le> 32"
  shows "bit_extract x from to = of_nat (unat x div 2 ^ from mod 2 ^ to)"
proof -
  have ones: "(0xffffffff :: 32 word) = - 1" by simp
  have "bit_extract x from to = take_bit to (drop_bit from x)"
    unfolding bit_extract_def ones by (rule bit_eqI) (use assms in \<open>auto simp: bit_simps\<close>)
  also have "\<dots> = of_nat (unat (take_bit to (drop_bit from x)))" by simp
  also have "unat (take_bit to (drop_bit from x)) = take_bit to (drop_bit from (unat x))"
    by (simp add: unsigned_take_bit_eq unat_drop_bit_eq)
  finally show ?thesis by (simp add: take_bit_eq_mod drop_bit_eq_div)
qed

lemma matrix_add_const_eq:
  "length A = N * N \<Longrightarrow> matrix_add_const N A val = map (\<lambda>x. x + val) A"
  using for_loop_nested [of N N "\<lambda>p A. A[p := A ! p + val]" A] for_loop_map [of "N * N" A "\<lambda>p x. x + val"]
  by (auto simp: matrix_add_const_def intro: nth_equalityI)

lemma matrix_mul_const_eq:
  "length A = N * N \<Longrightarrow> length C = N * N \<Longrightarrow>
     matrix_mul_const N C A val = map (\<lambda>x. scast x * scast val) A"
  using for_loop_nested [of N N "\<lambda>p C. C[p := scast (A ! p) * scast val]" C]
  by (auto simp: matrix_mul_const_def for_loop_fill intro: nth_equalityI)

lemma matrix_mul_vect_eq:
  "N \<le> length C \<Longrightarrow>
     matrix_mul_vect N C A B = map (\<lambda>i. \<Sum>j<N. scast (A ! (i * N + j)) * scast (B ! j)) [0..<N] @ drop N C"
  by (simp add: matrix_mul_vect_def for_loop_accumulate for_loop_fill)

lemma matrix_mul_matrix_eq:
  "length C = N * N \<Longrightarrow> matrix_mul_matrix N C A B = product N id A B"
  by (subst matrix_mul_matrix_def, subst for_loop_cells [OF for_loop_accumulate]) (simp_all add: product_def)

lemma matrix_mul_matrix_bitextract_eq:
  "length C = N * N \<Longrightarrow> matrix_mul_matrix_bitextract N C A B = product N fields A B"
  by (subst matrix_mul_matrix_bitextract_def, unfold Let_def, subst for_loop_cells [OF for_loop_accumulate])
    (simp_all add: product_def fields_def bit_extract_field)

lemma matrix_sum_fold:
  "length C = N * N \<Longrightarrow> matrix_sum N C clipval = snd (snd (fold (sum_step clipval) C (0, 0, 0)))"
  using for_loop_nested [of N N "\<lambda>p. sum_step clipval (C ! p)"] by (simp add: matrix_sum_def for_loop_fold)

section \<open>The benchmark computes the products and restores its input\<close>

text \<open>C35: the matrix test returns the CRC of the sums of the four result matrices (the scaled matrix,
  the matrix times the first row of \<open>B\<close>, the matrix product and the product of bit fields), leaves
  the last one in \<open>C\<close>, and gives \<open>A\<close> back its initial contents.\<close>

theorem matrix_test_correct:
  assumes "length A = N * N" and "length C = N * N"
  shows "matrix_test N C A B val =
    (let A' = map (\<lambda>x. x + val) A;
         S = (\<lambda>M. snd (snd (fold (sum_step (matrix_big val)) M (0, 0, 0))));
         M1 = map (\<lambda>x. scast x * scast val) A';
         M2 = map (\<lambda>i. \<Sum>j<N. scast (A' ! (i * N + j)) * scast (B ! j)) [0..<N] @ drop N M1;
         M3 = product N id A' B;
         M4 = product N fields A' B
     in (crc16 (S M4) (crc16 (S M3) (crc16 (S M2) (crc16 (S M1) 0))), M4, A))"
proof -
  have "N \<le> N * N" by (cases N) auto
  moreover have "map ((\<lambda>x. x + - val) \<circ> (\<lambda>x. x + val)) A = A" by (simp add: comp_def)
  ultimately show ?thesis
    using assms unfolding matrix_test_def Let_def
    by (simp add: matrix_add_const_eq matrix_mul_const_eq matrix_mul_vect_eq matrix_mul_matrix_eq
        matrix_mul_matrix_bitextract_eq matrix_sum_fold product_def)
qed

theorem matrix_test_correct_witness:
  "matrix_test 1 [0] [3] [9] 2 = (crc16 10 (crc16 10 (crc16 10 (crc16 10 0))), [11], [3])"
  using matrix_test_correct [where A = "[3]" and N = 1 and C = "[0]" and B = "[9]" and val = 2]
  by (simp add: product_def fields_def sum_step_def matrix_big_def unat_word_ariths lessThan_Suc)

section \<open>The initialisation\<close>

lemma unat_square:
  assumes "n \<le> 23170"
  shows "unat (of_nat (n * n * 2 * 4) :: u32) = n * n * 8"
proof -
  have "n * n \<le> 23170 * 23170" using assms by (intro mult_le_mono)
  then have "take_bit 32 (n * n * 2 * 4) = n * n * 8" by (simp add: take_bit_eq_mod)
  then show ?thesis by (simp only: unsigned_of_nat len_num1 len_num0 len_bit0 len_bit1) simp
qed

lemma dimension_loop_result:
  assumes "n \<le> 23170" and "unat blksize \<le> 23170 * 23170 * 8" and "n = 0 \<or> (n - 1) * (n - 1) * 8 < unat blksize"
  shows "\<exists>i. dimension_loop blksize (of_nat n) (of_nat (n * n * 2 * 4)) = Some (of_nat i) \<and> i \<le> 23170 \<and>
    unat blksize \<le> i * i * 8 \<and> (i = 0 \<or> (i - 1) * (i - 1) * 8 < unat blksize)"
  using assms(1,3)
proof (induction "23170 - n" arbitrary: n rule: less_induct)
  case less
  have cond: "of_nat (n * n * 2 * 4) < blksize \<longleftrightarrow> n * n * 8 < unat blksize"
    using unat_square [OF less.prems(1)] by (simp add: word_less_nat_alt)
  show ?case
  proof (cases "n * n * 8 < unat blksize")
    case True
    then have "n \<noteq> 23170" using assms(2) by auto
    then have n: "23170 - Suc n < 23170 - n" "Suc n \<le> 23170" using less.prems(1) by auto
    have next_n: "of_nat n + 1 = (of_nat (Suc n) :: u32)"
      "of_nat (Suc n) * of_nat (Suc n) * 2 * 4 = (of_nat (Suc n * Suc n * 2 * 4) :: u32)"
      by (simp, simp only: of_nat_mult of_nat_numeral)
    show ?thesis
      using less.hyps [OF n(1) n(2)] True cond
      by (subst dimension_loop.simps) (simp only: next_n if_True True diff_Suc_1 simp_thms)
  next
    case False
    then show ?thesis using cond less.prems by (subst dimension_loop.simps) auto
  qed
qed

lemma dimension_bounds:
  assumes "0 < blksize" and "unat blksize \<le> 23170 * 23170 * 8"
  shows "\<exists>N. dimension_loop blksize 0 0 = Some (of_nat (Suc N)) \<and> N < 23170 \<and>
    N * N * 8 < unat blksize \<and> unat blksize \<le> Suc N * Suc N * 8"
proof -
  obtain i where i: "dimension_loop blksize 0 0 = Some (of_nat i)" "i \<le> 23170" "unat blksize \<le> i * i * 8"
      "i = 0 \<or> (i - 1) * (i - 1) * 8 < unat blksize"
    using dimension_loop_result [of 0 blksize] assms(2) by auto
  moreover have "unat blksize \<noteq> 0" using assms(1) by (simp add: unat_eq_0)
  ultimately show ?thesis by (cases i) auto
qed

lemma smod_65536: "ucast (word_of_int (a smod 65536) :: u32) = (word_of_int a :: u16)"
proof -
  obtain k where k: "a smod 65536 = a + k * 65536"
    using that [of "- (a sdiv 65536)"] sdiv_mult_smod_eq [of a 65536] by linarith
  have "take_bit 16 (a smod 65536) = take_bit 16 a"
    by (simp only: k take_bit_eq_mod) simp
  then show ?thesis by transfer simp
qed

lemma word_of_int_low: "(word_of_int (take_bit LENGTH(32) k) :: u16) = word_of_int k"
  by transfer simp

lemma ucast_low: "ucast (x :: u32) = (word_of_int (uint x) :: u16)"
  by simp

lemma ucast_sum: "ucast (x + y :: u32) = (ucast x + ucast y :: u16)"
  by (simp only: ucast_low uint_word_arith_bintrs word_of_int_low of_int_add)

lemma ucast_nat: "ucast (of_nat k :: u32) = (of_nat k :: u16)"
  by (induction k) (simp_all add: ucast_sum)

lemma ucast_prod: "ucast (x * y :: u32) = (ucast x * ucast y :: u16)"
  by (simp only: ucast_low uint_word_arith_bintrs word_of_int_low of_int_mult)

lemma ucast_signed:
  "ucast (scast v :: u32) = (v :: u16)" "(word_of_int (sint z) :: u16) = ucast (z :: u32)"
  by (transfer, simp add: take_bit_signed_take_bit)+

lemma matrix_clip_all: "matrix_clip x False = x"
proof -
  have "(0xffff :: u16) = - 1" by simp
  then show ?thesis unfolding matrix_clip_def by (simp only: and.right_neutral if_False)
qed

lemma init_cell_effect:
  "\<exists>seed'. ucast seed' = (ucast order * ucast seed :: u16) \<and>
     init_cell p (seed, order, A, B) = (seed', order + 1,
       A[p := (ucast order * ucast seed + ucast order + ucast order) AND 0xff],
       B[p := ucast order * ucast seed + ucast order])"
  unfolding init_cell_def prod.case Let_def matrix_clip_all
  by (intro exI conjI) (simp_all only: smod_65536 ucast_sum ucast_signed ucast_prod matrix_clip_def if_True)

text \<open>The cells after \<open>p\<close> steps: the seed is a factorial multiple of the initial one, modulo \<open>2 ^ 16\<close>.\<close>

definition cells :: "u32 \<Rightarrow> nat \<Rightarrow> MATDAT list \<Rightarrow> MATDAT list \<Rightarrow> bool" where
  "cells seed0 n A B \<longleftrightarrow> (\<forall>p<n. B ! p = of_nat (fact (Suc p)) * ucast seed0 + of_nat (Suc p) \<and>
     A ! p = (B ! p + of_nat (Suc p)) AND 0xff)"

lemma init_cells:
  assumes "n \<le> length A" and "n \<le> length B"
  shows "case for_loop 0 n init_cell (seed0, 1, A, B) of (seed, order, A', B') \<Rightarrow>
    ucast seed = (of_nat (fact n) * ucast seed0 :: u16) \<and> order = of_nat (Suc n) \<and>
    length A' = length A \<and> length B' = length B \<and> cells seed0 n A' B'"
  using assms
proof (induction n)
  case 0
  then show ?case by (simp add: cells_def)
next
  case (Suc n)
  obtain seed order A' B' where st: "for_loop 0 n init_cell (seed0, 1, A, B) = (seed, order, A', B')"
    using prod_cases4 by blast
  let ?o = "of_nat (Suc n) :: u16"
  have fact_step: "(of_nat (fact (Suc n)) :: u16) = ?o * of_nat (fact n)"
    by (simp only: fact_Suc of_nat_mult of_nat_id)
  have IH: "ucast seed = (of_nat (fact n) * ucast seed0 :: u16)" "ucast order = ?o" "order + 1 = of_nat (Suc (Suc n))"
      "length A' = length A" "length B' = length B" "cells seed0 n A' B'"
    using Suc st by (simp_all add: ucast_sum ucast_nat)
  obtain seed' where "ucast seed' = (?o * ucast seed :: u16)"
      "init_cell n (seed, order, A', B') = (seed', order + 1, A'[n := (?o * ucast seed + ?o + ?o) AND 0xff],
         B'[n := ?o * ucast seed + ?o])"
    using init_cell_effect [of order seed n A' B'] unfolding IH(2) by blast
  then show ?case
    using st IH Suc.prems
    by (auto simp: for_loop_last cells_def less_Suc_eq fact_step mult.assoc simp del: of_nat_Suc fact_Suc)
qed

lemma core_init_matrix_result:
  assumes "0 < blksize" and "unat blksize \<le> 23170 * 23170 * 8" and "unat blksize \<le> 8 * length A" and "unat blksize \<le> 8 * length B"
  shows "\<exists>p. core_init_matrix blksize memblk seed A B C = Some p \<and>
    8 * N_of p ^ 2 < unat blksize \<and> unat blksize \<le> 8 * Suc (N_of p) ^ 2 \<and>
    A_at p = align_mem memblk \<and> B_at p = A_at p + of_nat (2 * N_of p ^ 2) \<and> C_at p = align_mem (B_at p + of_nat (2 * N_of p ^ 2)) \<and>
    length (A_of p) = length A \<and> length (B_of p) = length B \<and>
    cells (if seed = 0 then 1 else seed) (N_of p ^ 2) (A_of p) (B_of p)"
proof -
  obtain N where N: "dimension_loop blksize 0 0 = Some (of_nat (Suc N))" "N < 23170"
      "N * N * 8 < unat blksize" "unat blksize \<le> Suc N * Suc N * 8"
    using dimension_bounds [OF assms(1,2)] by blast
  have uN: "unat (of_nat (Suc N) - 1 :: u32) = N"
    using N(2) by (simp add: unsigned_of_nat take_bit_nat_eq_self_iff)
  have "N * N \<le> length A" "N * N \<le> length B" using N(3) assms(3,4) by linarith+
  then obtain s' o' A' B' where l: "for_loop 0 (N * N) init_cell (if seed = 0 then 1 else seed, 1, A, B) = (s', o', A', B')"
      "length A' = length A" "length B' = length B" "cells (if seed = 0 then 1 else seed) (N * N) A' B'"
    using init_cells [of "N * N" A B "if seed = 0 then 1 else seed"] by (auto split: prod.splits)
  show ?thesis
    unfolding core_init_matrix_def Let_def N(1) option.case uN for_loop_nested [of N N init_cell] l(1) prod.case
    by (rule exI, rule conjI, rule refl) (use N(3,4) l in \<open>simp add: power2_eq_square mult.commute\<close>)
qed

text \<open>For every block size from 1 to \<open>8 * 23170 ^ 2\<close> the initialisation ends; the dimension is the
  largest \<open>N\<close> with \<open>8 * N ^ 2\<close> below the block size, the matrices are laid out one after the other
  from the aligned block, and the cells are given by the seed and their number, counted from 1.\<close>

theorem core_init_matrix_correct:
  assumes "0 < blksize" and "unat blksize \<le> 23170 * 23170 * 8" and "unat blksize \<le> 8 * length A" and "unat blksize \<le> 8 * length B"
  shows "\<exists>p. core_init_matrix blksize memblk seed A B C = Some p \<and>
    8 * N_of p ^ 2 < unat blksize \<and> unat blksize \<le> 8 * Suc (N_of p) ^ 2 \<and>
    A_at p = align_mem memblk \<and> B_at p = A_at p + of_nat (2 * N_of p ^ 2) \<and> C_at p = align_mem (B_at p + of_nat (2 * N_of p ^ 2)) \<and>
    length (A_of p) = length A \<and> length (B_of p) = length B \<and>
    cells (if seed = 0 then 1 else seed) (N_of p ^ 2) (A_of p) (B_of p)"
  using assms by (rule core_init_matrix_result)

theorem core_init_matrix_correct_witness:
  "\<exists>p. core_init_matrix 9 1 7 (replicate 2 0) (replicate 2 0) [0] = Some p \<and> 8 * N_of p ^ 2 < 9 \<and> 9 \<le> 8 * Suc (N_of p) ^ 2 \<and>
    A_at p = align_mem 1 \<and> B_at p = A_at p + of_nat (2 * N_of p ^ 2) \<and> C_at p = align_mem (B_at p + of_nat (2 * N_of p ^ 2)) \<and>
    length (A_of p) = 2 \<and> length (B_of p) = 2 \<and> cells 7 (N_of p ^ 2) (A_of p) (B_of p)"
  using core_init_matrix_correct [where blksize = 9 and memblk = 1 and seed = 7 and A = "replicate 2 0" and B = "replicate 2 0" and C = "[0]"]
  by (simp del: power_Suc)

lemma fact_vanishes:
  assumes "18 \<le> n"
  shows "(of_nat (fact n) :: u16) = 0"
proof -
  have "(of_nat (fact 18) :: u16) = 0"
    by (simp add: fact_numeral)
  moreover obtain k where "fact n = fact 18 * (k :: nat)"
    using fact_dvd [OF assms, where ?'a = nat] by (elim dvdE)
  ultimately show ?thesis by (simp only: of_nat_mult mult_zero_left)
qed

text \<open>From the eighteenth cell on the matrices do not depend on the seed: the factorial has
  gathered sixteen factors of two, so \<open>B\<close> counts upwards and \<open>A\<close> is the low byte of its double.\<close>

theorem core_init_matrix_seed_vanishes:
  assumes "0 < blksize" and "unat blksize \<le> 23170 * 23170 * 8" and "unat blksize \<le> 8 * length A" and "unat blksize \<le> 8 * length B"
    and "core_init_matrix blksize memblk seed A B C = Some p" and "17 \<le> k" and "k < N_of p ^ 2"
  shows "B_of p ! k = of_nat (Suc k) \<and> A_of p ! k = of_nat (2 * Suc k) AND 0xff"
proof -
  have "cells (if seed = 0 then 1 else seed) (N_of p ^ 2) (A_of p) (B_of p)"
    using core_init_matrix_result [OF assms(1-4), of memblk seed C] assms(5) by auto
  moreover have "(of_nat (fact (Suc k)) :: u16) = 0" by (rule fact_vanishes) (use assms(6) in simp)
  ultimately have "B_of p ! k = of_nat (Suc k)" "A_of p ! k = (B_of p ! k + of_nat (Suc k)) AND 0xff"
    using assms(7) unfolding cells_def by (simp_all del: fact_Suc of_nat_Suc)
  then show ?thesis by (simp add: algebra_simps)
qed

theorem core_init_matrix_seed_vanishes_witness:
  "\<exists>p. core_init_matrix 201 0 7 (replicate 26 0) (replicate 26 0) [] = Some p \<and> B_of p ! 17 = 18 \<and> A_of p ! 17 = 36"
proof -
  obtain p where p: "core_init_matrix 201 0 7 (replicate 26 0) (replicate 26 0) [] = Some p" "201 \<le> 8 * Suc (N_of p) ^ 2"
    using core_init_matrix_result [where blksize = 201 and memblk = 0 and seed = 7 and A = "replicate 26 0"
        and B = "replicate 26 0" and C = "[]"] by (auto simp del: power_Suc)
  have "17 < N_of p ^ 2"
  proof (cases "5 \<le> N_of p")
    case True
    then have "5 ^ 2 \<le> N_of p ^ 2" by (rule power_mono) simp
    then show ?thesis by simp
  next
    case False
    then have "Suc (N_of p) ^ 2 \<le> 5 ^ 2" by (intro power_mono) simp_all
    then show ?thesis using p(2) by (simp del: power_Suc)
  qed
  then show ?thesis
    using core_init_matrix_seed_vanishes [OF _ _ _ _ p(1), of 17] p(1) by simp
qed

lemma unat_small: "n < 2 ^ 64 \<Longrightarrow> unat (of_nat n :: u64) = n"
  by (simp add: unsigned_of_nat take_bit_nat_eq_self)

lemma align_mem_unat:
  assumes "0 < x" and "unat x + 3 < 2 ^ 64"
  shows "unat (align_mem x) = 4 * ((unat x + 3) div 4)"
proof -
  let ?y = "x - 1"
  have y: "unat ?y = unat x - 1" using assms(1) by (simp add: unat_minus_one)
  have three: "(3 :: u64) = mask 2" by (simp add: mask_eq_exp_minus_1)
  have "?y AND NOT 3 = push_bit 2 (drop_bit 2 ?y)"
    unfolding three by (rule bit_eqI) (auto simp: bit_simps not_less dest!: le_Suc_ex)
  also have "\<dots> = of_nat (4 * (unat ?y div 4))"
    by (simp add: push_bit_eq_mult drop_bit_eq_div word_arith_nat_div)
  finally have "align_mem x = of_nat (4 + 4 * (unat ?y div 4))" by (simp add: align_mem_def)
  also have "4 + 4 * (unat ?y div 4) = 4 * ((unat x + 3) div 4)"
    proof -
    have "0 < unat x" using assms(1) by (simp add: word_less_nat_alt)
    then obtain k where "unat x = Suc k" by (cases "unat x") auto
    moreover have "(4 + k) div 4 = Suc (k div 4)" by (simp add: div_add_self1)
    ultimately show ?thesis unfolding y by simp
  qed
  finally have "align_mem x = of_nat (4 * ((unat x + 3) div 4))" .
  moreover have "4 * ((unat x + 3) div 4) < 2 ^ 64" using assms(2) by simp
  ultimately show ?thesis by (simp only: unat_small)
qed

text \<open>The three matrices lie one after the other inside the block, when the block is not at the end
  of the address space and its size is a multiple of 4.\<close>

theorem core_init_matrix_layout:
  assumes "0 < blksize" and "unat blksize \<le> 23170 * 23170 * 8" and "unat blksize \<le> 8 * length A" and "unat blksize \<le> 8 * length B"
    and "0 < memblk" and "unat memblk + unat blksize + 8 < 2 ^ 64" and "4 dvd unat blksize"
    and "core_init_matrix blksize memblk seed A B C = Some p"
  shows "unat memblk \<le> unat (A_at p) \<and> unat (B_at p) = unat (A_at p) + 2 * N_of p ^ 2 \<and>
    unat (C_at p) = unat (B_at p) + 2 * N_of p ^ 2 \<and> unat (C_at p) + 4 * N_of p ^ 2 \<le> unat memblk + unat blksize"
proof -
  let ?n = "N_of p ^ 2" and ?b = "unat blksize" and ?m = "unat memblk"
  have p: "8 * ?n < ?b" "A_at p = align_mem memblk" "B_at p = A_at p + of_nat (2 * ?n)"
      "C_at p = align_mem (B_at p + of_nat (2 * ?n))"
    using core_init_matrix_result [OF assms(1-4), of memblk seed C] assms(8) by auto
  obtain q where q: "?b = 4 * q" using assms(7) by (elim dvdE)
  have slack: "8 * ?n + 4 \<le> ?b" using p(1) q by presburger
  have A: "unat (A_at p) = 4 * ((?m + 3) div 4)"
    unfolding p(2) by (rule align_mem_unat) (use assms(5,6) slack in simp_all)
  have "?m \<le> unat (A_at p)" "unat (A_at p) \<le> ?m + 3" unfolding A by presburger+
  have add: "unat (x + of_nat k) = unat x + k" if "unat x + k < 2 ^ 64" for x :: u64 and k
    using that by (simp add: unat_add_lem [THEN iffD1] unsigned_of_nat take_bit_nat_eq_self)
  have B: "unat (B_at p) = unat (A_at p) + 2 * ?n" unfolding p(3)
    by (rule add) (use \<open>unat (A_at p) \<le> ?m + 3\<close> slack assms(6) in linarith)
  have B2: "unat (B_at p + of_nat (2 * ?n)) = unat (A_at p) + 4 * ?n"
    using B by (subst add) (use \<open>unat (A_at p) \<le> ?m + 3\<close> slack assms(6) in linarith)+
  have "0 < B_at p + of_nat (2 * ?n)"
    using B2 \<open>?m \<le> unat (A_at p)\<close> assms(5) by (simp add: word_less_nat_alt)
  then have "unat (C_at p) = 4 * ((unat (A_at p) + 4 * ?n + 3) div 4)"
    unfolding p(4) B2 [symmetric] by (rule align_mem_unat)
      (use B2 \<open>unat (A_at p) \<le> ?m + 3\<close> slack assms(6) in linarith)
  then have "unat (C_at p) = unat (A_at p) + 4 * ?n" unfolding A by presburger
  then show ?thesis
    using B \<open>?m \<le> unat (A_at p)\<close> \<open>unat (A_at p) \<le> ?m + 3\<close> slack by linarith
qed

theorem core_init_matrix_layout_witness:
  "\<exists>p. core_init_matrix 12 1001 7 (replicate 2 0) (replicate 2 0) [] = Some p \<and> unat (C_at p) + 4 * N_of p ^ 2 \<le> 1013"
proof -
  obtain p where p: "core_init_matrix 12 1001 7 (replicate 2 0) (replicate 2 0) [] = Some p"
    using core_init_matrix_result [where blksize = 12 and memblk = 1001 and seed = 7 and A = "replicate 2 0"
        and B = "replicate 2 0" and C = "[]"] by auto
  show ?thesis using core_init_matrix_layout [OF _ _ _ _ _ _ _ p] p by simp
qed

end
