(* ===== verification/CoreListOps.thy ===== *)
theory CoreListOps
  imports CoreState CoreMatrix
begin

text \<open>
  CoreMark's list benchmark (\<open>core_list_join.c\<close>), its operations. The headers \<open>list_head\<close> and the
  items \<open>list_data\<close> are two arrays of the benchmark's memory, a pointer is an index into its array
  and \<open>NULL\<close> is \<open>None\<close>; following a null pointer is the result \<open>None\<close>, as is a loop that does not
  end.
\<close>

unbundle bit_operations_syntax

section \<open>Memory\<close>

type_synonym ptr = "nat option"

record heads =
  nxt :: "nat \<Rightarrow> ptr"
  info :: "nat \<Rightarrow> nat"

record datas =
  data16 :: "nat \<Rightarrow> u16"
  idx :: "nat \<Rightarrow> u16"

text \<open>A \<open>list_data\<close> outside the block, the \<open>info\<close> variables of the C functions.\<close>

record list_data =
  d_data16 :: u16
  d_idx :: u16

record core_results =
  seed1 :: u16
  seed2 :: u16
  seed3 :: u16
  memblock3 :: "u8 list"
  res_size :: u32
  iterations :: u32
  execs :: u32
  res_list :: ptr
  mat :: mat_params
  crc :: u16
  crclist :: u16
  crcmatrix :: u16
  crcstate :: u16
  err :: u16

section \<open>The data of an item\<close>

definition set_data16 :: "nat \<Rightarrow> u16 \<Rightarrow> datas \<Rightarrow> datas" where
  "set_data16 a x d = d\<lparr>data16 := (data16 d)(a := x)\<rparr>"

text \<open>The \<open>switch (flag)\<close>: the state benchmark, the matrix benchmark or the datum itself.\<close>

definition calc_operation :: "u16 \<Rightarrow> core_results \<Rightarrow> (u16 \<times> core_results) option" where
  "calc_operation data res =
     (let flag = data AND 7;
          dtype = signed_drop_bit 3 data AND 0xf;
          dtype = dtype OR push_bit 4 dtype
      in if flag = 0 then
           let dtype = (if sint dtype < 0x22 then 0x22 else dtype)
           in case core_bench_state (unat (res_size res)) (memblock3 res) (seed1 res) (seed2 res) (unat dtype) (crc res) of
                None \<Rightarrow> None
              | Some (retval, m) \<Rightarrow>
                  let res = res\<lparr>memblock3 := m\<rparr>
                  in Some (retval, if crcstate res = 0 then res\<lparr>crcstate := retval\<rparr> else res)
         else if flag = 1 then
           case core_bench_matrix (mat res) dtype (crc res) of
             (retval, p) \<Rightarrow>
               let res = res\<lparr>mat := p\<rparr>
               in Some (retval, if crcmatrix res = 0 then res\<lparr>crcmatrix := retval\<rparr> else res)
         else Some (data, res))"

definition calc_func :: "nat \<Rightarrow> datas \<times> core_results \<Rightarrow> (u16 \<times> datas \<times> core_results) option" where
  "calc_func pdata st =
     (case st of (d, res) \<Rightarrow>
        let data = data16 d pdata in
        if signed_drop_bit 7 data AND 1 \<noteq> 0 then Some (data AND 0x007f, d, res)
        else
          case calc_operation data res of
            None \<Rightarrow> None
          | Some (retval, res) \<Rightarrow>
              let res = res\<lparr>crc := crcu16 retval (crc res)\<rparr>;
                  retval = retval AND 0x007f
              in Some (retval, set_data16 pdata ((data AND 0xff00) OR 0x0080 OR retval) d, res))"

definition cmp_complex :: "nat \<Rightarrow> nat \<Rightarrow> datas \<times> core_results \<Rightarrow> (int \<times> datas \<times> core_results) option" where
  "cmp_complex a b st =
     (case calc_func a st of None \<Rightarrow> None
      | Some (val1, st) \<Rightarrow>
     (case calc_func b st of None \<Rightarrow> None
      | Some (val2, st) \<Rightarrow> Some (sint val1 - sint val2, st)))"

text \<open>The first argument is the test \<open>res==NULL\<close>.\<close>

definition regenerate :: "nat \<Rightarrow> datas \<Rightarrow> datas" where
  "regenerate a d = set_data16 a ((data16 d a AND 0xff00) OR (0x00ff AND signed_drop_bit 8 (data16 d a))) d"

definition cmp_idx :: "bool \<Rightarrow> nat \<Rightarrow> nat \<Rightarrow> datas \<Rightarrow> (int \<times> datas) option" where
  "cmp_idx null a b d =
     (let d = (if null then regenerate b (regenerate a d) else d)
      in Some (sint (idx d a) - sint (idx d b), d))"

definition copy_info :: "nat \<Rightarrow> list_data \<Rightarrow> datas \<Rightarrow> datas" where
  "copy_info a i d = d\<lparr>data16 := (data16 d)(a := d_data16 i), idx := (idx d)(a := d_idx i)\<rparr>"

section \<open>Searching and reversing\<close>

partial_function (option) find_idx :: "heads \<Rightarrow> datas \<Rightarrow> u16 \<Rightarrow> ptr \<Rightarrow> ptr option" where
  "find_idx h d i list =
     (case list of None \<Rightarrow> Some None
      | Some x \<Rightarrow> if idx d (info h x) \<noteq> i then find_idx h d i (nxt h x) else Some list)"

partial_function (option) find_data :: "heads \<Rightarrow> datas \<Rightarrow> u16 \<Rightarrow> ptr \<Rightarrow> ptr option" where
  "find_data h d i list =
     (case list of None \<Rightarrow> Some None
      | Some x \<Rightarrow> if data16 d (info h x) AND 0xff \<noteq> i then find_data h d i (nxt h x) else Some list)"

definition core_list_find :: "heads \<Rightarrow> datas \<Rightarrow> list_data \<Rightarrow> ptr \<Rightarrow> ptr option" where
  "core_list_find h d i list =
     (if sint (d_idx i) \<ge> 0 then find_idx h d (d_idx i) list else find_data h d (d_data16 i) list)"

partial_function (option) reverse_loop :: "ptr \<Rightarrow> ptr \<Rightarrow> heads \<Rightarrow> (ptr \<times> heads) option" where
  "reverse_loop list prev h =
     (case list of None \<Rightarrow> Some (prev, h)
      | Some x \<Rightarrow> reverse_loop (nxt h x) list (h\<lparr>nxt := (nxt h)(x := prev)\<rparr>))"

definition core_list_reverse :: "ptr \<Rightarrow> heads \<Rightarrow> (ptr \<times> heads) option" where
  "core_list_reverse list h = reverse_loop list None h"

declare find_idx.simps [code] find_data.simps [code] reverse_loop.simps [code]

section \<open>Inserting and removing\<close>

record arena =
  memblock :: nat
  datablock :: nat
  memblock_end :: nat
  datablock_end :: nat

definition core_list_insert_new ::
    "nat \<Rightarrow> list_data \<Rightarrow> heads \<times> datas \<times> arena \<Rightarrow> ptr \<times> heads \<times> datas \<times> arena" where
  "core_list_insert_new insert_point i st =
     (case st of (h, d, ar) \<Rightarrow>
        if memblock ar + 1 \<ge> memblock_end ar then (None, st)
        else if datablock ar + 1 \<ge> datablock_end ar then (None, st)
        else
          let newitem = memblock ar;
              ar = ar\<lparr>memblock := memblock ar + 1\<rparr>;
              h = h\<lparr>nxt := (nxt h)(newitem := nxt h insert_point)\<rparr>;
              h = h\<lparr>nxt := (nxt h)(insert_point := Some newitem)\<rparr>;
              h = h\<lparr>info := (info h)(newitem := datablock ar)\<rparr>;
              ar = ar\<lparr>datablock := datablock ar + 1\<rparr>;
              d = copy_info (info h newitem) i d
          in (Some newitem, h, d, ar))"

definition core_list_remove :: "nat \<Rightarrow> heads \<Rightarrow> (nat \<times> heads) option" where
  "core_list_remove item h =
     (case nxt h item of None \<Rightarrow> None
      | Some ret \<Rightarrow>
          let tmp = info h item;
              h = h\<lparr>info := (info h)(item := info h ret)\<rparr>;
              h = h\<lparr>info := (info h)(ret := tmp)\<rparr>;
              h = h\<lparr>nxt := (nxt h)(item := nxt h ret)\<rparr>;
              h = h\<lparr>nxt := (nxt h)(ret := None)\<rparr>
          in Some (ret, h))"

definition core_list_undo_remove :: "nat \<Rightarrow> nat \<Rightarrow> heads \<Rightarrow> nat \<times> heads" where
  "core_list_undo_remove item_removed item_modified h =
     (let tmp = info h item_removed;
          h = h\<lparr>info := (info h)(item_removed := info h item_modified)\<rparr>;
          h = h\<lparr>info := (info h)(item_modified := tmp)\<rparr>;
          h = h\<lparr>nxt := (nxt h)(item_removed := nxt h item_modified)\<rparr>;
          h = h\<lparr>nxt := (nxt h)(item_modified := Some item_removed)\<rparr>
      in (item_removed, h))"

section \<open>Sorting\<close>

text \<open>\<open>for (i = 0; i < insize; i++) { psize++; q = q->next; if (!q) break; }\<close>\<close>

fun step_along :: "nat \<Rightarrow> heads \<Rightarrow> ptr \<Rightarrow> nat \<Rightarrow> (ptr \<times> nat) option" where
  "step_along 0 h q psize = Some (q, psize)"
| "step_along (Suc n) h q psize =
     (case q of None \<Rightarrow> None
      | Some x \<Rightarrow> if nxt h x = None then Some (None, psize + 1) else step_along n h (nxt h x) (psize + 1))"

text \<open>Adding an element to the merged list.\<close>

definition append_item :: "nat \<Rightarrow> ptr \<times> ptr \<times> heads \<Rightarrow> ptr \<times> ptr \<times> heads" where
  "append_item e st =
     (case st of (list, tail, h) \<Rightarrow>
        (case tail of
           Some t \<Rightarrow> (list, Some e, h\<lparr>nxt := (nxt h)(t := Some e)\<rparr>)
         | None \<Rightarrow> (Some e, Some e, h)))"

function merge_loop :: "(nat \<Rightarrow> nat \<Rightarrow> 's \<Rightarrow> (int \<times> 's) option) \<Rightarrow> ptr \<Rightarrow> nat \<Rightarrow> ptr \<Rightarrow> nat \<Rightarrow> ptr \<times> ptr \<times> heads \<Rightarrow> 's \<Rightarrow>
    (ptr \<times> (ptr \<times> ptr \<times> heads) \<times> 's) option" where
  "merge_loop cmp p psize q qsize out st =
     (let h = snd (snd out) in
      if psize > 0 \<or> (qsize > 0 \<and> q \<noteq> None) then
        if psize = 0 then
          (case q of None \<Rightarrow> None
           | Some e \<Rightarrow> merge_loop cmp p psize (nxt h e) (qsize - 1) (append_item e out) st)
        else if qsize = 0 \<or> q = None then
          (case p of None \<Rightarrow> None
           | Some e \<Rightarrow> merge_loop cmp (nxt h e) (psize - 1) q qsize (append_item e out) st)
        else
          (case p of None \<Rightarrow> None
           | Some e1 \<Rightarrow>
          (case q of None \<Rightarrow> None
           | Some e2 \<Rightarrow>
          (case cmp (info h e1) (info h e2) st of None \<Rightarrow> None
           | Some (r, st) \<Rightarrow>
               if r \<le> 0 then merge_loop cmp (nxt h e1) (psize - 1) q qsize (append_item e1 out) st
               else merge_loop cmp p psize (nxt h e2) (qsize - 1) (append_item e2 out) st)))
      else Some (q, out, st))"
  by pat_completeness auto
termination
  by (relation "measure (\<lambda>(cmp, p, psize, q, qsize, out, st). psize + qsize)") auto

declare merge_loop.simps [simp del]

text \<open>\<open>while (p)\<close>: one pass over the list.\<close>

partial_function (option) merge_pass ::
    "(nat \<Rightarrow> nat \<Rightarrow> 's \<Rightarrow> (int \<times> 's) option) \<Rightarrow> nat \<Rightarrow> ptr \<Rightarrow> nat \<Rightarrow> ptr \<times> ptr \<times> heads \<Rightarrow> 's \<Rightarrow>
       (nat \<times> (ptr \<times> ptr \<times> heads) \<times> 's) option" where
  "merge_pass cmp insize p nmerges out st =
     (if p = None then Some (nmerges, out, st)
      else case step_along insize (snd (snd out)) p 0 of None \<Rightarrow> None
           | Some (q, psize) \<Rightarrow>
          (case merge_loop cmp p psize q insize out st of None \<Rightarrow> None
           | Some (q, out, st) \<Rightarrow> merge_pass cmp insize q (nmerges + 1) out st))"

partial_function (option) sort_loop ::
    "(nat \<Rightarrow> nat \<Rightarrow> 's \<Rightarrow> (int \<times> 's) option) \<Rightarrow> nat \<Rightarrow> ptr \<Rightarrow> heads \<Rightarrow> 's \<Rightarrow> (ptr \<times> heads \<times> 's) option" where
  "sort_loop cmp insize list h st =
     (case merge_pass cmp insize list 0 (None, None, h) st of None \<Rightarrow> None
      | Some (nmerges, (list, tail, h), st) \<Rightarrow>
          (case tail of None \<Rightarrow> None
           | Some t \<Rightarrow>
               let h = h\<lparr>nxt := (nxt h)(t := None)\<rparr>
               in if nmerges \<le> 1 then Some (list, h, st)
                  else sort_loop cmp (insize * 2) list h st))"

declare merge_pass.simps [code] sort_loop.simps [code]

definition core_list_mergesort ::
    "ptr \<Rightarrow> (nat \<Rightarrow> nat \<Rightarrow> 's \<Rightarrow> (int \<times> 's) option) \<Rightarrow> heads \<Rightarrow> 's \<Rightarrow> (ptr \<times> heads \<times> 's) option" where
  "core_list_mergesort list cmp h st = sort_loop cmp 1 list h st"

end
