(* ===== verification/CoreListSort.thy ===== *)
theory CoreListSort
  imports CoreListOps "HOL-Library.Multiset"
begin

text \<open>
  The list operations of \<open>core_list_join.c\<close> on the lists the heap holds: \<open>lst h p xs\<close> says that
  following \<open>next\<close> from \<open>p\<close> visits the headers \<open>xs\<close> and ends at \<open>NULL\<close>. Reversal, removal and its
  undoing, search, and the merge sort, proved once for every comparison that keeps the contract of
  the locale \<open>comparator\<close>, and interpreted on \<open>cmp_idx\<close>.
\<close>

section \<open>Lists in the heap\<close>

fun lst :: "heads \<Rightarrow> ptr \<Rightarrow> nat list \<Rightarrow> bool" where
  "lst h p [] \<longleftrightarrow> p = None"
| "lst h p (x # xs) \<longleftrightarrow> p = Some x \<and> lst h (nxt h x) xs"

lemma lst_None [simp]: "lst h None xs \<longleftrightarrow> xs = []"
  by (cases xs) simp_all

lemma lst_Some: "lst h (Some x) xs \<longleftrightarrow> (\<exists>ys. xs = x # ys \<and> lst h (nxt h x) ys)"
  by (cases xs) auto

lemma lst_cong: "(\<And>x. x \<in> set xs \<Longrightarrow> nxt h' x = nxt h x) \<Longrightarrow> lst h' p xs = lst h p xs"
  by (induction xs arbitrary: p) simp_all

lemma lst_update [simp]:
  "x \<notin> set xs \<Longrightarrow> lst (h\<lparr>nxt := (nxt h)(x := q)\<rparr>) p xs = lst h p xs"
  "x \<notin> set xs \<Longrightarrow> y \<notin> set xs \<Longrightarrow> lst (h\<lparr>nxt := (nxt h)(x := q, y := r)\<rparr>) p xs = lst h p xs"
  "lst (h\<lparr>info := f\<rparr>) p xs = lst h p xs"
  "x \<notin> set xs \<Longrightarrow> y \<notin> set xs \<Longrightarrow> lst (h\<lparr>info := f, nxt := (nxt h)(x := q, y := r)\<rparr>) p xs = lst h p xs"
  by (rule lst_cong; auto)+

lemma lst_unique: "lst h p xs \<Longrightarrow> lst h p ys \<Longrightarrow> xs = ys"
proof (induction xs arbitrary: p ys)
  case (Cons x xs)
  then show ?case by (cases ys) auto
qed simp

lemma lst_append: "lst h p (xs @ y # ys) \<Longrightarrow> lst h (Some y) (y # ys)"
  by (induction xs arbitrary: p) auto

lemma lst_distinct: "lst h p xs \<Longrightarrow> distinct xs"
proof (induction xs arbitrary: p)
  case (Cons x xs)
  have "x \<notin> set xs"
  proof
    assume "x \<in> set xs"
    then obtain ys zs where xs: "xs = ys @ x # zs" by (auto simp: in_set_conv_decomp)
    have "lst h (Some x) (x # zs)" using Cons.prems unfolding xs by (auto dest: lst_append)
    moreover have "lst h (Some x) (x # xs)" using Cons.prems by simp
    ultimately have "x # zs = x # xs" by (rule lst_unique)
    then show False unfolding xs by simp
  qed
  then show ?case using Cons by auto
qed simp

lemma lst_hd: "lst h p xs \<Longrightarrow> xs \<noteq> [] \<Longrightarrow> p = Some (hd xs)"
  by (cases xs) simp_all

section \<open>Search\<close>

lemma find_idx_lst:
  "lst h p xs \<Longrightarrow> find_idx h d i p =
     Some (case dropWhile (\<lambda>x. idx d (info h x) \<noteq> i) xs of [] \<Rightarrow> None | x # _ \<Rightarrow> Some x)"
  by (induction xs arbitrary: p) (subst find_idx.simps, simp)+

lemma find_data_lst:
  "lst h p xs \<Longrightarrow> find_data h d i p =
     Some (case dropWhile (\<lambda>x. data16 d (info h x) AND 0xff \<noteq> i) xs of [] \<Rightarrow> None | x # _ \<Rightarrow> Some x)"
  by (induction xs arbitrary: p) (subst find_data.simps, simp)+

lemma find_lst:
  "lst h p xs \<Longrightarrow> core_list_find h d i p =
     Some (case dropWhile (\<lambda>x. if 0 \<le> sint (d_idx i) then idx d (info h x) \<noteq> d_idx i
                               else data16 d (info h x) AND 0xff \<noteq> d_data16 i) xs of
             [] \<Rightarrow> None | x # _ \<Rightarrow> Some x)"
  by (simp add: core_list_find_def find_idx_lst find_data_lst)

text \<open>On a list the search returns its first item with the wanted index, or, when the wanted index
  is negative, with the wanted low data byte, and \<open>NULL\<close> exactly when there is none.\<close>

theorem core_list_find_first:
  assumes "lst h p xs"
  shows "core_list_find h d i p =
    Some (find (\<lambda>x. if sint (d_idx i) < 0 then data16 d (info h x) AND 0xff = d_data16 i
                    else idx d (info h x) = d_idx i) xs)"
  unfolding find_lst [OF assms]
  by (induction xs) auto

theorem core_list_find_first_witness:
  "core_list_find \<lparr>nxt = (\<lambda>x. if x = 0 then Some 1 else None), info = id\<rparr>
     \<lparr>data16 = (\<lambda>_. 0x12), idx = of_nat\<rparr> \<lparr>d_data16 = 0, d_idx = 1\<rparr> (Some 0) = Some (Some 1)"
  using core_list_find_first [where xs = "[0, 1]" and p = "Some 0" and d = "\<lparr>data16 = (\<lambda>_. 0x12), idx = of_nat\<rparr>"
      and h = "\<lparr>nxt = (\<lambda>x. if x = 0 then Some 1 else None), info = id\<rparr>" and i = "\<lparr>d_data16 = 0, d_idx = 1\<rparr>"]
  by simp

section \<open>Reversal\<close>

lemma reverse_loop_lst:
  assumes "lst h p xs" and "lst h q ys" and "set xs \<inter> set ys = {}"
  shows "\<exists>h'. reverse_loop p q h = Some (if xs = [] then q else Some (last xs), h') \<and>
    lst h' (if xs = [] then q else Some (last xs)) (rev xs @ ys) \<and> info h' = info h \<and>
    (\<forall>x. x \<notin> set xs \<longrightarrow> nxt h' x = nxt h x)"
  using assms
proof (induction xs arbitrary: p q ys h)
  case Nil
  then show ?case by (subst reverse_loop.simps) simp
next
  case (Cons x xs)
  let ?h = "h\<lparr>nxt := (nxt h)(x := q)\<rparr>"
  have d: "x \<notin> set xs" "x \<notin> set ys" using lst_distinct [OF Cons.prems(1)] Cons.prems(3) by auto
  then have "lst ?h (nxt h x) xs" "lst ?h (Some x) (x # ys)" "set xs \<inter> set (x # ys) = {}"
    using Cons.prems by auto
  from Cons.IH [OF this] show ?case
    using Cons.prems(1) d by (subst reverse_loop.simps) auto
qed

lemma reverse_lst:
  assumes "lst h p xs"
  shows "\<exists>q h'. core_list_reverse p h = Some (q, h') \<and> lst h' q (rev xs) \<and> info h' = info h \<and>
    (\<forall>x. x \<notin> set xs \<longrightarrow> nxt h' x = nxt h x)"
  using reverse_loop_lst [OF assms, of None "[]"] by (auto simp: core_list_reverse_def)

text \<open>The links of a heap are determined by the list and by the links outside it.\<close>

lemma lst_determines:
  assumes "lst h p xs" and "lst h' q xs" and "x \<in> set xs"
  shows "nxt h x = nxt h' x"
  using assms
proof (induction xs arbitrary: p q)
  case (Cons y xs)
  then show ?case by (cases xs) auto
qed simp

text \<open>Reversing a list ends, yields the items in the reverse order without touching anything
  else, and reversing again restores the heap and the head.\<close>

theorem core_list_reverse_involution:
  assumes "lst h p xs"
  shows "\<exists>q h'. core_list_reverse p h = Some (q, h') \<and> lst h' q (rev xs) \<and> core_list_reverse q h' = Some (p, h)"
proof -
  obtain q h' where r: "core_list_reverse p h = Some (q, h')" "lst h' q (rev xs)" "info h' = info h"
      "\<forall>x. x \<notin> set xs \<longrightarrow> nxt h' x = nxt h x"
    using reverse_lst [OF assms] by blast
  obtain p2 h2 where r2: "core_list_reverse q h' = Some (p2, h2)" "lst h2 p2 xs" "info h2 = info h'"
      "\<forall>x. x \<notin> set xs \<longrightarrow> nxt h2 x = nxt h' x"
    using reverse_lst [OF r(2)] by auto
  have "nxt h2 x = nxt h x" for x
    using r(4) r2(4) lst_determines [OF r2(2) assms, of x] by (cases "x \<in> set xs") simp_all
  then have "h2 = h" using r(3) r2(3) by (cases h, cases h2) (auto simp: fun_eq_iff)
  moreover have "p2 = p" using r2(2) assms by (cases xs) simp_all
  ultimately show ?thesis using r r2 by blast
qed

theorem core_list_reverse_involution_witness:
  "\<exists>q h'. core_list_reverse (Some 0) \<lparr>nxt = (\<lambda>x. if x = 0 then Some 1 else None), info = id\<rparr> = Some (q, h') \<and>
     lst h' q [1, 0] \<and>
     core_list_reverse q h' = Some (Some 0, \<lparr>nxt = (\<lambda>x. if x = 0 then Some 1 else None), info = id\<rparr>)"
  using core_list_reverse_involution [where xs = "[0, 1]" and p = "Some 0"
      and h = "\<lparr>nxt = (\<lambda>x. if x = 0 then Some 1 else None), info = id\<rparr>"] by simp

section \<open>Removal\<close>

lemma remove_lst:
  assumes "lst h (Some x) (x # y # ys)"
  shows "\<exists>h'. core_list_remove x h = Some (y, h') \<and> lst h' (Some x) (x # ys) \<and>
    info h' = (info h)(x := info h y, y := info h x) \<and> nxt h' = (nxt h)(x := nxt h y, y := None)"
proof -
  have "distinct (x # y # ys)" using lst_distinct [OF assms] .
  then show ?thesis
    using assms by (auto simp: core_list_remove_def Let_def)
qed

lemma remove_undo_lst:
  assumes "lst h (Some x) (x # y # ys)"
  shows "\<exists>h'. core_list_remove x h = Some (y, h') \<and> lst h' (Some x) (x # ys) \<and>
    map (info h') (x # ys) = map (info h) (y # ys) \<and> info h' y = info h x \<and>
    core_list_undo_remove y x h' = (y, h)"
proof -
  have d: "x \<noteq> y" "x \<notin> set ys" "y \<notin> set ys" using lst_distinct [OF assms] by auto
  obtain h' where r: "core_list_remove x h = Some (y, h')" "lst h' (Some x) (x # ys)"
      "info h' = (info h)(x := info h y, y := info h x)" "nxt h' = (nxt h)(x := nxt h y, y := None)"
    using remove_lst [OF assms] by blast
  have "core_list_undo_remove y x h' = (y, h)"
    using r(3,4) d(1) assms by (cases h) (auto simp: core_list_undo_remove_def fun_eq_iff)
  moreover have "map (info h') (x # ys) = map (info h) (y # ys)" using r(3) d by auto
  ultimately show ?thesis using r d by auto
qed

text \<open>Removing the item \<open>x\<close> of a list takes the header after it out of the list, with the data
  that \<open>x\<close> held moved into it, and undoing the removal restores the heap exactly.\<close>

theorem core_list_remove_undo:
  assumes "lst h (Some x) (x # y # ys)"
  shows "\<exists>h'. core_list_remove x h = Some (y, h') \<and> lst h' (Some x) (x # ys) \<and>
    map (info h') (x # ys) = map (info h) (y # ys) \<and> info h' y = info h x \<and>
    core_list_undo_remove y x h' = (y, h)"
  using assms by (rule remove_undo_lst)

theorem core_list_remove_undo_witness:
  "\<exists>h'. core_list_remove 0 \<lparr>nxt = (\<lambda>x. if x = 0 then Some 1 else None), info = id\<rparr> = Some (1, h') \<and>
     lst h' (Some 0) [0] \<and> map (info h') [0] = [1] \<and> info h' 1 = 0 \<and>
     core_list_undo_remove 1 0 h' = (1, \<lparr>nxt = (\<lambda>x. if x = 0 then Some 1 else None), info = id\<rparr>)"
  using core_list_remove_undo [where x = 0 and y = 1 and ys = "[]"
      and h = "\<lparr>nxt = (\<lambda>x. if x = 0 then Some 1 else None), info = id\<rparr>"] by simp

section \<open>Merging lists\<close>

fun merge_lists :: "(nat \<Rightarrow> int) \<Rightarrow> nat list \<Rightarrow> nat list \<Rightarrow> nat list" where
  "merge_lists v [] ys = ys"
| "merge_lists v xs [] = xs"
| "merge_lists v (x # xs) (y # ys) =
     (if v x \<le> v y then x # merge_lists v xs (y # ys) else y # merge_lists v (x # xs) ys)"

lemma merge_lists_Nil2 [simp]: "merge_lists v xs [] = xs"
  by (cases xs) simp_all

lemma mset_merge: "mset (merge_lists v xs ys) = mset xs + mset ys"
  by (induction v xs ys rule: merge_lists.induct) simp_all

lemma set_merge: "set (merge_lists v xs ys) = set xs \<union> set ys"
  by (metis mset_merge mset_append set_append set_mset_mset)

lemma sorted_merge:
  "sorted (map v xs) \<Longrightarrow> sorted (map v ys) \<Longrightarrow> sorted (map v (merge_lists v xs ys))"
  by (induction v xs ys rule: merge_lists.induct) (auto simp: set_merge)

lemma filter_merge:
  "sorted (map v xs) \<Longrightarrow>
     filter (\<lambda>z. k = v z) (merge_lists v xs ys) = filter (\<lambda>z. k = v z) xs @ filter (\<lambda>z. k = v z) ys"
proof (induction v xs ys rule: merge_lists.induct)
  case (3 v x xs y ys)
  show ?case
  proof (cases "v x \<le> v y")
    case False
    then have "filter (\<lambda>z. v y = v z) (x # xs) = []"
      using "3.prems" by (auto simp: filter_empty_conv)
    then show ?thesis using 3 False by auto
  qed (use 3 in auto)
qed simp_all

lemma merge_sort_key: "merge_lists v (sort_key v xs) (sort_key v ys) = sort_key v (xs @ ys)"
proof (rule properties_for_sort_key [symmetric])
  show "mset (merge_lists v (sort_key v xs) (sort_key v ys)) = mset (xs @ ys)"
    by (simp add: mset_merge)
  have "filter (\<lambda>z. k = v z) (sort_key v zs) = filter (\<lambda>z. k = v z) zs" for k zs
    using sort_key_stable [of v k zs] by (simp add: eq_commute)
  then show "filter (\<lambda>z. v k = v z) (merge_lists v (sort_key v xs) (sort_key v ys)) = filter (\<lambda>z. v k = v z) (xs @ ys)" for k
    by (simp add: filter_merge)
  show "sorted (map v (merge_lists v (sort_key v xs) (sort_key v ys)))"
    by (simp add: sorted_merge)
qed

text \<open>The blocks of length \<open>n\<close>, each sorted, and a pass that merges neighbours.\<close>

function sorted_blocks :: "(nat \<Rightarrow> int) \<Rightarrow> nat \<Rightarrow> nat list \<Rightarrow> nat list" where
  "sorted_blocks v n xs =
     (if xs = [] \<or> n = 0 then [] else sort_key v (take n xs) @ sorted_blocks v n (drop n xs))"
  by pat_completeness auto
termination
  by (relation "measure (\<lambda>(v, n, xs). length xs)") auto

function pass :: "(nat \<Rightarrow> int) \<Rightarrow> nat \<Rightarrow> nat list \<Rightarrow> nat list" where
  "pass v n xs =
     (if xs = [] \<or> n = 0 then []
      else merge_lists v (take n xs) (take n (drop n xs)) @ pass v n (drop (2 * n) xs))"
  by pat_completeness auto
termination
  by (relation "measure (\<lambda>(v, n, xs). length xs)") auto

declare sorted_blocks.simps [simp del] pass.simps [simp del]

lemma length_sorted_blocks: "0 < n \<Longrightarrow> length (sorted_blocks v n xs) = length xs"
proof (induction v n xs rule: sorted_blocks.induct)
  case (1 v n xs)
  then show ?case by (subst sorted_blocks.simps) auto
qed

lemma sorted_blocks_1: "sorted_blocks v 1 xs = xs"
proof (induction xs)
  case (Cons x xs)
  then show ?case by (subst sorted_blocks.simps) simp
qed (simp add: sorted_blocks.simps)

lemma sorted_blocks_all: "length xs \<le> n \<Longrightarrow> 0 < n \<Longrightarrow> sorted_blocks v n xs = sort_key v xs"
  by (cases "xs = []") (simp_all add: sorted_blocks.simps [of v n xs] sorted_blocks.simps [of v n "[]"])

lemma sorted_blocks_take_drop:
  assumes "0 < n"
  shows "take n (sorted_blocks v n xs) = sort_key v (take n xs)"
    and "drop n (sorted_blocks v n xs) = sorted_blocks v n (drop n xs)"
proof -
  have "take n (sorted_blocks v n xs) = sort_key v (take n xs) \<and>
      drop n (sorted_blocks v n xs) = sorted_blocks v n (drop n xs)"
  proof (cases "length xs \<le> n")
    case True
    then show ?thesis
      using assms length_sorted_blocks [OF assms, of v xs]
      by (simp add: sorted_blocks_all sorted_blocks.simps [of v n "[]"])
  next
    case False
    then have "sorted_blocks v n xs = sort_key v (take n xs) @ sorted_blocks v n (drop n xs)"
      using assms by (subst sorted_blocks.simps) auto
    then show ?thesis using False by (simp only:) simp
  qed
  then show "take n (sorted_blocks v n xs) = sort_key v (take n xs)"
    and "drop n (sorted_blocks v n xs) = sorted_blocks v n (drop n xs)" by auto
qed

lemma pass_sorted_blocks: "0 < n \<Longrightarrow> pass v n (sorted_blocks v n xs) = sorted_blocks v (2 * n) xs"
proof (induction xs rule: length_induct)
  case (1 xs)
  show ?case
  proof (cases "xs = []")
    case True
    then show ?thesis by (simp add: sorted_blocks.simps pass.simps)
  next
    case False
    let ?b = "sorted_blocks v n"
    have "?b xs \<noteq> []" using False length_sorted_blocks [OF 1(2), of v xs] by auto
    moreover have "drop (2 * n) (?b xs) = ?b (drop (2 * n) xs)"
      using sorted_blocks_take_drop(2) [OF 1(2)] by (simp add: mult_2 flip: drop_drop)
    ultimately have "pass v n (?b xs) =
        merge_lists v (sort_key v (take n xs)) (sort_key v (take n (drop n xs))) @ pass v n (?b (drop (2 * n) xs))"
      using 1(2) by (subst pass.simps) (simp add: sorted_blocks_take_drop [OF 1(2)])
    also have "\<dots> = sort_key v (take (2 * n) xs) @ sorted_blocks v (2 * n) (drop (2 * n) xs)"
      using 1 False by (simp add: merge_sort_key mult_2 take_add)
    finally show ?thesis
      using False 1(2) by (subst (2) sorted_blocks.simps) simp
  qed
qed

section \<open>The contract of a comparison\<close>

text \<open>
  A comparison may compute and cache the values of its two arguments: \<open>val st a\<close> is the value of
  the datum \<open>a\<close> once it is known, known values do not change, and the result tells their order.
\<close>

locale comparator =
  fixes cmp :: "nat \<Rightarrow> nat \<Rightarrow> 's \<Rightarrow> (int \<times> 's) option"
    and ok :: "'s \<Rightarrow> bool"
    and val :: "'s \<Rightarrow> nat \<Rightarrow> int option"
  assumes cmp_result: "ok st \<Longrightarrow> \<exists>r st' x y. cmp a b st = Some (r, st') \<and> ok st' \<and>
      val st' a = Some x \<and> val st' b = Some y \<and> (r \<le> 0 \<longleftrightarrow> x \<le> y)"
    and cmp_keeps: "ok st \<Longrightarrow> cmp a b st = Some (r, st') \<Longrightarrow> val st c = Some x \<Longrightarrow> val st' c = Some x"
begin

definition ext :: "'s \<Rightarrow> 's \<Rightarrow> bool" where
  "ext st st' \<longleftrightarrow> (\<forall>c x. val st c = Some x \<longrightarrow> val st' c = Some x)"

lemma ext_refl [simp]: "ext st st"
  by (simp add: ext_def)

lemma ext_trans: "ext a b \<Longrightarrow> ext b c \<Longrightarrow> ext a c"
  by (simp add: ext_def)

definition key :: "'s \<Rightarrow> heads \<Rightarrow> nat \<Rightarrow> int" where
  "key st h x = the (val st (info h x))"

lemma cmp_key:
  assumes "ok st"
  shows "\<exists>r st'. cmp (info h a) (info h b) st = Some (r, st') \<and> ok st' \<and> ext st st' \<and>
    (\<forall>stF. ext st' stF \<longrightarrow> (r \<le> 0 \<longleftrightarrow> key stF h a \<le> key stF h b))"
proof -
  obtain r st' x y where c: "cmp (info h a) (info h b) st = Some (r, st')" "ok st'"
      "val st' (info h a) = Some x" "val st' (info h b) = Some y" "r \<le> 0 \<longleftrightarrow> x \<le> y"
    using cmp_result [OF assms] by blast
  moreover have "ext st st'" using cmp_keeps [OF assms c(1)] by (simp add: ext_def)
  ultimately show ?thesis by (auto simp: ext_def key_def)
qed

end

section \<open>The inner loop\<close>

abbreviation linked :: "heads \<Rightarrow> nat list \<Rightarrow> bool" where
  "linked h \<equiv> successively (\<lambda>x y. nxt h x = Some y)"

definition out_ok :: "ptr \<times> ptr \<times> heads \<Rightarrow> nat list \<Rightarrow> bool" where
  "out_ok out xs =
     (case out of (list, tail, h) \<Rightarrow>
        linked h xs \<and> (if xs = [] then list = None \<and> tail = None else list = Some (hd xs) \<and> tail = Some (last xs)))"

lemma linked_cong: "(\<And>x. x \<in> set xs \<Longrightarrow> nxt h' x = nxt h x) \<Longrightarrow> linked h' xs = linked h xs"
  by (induction xs rule: induct_list012) auto

lemma linked_update: "x \<notin> set xs \<Longrightarrow> linked (h\<lparr>nxt := (nxt h)(x := q)\<rparr>) xs = linked h xs"
  by (rule linked_cong) auto

lemma linked_snoc:
  "linked h xs \<Longrightarrow> distinct xs \<Longrightarrow> xs \<noteq> [] \<Longrightarrow>
     linked (h\<lparr>nxt := (nxt h)(last xs := Some e)\<rparr>) (xs @ [e])"
proof -
  assume a: "linked h xs" "distinct xs" "xs \<noteq> []"
  obtain ys y where xs: "xs = ys @ [y]" using a(3) by (metis append_butlast_last_id)
  define h' where "h' = h\<lparr>nxt := (nxt h)(y := Some e)\<rparr>"
  have y: "y \<notin> set ys" "linked h ys" "ys \<noteq> [] \<longrightarrow> nxt h (last ys) = Some y"
    using a(1,2) xs by (auto simp: successively_append_iff)
  have "linked h' ys" using y(1,2) unfolding h'_def by (intro linked_update [THEN iffD2])
  moreover have "nxt h' (last ys) = Some y" if "ys \<noteq> []"
    using y that last_in_set [OF that] by (auto simp: h'_def)
  moreover have "nxt h' y = Some e" by (simp add: h'_def)
  ultimately have "linked h' (xs @ [e])" using xs by (auto simp: successively_append_iff)
  then show ?thesis using xs by (simp add: h'_def)
qed

lemma append_item_ok:
  assumes "out_ok out xs" and "distinct (xs @ [e])"
  shows "out_ok (append_item e out) (xs @ [e])" and "info (snd (snd (append_item e out))) = info (snd (snd out))"
    and "y \<notin> set xs \<Longrightarrow> nxt (snd (snd (append_item e out))) y = nxt (snd (snd out)) y"
proof -
  obtain list tail h where out: "out = (list, tail, h)" by (cases out) auto
  show "out_ok (append_item e out) (xs @ [e])"
    using assms linked_snoc [of h xs e] by (cases "xs = []") (auto simp: out out_ok_def append_item_def)
  show "info (snd (snd (append_item e out))) = info (snd (snd out))"
    by (simp add: out append_item_def split: option.split)
  show "y \<notin> set xs \<Longrightarrow> nxt (snd (snd (append_item e out))) y = nxt (snd (snd out)) y"
    using assms(1) by (auto simp: out append_item_def out_ok_def split: option.split if_split_asm)
qed

lemma lst_to_linked: "lst h p xs \<Longrightarrow> linked h xs"
  by (induction xs arbitrary: p rule: induct_list012) auto

lemma linked_to_lst:
  "linked h xs \<Longrightarrow> xs \<noteq> [] \<Longrightarrow> nxt h (last xs) = None \<Longrightarrow> lst h (Some (hd xs)) xs"
  by (induction xs rule: induct_list012) auto

lemma step_along_lst:
  "lst h p xs \<Longrightarrow> xs \<noteq> [] \<or> n = 0 \<Longrightarrow>
     \<exists>q. step_along n h p k = Some (q, k + min n (length xs)) \<and> lst h q (drop n xs)"
proof (induction n arbitrary: p xs k)
  case (Suc n)
  then obtain x ys where xs: "xs = x # ys" "p = Some x" "lst h (nxt h x) ys" by (cases xs) auto
  show ?case
  proof (cases ys)
    case Nil
    then show ?thesis using xs by auto
  next
    case (Cons y zs)
    then show ?thesis using Suc.IH [OF xs(3), of "k + 1"] xs by auto
  qed
qed simp

text \<open>
  The state of the inner loop: the merged items, the items left of the first run, linked from \<open>p\<close>,
  and the list from \<open>q\<close>, which goes on after the second run.
\<close>

definition merge_state :: "heads \<Rightarrow> ptr \<Rightarrow> ptr \<Rightarrow> ptr \<times> ptr \<times> heads \<Rightarrow> nat list \<Rightarrow> nat list \<Rightarrow> nat list \<Rightarrow> bool" where
  "merge_state h p q out outs ps qs \<longleftrightarrow>
     snd (snd out) = h \<and> out_ok out outs \<and> linked h ps \<and> (ps \<noteq> [] \<longrightarrow> p = Some (hd ps)) \<and> lst h q qs \<and>
     distinct (outs @ ps @ qs)"

lemma merge_state_p:
  assumes "merge_state h p q out outs (x # ps) qs"
  shows "merge_state (snd (snd (append_item x out))) (nxt h x) q (append_item x out) (outs @ [x]) ps qs"
proof -
  let ?h = "snd (snd (append_item x out))"
  have a: "snd (snd out) = h" "out_ok out outs" "linked h (x # ps)" "lst h q qs" "distinct (outs @ (x # ps) @ qs)"
    using assms by (auto simp: merge_state_def)
  then have n: "nxt ?h y = nxt h y" if "y \<notin> set outs" for y
    using append_item_ok(3) [OF a(2), of x y] that by simp
  have "linked ?h ps = linked h ps" "lst ?h q qs = lst h q qs"
    using a(5) by (auto intro!: linked_cong lst_cong n)
  then show ?thesis
    using a append_item_ok(1) [OF a(2), of x] unfolding merge_state_def by (auto simp: successively_Cons)
qed

lemma merge_state_q:
  assumes "merge_state h p q out outs ps (y # qs)"
  shows "merge_state (snd (snd (append_item y out))) p (nxt h y) (append_item y out) (outs @ [y]) ps qs"
proof -
  let ?h = "snd (snd (append_item y out))"
  have a: "snd (snd out) = h" "out_ok out outs" "linked h ps" "ps \<noteq> [] \<longrightarrow> p = Some (hd ps)" "lst h (nxt h y) qs"
      "distinct (outs @ ps @ y # qs)"
    using assms by (auto simp: merge_state_def)
  then have n: "nxt ?h z = nxt h z" if "z \<notin> set outs" for z
    using append_item_ok(3) [OF a(2), of y z] that by simp
  have "linked ?h ps = linked h ps" "lst ?h (nxt h y) qs = lst h (nxt h y) qs"
    using a(6) by (auto intro!: linked_cong lst_cong n)
  then show ?thesis
    using a append_item_ok(1) [OF a(2), of y] unfolding merge_state_def by auto
qed

section \<open>Correctness of the sort\<close>

context comparator
begin

definition merged :: "heads \<Rightarrow> 's \<Rightarrow> nat list \<Rightarrow> nat list \<Rightarrow> nat list \<Rightarrow> (ptr \<times> (ptr \<times> ptr \<times> heads) \<times> 's) \<Rightarrow> nat list \<Rightarrow> bool" where
  "merged h st outs ps qs r qs' \<longleftrightarrow>
     (case r of (q', out', st') \<Rightarrow>
        \<exists>zs. ok st' \<and> ext st st' \<and> merge_state (snd (snd out')) None q' out' (outs @ zs) [] qs' \<and>
          info (snd (snd out')) = info h \<and>
          (\<forall>y. y \<notin> set (outs @ ps @ qs) \<longrightarrow> nxt (snd (snd out')) y = nxt h y) \<and>
          (\<forall>stF. ext st' stF \<longrightarrow> zs = merge_lists (key stF h) ps qs))"

lemma merged_step:
  assumes "merged h2 st2 (outs @ [e]) ps2 qs2 r qs'" and "ext st st2" and "info h2 = info h"
    and "\<And>y. y \<notin> set outs \<Longrightarrow> nxt h2 y = nxt h y"
    and "set ps2 \<subseteq> set ps" "set qs2 \<subseteq> set qs" "e \<in> set ps \<union> set qs"
    and "\<And>stF. ext st2 stF \<Longrightarrow> merge_lists (key stF h) ps qs = e # merge_lists (key stF h) ps2 qs2"
  shows "merged h st outs ps qs r qs'"
proof -
  obtain q' out' st' where r: "r = (q', out', st')" by (cases r) auto
  obtain zs where z: "ok st'" "ext st2 st'" "merge_state (snd (snd out')) None q' out' ((outs @ [e]) @ zs) [] qs'"
      "info (snd (snd out')) = info h2"
      "\<forall>y. y \<notin> set ((outs @ [e]) @ ps2 @ qs2) \<longrightarrow> nxt (snd (snd out')) y = nxt h2 y"
      "\<forall>stF. ext st' stF \<longrightarrow> zs = merge_lists (key stF h2) ps2 qs2"
    using assms(1) unfolding merged_def r prod.case by blast
  have k: "key stF h2 = key stF h" for stF using assms(3) by (simp add: key_def fun_eq_iff)
  have f: "nxt (snd (snd out')) y = nxt h y" if "y \<notin> set (outs @ ps @ qs)" for y
    using z(5) assms(4) [of y] assms(5-7) that by auto
  have "e # zs = merge_lists (key stF h) ps qs" if "ext st' stF" for stF
    using assms(8) [of stF] ext_trans [OF z(2) that] z(6) that k by simp
  then show ?thesis
    using z(1,3,4) ext_trans [OF assms(2) z(2)] assms(3) f
    unfolding merged_def r prod.case by (intro exI [of _ "e # zs"]) simp
qed

lemma merge_loop_lst:
  assumes "ok st" and "merge_state h p q out outs ps qs"
  shows "\<exists>r. merge_loop cmp p (length ps) q qsize out st = Some r \<and>
    merged h st outs ps (take qsize qs) r (drop qsize qs)"
  using assms
proof (induction "length ps + qsize" arbitrary: st h p q out outs ps qs qsize rule: less_induct)
  case less
  have h: "snd (snd out) = h" "out_ok out outs" "distinct (outs @ ps @ qs)" "lst h q qs" "ps \<noteq> [] \<longrightarrow> p = Some (hd ps)"
    using less.prems(2) by (auto simp: merge_state_def)
  note keep = append_item_ok(2,3) [OF h(2), unfolded h(1)]
  have from_q: "\<exists>r. merge_loop cmp p (length ps) (nxt h y) (qsize - 1) (append_item y out) st2 = Some r \<and>
      merged h st outs ps (take qsize qs) r (drop qsize qs)"
    if qs: "qs = y # qs2" and qsize: "0 < qsize" and st2: "ok st2" "ext st st2"
      and m: "\<And>stF. ext st2 stF \<Longrightarrow> merge_lists (key stF h) ps (y # take (qsize - 1) qs2) =
        y # merge_lists (key stF h) ps (take (qsize - 1) qs2)" for y qs2 st2
  proof -
    let ?out = "append_item y out"
    have state: "merge_state (snd (snd ?out)) p (nxt h y) ?out (outs @ [y]) ps qs2"
      using merge_state_q less.prems(2) unfolding qs .
    have "length ps + (qsize - 1) < length ps + qsize" using qsize by simp
    then obtain r where r: "merge_loop cmp p (length ps) (nxt h y) (qsize - 1) ?out st2 = Some r"
        "merged (snd (snd ?out)) st2 (outs @ [y]) ps (take (qsize - 1) qs2) r (drop (qsize - 1) qs2)"
      using less.hyps [OF _ st2(1) state] by blast
    have t: "take qsize qs = y # take (qsize - 1) qs2" "drop qsize qs = drop (qsize - 1) qs2"
      using qsize by (cases qsize; simp add: qs)+
    have "merged h st outs ps (take qsize qs) r (drop qsize qs)"
      unfolding t by (rule merged_step [OF r(2) st2(2)]) (use keep h(3) m in \<open>auto simp: qs\<close>)
    with r(1) show ?thesis by blast
  qed
  have from_p: "\<exists>r. merge_loop cmp (nxt h x) (length ps2) q qsize (append_item x out) st2 = Some r \<and>
      merged h st outs ps (take qsize qs) r (drop qsize qs)"
    if ps: "ps = x # ps2" and st2: "ok st2" "ext st st2"
      and m: "\<And>stF. ext st2 stF \<Longrightarrow> merge_lists (key stF h) (x # ps2) (take qsize qs) =
        x # merge_lists (key stF h) ps2 (take qsize qs)" for x ps2 st2
  proof -
    let ?out = "append_item x out"
    have state: "merge_state (snd (snd ?out)) (nxt h x) q ?out (outs @ [x]) ps2 qs"
      using merge_state_p less.prems(2) unfolding ps .
    have "length ps2 + qsize < length ps + qsize" using ps by simp
    then obtain r where r: "merge_loop cmp (nxt h x) (length ps2) q qsize ?out st2 = Some r"
        "merged (snd (snd ?out)) st2 (outs @ [x]) ps2 (take qsize qs) r (drop qsize qs)"
      using less.hyps [OF _ st2(1) state] by blast
    have "merged h st outs ps (take qsize qs) r (drop qsize qs)"
      unfolding ps by (rule merged_step [OF r(2) st2(2)]) (use keep h(3) m in \<open>auto simp: ps\<close>)
    with r(1) show ?thesis by blast
  qed
  consider (stop) "ps = []" "qsize = 0 \<or> qs = []" | (right) y qs2 where "ps = []" "qs = y # qs2" "0 < qsize"
    | (left) x ps2 where "ps = x # ps2" "qsize = 0 \<or> qs = []"
    | (both) x ps2 y qs2 where "ps = x # ps2" "qs = y # qs2" "0 < qsize"
    by (cases ps; cases qs; cases qsize) auto
  then show ?case
  proof cases
    case stop
    then have "merge_loop cmp p (length ps) q qsize out st = Some (q, out, st)"
      using h(4) by (subst merge_loop.simps) auto
    moreover have "merged h st outs ps (take qsize qs) (q, out, st) (drop qsize qs)"
      unfolding merged_def prod.case by (rule exI [of _ "[]"]) (use stop less.prems in \<open>auto simp: merge_state_def\<close>)
    ultimately show ?thesis by blast
  next
    case right
    then have "merge_loop cmp p (length ps) q qsize out st =
        merge_loop cmp p (length ps) (nxt h y) (qsize - 1) (append_item y out) st"
      using h(1,4) by (subst merge_loop.simps) simp
    then show ?thesis using from_q [OF right(2,3) less.prems(1) ext_refl] right(1) by simp
  next
    case left
    then have "merge_loop cmp p (length ps) q qsize out st =
        merge_loop cmp (nxt h x) (length ps2) q qsize (append_item x out) st"
      using h(1,4,5) by (subst merge_loop.simps) auto
    then show ?thesis using from_p [OF left(1) less.prems(1) ext_refl] left by auto
  next
    case both
    obtain c st2 where c: "cmp (info h x) (info h y) st = Some (c, st2)" "ok st2" "ext st st2"
        "\<And>stF. ext st2 stF \<Longrightarrow> (c \<le> 0 \<longleftrightarrow> key stF h x \<le> key stF h y)"
      using cmp_key [OF less.prems(1), of h x y] by blast
    have q: "take qsize qs = y # take (qsize - 1) qs2" using both by (cases qsize) simp_all
    show ?thesis
    proof (cases "c \<le> 0")
      case True
      then have "merge_loop cmp p (length ps) q qsize out st =
          merge_loop cmp (nxt h x) (length ps2) q qsize (append_item x out) st2"
        using both c(1) h by (subst merge_loop.simps) simp
      then show ?thesis using from_p [OF both(1) c(2,3)] c(4) True q by simp
    next
      case False
      then have "merge_loop cmp p (length ps) q qsize out st =
          merge_loop cmp p (length ps) (nxt h y) (qsize - 1) (append_item y out) st2"
        using both c(1) h by (subst merge_loop.simps) simp
      then show ?thesis using from_q [OF both(2,3) c(2,3)] c(4) False both(1) by simp
    qed
  qed
qed

text \<open>One pass over the list, and the passes with growing runs.\<close>

lemma merge_pass_lst:
  assumes "ok st" and "0 < n" and "merge_state h None p out outs [] xs"
  shows "\<exists>out' st' zs. merge_pass cmp n p k out st =
      Some (k + (length xs + (2 * n - 1)) div (2 * n), out', st') \<and>
    ok st' \<and> ext st st' \<and> out_ok out' (outs @ zs) \<and> distinct (outs @ zs) \<and> info (snd (snd out')) = info h \<and>
    (\<forall>y. y \<notin> set (outs @ xs) \<longrightarrow> nxt (snd (snd out')) y = nxt h y) \<and>
    (\<forall>stF. ext st' stF \<longrightarrow> zs = pass (key stF h) n xs)"
  using assms
proof (induction "length xs" arbitrary: st h p out outs xs k rule: less_induct)
  case less
  have h: "snd (snd out) = h" "out_ok out outs" "distinct (outs @ xs)" "lst h p xs"
    using less.prems(3) by (auto simp: merge_state_def)
  show ?case
  proof (cases "xs = []")
    case True
    then have p: "p = None" using h(4) by simp
    have "merge_pass cmp n p k out st = Some (k, out, st)" unfolding p by (subst merge_pass.simps) simp
    moreover have "(2 * n - 1) div (2 * n) = 0" using less.prems(2) by simp
    ultimately show ?thesis
      using True h less.prems by (intro exI [of _ out] exI [of _ st] exI [of _ "[]"]) (simp add: pass.simps)
  next
    case False
    let ?ps = "take n xs" and ?qs = "drop n xs"
    obtain q where q: "step_along n h p 0 = Some (q, length ?ps)" "lst h q ?qs"
      using step_along_lst [OF h(4), of n 0] False by (auto simp: min.commute)
    have "linked h ?ps" using lst_to_linked [OF h(4)] append_take_drop_id [of n xs]
      by (metis successively_append_iff)
    moreover have "p = Some (hd ?ps)" using lst_hd [OF h(4) False] less.prems(2) False by (cases xs; cases n) auto
    ultimately have "merge_state h p q out outs ?ps ?qs"
      using h q(2) by (simp add: merge_state_def)
    then obtain q' out2 st2 where m: "merge_loop cmp p (length ?ps) q n out st = Some (q', out2, st2)"
        "merged h st outs ?ps (take n ?qs) (q', out2, st2) (drop n ?qs)"
      using merge_loop_lst [OF less.prems(1), of h p q out outs ?ps ?qs n] by auto
    let ?h2 = "snd (snd out2)" and ?ys = "drop (2 * n) xs"
    have d2: "drop n ?qs = ?ys" by (simp add: mult_2)
    obtain ms where z: "ok st2" "ext st st2" "merge_state ?h2 None q' out2 (outs @ ms) [] ?ys" "info ?h2 = info h"
        "\<forall>y. y \<notin> set (outs @ ?ps @ take n ?qs) \<longrightarrow> nxt ?h2 y = nxt h y"
        "\<forall>stF. ext st2 stF \<longrightarrow> ms = merge_lists (key stF h) ?ps (take n ?qs)"
      using m(2) unfolding merged_def prod.case d2 by blast
    have "length ?ys < length xs" using False less.prems(2) by (cases xs) auto
    from less.hyps [OF this z(1) less.prems(2) z(3), of "k + 1"]
    obtain out' st' zs where r: "merge_pass cmp n q' (k + 1) out2 st2 =
          Some (k + 1 + (length ?ys + (2 * n - 1)) div (2 * n), out', st')"
        "ok st'" "ext st2 st'" "out_ok out' ((outs @ ms) @ zs)" "distinct ((outs @ ms) @ zs)"
        "info (snd (snd out')) = info ?h2"
        "\<forall>y. y \<notin> set ((outs @ ms) @ ?ys) \<longrightarrow> nxt (snd (snd out')) y = nxt ?h2 y"
        "\<forall>stF. ext st' stF \<longrightarrow> zs = pass (key stF ?h2) n ?ys" by blast
    have "p \<noteq> None" using h(4) False by (cases xs) auto
    then have run: "merge_pass cmp n p k out st = merge_pass cmp n q' (k + 1) out2 st2"
      using q(1) m(1) h(1) by (subst merge_pass.simps) auto
    have count: "k + 1 + (length ?ys + (2 * n - 1)) div (2 * n) = k + (length xs + (2 * n - 1)) div (2 * n)"
    proof (cases "length xs \<le> 2 * n")
      case True
      then show ?thesis using False less.prems(2) by (cases xs) (auto simp: div_add_self2)
    next
      case False
      then have "length xs + (2 * n - 1) = length ?ys + (2 * n - 1) + 2 * n" by simp
      then show ?thesis using less.prems(2) by (simp only: div_add_self2)
    qed
    have k: "key stF ?h2 = key stF h" for stF using z(4) by (simp add: key_def fun_eq_iff)
    have ms: "set ms = set (take n xs) \<union> set (take n ?qs)" using z(6) ext_refl set_merge by metis
    have zs: "ms @ zs = pass (key stF h) n xs" if "ext st' stF" for stF
      using z(6) r(8) that ext_trans [OF r(3) that] k False less.prems(2) by (subst pass.simps) auto
    have frame: "nxt (snd (snd out')) y = nxt h y" if "y \<notin> set (outs @ xs)" for y
    proof -
      have "y \<notin> set (take n xs)" "y \<notin> set (take n ?qs)" "y \<notin> set ?ys"
        using that by (auto dest: in_set_takeD in_set_dropD)
      then show ?thesis using r(7) z(5) that ms by auto
    qed
    show ?thesis
      using run r(1) [unfolded count] r(2,4,5,6) ext_trans [OF z(2) r(3)] z(4) zs frame
      by (intro exI [of _ out'] exI [of _ st'] exI [of _ "ms @ zs"]) simp
  qed
qed

lemma out_ok_lst:
  assumes "out_ok (list, tail, h) xs" and "distinct xs" and "xs \<noteq> []"
  shows "tail = Some (last xs) \<and> list = Some (hd xs) \<and> lst (h\<lparr>nxt := (nxt h)(last xs := None)\<rparr>) list xs"
proof -
  define h' where "h' = h\<lparr>nxt := (nxt h)(last xs := None)\<rparr>"
  have o: "linked h xs" "list = Some (hd xs)" "tail = Some (last xs)" using assms by (auto simp: out_ok_def)
  obtain ys y where xs: "xs = ys @ [y]" using assms(3) by (metis append_butlast_last_id)
  have y: "y \<notin> set ys" using assms(2) xs by simp
  have "linked h ys" "ys \<noteq> [] \<longrightarrow> nxt h (last ys) = Some y" using o(1) xs by (auto simp: successively_append_iff)
  moreover have "linked h' ys = linked h ys" by (rule linked_cong) (use y xs in \<open>auto simp: h'_def\<close>)
  moreover have "ys \<noteq> [] \<longrightarrow> nxt h' (last ys) = nxt h (last ys)"
    using y xs last_in_set [of ys] by (auto simp: h'_def)
  ultimately have "linked h' xs" using xs by (auto simp: successively_append_iff)
  moreover have "nxt h' (last xs) = None" by (simp add: h'_def)
  ultimately show ?thesis using linked_to_lst assms(3) o unfolding h'_def by blast
qed

lemma sort_loop_lst:
  assumes "ok st" and "0 < n" and "lst h p xs" and "xs \<noteq> []" and "length xs = length xs0" and "set xs = set xs0"
    and "\<And>stF. ext st stF \<Longrightarrow> xs = sorted_blocks (key stF h) n xs0"
  shows "\<exists>p' h' st' ys. sort_loop cmp n p h st = Some (p', h', st') \<and> ok st' \<and> ext st st' \<and> lst h' p' ys \<and>
    info h' = info h \<and> (\<forall>y. y \<notin> set xs0 \<longrightarrow> nxt h' y = nxt h y) \<and>
    (\<forall>stF. ext st' stF \<longrightarrow> ys = sort_key (key stF h) xs0)"
  using assms
proof (induction "length xs0 - n" arbitrary: n h p xs st rule: less_induct)
  case less
  have d: "distinct xs" using lst_distinct [OF less.prems(3)] .
  have "merge_state h None p (None, None, h) [] [] xs"
    using less.prems(3) d by (simp add: merge_state_def out_ok_def)
  from merge_pass_lst [OF less.prems(1,2) this, of 0]
  obtain list tail h1 st1 zs where r: "merge_pass cmp n p 0 (None, None, h) st =
        Some ((length xs + (2 * n - 1)) div (2 * n), (list, tail, h1), st1)"
      "ok st1" "ext st st1" "out_ok (list, tail, h1) zs" "distinct zs" "info h1 = info h"
      "\<forall>y. y \<notin> set xs \<longrightarrow> nxt h1 y = nxt h y" "\<forall>stF. ext st1 stF \<longrightarrow> zs = pass (key stF h) n xs"
    by auto
  have blocks: "zs = sorted_blocks (key stF h) (2 * n) xs0" if "ext st1 stF" for stF
    using r(8) that less.prems(7) [OF ext_trans [OF r(3) that]] pass_sorted_blocks [OF less.prems(2), of "key stF h" xs0] by simp
  have len: "length zs = length xs0"
    using blocks [OF ext_refl] length_sorted_blocks [of "2 * n"] less.prems(2) by simp
  then have "zs \<noteq> []" using less.prems(4,5) by auto
  define h2 where "h2 = h1\<lparr>nxt := (nxt h1)(last zs := None)\<rparr>"
  have o: "tail = Some (last zs)" "list = Some (hd zs)" "lst h2 list zs"
    using out_ok_lst [OF r(4,5) \<open>zs \<noteq> []\<close>] by (auto simp: h2_def)
  have info: "info h2 = info h" using r(6) by (simp add: h2_def)
  have k: "key stF h2 = key stF h" for stF using info by (simp add: key_def fun_eq_iff)
  have set: "set zs = set xs0"
  proof -
    have "mset (sorted_blocks v m ys) = mset ys" if "0 < m" for v m ys
      using that
    proof (induction v m ys rule: sorted_blocks.induct)
      case (1 v m ys)
      have "mset (take m ys) + mset (drop m ys) = mset ys" by (metis append_take_drop_id mset_append)
      then show ?case using 1 by (subst sorted_blocks.simps) auto
    qed
    then have "mset zs = mset xs0" using blocks [OF ext_refl] less.prems(2) by simp
    then show ?thesis by (metis set_mset_mset)
  qed
  have frame: "nxt h2 y = nxt h y" if "y \<notin> set xs0" for y
    using that r(7) less.prems(6) set last_in_set [OF \<open>zs \<noteq> []\<close>] by (auto simp: h2_def)
  have step: "sort_loop cmp n p h st =
      (if (length xs + (2 * n - 1)) div (2 * n) \<le> 1 then Some (list, h2, st1) else sort_loop cmp (n * 2) list h2 st1)"
    using r(1) o(1) by (subst sort_loop.simps) (simp add: h2_def Let_def)
  have count: "(length xs + (2 * n - 1)) div (2 * n) \<le> 1 \<longleftrightarrow> length xs0 \<le> 2 * n"
    unfolding less.prems(5) using less.prems(2) by (simp add: Suc_le_eq div_less_iff_less_mult flip: less_Suc_eq_le) linarith
  show ?case
  proof (cases "length xs0 \<le> 2 * n")
    case True
    have "zs = sort_key (key stF h) xs0" if "ext st1 stF" for stF
      using blocks [OF that] sorted_blocks_all [OF True] less.prems(2) by simp
    then show ?thesis using step count True r(2,3) o(3) info frame by auto
  next
    case False
    have "length xs0 - n * 2 < length xs0 - n" using False less.prems(2) by simp
    from less.hyps [OF this r(2) _ o(3) \<open>zs \<noteq> []\<close> len set] blocks less.prems(2)
    obtain p' h' st' ys where "sort_loop cmp (n * 2) list h2 st1 = Some (p', h', st')" "ok st'" "ext st1 st'" "lst h' p' ys"
        "info h' = info h2" "\<forall>y. y \<notin> set xs0 \<longrightarrow> nxt h' y = nxt h2 y"
        "\<forall>stF. ext st' stF \<longrightarrow> ys = sort_key (key stF h2) xs0"
      by (auto simp: k mult.commute)
    then show ?thesis using step count False ext_trans [OF r(3)] info frame by (auto simp: k)
  qed
qed

lemma mergesort_lst:
  assumes "ok st" and "lst h p xs" and "xs \<noteq> []"
  shows "\<exists>p' h' st'. core_list_mergesort p cmp h st = Some (p', h', st') \<and> ok st' \<and> ext st st' \<and>
    lst h' p' (sort_key (key st' h) xs) \<and> info h' = info h \<and> (\<forall>y. y \<notin> set xs \<longrightarrow> nxt h' y = nxt h y)"
proof -
  have "sorted_blocks (key stF h) 1 xs = xs" for stF by (rule sorted_blocks_1)
  then obtain p' h' st' ys where "sort_loop cmp 1 p h st = Some (p', h', st')" "ok st'" "ext st st'" "lst h' p' ys"
      "info h' = info h" "\<forall>y. y \<notin> set xs \<longrightarrow> nxt h' y = nxt h y"
      "\<forall>stF. ext st' stF \<longrightarrow> ys = sort_key (key stF h) xs"
    using sort_loop_lst [OF assms(1) _ assms(2,3), of 1 xs] by auto
  moreover from this(7) have "ys = sort_key (key st' h) xs" by simp
  ultimately show ?thesis unfolding core_list_mergesort_def by blast
qed

end

section \<open>The two comparisons keep the contract\<close>

definition idx_value :: "datas \<Rightarrow> nat \<Rightarrow> int option" where
  "idx_value d a = Some (sint (idx d a))"

text \<open>The high bytes of the data, the backup of the original values.\<close>

definition upper :: "datas \<Rightarrow> nat \<Rightarrow> u16" where
  "upper d c = drop_bit 8 (data16 d c)"

lemma upper_update: "drop_bit 8 y = drop_bit 8 (data16 d a) \<Longrightarrow> upper (set_data16 a y d) = upper d"
  by (auto simp: upper_def set_data16_def fun_eq_iff)

lemma byte_masks:
  "(0xff00 :: u16) = push_bit 8 (mask 8)" "(0x00ff :: u16) = mask 8" "(0x0080 :: u16) = push_bit 7 1" "(0x007f :: u16) = mask 7"
  by (simp_all add: mask_eq_exp_minus_1)

lemma upper_kept:
  "drop_bit 8 ((x AND 0xff00) OR (0x00ff AND y)) = drop_bit 8 x"
  "drop_bit 8 ((x AND 0xff00) OR 0x0080 OR (y AND 0x007f)) = drop_bit 8 x" for x y :: u16
  unfolding byte_masks by (rule bit_eqI; simp only: bits, auto dest: bit_imp_le_length)+

lemma regenerate_upper: "upper (regenerate a d) = upper d"
  unfolding regenerate_def by (rule upper_update) (rule upper_kept)

lemma cmp_idx_result:
  "\<exists>d'. cmp_idx null a b d = Some (sint (idx d a) - sint (idx d b), d') \<and> idx d' = idx d \<and> upper d' = upper d"
  by (simp add: cmp_idx_def Let_def regenerate_upper) (simp add: regenerate_def set_data16_def)

interpretation by_idx: comparator "cmp_idx null" "\<lambda>d. upper d = u0" idx_value
proof
  show "upper st = u0 \<Longrightarrow> \<exists>r st' x y. cmp_idx null a b st = Some (r, st') \<and> upper st' = u0 \<and> idx_value st' a = Some x \<and>
      idx_value st' b = Some y \<and> (r \<le> 0 \<longleftrightarrow> x \<le> y)" for st a b
    using cmp_idx_result [of null a b st] by (auto simp: idx_value_def)
  show "upper st = u0 \<Longrightarrow> cmp_idx null a b st = Some (r, st') \<Longrightarrow> idx_value st c = Some x \<Longrightarrow> idx_value st' c = Some x" for st a b r st' c x
    using cmp_idx_result [of null a b st] by (auto simp: idx_value_def)
qed

definition data_value :: "datas \<times> core_results \<Rightarrow> nat \<Rightarrow> int option" where
  "data_value st a =
     (let x = data16 (fst st) a in if bit x 7 then Some (sint (x AND 0x007f)) else None)"

text \<open>
  The state benchmark can be run: its block ends with two zeros and corrupting it with the seeds
  does not change them.
\<close>

definition bench_ready :: "datas \<times> core_results \<Rightarrow> bool" where
  "bench_ready st \<longleftrightarrow>
     (let res = snd st; m = memblock3 res; sz = unat (res_size res) in
      2 \<le> sz \<and> sz \<le> length m \<and> m ! (sz - 2) = 0 \<and> m ! (sz - 1) = 0 \<and>
      ucast (seed1 res) = (ucast (seed2 res) :: u8) \<and> ucast (seed1 res) \<noteq> (44 :: u8))"

text \<open>The inputs of the run, which no operation changes.\<close>

definition config :: "core_results \<Rightarrow> (u16 \<times> u16 \<times> u16) \<times> u32 \<times> u32 \<times> u32 \<times> ptr" where
  "config res = ((seed1 res, seed2 res, seed3 res), res_size res, iterations res, execs res, res_list res)"

lemma min_period: "2 \<le> unat (if sint d < 0x22 then 0x22 else d :: u16)"
proof (cases "2 \<le> unat d")
  case False
  then have "unat d = 0 \<or> unat d = 1" by auto
  then have "d = 0 \<or> d = 1" by (simp add: word_unat_eq_iff)
  then show ?thesis by auto
qed simp

lemma bench_state_ready:
  assumes "bench_ready (d, res)"
  shows "\<exists>r m. core_bench_state (unat (res_size res)) (memblock3 res) (seed1 res) (seed2 res)
        (unat (if sint x < 0x22 then 0x22 else x :: u16)) (crc res) = Some (r, m) \<and>
    bench_ready (d, res\<lparr>memblock3 := m\<rparr>)"
proof -
  let ?sz = "unat (res_size res)" and ?m = "memblock3 res" and ?s = "ucast (seed2 res) :: u8"
  have a: "2 \<le> ?sz" "?sz \<le> length ?m" "?m ! (?sz - 2) = 0" "?m ! (?sz - 1) = 0" "ucast (seed1 res) = ?s" "?s \<noteq> 44"
    using assms by (auto simp: bench_ready_def Let_def)
  have z: "corrupt ?s (corrupt ?s 0) = 0" using a(6) by (simp add: corrupt_def)
  have i: "?sz - 2 + 1 = ?sz - 1" "?sz - 2 < length ?m" "?sz - 1 < length ?m" using a(1,2) by simp_all
  have "?sz - 2 + 1 < length ?m" "?m ! (?sz - 2 + 1) = 0" using i a(4) by simp_all
  from core_bench_state_block [where ?seed1.0 = "seed1 res" and ?seed2.0 = "seed2 res" and crc = "crc res",
      OF min_period [of x] a(2) this(1) a(3) this(2)]
  obtain r m where b: "core_bench_state ?sz ?m (seed1 res) (seed2 res) (unat (if sint x < 0x22 then 0x22 else x)) (crc res) = Some (r, m)"
      "length m = length ?m" "\<forall>k<length ?m. m ! k = (if strided ?sz (unat (if sint x < 0x22 then 0x22 else x)) 0 k
        then corrupt ?s (corrupt ?s (?m ! k)) else ?m ! k)" unfolding a(5) by blast
  have "m ! (?sz - 2) = 0" "m ! (?sz - 1) = 0" using b(3) i(2,3) a(3,4) z by auto
  then show ?thesis using b a by (auto simp: bench_ready_def Let_def)
qed

lemma calc_operation_ready:
  assumes "bench_ready (d, res)"
  shows "\<exists>r res1. calc_operation data res = Some (r, res1) \<and> bench_ready (d, res1) \<and> config res1 = config res"
proof (cases "data AND 7 = 0")
  case True
  let ?t = "signed_drop_bit 3 data AND 0xf"
  obtain r m where "core_bench_state (unat (res_size res)) (memblock3 res) (seed1 res) (seed2 res)
        (unat (if sint (?t OR push_bit 4 ?t) < 0x22 then 0x22 else ?t OR push_bit 4 ?t)) (crc res) = Some (r, m)"
      "bench_ready (d, res\<lparr>memblock3 := m\<rparr>)"
    using bench_state_ready [OF assms] by blast
  then show ?thesis unfolding calc_operation_def Let_def using True by (auto simp: bench_ready_def config_def Let_def)
next
  case False
  then show ?thesis
    unfolding calc_operation_def Let_def using assms by (auto simp: bench_ready_def config_def Let_def split: prod.split)
qed

lemma calc_func_ready:
  assumes "bench_ready (d, res)"
  shows "\<exists>r d' res'. calc_func a (d, res) = Some (r, d', res') \<and> bench_ready (d', res') \<and> idx d' = idx d \<and> upper d' = upper d \<and> config res' = config res \<and>
    data_value (d', res') a = Some (sint r) \<and> (\<forall>c x. data_value (d, res) c = Some x \<longrightarrow> data_value (d', res') c = Some x)"
proof (cases "bit (data16 d a) 7")
  case True
  then have "signed_drop_bit 7 (data16 d a) AND 1 \<noteq> 0"
    by (simp only: and_1) (simp add: bit_simps)
  then show ?thesis using assms True by (auto simp: calc_func_def data_value_def Let_def)
next
  case False
  then have f: "signed_drop_bit 7 (data16 d a) AND 1 = 0"
    by (simp add: and_1 bit_simps)
  let ?data = "data16 d a"
  obtain r res1 where b: "calc_operation ?data res = Some (r, res1)" "bench_ready (d, res1)" "config res1 = config res"
    using calc_operation_ready [OF assms] by blast
  let ?r = "r AND 0x007f" and ?d = "set_data16 a ((?data AND 0xff00) OR 0x0080 OR (r AND 0x007f)) d"
  have c: "calc_func a (d, res) = Some (?r, ?d, res1\<lparr>crc := crcu16 r (crc res1)\<rparr>)"
    using b(1) f by (simp add: calc_func_def Let_def)
  have u: "upper ?d = upper d" by (rule upper_update) (rule upper_kept)
  have "bit ((?data AND 0xff00) OR 0x0080 OR (r AND 0x007f)) 7"
    unfolding byte_masks by (simp only: bits) simp
  moreover have "((?data AND 0xff00) OR 0x0080 OR (r AND 0x007f)) AND 0x007f = r AND 0x007f"
    unfolding byte_masks by (rule bit_eqI) (simp only: bits, auto)
  ultimately have "data_value (?d, res1\<lparr>crc := crcu16 r (crc res1)\<rparr>) a = Some (sint ?r)"
    by (simp add: data_value_def set_data16_def)
  moreover have "data_value (?d, res1\<lparr>crc := crcu16 r (crc res1)\<rparr>) k = Some x" if "data_value (d, res) k = Some x" for k x
    using that False by (auto simp: data_value_def set_data16_def Let_def split: if_split_asm)
  ultimately show ?thesis using c b(2,3) u by (auto simp: bench_ready_def config_def Let_def set_data16_def)
qed

definition bench_ok :: "datas \<times> core_results \<Rightarrow> datas \<times> core_results \<Rightarrow> bool" where
  "bench_ok st0 st \<longleftrightarrow> bench_ready st \<and> idx (fst st) = idx (fst st0) \<and> upper (fst st) = upper (fst st0) \<and>
     config (snd st) = config (snd st0)"

interpretation by_data: comparator cmp_complex "bench_ok st0" data_value
proof
  fix st a b
  assume ready: "bench_ok st0 st"
  obtain d res where st: "st = (d, res)" by (cases st)
  obtain r1 d1 res1 where a: "calc_func a st = Some (r1, d1, res1)" "bench_ok st0 (d1, res1)"
      "data_value (d1, res1) a = Some (sint r1)" "\<forall>c x. data_value st c = Some x \<longrightarrow> data_value (d1, res1) c = Some x"
    using calc_func_ready [of d res a] ready unfolding st bench_ok_def fst_conv snd_conv by metis
  obtain r2 d2 res2 where b: "calc_func b (d1, res1) = Some (r2, d2, res2)" "bench_ok st0 (d2, res2)"
      "data_value (d2, res2) b = Some (sint r2)" "\<forall>c x. data_value (d1, res1) c = Some x \<longrightarrow> data_value (d2, res2) c = Some x"
    using calc_func_ready [of d1 res1 b] a(2) unfolding bench_ok_def fst_conv snd_conv by metis
  have cmp: "cmp_complex a b st = Some (sint r1 - sint r2, d2, res2)"
    by (simp add: cmp_complex_def a(1) b(1))
  then show "\<exists>r st' x y. cmp_complex a b st = Some (r, st') \<and> bench_ok st0 st' \<and> data_value st' a = Some x \<and>
      data_value st' b = Some y \<and> (r \<le> 0 \<longleftrightarrow> x \<le> y)"
    using a(3) b(2-4) by auto
  show "data_value st' c = Some x" if "cmp_complex a b st = Some (r, st')" "data_value st c = Some x" for r st' c x
    using that cmp a(4) b(4) by auto
qed

text \<open>C14: on every non-empty list the merge sort with \<open>cmp_idx\<close> ends and links the same headers in the
  stable order of their indices, changing neither the data pointers, nor the indices, nor the high data bytes, nor
  any link outside the list.\<close>

theorem core_list_mergesort_by_idx:
  assumes "lst h p xs" and "xs \<noteq> []"
  shows "\<exists>p' h' d'. core_list_mergesort p (cmp_idx null) h d = Some (p', h', d') \<and>
    lst h' p' (sort_key (\<lambda>x. sint (idx d (info h x))) xs) \<and> info h' = info h \<and> idx d' = idx d \<and> upper d' = upper d \<and>
    (\<forall>y. y \<notin> set xs \<longrightarrow> nxt h' y = nxt h y)"
proof -
  obtain p' h' d' where m: "core_list_mergesort p (cmp_idx null) h d = Some (p', h', d')" "by_idx.ext d d'"
      "lst h' p' (sort_key (by_idx.key d' h) xs)" "info h' = info h" "\<forall>y. y \<notin> set xs \<longrightarrow> nxt h' y = nxt h y"
      "upper d' = upper d"
    using by_idx.mergesort_lst [OF refl assms] by blast
  have idx: "idx d' = idx d"
    using m(2) by (auto simp: by_idx.ext_def idx_value_def fun_eq_iff) (metis signed_word_eqI)
  then have "by_idx.key d' h = (\<lambda>x. sint (idx d (info h x)))"
    by (simp add: by_idx.key_def idx_value_def fun_eq_iff)
  with m idx show ?thesis by auto
qed

theorem core_list_mergesort_by_idx_witness:
  "\<exists>p' h' d'. core_list_mergesort (Some 0) (cmp_idx True) \<lparr>nxt = (\<lambda>x. if x = 0 then Some 1 else None), info = id\<rparr>
      \<lparr>data16 = (\<lambda>_. 0), idx = (\<lambda>x. if x = 0 then 5 else 3)\<rparr> = Some (p', h', d') \<and> lst h' p' [1, 0]"
proof -
  let ?h = "\<lparr>nxt = (\<lambda>x. if x = 0 then Some 1 else None), info = id\<rparr>" and ?d = "\<lparr>data16 = (\<lambda>_. 0), idx = (\<lambda>x. if x = 0 then 5 else 3)\<rparr>"
  have "lst ?h (Some 0) [0, 1]" by simp
  from core_list_mergesort_by_idx [OF this, of True ?d] show ?thesis by auto
qed

text \<open>C15: when the state benchmark can run, the merge sort with \<open>cmp_complex\<close>, which runs the state and
  the matrix benchmark for the values it has not cached, ends and links the headers in the stable
  order of the values it leaves cached.\<close>

theorem core_list_mergesort_by_data:
  assumes "lst h p xs" and "xs \<noteq> []" and "bench_ready st"
  shows "\<exists>p' h' st'. core_list_mergesort p cmp_complex h st = Some (p', h', st') \<and> bench_ready st' \<and>
    lst h' p' (sort_key (\<lambda>x. the (data_value st' (info h x))) xs) \<and> info h' = info h \<and>
    idx (fst st') = idx (fst st) \<and> upper (fst st') = upper (fst st) \<and> config (snd st') = config (snd st) \<and>
    (\<forall>c x. data_value st c = Some x \<longrightarrow> data_value st' c = Some x) \<and> (\<forall>y. y \<notin> set xs \<longrightarrow> nxt h' y = nxt h y)"
proof -
  have "bench_ok st st" using assms(3) by (simp add: bench_ok_def)
  from by_data.mergesort_lst [OF this assms(1,2)]
  obtain p' h' st' where m: "core_list_mergesort p cmp_complex h st = Some (p', h', st')"
      "bench_ok st st'" "by_data.ext st st'"
      "lst h' p' (sort_key (by_data.key st' h) xs)" "info h' = info h" "\<forall>y. y \<notin> set xs \<longrightarrow> nxt h' y = nxt h y"
    by blast
  moreover have "by_data.key st' h = (\<lambda>x. the (data_value st' (info h x)))"
    by (simp add: by_data.key_def fun_eq_iff)
  ultimately show ?thesis unfolding by_data.ext_def bench_ok_def by auto
qed

definition idle_results :: core_results where
  "idle_results = \<lparr>seed1 = 0, seed2 = 0, seed3 = 0, memblock3 = [0, 0], res_size = 2, iterations = 0, execs = 0,
     res_list = None, mat = \<lparr>N_of = 0, A_at = 0, B_at = 0, C_at = 0, A_of = [], B_of = [], C_of = []\<rparr>,
     crc = 0, crclist = 0, crcmatrix = 0, crcstate = 0, err = 0\<rparr>"

theorem core_list_mergesort_by_data_witness:
  "\<exists>p' h' st'. core_list_mergesort (Some 0) cmp_complex \<lparr>nxt = (\<lambda>x. if x = 0 then Some 1 else None), info = id\<rparr>
      (\<lparr>data16 = (\<lambda>x. if x = 0 then 0x85 else 0x83), idx = (\<lambda>_. 0)\<rparr>, idle_results) = Some (p', h', st') \<and> lst h' p' [1, 0]"
proof -
  let ?h = "\<lparr>nxt = (\<lambda>x. if x = 0 then Some 1 else None), info = id\<rparr>"
  let ?st = "(\<lparr>data16 = (\<lambda>x. if x = 0 then 0x85 else 0x83), idx = (\<lambda>_. 0)\<rparr>, idle_results)"
  have "lst ?h (Some 0) [0, 1]" by simp
  moreover have "bench_ready ?st" by (simp add: bench_ready_def idle_results_def)
  ultimately obtain p' h' st' where m: "core_list_mergesort (Some 0) cmp_complex ?h ?st = Some (p', h', st')"
      "lst h' p' (sort_key (\<lambda>x. the (data_value st' (info ?h x))) [0, 1])"
      "\<forall>c x. data_value ?st c = Some x \<longrightarrow> data_value st' c = Some x"
    using core_list_mergesort_by_data [of ?h "Some 0" "[0, 1]" ?st] by blast
  have "data_value ?st 0 = Some 5" "data_value ?st 1 = Some 3"
    by code_simp+
  then have "data_value st' 0 = Some 5" "data_value st' 1 = Some 3" using m(3) by blast+
  then show ?thesis using m(1,2) by auto
qed

text \<open>The merge sort does not handle the empty list, which its comment says it allows for: it
  stores through the null pointer to the last item.\<close>

theorem core_list_mergesort_empty: "core_list_mergesort None cmp h st = None"
  unfolding core_list_mergesort_def
  by (subst sort_loop.simps, subst merge_pass.simps) simp

end
