(* ===== verification/CoreListBench.thy ===== *)
theory CoreListBench
  imports CoreListSort
begin

text \<open>
  CoreMark's list benchmark as a whole: \<open>core_list_init\<close>, which builds the list in its block, and
  \<open>core_bench_list\<close>, which searches, reverses, sorts by value, removes and restores, and sorts back
  by index.
\<close>

unbundle bit_operations_syntax

section \<open>The benchmark\<close>

record find_state =
  fs_list :: ptr
  fs_heads :: heads
  fs_retval :: u16
  fs_found :: u16
  fs_missed :: u16
  fs_info :: list_data

definition move_next :: "nat \<Rightarrow> nat \<Rightarrow> heads \<Rightarrow> heads" where
  "move_next this_find list h =
     (case nxt h this_find of
        None \<Rightarrow> h
      | Some finder \<Rightarrow>
          let h = h\<lparr>nxt := (nxt h)(this_find := nxt h finder)\<rparr>;
              h = h\<lparr>nxt := (nxt h)(finder := nxt h list)\<rparr>
          in h\<lparr>nxt := (nxt h)(list := Some finder)\<rparr>)"

text \<open>One round of \<open>for (i=0; i<find_num; i++)\<close>.\<close>

definition find_step :: "nat \<Rightarrow> datas \<Rightarrow> find_state \<Rightarrow> find_state option" where
  "find_step i d s =
     (let info' = fs_info s\<lparr>d_data16 := of_nat i AND 0xff\<rparr> in
      case core_list_find (fs_heads s) d info' (fs_list s) of None \<Rightarrow> None
      | Some this_find \<Rightarrow>
     (case core_list_reverse (fs_list s) (fs_heads s) of None \<Rightarrow> None
      | Some (None, h) \<Rightarrow> None
      | Some (Some list, h) \<Rightarrow>
          let info'' = (if sint (d_idx info') \<ge> 0 then info'\<lparr>d_idx := d_idx info' + 1\<rparr> else info') in
          case this_find of
            None \<Rightarrow>
              (case nxt h list of None \<Rightarrow> None
               | Some y \<Rightarrow> Some (s\<lparr>fs_list := Some list, fs_heads := h, fs_missed := fs_missed s + 1,
                   fs_retval := fs_retval s + (signed_drop_bit 8 (data16 d (info h y)) AND 1), fs_info := info''\<rparr>))
          | Some x \<Rightarrow>
              let v = data16 d (info h x)
              in Some (s\<lparr>fs_list := Some list, fs_heads := move_next x list h, fs_found := fs_found s + 1,
                   fs_retval := (if v AND 1 \<noteq> 0 then fs_retval s + (signed_drop_bit 9 v AND 1) else fs_retval s),
                   fs_info := info''\<rparr>)))"

fun find_loop :: "nat \<Rightarrow> nat \<Rightarrow> datas \<Rightarrow> find_state \<Rightarrow> find_state option" where
  "find_loop i 0 d s = Some s"
| "find_loop i (Suc n) d s = (case find_step i d s of None \<Rightarrow> None | Some s \<Rightarrow> find_loop (Suc i) n d s)"

text \<open>\<open>while (finder) { retval=crc16(list->info->data16,retval); finder=finder->next; }\<close>: the datum is
  that of the head of the list in every round.\<close>

partial_function (option) crc_loop :: "heads \<Rightarrow> u16 \<Rightarrow> ptr \<Rightarrow> u16 \<Rightarrow> u16 option" where
  "crc_loop h v finder retval =
     (case finder of None \<Rightarrow> Some retval
      | Some x \<Rightarrow> crc_loop h v (nxt h x) (crc16 v retval))"

declare crc_loop.simps [code]

text \<open>The part after the searches: the sort, the removal, the two checksums and the sort back.\<close>

definition sort_and_check ::
    "u16 \<Rightarrow> list_data \<Rightarrow> ptr \<Rightarrow> u16 \<Rightarrow> heads \<Rightarrow> datas \<times> core_results \<Rightarrow> (u16 \<times> heads \<times> datas \<times> core_results) option" where
  "sort_and_check finder_idx i list retval h st =
     (case (if sint finder_idx > 0 then core_list_mergesort list cmp_complex h st else Some (list, h, st)) of
        Some (Some list, h, d, res) \<Rightarrow>
     (case nxt h list of None \<Rightarrow> None
      | Some item \<Rightarrow>
     (case core_list_remove item h of None \<Rightarrow> None
      | Some (remover, h) \<Rightarrow>
     (case core_list_find h d i (Some list) of None \<Rightarrow> None
      | Some finder \<Rightarrow>
     (case crc_loop h (data16 d (info h list)) (if finder = None then nxt h list else finder) retval of None \<Rightarrow> None
      | Some retval \<Rightarrow>
     (case nxt h list of None \<Rightarrow> None
      | Some item \<Rightarrow>
     (case core_list_mergesort (Some list) (cmp_idx True) (snd (core_list_undo_remove remover item h)) d of
        Some (Some list, h, d) \<Rightarrow>
          (case crc_loop h (data16 d (info h list)) (nxt h list) retval of None \<Rightarrow> None
           | Some retval \<Rightarrow> Some (retval, h, d, res))
      | _ \<Rightarrow> None))))))
      | _ \<Rightarrow> None)"

definition core_bench_list :: "core_results \<Rightarrow> u16 \<Rightarrow> heads \<Rightarrow> datas \<Rightarrow> (u16 \<times> heads \<times> datas \<times> core_results) option" where
  "core_bench_list res finder_idx h d =
     (case find_loop 0 (nat (sint (seed3 res))) d
         \<lparr>fs_list = res_list res, fs_heads = h, fs_retval = 0, fs_found = 0, fs_missed = 0,
          fs_info = \<lparr>d_data16 = 0, d_idx = finder_idx\<rparr>\<rparr> of
        None \<Rightarrow> None
      | Some s \<Rightarrow>
          sort_and_check finder_idx (fs_info s) (fs_list s)
            (fs_retval s + (fs_found s * 4 - fs_missed s)) (fs_heads s) (d, res))"

section \<open>The initialisation\<close>

definition init_item :: "u16 \<Rightarrow> u32 \<Rightarrow> list_data" where
  "init_item seed i =
     (let datpat = ucast (scast seed XOR i :: u32) AND 0xf :: u16;
          dat = push_bit 3 datpat OR ucast (i AND 7)
      in \<lparr>d_data16 = push_bit 8 dat OR dat, d_idx = 0x7fff\<rparr>)"

partial_function (option) index_loop :: "u32 \<Rightarrow> u16 \<Rightarrow> heads \<Rightarrow> u32 \<Rightarrow> ptr \<Rightarrow> datas \<Rightarrow> datas option" where
  "index_loop sz seed h i finder d =
     (case finder of None \<Rightarrow> None
      | Some x \<Rightarrow>
          if nxt h x = None then Some d
          else let (v, i) =
                     (if i < sz div 5 then (ucast i, i + 1)
                      else let pat = ucast (i XOR scast seed) :: u16; i = i + 1
                           in (0x3fff AND (push_bit 8 (ucast (i AND 7)) OR pat), i))
               in index_loop sz seed h i (nxt h x) (d\<lparr>idx := (idx d)(info h x := v)\<rparr>))"

declare index_loop.simps [code]

definition core_list_build :: "u32 \<Rightarrow> u16 \<Rightarrow> heads \<Rightarrow> datas \<Rightarrow> heads \<times> datas \<times> arena" where
  "core_list_build sz seed h d =
     (let list = 0;
          h = h\<lparr>nxt := (nxt h)(list := None), info := (info h)(list := 0)\<rparr>;
          d = copy_info 0 \<lparr>d_data16 = 0x8080, d_idx = 0\<rparr> d;
          ar = \<lparr>memblock = 1, datablock = 1, memblock_end = unat sz, datablock_end = unat sz\<rparr>;
          st = snd (core_list_insert_new list \<lparr>d_data16 = 0xffff, d_idx = 0x7fff\<rparr> (h, d, ar))
      in for_loop 0 (unat sz) (\<lambda>i st. snd (core_list_insert_new list (init_item seed (of_nat i)) st)) st)"

definition core_list_init :: "u32 \<Rightarrow> u16 \<Rightarrow> heads \<Rightarrow> datas \<Rightarrow> (ptr \<times> heads \<times> datas) option" where
  "core_list_init blksize seed h d =
     (let per_item = 20;
          sz = blksize div per_item - 2
      in case core_list_build sz seed h d of
           (h, d, ar) \<Rightarrow>
             (case index_loop sz seed h 1 (nxt h 0) d of None \<Rightarrow> None
              | Some d \<Rightarrow> core_list_mergesort (Some 0) (cmp_idx True) h d))"

section \<open>The searches rearrange the list\<close>

fun path :: "heads \<Rightarrow> ptr \<Rightarrow> nat list \<Rightarrow> ptr \<Rightarrow> bool" where
  "path h p [] q \<longleftrightarrow> p = q"
| "path h p (x # xs) q \<longleftrightarrow> p = Some x \<and> path h (nxt h x) xs q"

lemma lst_path: "lst h p (xs @ ys) \<longleftrightarrow> (\<exists>q. path h p xs q \<and> lst h q ys)"
  by (induction xs arbitrary: p) auto

lemma path_cong: "(\<And>x. x \<in> set xs \<Longrightarrow> nxt h' x = nxt h x) \<Longrightarrow> path h' p xs q = path h p xs q"
  by (induction xs arbitrary: p) simp_all

lemma move_next_lst:
  assumes "lst h (Some a) (a # as @ t # f # bs)"
  shows "lst (move_next t a h) (Some a) (a # f # as @ t # bs)" and "info (move_next t a h) = info h"
    and "y \<notin> set (a # as @ t # f # bs) \<Longrightarrow> nxt (move_next t a h) y = nxt h y"
proof -
  have d: "distinct (a # as @ t # f # bs)" using lst_distinct [OF assms] .
  have p: "path h (nxt h a) as (Some t)" "nxt h t = Some f" "lst h (nxt h f) bs"
    using assms by (auto simp: lst_path)
  let ?h = "move_next t a h"
  have n: "nxt ?h = (nxt h)(t := nxt h f, f := nxt h a, a := Some f)"
    using d p(2) by (auto simp: move_next_def Let_def fun_eq_iff)
  have "path ?h (nxt h a) as (Some t) = path h (nxt h a) as (Some t)" "lst ?h (nxt h f) bs = lst h (nxt h f) bs"
    using d by (auto intro!: path_cong lst_cong simp: n)
  then show "lst ?h (Some a) (a # f # as @ t # bs)"
    using d p by (auto simp: lst_path n)
  show "info ?h = info h" by (auto simp: move_next_def Let_def split: option.split)
  show "y \<notin> set (a # as @ t # f # bs) \<Longrightarrow> nxt ?h y = nxt h y" by (simp add: n)
qed

lemma move_next_head:
  assumes "nxt h a = Some f" and "a \<noteq> f"
  shows "move_next a a h = h"
  using assms by (cases h) (auto simp: move_next_def Let_def fun_eq_iff)

text \<open>Whatever is found, the list is a rearrangement of the same headers.\<close>

lemma move_next_perm:
  assumes "lst h (Some a) xs" and "t \<in> set xs"
  shows "\<exists>ys. lst (move_next t a h) (Some a) ys \<and> mset ys = mset xs \<and> info (move_next t a h) = info h \<and>
    (\<forall>y. y \<notin> set xs \<longrightarrow> nxt (move_next t a h) y = nxt h y)"
proof (cases "nxt h t")
  case None
  then have "move_next t a h = h" by (simp add: move_next_def)
  then show ?thesis using assms(1) by auto
next
  case (Some f)
  obtain as cs where xs: "xs = as @ t # cs" using assms(2) by (auto simp: in_set_conv_decomp)
  have "lst h (Some f) cs" using assms(1) Some unfolding xs by (auto simp: lst_path)
  then obtain bs where cs: "cs = f # bs" by (cases cs) auto
  show ?thesis
  proof (cases as)
    case Nil
    then have "t = a" "a \<noteq> f" using assms(1) lst_distinct [OF assms(1)] xs cs by auto
    then show ?thesis using move_next_head Some assms(1) by auto
  next
    case (Cons b as')
    then have "b = a" using assms(1) xs by simp
    then have "xs = a # as' @ t # f # bs" using xs cs Cons by simp
    then show ?thesis using move_next_lst [of h a as' t f bs] assms(1)
      by (intro exI [of _ "a # f # as' @ t # bs"]) auto
  qed
qed

lemma find_in_list:
  assumes "lst h p xs"
  shows "\<exists>t. core_list_find h d i p = Some t \<and> (\<forall>x. t = Some x \<longrightarrow> x \<in> set xs)"
proof -
  have "y \<in> set xs" if "dropWhile P xs = y # ys" for P y ys
    using that by (metis list.set_intros(1) set_dropWhileD)
  then show ?thesis unfolding find_lst [OF assms] by (auto split: list.split)
qed

definition rearranged :: "heads \<Rightarrow> nat list \<Rightarrow> heads \<Rightarrow> ptr \<Rightarrow> bool" where
  "rearranged h xs h' p' \<longleftrightarrow> (\<exists>ys. lst h' p' ys \<and> mset ys = mset xs) \<and> info h' = info h \<and>
     (\<forall>y. y \<notin> set xs \<longrightarrow> nxt h' y = nxt h y)"

lemma find_step_rearranges:
  assumes "rearranged h xs (fs_heads s) (fs_list s)" and "2 \<le> length xs"
  shows "\<exists>s'. find_step i d s = Some s' \<and> rearranged h xs (fs_heads s') (fs_list s')"
proof -
  let ?i = "fs_info s\<lparr>d_data16 := of_nat i AND 0xff\<rparr>"
  obtain ys where ys: "lst (fs_heads s) (fs_list s) ys" "mset ys = mset xs" "info (fs_heads s) = info h"
      "\<forall>y. y \<notin> set xs \<longrightarrow> nxt (fs_heads s) y = nxt h y"
    using assms(1) by (auto simp: rearranged_def)
  have sets: "set ys = set xs" using ys(2) by (metis set_mset_mset)
  have len: "length ys = length xs" using ys(2) by (metis size_mset)
  obtain q h1 where r: "core_list_reverse (fs_list s) (fs_heads s) = Some (q, h1)" "lst h1 q (rev ys)"
      "info h1 = info (fs_heads s)" "\<forall>x. x \<notin> set ys \<longrightarrow> nxt h1 x = nxt (fs_heads s) x"
    using reverse_lst [OF ys(1)] by blast
  have "rev ys \<noteq> []" using len assms(2) by auto
  then obtain a b zs where a: "q = Some a" "nxt h1 a = Some b" "rev ys = a # b # zs"
    using r(2) len assms(2) by (cases "rev ys"; cases "tl (rev ys)") auto
  have base: "rearranged h xs h1 (Some a)"
    unfolding rearranged_def using r a(1) ys sets by (intro conjI exI [of _ "rev ys"]) auto
  obtain t where f: "core_list_find (fs_heads s) d ?i (fs_list s) = Some t" "\<forall>x. t = Some x \<longrightarrow> x \<in> set ys"
    using find_in_list [OF ys(1)] by blast
  show ?thesis
  proof (cases t)
    case None
    then show ?thesis using f r(1) a base by (auto simp: find_step_def Let_def)
  next
    case (Some x)
    then have "x \<in> set (rev ys)" using f(2) by simp
    from move_next_perm [OF _ this, of h1 a] r(2) a(1)
    have "rearranged h xs (move_next x a h1) (Some a)"
      using base sets ys(2) unfolding rearranged_def by auto
    then show ?thesis using f r(1) a Some by (auto simp: find_step_def Let_def)
  qed
qed

lemma find_loop_rearranges:
  assumes "rearranged h xs (fs_heads s) (fs_list s)" and "2 \<le> length xs"
  shows "\<exists>s'. find_loop i n d s = Some s' \<and> rearranged h xs (fs_heads s') (fs_list s')"
  using assms(1)
proof (induction n arbitrary: i s)
  case (Suc n)
  obtain s1 where "find_step i d s = Some s1" "rearranged h xs (fs_heads s1) (fs_list s1)"
    using find_step_rearranges [OF Suc.prems assms(2)] by blast
  with Suc.IH show ?case by auto
qed simp

section \<open>The list is back in its original state\<close>

lemma crc_loop_lst: "lst h p xs \<Longrightarrow> \<exists>r. crc_loop h v p retval = Some r"
proof (induction xs arbitrary: p retval)
  case Nil
  then show ?case by (subst crc_loop.simps) simp
next
  case (Cons x xs)
  then show ?case by (subst crc_loop.simps) simp
qed

lemma filter_single: "distinct zs \<Longrightarrow> k \<in> set zs \<Longrightarrow> filter (\<lambda>z. z = k) zs = [k]"
proof (induction zs)
  case (Cons z zs)
  then show ?case by (cases "z = k") (auto simp: filter_empty_conv)
qed simp

text \<open>The rearranged list, sorted by its distinct indices, is the original one.\<close>

lemma sort_back:
  assumes "lst h p xs" and "sorted_wrt (<) (map (\<lambda>x. sint (idx d (info h x))) xs)" and "xs \<noteq> []"
    and "rearranged h xs h1 p1" and "idx d1 = idx d"
  shows "\<exists>d'. core_list_mergesort p1 (cmp_idx True) h1 d1 = Some (p, h, d') \<and> idx d' = idx d \<and> upper d' = upper d1"
proof -
  let ?k = "\<lambda>x. sint (idx d (info h x))"
  obtain ys where ys: "lst h1 p1 ys" "mset ys = mset xs" "info h1 = info h"
      "\<forall>y. y \<notin> set xs \<longrightarrow> nxt h1 y = nxt h y"
    using assms(4) by (auto simp: rearranged_def)
  have ne: "ys \<noteq> []" using ys(2) assms(3) by auto
  obtain p' h' d' where m: "core_list_mergesort p1 (cmp_idx True) h1 d1 = Some (p', h', d')"
      "lst h' p' (sort_key (by_idx.key d' h1) ys)" "info h' = info h1" "by_idx.ext d1 d'"
      "\<forall>y. y \<notin> set ys \<longrightarrow> nxt h' y = nxt h1 y" "upper d' = upper d1"
    using by_idx.mergesort_lst [OF refl ys(1) ne] by blast
  have idx: "idx d' = idx d"
    using m(4) assms(5) by (auto simp: by_idx.ext_def idx_value_def fun_eq_iff) (metis signed_word_eqI)
  then have "by_idx.key d' h1 = ?k" using ys(3) by (simp add: by_idx.key_def idx_value_def fun_eq_iff)
  moreover have "sort_key ?k ys = xs"
  proof (rule properties_for_sort_key [OF ys(2) [symmetric]])
    show "sorted (map ?k xs)" using assms(2) by (simp add: strict_sorted_iff)
    have inj: "inj_on ?k (set xs)" using assms(2) by (simp add: strict_sorted_iff distinct_map)
    have one: "filter (\<lambda>z. ?k k = ?k z) zs = [k]" if "mset zs = mset xs" "k \<in> set xs" for k zs
    proof -
      have "set zs = set xs" "distinct zs"
        using that(1) lst_distinct [OF assms(1)] by (metis set_mset_mset, metis mset_eq_imp_distinct_iff)
      then have "filter (\<lambda>z. ?k k = ?k z) zs = filter (\<lambda>z. z = k) zs"
        using inj that(2) by (intro filter_cong) (auto dest: inj_onD)
      then show ?thesis using \<open>distinct zs\<close> \<open>set zs = set xs\<close> that(2) by (simp add: filter_single)
    qed
    then show "filter (\<lambda>x. ?k k = ?k x) xs = filter (\<lambda>x. ?k k = ?k x) ys" if "k \<in> set xs" for k
      using ys(2) that by simp
  qed
  ultimately have l: "lst h' p' xs" using m(2) by simp
  have "set ys = set xs" using ys(2) by (metis set_mset_mset)
  then have "nxt h' x = nxt h x" for x
    using lst_determines [OF l assms(1), of x] m(5) ys(4) by (cases "x \<in> set xs") auto
  then have "h' = h" using m(3) ys(3) by (cases h, cases h') (auto simp: fun_eq_iff)
  moreover have "p' = p" using l assms(1,3) by (cases xs) auto
  ultimately show ?thesis using m(1,6) idx by auto
qed

lemma sort_by_value_rearranges:
  assumes "rearranged h xs h1 p1" and "xs \<noteq> []" and "0 < sint finder_idx \<longrightarrow> bench_ready (d, res)"
  shows "\<exists>p2 h2 d2 res2. (if sint finder_idx > 0 then core_list_mergesort p1 cmp_complex h1 (d, res) else Some (p1, h1, d, res)) =
      Some (p2, h2, d2, res2) \<and>
    rearranged h xs h2 p2 \<and> idx d2 = idx d \<and> upper d2 = upper d \<and> config res2 = config res \<and>
    (bench_ready (d, res) \<longrightarrow> bench_ready (d2, res2))"
proof (cases "0 < sint finder_idx")
  case True
  then have "bench_ok (d, res) (d, res)" using assms(3) by (simp add: bench_ok_def)
  moreover obtain ys where ys: "lst h1 p1 ys" "mset ys = mset xs" "info h1 = info h" "\<forall>y. y \<notin> set xs \<longrightarrow> nxt h1 y = nxt h y"
    using assms(1) by (auto simp: rearranged_def)
  moreover have "ys \<noteq> []" using ys(2) assms(2) by auto
  ultimately obtain p2 h2 st2 where m: "core_list_mergesort p1 cmp_complex h1 (d, res) = Some (p2, h2, st2)"
      "bench_ok (d, res) st2" "lst h2 p2 (sort_key (by_data.key st2 h1) ys)" "info h2 = info h1"
      "\<forall>y. y \<notin> set ys \<longrightarrow> nxt h2 y = nxt h1 y"
    using by_data.mergesort_lst [of "(d, res)" "(d, res)" h1 p1 ys] by blast
  have "set ys = set xs" using ys(2) by (metis set_mset_mset)
  then have "rearranged h xs h2 p2"
    unfolding rearranged_def using m ys by (intro conjI exI [of _ "sort_key (by_data.key st2 h1) ys"]) auto
  then show ?thesis using True m(1,2) by (cases st2) (auto simp: bench_ok_def)
next
  case False
  then show ?thesis using assms(1) by simp
qed

lemma bench_list_result:
  assumes "lst h (res_list res) xs" and "3 \<le> length xs"
    and "sorted_wrt (<) (map (\<lambda>x. sint (idx d (info h x))) xs)"
    and "0 < sint finder_idx \<Longrightarrow> bench_ready (d, res)"
  shows "\<exists>r d' res'. core_bench_list res finder_idx h d = Some (r, h, d', res') \<and> idx d' = idx d \<and> upper d' = upper d \<and>
    config res' = config res \<and> (bench_ready (d, res) \<longrightarrow> bench_ready (d', res'))"
proof -
  have ne: "xs \<noteq> []" "2 \<le> length xs" using assms(2) by auto
  let ?s = "\<lparr>fs_list = res_list res, fs_heads = h, fs_retval = 0, fs_found = 0, fs_missed = 0,
    fs_info = \<lparr>d_data16 = 0, d_idx = finder_idx\<rparr>\<rparr>"
  have "rearranged h xs (fs_heads ?s) (fs_list ?s)" using assms(1) by (auto simp: rearranged_def)
  from find_loop_rearranges [OF this ne(2)]
  obtain s where s: "find_loop 0 (nat (sint (seed3 res))) d ?s = Some s" "rearranged h xs (fs_heads s) (fs_list s)"
    by blast
  obtain p2 h2 d2 res2 where m: "(if sint finder_idx > 0 then core_list_mergesort (fs_list s) cmp_complex (fs_heads s) (d, res)
        else Some (fs_list s, fs_heads s, d, res)) = Some (p2, h2, d2, res2)"
      "rearranged h xs h2 p2" "idx d2 = idx d" "upper d2 = upper d" "config res2 = config res"
      "bench_ready (d, res) \<longrightarrow> bench_ready (d2, res2)"
    using sort_by_value_rearranges [OF s(2) ne(1)] assms(4) by blast
  obtain ys where ys: "lst h2 p2 ys" "mset ys = mset xs" using m(2) by (auto simp: rearranged_def)
  have "length ys = length xs" using ys(2) by (metis size_mset)
  then obtain a b c zs where abc: "ys = a # b # c # zs"
    using assms(2) by (cases ys; cases "tl ys"; cases "tl (tl ys)") auto
  then have p2: "p2 = Some a" "nxt h2 a = Some b" and tail: "lst h2 (Some b) (b # c # zs)" "a \<noteq> b" "a \<noteq> c"
    using ys(1) lst_distinct [OF ys(1)] by auto
  obtain h3 where r: "core_list_remove b h2 = Some (c, h3)" "lst h3 (Some b) (b # zs)"
      "info h3 = (info h2)(b := info h2 c, c := info h2 b)" "nxt h3 = (nxt h2)(b := nxt h2 c, c := None)"
      "core_list_undo_remove c b h3 = (c, h2)"
    using remove_lst [OF tail(1)] remove_undo_lst [OF tail(1)] by auto
  have a3: "nxt h3 a = Some b" using r(4) p2(2) tail by simp
  then have l3: "lst h3 (Some a) (a # b # zs)" using r(2) by simp
  obtain t where t: "core_list_find h3 d2 (fs_info s) (Some a) = Some t" "\<forall>x. t = Some x \<longrightarrow> x \<in> set (a # b # zs)"
    using find_in_list [OF l3] by blast
  have "\<exists>us. lst h3 (if t = None then Some b else t) us"
  proof (cases t)
    case None
    then show ?thesis by (intro exI [of _ "b # zs"]) (use r(2) in simp)
  next
    case (Some x)
    then obtain us vs where "a # b # zs = us @ x # vs" using t(2) split_list [of x "a # b # zs"] by blast
    then have "lst h3 (Some x) (x # vs)" using l3 by (metis lst_append)
    then show ?thesis using Some by (intro exI [of _ "x # vs"]) simp
  qed
  then obtain r1 where c1: "crc_loop h3 (data16 d2 (info h3 a)) (if t = None then Some b else t)
      (fs_retval s + (fs_found s * 4 - fs_missed s)) = Some r1"
    using crc_loop_lst by blast
  obtain d3 where restored: "core_list_mergesort (Some a) (cmp_idx True) h2 d2 = Some (res_list res, h, d3)" "idx d3 = idx d"
      "upper d3 = upper d2"
    using sort_back [OF assms(1,3) ne(1) m(2,3)] unfolding p2(1) by blast
  obtain x xs' where xs: "xs = x # xs'" using ne(1) by (cases xs) auto
  then have hd: "res_list res = Some x" "lst h (nxt h x) xs'" using assms(1) by auto
  obtain r2 where c2: "crc_loop h (data16 d3 (info h x)) (nxt h x) r1 = Some r2"
    using crc_loop_lst [OF hd(2)] by blast
  have "core_bench_list res finder_idx h d = Some (r2, h, d3, res2)"
    unfolding core_bench_list_def s(1) option.case sort_and_check_def m(1)
    by (simp only: p2 r(1,5) a3 t(1) c1 restored(1) hd(1) c2 snd_conv option.case prod.case)
  then show ?thesis using restored(2,3) m(4-6) by (auto simp: bench_ready_def)
qed

text \<open>C16: A run of the list benchmark ends without following a null pointer, and on a list in the
  strict order of its indices it leaves every link and every data pointer, so the list, as it
  was, together with the indices and the high bytes of the data.\<close>

theorem core_bench_list_restores:
  assumes "lst h (res_list res) xs" and "3 \<le> length xs"
    and "sorted_wrt (<) (map (\<lambda>x. sint (idx d (info h x))) xs)"
    and "0 < sint finder_idx \<Longrightarrow> bench_ready (d, res)"
  shows "\<exists>r d' res'. core_bench_list res finder_idx h d = Some (r, h, d', res') \<and> idx d' = idx d \<and> upper d' = upper d"
  using bench_list_result [OF assms] by blast

theorem core_bench_list_restores_witness:
  "\<exists>r d' res'. core_bench_list (idle_results\<lparr>res_list := Some 0, seed3 := 2\<rparr>) 1
      \<lparr>nxt = (\<lambda>x. if x < 3 then Some (x + 1) else None), info = id\<rparr> \<lparr>data16 = (\<lambda>_. 0x1234), idx = of_nat\<rparr> =
      Some (r, \<lparr>nxt = (\<lambda>x. if x < 3 then Some (x + 1) else None), info = id\<rparr>, d', res') \<and> idx d' = of_nat"
proof -
  let ?h = "\<lparr>nxt = (\<lambda>x. if x < 3 then Some (x + 1) else None), info = id\<rparr>" and ?d = "\<lparr>data16 = (\<lambda>_. 0x1234), idx = of_nat\<rparr>"
  let ?res = "idle_results\<lparr>res_list := Some 0, seed3 := 2\<rparr>"
  have "lst ?h (res_list ?res) [0, 1, 2, 3]" by simp
  moreover have "bench_ready (?d, ?res)" by (simp add: bench_ready_def idle_results_def)
  ultimately show ?thesis
    using core_bench_list_restores [of ?h ?res "[0, 1, 2, 3]" ?d 1] by simp blast
qed

section \<open>The initial list\<close>

text \<open>
  After the tail and \<open>i\<close> further insertions: header 0 is the head, 1 the tail, and the items from 2
  are linked latest first; the last header and the last datum of the block are never used.
\<close>

definition built :: "nat \<Rightarrow> nat \<Rightarrow> heads \<times> datas \<times> arena \<Rightarrow> bool" where
  "built n m st \<longleftrightarrow>
     (case st of (h, d, ar) \<Rightarrow>
        memblock ar = m \<and> datablock ar = m \<and> memblock_end ar = n \<and> datablock_end ar = n \<and>
        lst h (Some 0) (0 # rev [2..<m] @ [1]) \<and> (\<forall>x<m. info h x = x) \<and> idx d 0 = 0 \<and> idx d 1 = 0x7fff)"

lemma built_insert:
  assumes "built n m st" and "2 \<le> m" and "m < n"
  shows "built n (min (m + 1) (n - 1)) (snd (core_list_insert_new 0 i st))"
proof -
  obtain h d ar where st: "st = (h, d, ar)" by (cases st) auto
  have b: "memblock ar = m" "datablock ar = m" "memblock_end ar = n" "datablock_end ar = n"
      "lst h (nxt h 0) (rev [2..<m] @ [1])" "\<forall>x<m. info h x = x" "idx d 0 = 0" "idx d 1 = 0x7fff"
    using assms(1) by (auto simp: built_def st)
  show ?thesis
  proof (cases "m + 1 < n")
    case True
    then have min: "min (m + 1) (n - 1) = m + 1" by simp
    have "lst (h\<lparr>nxt := (nxt h)(m := nxt h 0, 0 := Some m), info := f\<rparr>) p (rev [2..<m] @ [1]) = lst h p (rev [2..<m] @ [1])" for p f
      using assms(2) by (intro lst_cong) auto
    then show ?thesis
      unfolding min st using b True assms(2) by (auto simp: built_def core_list_insert_new_def copy_info_def Let_def less_Suc_eq)
  next
    case False
    then have "min (m + 1) (n - 1) = m" using assms(3) by simp
    then show ?thesis using assms(1) b(1,3) False by (simp add: st core_list_insert_new_def)
  qed
qed

lemma core_list_build_built:
  assumes "3 \<le> unat sz"
  shows "built (unat sz) (unat sz - 1) (core_list_build sz seed h d)"
proof -
  let ?n = "unat sz"
  let ?h = "h\<lparr>nxt := (nxt h)(0 := None), info := (info h)(0 := 0)\<rparr>" and ?d = "copy_info 0 \<lparr>d_data16 = 0x8080, d_idx = 0\<rparr> d"
  let ?ar = "\<lparr>memblock = 1, datablock = 1, memblock_end = ?n, datablock_end = ?n\<rparr>"
  let ?st = "snd (core_list_insert_new 0 \<lparr>d_data16 = 0xffff, d_idx = 0x7fff\<rparr> (?h, ?d, ?ar))"
  have "built ?n (min (2 + 0) (?n - 1)) ?st"
    using assms by (auto simp: built_def core_list_insert_new_def copy_info_def Let_def min_def numeral_2_eq_2 less_Suc_eq)
  then have "built ?n (min (2 + ?n) (?n - 1)) (for_loop 0 ?n (\<lambda>i st. snd (core_list_insert_new 0 (init_item seed (of_nat i)) st)) ?st)"
  proof (rule for_loop_invariant [where P = "\<lambda>i. built ?n (min (2 + i) (?n - 1))"])
    fix i st
    assume "built ?n (min (2 + i) (?n - 1)) st"
    moreover have "2 \<le> min (2 + i) (?n - 1)" "min (2 + i) (?n - 1) < ?n" using assms by auto
    ultimately have "built ?n (min (min (2 + i) (?n - 1) + 1) (?n - 1)) (snd (core_list_insert_new 0 (init_item seed (of_nat i)) st))"
      by (rule built_insert)
    moreover have "min (min (2 + i) (?n - 1) + 1) (?n - 1) = min (2 + Suc i) (?n - 1)" by auto
    ultimately show "built ?n (min (2 + Suc i) (?n - 1)) (snd (core_list_insert_new 0 (init_item seed (of_nat i)) st))" by simp
  qed simp
  moreover have "min (2 + ?n) (?n - 1) = ?n - 1" by simp
  ultimately show ?thesis unfolding core_list_build_def Let_def by metis
qed

text \<open>An index below \<open>0x7fff\<close> is a non-negative number.\<close>

definition low_index :: "u16 \<Rightarrow> bool" where
  "low_index v \<longleftrightarrow> 0 \<le> sint v \<and> sint v < 0x7fff"

lemma low_indexI: "unat v < 0x7fff \<Longrightarrow> low_index v" for v :: u16
proof -
  assume "unat v < 0x7fff"
  then have "uint v < 0x7fff" by (metis nat_less_numeral_power_cancel_iff of_nat_less_iff of_nat_numeral uint_nat unat_eq_nat_uint)
  moreover from this have "uint v < 2 ^ 15" by simp
  moreover have "- (2 ^ 15) \<le> uint v" by (rule order_trans [OF _ uint_nonnegative]) simp
  ultimately have "signed_take_bit 15 (uint v) = uint v" "uint v < 0x7fff"
    by (simp_all only: signed_take_bit_int_eq_self)
  then have "sint v = uint v" by (simp add: sint_uint)
  then show ?thesis using \<open>uint v < 0x7fff\<close> by (simp add: low_index_def)
qed

lemma index_value_low:
  fixes sz i :: u32
  assumes "unat sz \<le> 100000"
  shows "low_index (if i < sz div 5 then ucast i else 0x3fff AND y)"
proof (rule low_indexI)
  have "unat (0x3fff AND y :: u16) \<le> unat (0x3fff :: u16)" for y by (metis unat_and_le and.commute)
  moreover have "unat (ucast i :: u16) < 0x7fff" if "i < sz div 5"
  proof -
    have "unat i < 20000" using that assms by (simp add: word_less_nat_alt unat_div)
    moreover have "unat (ucast i :: u16) \<le> unat i" by (simp add: unsigned_ucast_eq take_bit_nat_less_eq_self)
    ultimately show ?thesis by simp
  qed
  ultimately show "unat (if i < sz div 5 then ucast i else 0x3fff AND y) < 0x7fff"
    by (auto intro: le_less_trans [of _ 16383])
qed

lemma index_loop_lst:
  assumes "unat sz \<le> 100000" and "lst h p (xs @ [t])"
  shows "\<exists>d'. index_loop sz seed h i p d = Some d' \<and> data16 d' = data16 d \<and>
    (\<forall>c. c \<notin> info h ` set xs \<longrightarrow> idx d' c = idx d c) \<and> (\<forall>x\<in>set xs. low_index (idx d' (info h x)))"
  using assms(2)
proof (induction xs arbitrary: p i d)
  case Nil
  then show ?case by (subst index_loop.simps) simp
next
  case (Cons x xs)
  let ?v = "if i < sz div 5 then ucast i
    else 0x3fff AND (push_bit 8 (ucast ((i + 1) AND 7)) OR ucast (i XOR scast seed)) :: u16"
  let ?d = "d\<lparr>idx := (idx d)(info h x := ?v)\<rparr>"
  have p: "p = Some x" "lst h (nxt h x) (xs @ [t])" using Cons.prems by auto
  then have "nxt h x \<noteq> None" by (cases "nxt h x") auto
  then have step: "index_loop sz seed h i p d = index_loop sz seed h (i + 1) (nxt h x) ?d"
    unfolding p(1) by (subst index_loop.simps) (auto simp: Let_def)
  from Cons.IH [OF p(2), of "i + 1" ?d]
  obtain d' where d': "index_loop sz seed h (i + 1) (nxt h x) ?d = Some d'" "data16 d' = data16 d"
      "\<forall>c. c \<notin> info h ` set xs \<longrightarrow> idx d' c = idx ?d c" "\<forall>x\<in>set xs. low_index (idx d' (info h x))" by auto
  have "low_index (idx d' (info h x))"
  proof (cases "info h x \<in> info h ` set xs")
    case True
    then show ?thesis using d'(4) by auto
  next
    case False
    then show ?thesis using d'(3) index_value_low [OF assms(1)] by simp
  qed
  then show ?case using step d' by auto
qed

lemma sort_key_ends:
  fixes k :: "nat \<Rightarrow> int"
  assumes "\<And>x. x \<in> set zs \<Longrightarrow> k a \<le> k x \<and> k x < k b" and "k a < k b"
  shows "sort_key k (a # zs @ [b]) = a # sort_key k zs @ [b]"
proof (rule properties_for_sort_key)
  show "mset (a # sort_key k zs @ [b]) = mset (a # zs @ [b])" by simp
  have "filter (\<lambda>x. c = k x) (sort_key k zs) = filter (\<lambda>x. c = k x) zs" for c
    using sort_key_stable [of k c zs] by (simp add: eq_commute)
  then show "filter (\<lambda>x. k c = k x) (a # sort_key k zs @ [b]) = filter (\<lambda>x. k c = k x) (a # zs @ [b])" for c
    by simp
  show "sorted (map k (a # sort_key k zs @ [b]))"
    using assms by (auto simp: sorted_append less_imp_le)
qed

lemma init_list_result:
  assumes "n = unat (blksize div 20 - 2)" and "3 \<le> n" and "n \<le> 100000"
  shows "\<exists>h' d' zs. core_list_init blksize seed h d = Some (Some 0, h', d') \<and> lst h' (Some 0) (0 # zs @ [1]) \<and>
    mset zs = mset [2..<n - 1] \<and> sorted (map (\<lambda>x. sint (idx d' (info h' x))) zs) \<and>
    map (info h') [0..<n - 1] = [0..<n - 1] \<and> idx d' 0 = 0 \<and> idx d' 1 = 0x7fff \<and>
    list_all (\<lambda>x. low_index (idx d' x)) zs"
proof -
  let ?sz = "blksize div 20 - 2"
  obtain h1 d1 ar where b: "core_list_build ?sz seed h d = (h1, d1, ar)" by (cases "core_list_build ?sz seed h d") auto
  have "built n (n - 1) (h1, d1, ar)"
    using core_list_build_built [of ?sz seed h d] assms(1,2) b by simp
  then have l: "lst h1 (Some 0) (0 # rev [2..<n - 1] @ [1])" "\<forall>x<n - 1. info h1 x = x" "idx d1 0 = 0" "idx d1 1 = 0x7fff"
    by (auto simp: built_def)
  let ?ms = "rev [2..<n - 1]"
  have inf: "info h1 x = x" if "x \<in> set ?ms" for x using that l(2) by simp
  have "lst h1 (nxt h1 0) (?ms @ [1])" using l(1) by simp
  from index_loop_lst [OF _ this, of ?sz seed 1 d1]
  obtain d2 where d2: "index_loop ?sz seed h1 1 (nxt h1 0) d1 = Some d2"
      "\<forall>c. c \<notin> info h1 ` set ?ms \<longrightarrow> idx d2 c = idx d1 c" "\<forall>x\<in>set ?ms. low_index (idx d2 (info h1 x))"
    using assms(1,3) by auto
  have "info h1 ` set ?ms = set ?ms" using inf by (force simp: image_def)
  then have ends: "idx d2 0 = 0" "idx d2 1 = 0x7fff" using d2(2) l(3,4) by auto
  let ?k = "\<lambda>x. sint (idx d2 (info h1 x))"
  have k: "?k 0 = 0" "?k 1 = 0x7fff" using ends l(2) assms(2) by auto
  obtain p' h' d' where m: "core_list_mergesort (Some 0) (cmp_idx True) h1 d2 = Some (p', h', d')"
      "lst h' p' (sort_key (by_idx.key d' h1) (0 # ?ms @ [1]))" "info h' = info h1" "by_idx.ext d2 d'"
    using by_idx.mergesort_lst [OF refl l(1)] by blast
  have idx: "idx d' = idx d2"
    using m(4) by (auto simp: by_idx.ext_def idx_value_def fun_eq_iff) (metis signed_word_eqI)
  then have "by_idx.key d' h1 = ?k" by (simp add: by_idx.key_def idx_value_def fun_eq_iff)
  moreover have "sort_key ?k (0 # ?ms @ [1]) = 0 # sort_key ?k ?ms @ [1]"
    by (rule sort_key_ends) (use k d2(3) in \<open>auto simp: low_index_def\<close>)
  ultimately have "lst h' p' (0 # sort_key ?k ?ms @ [1])" using m(2) by simp
  moreover from this have "p' = Some 0" by simp
  moreover have "mset (sort_key ?k ?ms) = mset [2..<n - 1]" by simp
  moreover have "list_all (\<lambda>x. low_index (idx d' x)) (sort_key ?k ?ms)"
    using d2(3) inf idx by (auto simp: list_all_iff)
  moreover have "map (info h') [0..<n - 1] = [0..<n - 1]" using l(2) m(3) by (auto intro: map_idI)
  moreover have "core_list_init blksize seed h d = Some (p', h', d')"
    unfolding core_list_init_def Let_def b prod.case d2(1) option.case m(1) ..
  ultimately show ?thesis using idx ends m(3) by (intro exI [of _ h'] exI [of _ d'] exI [of _ "sort_key ?k ?ms"]) simp
qed

text \<open>The initialisation builds, in a block for \<open>n\<close> items, the list of \<open>n - 1\<close> headers, each with
  a datum of its own: the head with index 0, the items in the order of their indices, and the
  tail with the index \<open>0x7fff\<close>, above all others.\<close>

theorem core_list_init_sorted:
  assumes "n = unat (blksize div 20 - 2)" and "3 \<le> n" and "n \<le> 100000"
  shows "\<exists>h' d' zs. core_list_init blksize seed h d = Some (Some 0, h', d') \<and> lst h' (Some 0) (0 # zs @ [1]) \<and>
    mset zs = mset [2..<n - 1] \<and> sorted (map (\<lambda>x. sint (idx d' (info h' x))) zs) \<and>
    map (info h') [0..<n - 1] = [0..<n - 1] \<and> idx d' 0 = 0 \<and> idx d' 1 = 0x7fff \<and>
    list_all (\<lambda>x. low_index (idx d' x)) zs"
  using assms by (rule init_list_result)

theorem core_list_init_sorted_witness:
  "\<exists>h' d' zs. core_list_init 666 0x3415 \<lparr>nxt = (\<lambda>_. None), info = id\<rparr> \<lparr>data16 = (\<lambda>_. 0), idx = (\<lambda>_. 0)\<rparr> = Some (Some 0, h', d') \<and>
    lst h' (Some 0) (0 # zs @ [1]) \<and> mset zs = mset [2..<30]"
  using core_list_init_sorted [of 31 666 "0x3415" "\<lparr>nxt = (\<lambda>_. None), info = id\<rparr>" "\<lparr>data16 = (\<lambda>_. 0), idx = (\<lambda>_. 0)\<rparr>"] by simp blast

end
