(* ===== verification/CoreMain.thy ===== *)
theory CoreMain
  imports CoreListBench
begin

text \<open>
  CoreMark's main program (\<open>core_main.c\<close>), single-threaded: the default seeds, the division of the
  memory among the algorithms, the initialisations, the iterations and their calibration, and the
  verdict from the checksums. The seconds a timed run takes and the sizes of the C types are
  parameters.
\<close>

unbundle bit_operations_syntax

section \<open>The iterations\<close>

fun iterate_loop :: "nat \<Rightarrow> nat \<Rightarrow> heads \<Rightarrow> datas \<Rightarrow> core_results \<Rightarrow> (heads \<times> datas \<times> core_results) option" where
  "iterate_loop i 0 h d res = Some (h, d, res)"
| "iterate_loop i (Suc n) h d res =
     (case core_bench_list res 1 h d of None \<Rightarrow> None
      | Some (c, h, d, res) \<Rightarrow>
          let res = res\<lparr>crc := crcu16 c (crc res)\<rparr> in
     (case core_bench_list res (- 1) h d of None \<Rightarrow> None
      | Some (c, h, d, res) \<Rightarrow>
          let res = res\<lparr>crc := crcu16 c (crc res)\<rparr>;
              res = (if i = 0 then res\<lparr>crclist := crc res\<rparr> else res)
          in iterate_loop (Suc i) n h d res))"

definition iterate :: "core_results \<Rightarrow> heads \<Rightarrow> datas \<Rightarrow> (heads \<times> datas \<times> core_results) option" where
  "iterate res h d =
     iterate_loop 0 (unat (iterations res)) h d (res\<lparr>crc := 0, crclist := 0, crcmatrix := 0, crcstate := 0\<rparr>)"

section \<open>Parameters and memory\<close>

definition default_seeds :: "u16 \<Rightarrow> u16 \<Rightarrow> u16 \<Rightarrow> u16 \<times> u16 \<times> u16" where
  "default_seeds s1 s2 s3 =
     (let (s1, s2, s3) = (if s1 = 0 \<and> s2 = 0 \<and> s3 = 0 then (0, 0, 0x66) else (s1, s2, s3))
      in if s1 = 1 \<and> s2 = 0 \<and> s3 = 0 then (0x3415, 0x3415, 0x66) else (s1, s2, s3))"

definition selected :: "u32 \<Rightarrow> nat \<Rightarrow> bool" where
  "selected e i \<longleftrightarrow> push_bit i 1 AND e \<noteq> 0"

definition num_algorithms :: "u32 \<Rightarrow> u16" where
  "num_algorithms e = for_loop 0 3 (\<lambda>i k. if selected e i then k + 1 else k) 0"

text \<open>\<open>results[i].size/num_algorithms\<close>: no result when the divisor is 0.\<close>

definition algorithm_size :: "u32 \<Rightarrow> u32 \<Rightarrow> u32 option" where
  "algorithm_size total_size e = (if num_algorithms e = 0 then None else Some (total_size div ucast (num_algorithms e)))"

text \<open>The offsets of \<open>memblock[1]\<close> to \<open>memblock[3]\<close> from \<open>memblock[0]\<close>.\<close>

definition assign_block :: "u32 \<Rightarrow> u32 \<Rightarrow> nat \<Rightarrow> nat \<times> nat option list \<Rightarrow> nat \<times> nat option list" where
  "assign_block sz e i st =
     (case st of (j, blocks) \<Rightarrow> if selected e i then (j + 1, blocks[i := Some (unat sz * j)]) else (j, blocks))"

definition memblocks :: "u32 \<Rightarrow> u32 \<Rightarrow> nat option list" where
  "memblocks sz e = snd (for_loop 0 3 (assign_block sz e) (0, [None, None, None]))"

definition matrix_seed :: "u16 \<Rightarrow> u16 \<Rightarrow> u32" where
  "matrix_seed s1 s2 = scast s1 OR push_bit 16 (scast s2)"

text \<open>The calls of the initialisations, on the contents the blocks have before.\<close>

definition core_init ::
    "core_results \<Rightarrow> u64 \<Rightarrow> heads \<Rightarrow> datas \<Rightarrow> mat_params \<Rightarrow> u8 list \<Rightarrow> (heads \<times> datas \<times> core_results) option" where
  "core_init res memblk2 h d m0 block3 =
     (let sz = res_size res in
      case (if selected (execs res) 0 then map_option (\<lambda>(p, h, d). (h, d, res\<lparr>res_list := p\<rparr>)) (core_list_init sz (seed1 res) h d)
            else Some (h, d, res)) of None \<Rightarrow> None
      | Some (h, d, res) \<Rightarrow>
     (case (if selected (execs res) 1
            then map_option (\<lambda>p. res\<lparr>mat := p\<rparr>)
                   (core_init_matrix sz memblk2 (matrix_seed (seed1 res) (seed2 res)) (A_of m0) (B_of m0) (C_of m0))
            else Some res) of None \<Rightarrow> None
      | Some res \<Rightarrow>
     (case (if selected (execs res) 2
            then map_option (\<lambda>b. res\<lparr>memblock3 := b\<rparr>) (core_init_state sz (seed1 res) block3)
            else Some res) of None \<Rightarrow> None
      | Some res \<Rightarrow> Some (h, d, res))))"

text \<open>
  \<open>while (secs_passed < 1)\<close>: ten times the iterations until a run takes at least a second; \<open>secs k\<close>
  is the whole number of seconds the \<open>k\<close>-th timed run takes.
\<close>

partial_function (option) calibrate ::
    "(nat \<Rightarrow> nat) \<Rightarrow> nat \<Rightarrow> heads \<Rightarrow> datas \<Rightarrow> core_results \<Rightarrow> (heads \<times> datas \<times> core_results) option" where
  "calibrate secs k h d res =
     (let res = res\<lparr>iterations := iterations res * 10\<rparr> in
      case iterate res h d of None \<Rightarrow> None
      | Some (h, d, res) \<Rightarrow>
          if secs k < 1 then calibrate secs (k + 1) h d res
          else let divisor = (if secs k = 0 then 1 else secs k)
               in Some (h, d, res\<lparr>iterations := iterations res * (1 + 10 div of_nat divisor)\<rparr>))"

declare calibrate.simps [code]

definition run_benchmark ::
    "(nat \<Rightarrow> nat) \<Rightarrow> heads \<Rightarrow> datas \<Rightarrow> core_results \<Rightarrow> (heads \<times> datas \<times> core_results) option" where
  "run_benchmark secs h d res =
     (case (if iterations res = 0 then calibrate secs 0 h d (res\<lparr>iterations := 1\<rparr>) else Some (h, d, res)) of
        None \<Rightarrow> None
      | Some (h, d, res) \<Rightarrow> iterate res h d)"

section \<open>The verdict\<close>

definition seedcrc :: "core_results \<Rightarrow> u16" where
  "seedcrc res = crc16 (ucast (res_size res)) (crc16 (seed3 res) (crc16 (seed2 res) (crc16 (seed1 res) 0)))"

definition known_id :: "u16 \<Rightarrow> nat option" where
  "known_id c =
     (if c = 0x8a02 then Some 0 else if c = 0x7b05 then Some 1 else if c = 0x4eaf then Some 2
      else if c = 0xe9f5 then Some 3 else if c = 0x18f2 then Some 4 else None)"

definition list_known_crc :: "u16 list" where
  "list_known_crc = [0xd4b0, 0x3340, 0x6a79, 0xe714, 0xe3c1]"

definition matrix_known_crc :: "u16 list" where
  "matrix_known_crc = [0xbe52, 0x1199, 0x5608, 0x1fd7, 0x0747]"

definition state_known_crc :: "u16 list" where
  "state_known_crc = [0x5e47, 0x39bf, 0xe5a4, 0x8e3a, 0x8d84]"

definition check_known :: "nat \<Rightarrow> core_results \<Rightarrow> core_results" where
  "check_known k res =
     (let res = res\<lparr>err := 0\<rparr>;
          res = (if selected (execs res) 0 \<and> crclist res \<noteq> list_known_crc ! k then res\<lparr>err := err res + 1\<rparr> else res);
          res = (if selected (execs res) 1 \<and> crcmatrix res \<noteq> matrix_known_crc ! k then res\<lparr>err := err res + 1\<rparr> else res)
      in if selected (execs res) 2 \<and> crcstate res \<noteq> state_known_crc ! k then res\<lparr>err := err res + 1\<rparr> else res)"

definition total_errors :: "core_results \<Rightarrow> u8 \<Rightarrow> nat \<Rightarrow> u16" where
  "total_errors res type_errors seconds =
     (let t = (case known_id (seedcrc res) of None \<Rightarrow> - 1 | Some k \<Rightarrow> err (check_known k res));
          t = t + ucast type_errors
      in if seconds < 10 then t + 1 else t)"

datatype verdict = Validated | Errors_detected | Cannot_validate

definition verdict_of :: "u16 \<Rightarrow> verdict" where
  "verdict_of t = (if t = 0 then Validated else if sint t > 0 then Errors_detected else Cannot_validate)"

section \<open>The benchmark runs\<close>

text \<open>What a run needs: a list in the strict order of its indices, and a state block that can be scanned.\<close>

definition runnable :: "heads \<Rightarrow> datas \<Rightarrow> core_results \<Rightarrow> bool" where
  "runnable h d res \<longleftrightarrow>
     bench_ready (d, res) \<and>
     (\<exists>xs. lst h (res_list res) xs \<and> 3 \<le> length xs \<and> sorted_wrt (<) (map (\<lambda>x. sint (idx d (info h x))) xs))"

text \<open>The run keeps the links, the indices, the high bytes and the parameters.\<close>

definition same_input :: "datas \<times> core_results \<Rightarrow> datas \<times> core_results \<Rightarrow> bool" where
  "same_input st st' \<longleftrightarrow> idx (fst st') = idx (fst st) \<and> upper (fst st') = upper (fst st) \<and> config (snd st') = config (snd st)"

lemma same_input_trans: "same_input a b \<Longrightarrow> same_input b c \<Longrightarrow> same_input a c"
  by (simp add: same_input_def)

lemma runnable_crc [simp]:
  "runnable h d (res\<lparr>crc := a\<rparr>) = runnable h d res" "runnable h d (res\<lparr>crclist := a\<rparr>) = runnable h d res"
  "runnable h d (res\<lparr>crcmatrix := a\<rparr>) = runnable h d res" "runnable h d (res\<lparr>crcstate := a\<rparr>) = runnable h d res"
  "runnable h d (res\<lparr>iterations := n\<rparr>) = runnable h d res"
  by (simp_all add: runnable_def bench_ready_def)

lemma config_crc [simp]:
  "config (res\<lparr>crc := a\<rparr>) = config res" "config (res\<lparr>crclist := a\<rparr>) = config res"
  "config (res\<lparr>crcmatrix := a\<rparr>) = config res" "config (res\<lparr>crcstate := a\<rparr>) = config res"
  by (simp_all add: config_def)

lemma bench_list_runs:
  assumes "runnable h d res"
  shows "\<exists>c d' res'. core_bench_list res finder_idx h d = Some (c, h, d', res') \<and> runnable h d' res' \<and>
    same_input (d, res) (d', res')"
proof -
  obtain xs where xs: "lst h (res_list res) xs" "3 \<le> length xs" "sorted_wrt (<) (map (\<lambda>x. sint (idx d (info h x))) xs)"
    and ready: "bench_ready (d, res)"
    using assms by (auto simp: runnable_def)
  from bench_list_result [OF xs ready]
  obtain c d' res' where r: "core_bench_list res finder_idx h d = Some (c, h, d', res')" "idx d' = idx d" "upper d' = upper d"
      "config res' = config res" "bench_ready (d', res')" using ready by blast
  moreover have "res_list res' = res_list res" using r(4) by (simp add: config_def)
  ultimately show ?thesis using xs by (auto simp: runnable_def same_input_def)
qed

lemma iterate_loop_runs:
  "runnable h d res \<Longrightarrow> \<exists>d' res'. iterate_loop i n h d res = Some (h, d', res') \<and> runnable h d' res' \<and>
     same_input (d, res) (d', res')"
proof (induction n arbitrary: i d res)
  case 0
  then show ?case by (simp add: same_input_def)
next
  case (Suc n)
  obtain c1 d1 res1 where a: "core_bench_list res 1 h d = Some (c1, h, d1, res1)" "runnable h d1 res1" "same_input (d, res) (d1, res1)"
    using bench_list_runs [OF Suc.prems] by blast
  let ?res1 = "res1\<lparr>crc := crcu16 c1 (crc res1)\<rparr>"
  have "runnable h d1 ?res1" using a(2) by simp
  from bench_list_runs [OF this, of "- 1"]
  obtain c2 d2 res2 where b: "core_bench_list ?res1 (- 1) h d1 = Some (c2, h, d2, res2)" "runnable h d2 res2" "same_input (d1, ?res1) (d2, res2)"
    by blast
  let ?res2 = "let r = res2\<lparr>crc := crcu16 c2 (crc res2)\<rparr> in if i = 0 then r\<lparr>crclist := crc r\<rparr> else r"
  have "runnable h d2 ?res2" using b(2) by (simp add: Let_def)
  from Suc.IH [OF this, of "Suc i"]
  obtain d' res' where c: "iterate_loop (Suc i) n h d2 ?res2 = Some (h, d', res')" "runnable h d' res'" "same_input (d2, ?res2) (d', res')"
    by blast
  have "same_input (d, res) (d', res')"
    using a(3) b(3) c(3) by (simp add: same_input_def Let_def split: if_split_asm)
  then show ?case using a(1) b(1) c by (simp add: Let_def)
qed

lemma iterate_runs:
  assumes "runnable h d res"
  shows "\<exists>d' res'. iterate res h d = Some (h, d', res') \<and> runnable h d' res' \<and> same_input (d, res) (d', res')"
proof -
  have "runnable h d (res\<lparr>crc := 0, crclist := 0, crcmatrix := 0, crcstate := 0\<rparr>)" using assms by simp
  from iterate_loop_runs [OF this, of 0 "unat (iterations res)"] show ?thesis
    unfolding iterate_def by (auto simp: same_input_def)
qed

text \<open>Any number of iterations of the benchmark ends, following no null pointer and scanning no
  byte outside its block, and leaves the list, the indices, the original values of the data and
  the parameters as they were, so every iteration starts from the same list.\<close>

theorem iterate_restores:
  assumes "runnable h d res"
  shows "\<exists>d' res'. iterate res h d = Some (h, d', res') \<and> runnable h d' res' \<and> same_input (d, res) (d', res')"
  by (rule iterate_runs [OF assms])

definition small_heads :: heads where
  "small_heads = \<lparr>nxt = (\<lambda>x. if x < 3 then Some (x + 1) else None), info = id\<rparr>"

definition small_datas :: datas where
  "small_datas = \<lparr>data16 = (\<lambda>_. 0x1234), idx = of_nat\<rparr>"

lemma small_runnable: "runnable small_heads small_datas (idle_results\<lparr>res_list := Some 0, seed3 := 2, iterations := n\<rparr>)"
proof -
  let ?res = "idle_results\<lparr>res_list := Some 0, seed3 := 2, iterations := n\<rparr>"
  have "lst small_heads (res_list ?res) [0, 1, 2, 3]" by (simp add: small_heads_def)
  moreover have "bench_ready (small_datas, ?res)" by (simp add: bench_ready_def idle_results_def)
  moreover have "sorted_wrt (<) (map (\<lambda>x. sint (idx small_datas (info small_heads x))) [0, 1, 2, 3])"
    by (simp add: small_heads_def small_datas_def)
  moreover have "3 \<le> length [0, 1, 2, 3 :: nat]" by simp
  ultimately show ?thesis unfolding runnable_def by blast
qed

theorem iterate_restores_witness:
  "\<exists>d' res'. iterate (idle_results\<lparr>res_list := Some 0, seed3 := 2, iterations := 100\<rparr>) small_heads small_datas =
      Some (small_heads, d', res')"
  using iterate_restores [OF small_runnable [of 100]] by blast

lemma calibrate_runs:
  assumes "runnable h d res" and "\<forall>j<n. secs (k + j) = 0" and "1 \<le> secs (k + n)"
  shows "\<exists>d' res'. calibrate secs k h d res = Some (h, d', res') \<and> runnable h d' res' \<and>
    iterations res' = iterations res * 10 ^ Suc n * (1 + 10 div of_nat (secs (k + n)))"
  using assms
proof (induction n arbitrary: k d res)
  case 0
  have "runnable h d (res\<lparr>iterations := iterations res * 10\<rparr>)" using 0 by simp
  from iterate_runs [OF this] 0(3) show ?case
    by (subst calibrate.simps) (auto simp: same_input_def config_def Let_def)
next
  case (Suc n)
  let ?res = "res\<lparr>iterations := iterations res * 10\<rparr>"
  have "runnable h d ?res" using Suc.prems by simp
  from iterate_runs [OF this] obtain d1 res1 where i: "iterate ?res h d = Some (h, d1, res1)" "runnable h d1 res1"
      "iterations res1 = iterations res * 10"
    by (auto simp: same_input_def config_def)
  have "\<forall>j<n. secs (Suc k + j) = 0" "1 \<le> secs (Suc k + n)" using Suc.prems(2,3) by auto
  from Suc.IH [OF i(2) this]
  obtain d' res' where r: "calibrate secs (Suc k) h d1 res1 = Some (h, d', res')" "runnable h d' res'"
      "iterations res' = iterations res1 * 10 ^ Suc n * (1 + 10 div of_nat (secs (Suc k + n)))" by blast
  have "secs k = 0" using Suc.prems(2) by (metis add_0_right zero_less_Suc)
  then have "calibrate secs k h d res = calibrate secs (Suc k) h d1 res1"
    using i(1) by (subst calibrate.simps) (simp add: Let_def)
  then show ?case using r i(3) by (auto simp: ac_simps)
qed

text \<open>The calibration ends at the first timed run that takes a second, the \<open>k\<close>-th from 0; the number
  of iterations is then \<open>10 ^ (k + 1)\<close> times one plus the tenth of the seconds, modulo \<open>2 ^ 32\<close>.\<close>

theorem run_benchmark_calibrates:
  assumes "runnable h d res" and "iterations res = 0" and "\<forall>j<n. secs j = 0" and "1 \<le> secs n"
  shows "\<exists>d' res'. run_benchmark secs h d res = Some (h, d', res') \<and>
    iterations res' = 10 ^ Suc n * (1 + 10 div of_nat (secs n))"
proof -
  have "runnable h d (res\<lparr>iterations := 1\<rparr>)" using assms(1) by simp
  from calibrate_runs [OF this, of n secs 0] assms(3,4)
  obtain d1 res1 where c: "calibrate secs 0 h d (res\<lparr>iterations := 1\<rparr>) = Some (h, d1, res1)" "runnable h d1 res1"
      "iterations res1 = 10 ^ Suc n * (1 + 10 div of_nat (secs n))" by auto
  from iterate_runs [OF c(2)] show ?thesis
    using c(1,3) assms(2) by (auto simp: run_benchmark_def same_input_def config_def)
qed

theorem run_benchmark_calibrates_witness:
  "\<exists>d' res'. run_benchmark (\<lambda>k. 2 * k) small_heads small_datas (idle_results\<lparr>res_list := Some 0, seed3 := 2, iterations := 0\<rparr>) =
      Some (small_heads, d', res') \<and> iterations res' = 600"
  using run_benchmark_calibrates [OF small_runnable [of 0], of 1 "\<lambda>k. 2 * k"] by simp

section \<open>The memory is divided\<close>

lemma selected_cases:
  "for_loop 0 3 (assign_block sz e) (0, [None, None, None]) =
    assign_block sz e 2 (assign_block sz e 1 (assign_block sz e 0 (0, [None, None, None])))"
  "num_algorithms e = (if selected e 0 then 1 else 0) + (if selected e 1 then 1 else 0) + (if selected e 2 then 1 else 0)"
proof -
  have "[0..<3] = [0, 1, 2 :: nat]" by (simp add: upt_rec)
  then show "for_loop 0 3 (assign_block sz e) (0, [None, None, None]) =
      assign_block sz e 2 (assign_block sz e 1 (assign_block sz e 0 (0, [None, None, None])))"
    "num_algorithms e = (if selected e 0 then 1 else 0) + (if selected e 1 then 1 else 0) + (if selected e 2 then 1 else 0)"
    by (simp_all add: num_algorithms_def for_loop_def)
qed

text \<open>When an algorithm is selected, each selected algorithm gets a block of the common size, the
  blocks follow each other without overlap in the order of the algorithms, and they lie within
  the memory.\<close>

theorem memblocks_disjoint:
  assumes "algorithm_size total_size e = Some sz" and "i < 3" and "j < 3" and "i < j" and "selected e i" and "selected e j"
  shows "\<exists>a b. memblocks sz e ! i = Some a \<and> memblocks sz e ! j = Some b \<and> a + unat sz \<le> b \<and> b + unat sz \<le> unat total_size"
proof -
  have n: "num_algorithms e \<noteq> 0" "sz = total_size div ucast (num_algorithms e)"
    using assms(1) by (auto simp: algorithm_size_def split: if_split_asm)
  have k: "unat (total_size div 2) * 2 \<le> unat total_size" "unat (total_size div 3) * 3 \<le> unat total_size"
    by (simp_all add: unat_div)
  have "i = 0 \<and> j = 1 \<or> i = 0 \<and> j = 2 \<or> i = 1 \<and> j = 2" using assms(3,4) by auto
  then show ?thesis
    using n k assms(5,6) by (cases "selected e 0"; cases "selected e 1"; cases "selected e 2")
      (auto simp: memblocks_def selected_cases assign_block_def)
qed

section \<open>The verdict\<close>

lemma crc16_eval:
  "crc16 a b = lfsr (lfsr (lfsr (lfsr (lfsr (lfsr (lfsr (lfsr (lfsr (lfsr (lfsr (lfsr (lfsr (lfsr (lfsr (lfsr (b XOR a))))))))))))))))"
proof -
  have "(lfsr ^^ 16) x = lfsr (lfsr (lfsr (lfsr (lfsr (lfsr (lfsr (lfsr (lfsr (lfsr (lfsr (lfsr (lfsr (lfsr (lfsr (lfsr x)))))))))))))))" for x
    by (simp add: eval_nat_numeral)
  then show ?thesis by (simp only: crc16_def crcu16_lfsr)
qed

text \<open>The five sets of parameters that the comments list, for 2000, 400 or 666 bytes per algorithm,
  have the checksums the program tests for.\<close>

theorem known_runs_identified:
  "known_id (seedcrc (res\<lparr>seed1 := 0, seed2 := 0, seed3 := 0x66, res_size := 2000\<rparr>)) = Some 0"
  "known_id (seedcrc (res\<lparr>seed1 := 0x3415, seed2 := 0x3415, seed3 := 0x66, res_size := 2000\<rparr>)) = Some 1"
  "known_id (seedcrc (res\<lparr>seed1 := 8, seed2 := 8, seed3 := 8, res_size := 400\<rparr>)) = Some 2"
  "known_id (seedcrc (res\<lparr>seed1 := 0, seed2 := 0, seed3 := 0x66, res_size := 666\<rparr>)) = Some 3"
  "known_id (seedcrc (res\<lparr>seed1 := 0x3415, seed2 := 0x3415, seed3 := 0x66, res_size := 666\<rparr>)) = Some 4"
proof -
  have c: "crc16 2000 (crc16 0x66 (crc16 0 (crc16 0 0))) = 0x8a02" "crc16 2000 (crc16 0x66 (crc16 0x3415 (crc16 0x3415 0))) = 0x7b05"
    "crc16 400 (crc16 8 (crc16 8 (crc16 8 0))) = 0x4eaf"
    "crc16 666 (crc16 0x66 (crc16 0 (crc16 0 0))) = 0xe9f5" "crc16 666 (crc16 0x66 (crc16 0x3415 (crc16 0x3415 0))) = 0x18f2"
    by (simp_all add: crc16_eval lfsr_def)
  show "known_id (seedcrc (res\<lparr>seed1 := 0, seed2 := 0, seed3 := 0x66, res_size := 2000\<rparr>)) = Some 0"
    "known_id (seedcrc (res\<lparr>seed1 := 0x3415, seed2 := 0x3415, seed3 := 0x66, res_size := 2000\<rparr>)) = Some 1"
    "known_id (seedcrc (res\<lparr>seed1 := 8, seed2 := 8, seed3 := 8, res_size := 400\<rparr>)) = Some 2"
    "known_id (seedcrc (res\<lparr>seed1 := 0, seed2 := 0, seed3 := 0x66, res_size := 666\<rparr>)) = Some 3"
    "known_id (seedcrc (res\<lparr>seed1 := 0x3415, seed2 := 0x3415, seed3 := 0x66, res_size := 666\<rparr>)) = Some 4"
    by (simp_all add: seedcrc_def known_id_def c)
qed

definition crcs_match :: "nat \<Rightarrow> core_results \<Rightarrow> bool" where
  "crcs_match k res \<longleftrightarrow>
     (selected (execs res) 0 \<longrightarrow> crclist res = list_known_crc ! k) \<and>
     (selected (execs res) 1 \<longrightarrow> crcmatrix res = matrix_known_crc ! k) \<and>
     (selected (execs res) 2 \<longrightarrow> crcstate res = state_known_crc ! k)"

lemma err_bound: "unat (err (check_known k res)) \<le> 3 \<and> (err (check_known k res) = 0 \<longleftrightarrow> crcs_match k res)"
  by (simp add: check_known_def crcs_match_def Let_def)

text \<open>With known parameters the operation is reported as validated exactly when the selected
  checksums match, the data types are right and the run took ten seconds; with unknown ones it is
  reported as validated when exactly one error, a wrong data type or a run below ten seconds, is
  counted on top of the -1 that stands for the unknown parameters.\<close>

theorem validated_iff:
  "verdict_of (total_errors res type_errors seconds) = Validated \<longleftrightarrow>
    (case known_id (seedcrc res) of
       Some k \<Rightarrow> crcs_match k res \<and> type_errors = 0 \<and> 10 \<le> seconds
     | None \<Rightarrow> unat type_errors + (if seconds < 10 then 1 else 0) = 1)"
proof -
  have b: "unat type_errors < 256" using unsigned_less [of type_errors] by simp
  then have u: "unat (ucast type_errors :: u16) = unat type_errors"
    by (simp add: unsigned_ucast_eq take_bit_nat_eq_self)
  show ?thesis
  proof (cases "known_id (seedcrc res)")
    case None
    have "(- 1 + x = 0) = (x = 1)" for x :: u16 by (simp add: add_eq_0_iff)
    then have "(- 1 + (ucast type_errors :: u16) = 0) = (unat type_errors = 1)"
      using u by (simp add: word_unat_eq_iff)
    moreover have "(- 1 + (ucast type_errors :: u16) + 1 = 0) = (unat type_errors = 0)"
      using u by (simp add: word_unat_eq_iff)
    ultimately show ?thesis using None by (simp add: verdict_of_def total_errors_def Let_def)
  next
    case (Some k)
    let ?e = "err (check_known k res)"
    have "unat (?e + ucast type_errors) = unat ?e + unat type_errors" "unat (?e + ucast type_errors + 1) = unat ?e + unat type_errors + 1"
      using err_bound [of k res] u b by (simp_all add: unat_word_ariths)
    then have "(?e + ucast type_errors = 0) = (unat ?e + unat type_errors = 0)" "?e + ucast type_errors + 1 \<noteq> 0"
      by (simp_all add: word_unat_eq_iff)
    then show ?thesis using Some err_bound [of k res]
      by (auto simp: verdict_of_def total_errors_def Let_def unat_eq_0)
  qed
qed

theorem memblocks_disjoint_witness:
  "\<exists>a b. memblocks 666 7 ! 1 = Some a \<and> memblocks 666 7 ! 2 = Some b \<and> a + 666 \<le> b \<and> b + 666 \<le> 2000"
  using memblocks_disjoint [of 2000 7 666 1 2]
  by (simp add: algorithm_size_def selected_cases selected_def)

section \<open>From the initialisation to the run\<close>

text \<open>With all three algorithms selected, memory for four to 100000 list items and seeds that agree in
  their low byte, not that of a comma, the initialisations succeed, the state block can be scanned
  whatever the corruption does, and the benchmark can run exactly when the list got distinct
  indices.\<close>

theorem core_init_ready:
  assumes "n = unat (res_size res div 20 - 2)" and "4 \<le> n" and "n \<le> 100000" and "2 \<le> res_size res div 20"
    and "unat (res_size res) \<le> 8 * length (A_of m0)" and "unat (res_size res) \<le> 8 * length (B_of m0)"
    and "unat (res_size res) \<le> length block3"
    and "ucast (seed1 res) = (ucast (seed2 res) :: u8)" and "ucast (seed1 res) \<noteq> (44 :: u8)" and "execs res = 7"
  shows "\<exists>h' d' res'. core_init res memblk2 h d m0 block3 = Some (h', d', res') \<and> bench_ready (d', res') \<and>
    (runnable h' d' res' \<longleftrightarrow> inj_on (\<lambda>x. idx d' (info h' x)) {0..<n - 1})"
proof -
  let ?sz = "res_size res"
  have q: "unat (?sz div 20 - 2) = unat ?sz div 20 - 2"
    using assms(4) by (simp add: unat_sub unat_div)
  have sz: "unat ?sz < 20 * (n + 3)" "20 * (n + 2) \<le> unat ?sz"
    using assms(1,2) q by simp_all
  have sel: "selected 7 0" "selected 7 1" "selected 7 2" by (simp_all add: selected_def)
  obtain h' d' zs where l: "core_list_init ?sz (seed1 res) h d = Some (Some 0, h', d')" "lst h' (Some 0) (0 # zs @ [1])"
      "mset zs = mset [2..<n - 1]" "sorted (map (\<lambda>x. sint (idx d' (info h' x))) zs)"
      "map (info h') [0..<n - 1] = [0..<n - 1]" "idx d' 0 = 0" "idx d' 1 = 0x7fff" "list_all (\<lambda>x. low_index (idx d' x)) zs"
    using init_list_result [OF assms(1) _ assms(3), of "seed1 res" h d] assms(2) by fastforce
  have "0 < ?sz" "unat ?sz \<le> 23170 * 23170 * 8" using sz assms(2,3) by (simp_all add: word_less_nat_alt)
  from core_init_matrix_result [OF this assms(5,6)]
  obtain p where p: "core_init_matrix ?sz memblk2 (matrix_seed (seed1 res) (seed2 res)) (A_of m0) (B_of m0) (C_of m0) = Some p"
    by blast
  have "2 \<le> unat ?sz" using sz by simp
  from core_init_state_zeros [OF this assms(7)]
  obtain b where b: "core_init_state ?sz (seed1 res) block3 = Some b" "length b = length block3"
      "b ! (unat ?sz - 2) = 0" "b ! (unat ?sz - 1) = 0" by blast
  let ?res = "res\<lparr>res_list := Some 0, mat := p, memblock3 := b\<rparr>"
  have init: "core_init res memblk2 h d m0 block3 = Some (h', d', ?res)"
    using l(1) p b(1) by (simp add: core_init_def assms(10) sel sel(2) [unfolded One_nat_def] Let_def)
  have ready: "bench_ready (d', ?res)"
    using b assms(7-9) sz by (simp add: bench_ready_def)
  have info: "info h' x = x" if "x < n - 1" for x
    using l(5) that by (metis nth_map nth_upt add_0 length_upt diff_zero)
  have zs: "set zs = {2..<n - 1}" using l(3) by (metis set_mset_mset set_upt)
  let ?k = "\<lambda>x. sint (idx d' (info h' x))"
  have all: "set (0 # zs @ [1]) = {0..<n - 1}" using zs assms(2) by auto
  have "length zs = n - 1 - 2" using l(3) by (metis length_upt size_mset)
  then have len: "3 \<le> length (0 # zs @ [1])" using assms(2) by simp
  have "sorted (map ?k (0 # zs @ [1]))"
    using l(4,6-8) info [of 0] info [of 1] info assms(2) zs
    by (auto simp: sorted_append list_all_iff low_index_def less_imp_le)
  moreover have "distinct (map ?k (0 # zs @ [1])) \<longleftrightarrow> inj_on (\<lambda>x. idx d' (info h' x)) {0..<n - 1}"
    using lst_distinct [OF l(2)] unfolding distinct_map all [symmetric] inj_on_def by (metis signed_word_eqI)
  ultimately have strict: "sorted_wrt (<) (map ?k (0 # zs @ [1])) \<longleftrightarrow> inj_on (\<lambda>x. idx d' (info h' x)) {0..<n - 1}"
    by (simp only: strict_sorted_iff simp_thms)
  have list: "lst h' (res_list ?res) (0 # zs @ [1])" using l(2) by simp
  have "runnable h' d' ?res \<longleftrightarrow> sorted_wrt (<) (map ?k (0 # zs @ [1]))"
    unfolding runnable_def using ready len list lst_unique [OF list] by blast
  then have "runnable h' d' ?res \<longleftrightarrow> inj_on (\<lambda>x. idx d' (info h' x)) {0..<n - 1}" unfolding strict .
  with init ready show ?thesis by blast
qed

theorem core_init_ready_witness:
  "\<exists>h' d' res'. core_init (idle_results\<lparr>res_size := 666, execs := 7\<rparr>) 4096 small_heads small_datas
      \<lparr>N_of = 0, A_at = 0, B_at = 0, C_at = 0, A_of = replicate 100 0, B_of = replicate 100 0, C_of = []\<rparr> (replicate 666 1) =
      Some (h', d', res') \<and> bench_ready (d', res')"
proof -
  let ?res = "idle_results\<lparr>res_size := 666, execs := 7\<rparr>"
  let ?m = "\<lparr>N_of = 0, A_at = 0, B_at = 0, C_at = 0, A_of = replicate 100 0, B_of = replicate 100 0, C_of = []\<rparr>"
  have p: "31 = unat (res_size ?res div 20 - 2)" "2 \<le> res_size ?res div 20" "unat (res_size ?res) \<le> 8 * length (A_of ?m)"
    "unat (res_size ?res) \<le> 8 * length (B_of ?m)" "unat (res_size ?res) \<le> length (replicate 666 (1 :: u8))"
    "ucast (seed1 ?res) = (ucast (seed2 ?res) :: u8)" "ucast (seed1 ?res) \<noteq> (44 :: u8)" "execs ?res = 7"
    by (simp_all add: idle_results_def)
  from core_init_ready [OF p(1) _ _ p(2-8), of 4096 small_heads small_datas] show ?thesis by fastforce
qed

end
