(* ===== verification/Dhrystone.thy ===== *)
theory Dhrystone
  imports Prelude "HOL-Library.Monad_Syntax" "HOL-Library.Char_ord"
begin

text \<open>
  The Dhrystone benchmark (\<open>Dhrystone/dhry_1.c\<close>, \<open>dhry_2.c\<close>): the globals and the records behind pointers
  are the state, a reference parameter is the value handed back, a null or wild pointer and an index out of
  range are \<open>None\<close>, as is a loop that does not end. The value a variable has before it is set is an
  argument; \<open>char\<close> is unsigned, as on AArch64. The program prints the values its variables should have at the end; they are the theorem.
\<close>

unbundle bit_operations_syntax

section \<open>State\<close>










section \<open>Procedures and functions\<close>
















section \<open>The main program\<close>








section \<open>One run\<close>















section \<open>The values the program announces\<close>



end
