(* ===== verification/A64Tcg.thy ===== *)
theory A64Tcg
  imports Prelude "HOL-Library.State_Monad"
begin

text \<open>
  The ground the A64 translator of the instrumented QEMU stands on
  (\<open>qemu_src_shm/translate-a64.c\<close>): the TCG variables and operations its \<open>tcg_gen_*\<close> and
  \<open>gen_helper_*\<close> calls name, the disassembly context with the code emitted so far, the register
  access functions, and the interface \<open>tcg_semantics\<close> that states what TCG documents of the
  operations. TCG is not part of the repository: a call into it is recorded as an operation, and
  what the operations do to the processor is the parameter \<open>S\<close> of the interface.
\<close>

section \<open>Variables and operations\<close>

text \<open>
  \<open>X 31\<close> is the stack pointer. The flags are kept the way \<open>CPUARMState\<close> documents: N and V in bit
  31 of \<open>NF\<close> and \<open>VF\<close>, Z set when \<open>ZF\<close> is zero, C as 0 or 1 in \<open>CF\<close>. \<open>CcValue k\<close> is the
  variable the \<open>k\<close>-th call of \<open>arm_test_cc\<close> hands out. \<open>EXCL\<close>, \<open>EXCL_VAL\<close>, \<open>EXCL_HIGH\<close>, \<open>EXCL_TEST\<close>
  and \<open>EXCL_INFO\<close> are the globals \<open>cpu_exclusive_addr\<close>, \<open>_val\<close>, \<open>_high\<close>, \<open>_test\<close> and \<open>_info\<close>.
\<close>

datatype tv64 = X nat | T nat | PC | EXCL | EXCL_VAL | EXCL_HIGH | EXCL_TEST
datatype tv32 = CF | NF | VF | ZF | T32 nat | CcValue nat | EXCL_INFO

datatype tcg_fn1 = FMov | FNot | FNeg | FExt8s | FExt16s | FExt32s | FExt8u | FExt16u | FExt32u
  | FBswap16 | FBswap32 | FBswap64
datatype tcg_fn2 = FAdd | FSub | FMul | FAnd | FOr | FXor | FAndc | FOrc | FEqv
  | FShl | FShr | FSar | FRotr

text \<open>\<open>ArmCond cc\<close> is the condition \<open>arm_test_cc\<close> answers for \<open>cc\<close>, \<open>InvertCond\<close> is
  \<open>tcg_invert_cond\<close>.\<close>

datatype tcg_cond = TCG_COND_EQ | TCG_COND_NE | TCG_COND_GEU | ArmCond nat | InvertCond tcg_cond

datatype excp = EXCP_UDEF | EXCP_SWI | EXCP_BKPT | EXCP_DEBUG | EXCP_HVC | EXCP_SMC | EXCP_SEMIHOST
  | EXCP_STREX

text \<open>Syndromes, target exception levels and softfloat's rounding modes (\<open>arm_rmode_to_sf\<close>) are computed by
  functions that are not part of the repository; they are kept as the calls that name them.\<close>

datatype fp_rounding = Rmode nat | FPROUNDING_ZERO | FPROUNDING_TIEAWAY

datatype (plugins only: code size) const32 = Num u32 | Excp excp
  | SynUncategorized | SynSwstep bool bool bool | SynSvc nat | SynHvc nat | SynSmc nat | SynBkpt nat
  | SynSysregtrap nat nat nat nat nat nat bool | SynFpAccessTrap nat nat bool | ExceptionEl nat
  | DefaultExceptionEl | RmodeToSf fp_rounding

datatype (plugins only: code size) env_helper = ClearPstateSs | ExceptionInternal tv32 | ExceptionWithSyndrome tv32 tv32 tv32
  | MsrIPstate tv32 tv32 | PreHvc | PreSmc tv32 | ExceptionReturn | AccessCheckCpReg nat tv32 tv32
  | DcZva tv64 | CheckBreakpoints | Wfe | Yield | Wfi | IoStart | IoEnd | TbStart | TbEnd nat

text \<open>The translation regimes, and what the syndrome of a data abort tells of an access: the size, and
  whether it is signed, the register, its width, and whether it is ordered.\<close>

datatype ARMMMUIdx = S12NSE0 | S12NSE1 | S1E2 | S1E3 | S1SE0 | S1SE1 | S2NS

datatype (plugins only: code size) data_abort_iss = SynDataAbort nat bool nat bool bool

text \<open>The arguments of a helper that is called by name.\<close>

datatype (plugins only: code size) targ = R64 tv64 | R32 tv32 | Ptr nat | CpuEnv

datatype helper1 = HClz64 | HCls64 | HRbit64
datatype helper1_32 = HClz | HCls32 | HRbit
datatype helper2 = HUdiv64 | HSdiv64
datatype helper_crc = HCrc32_64 | HCrc32c_64

datatype (plugins only: code size) tcg_op =
    Movi64 tv64 u64 | Un64 tcg_fn1 tv64 tv64 | Bin64 tcg_fn2 tv64 tv64 tv64 | Bini64 tcg_fn2 tv64 tv64 u64
  | Deposit64 tv64 tv64 tv64 nat nat
  | Add2_64 tv64 tv64 tv64 tv64 tv64 tv64 | Mulu2_64 tv64 tv64 tv64 tv64 | Muls2_64 tv64 tv64 tv64 tv64
  | Setcond64 tcg_cond tv64 tv64 tv64 | Movcond64 tcg_cond tv64 tv64 tv64 tv64 tv64
  | Concat32 tv64 tv64 tv64
  | Movi32 tv32 const32 | Un32 tcg_fn1 tv32 tv32 | Bin32 tcg_fn2 tv32 tv32 tv32 | Bini32 tcg_fn2 tv32 tv32 u32
  | Deposit32 tv32 tv32 tv32 nat nat
  | Add2_32 tv32 tv32 tv32 tv32 tv32 tv32
  | Setcond32 tcg_cond tv32 tv32 tv32 | Setcondi32 tcg_cond tv32 tv32 u32
  | Extrl tv32 tv64 | Extrh tv32 tv64 | Extr tv32 tv32 tv64 | Extu tv64 tv32 | Exts tv64 tv32
  | ArmTestCc nat nat | ArmFreeCc nat
  | Free64 tv64 | Free32 tv32
  | ConstPtr nat | FreePtr nat | GetCpReg tv64 nat | SetCpReg nat tv64 | Ld64 tv64 nat | St64 tv64 nat
  | Help1 helper1 tv64 tv64 | Help1_32 helper1_32 tv32 tv32 | Help2 helper2 tv64 tv64 tv64
  | HelpCrc helper_crc tv64 tv64 tv64 tv32
  | Printer tv64 tv64 tv64 | Env env_helper
  | Brcondi64 tcg_cond tv64 u64 nat | ArmGenTestCc nat nat | SetLabel nat
  | Brcond64 tcg_cond tv64 tv64 nat | Br nat
  | QemuLd64 tv64 tv64 ARMMMUIdx nat | QemuSt64 tv64 tv64 ARMMMUIdx nat
  | LdEnv64 nat tv64 nat | StEnv64 nat tv64 nat | LdEnv32 nat tv32 nat | StEnv32 nat tv32 nat
  | SetInsnParam nat nat data_abort_iss
  | FpStatusPtr nat | Call string "targ list" | Movcond32 tcg_cond tv32 tv32 tv32 tv32 tv32
  | GotoTb nat | ExitTb "nat option" | InsnStart u64

section \<open>The disassembly context\<close>

datatype disas_jmp = DISAS_NEXT | DISAS_JUMP | DISAS_UPDATE | DISAS_TB_JUMP | DISAS_SWI | DISAS_EXC
  | DISAS_WFI | DISAS_WFE | DISAS_YIELD

datatype arm_feature = ARM_FEATURE_CRC | ARM_FEATURE_V8_AES | ARM_FEATURE_V8_SHA1 | ARM_FEATURE_V8_SHA256
  | ARM_FEATURE_V8_PMULL

datatype cp_special = CP_REGULAR | CP_NOP | CP_NZCV | CP_CURRENTEL | CP_DC_ZVA

text \<open>What \<open>handle_sys\<close> reads of an \<open>ARMCPRegInfo\<close>: the special type, the flags, whether the three
  functions are there, and the answer of \<open>cp_access_ok\<close> for a level and a direction.\<close>

record cp_reg =
  ri_access_ok :: "nat \<Rightarrow> bool \<Rightarrow> bool"
  ri_accessfn :: bool
  ri_readfn :: bool
  ri_writefn :: bool
  ri_special :: cp_special
  ri_const :: bool
  ri_io :: bool
  ri_suppress_tb_end :: bool
  ri_resetvalue :: u64
  ri_fieldoffset :: nat

text \<open>
  The fields of \<open>DisasContext\<close> and of its translation block the modelled functions use, the
  configuration (\<open>user_only\<close> for \<open>CONFIG_USER_ONLY\<close>, \<open>has_andc_i32\<close> for \<open>TCG_TARGET_HAS_andc_i32\<close>,
  the byte order of the host, the target page mask), the counters of the handles TCG hands out, and the code emitted. \<open>aborted\<close>
  is set by an \<open>assert\<close> that fails.
\<close>

record disas_context =
  dc_pc :: u64
  dc_is_jmp :: disas_jmp
  dc_current_el :: nat
  dc_ss_active :: bool
  dc_pstate_ss :: bool
  dc_ss_same_el :: bool
  dc_is_ldex :: bool
  dc_singlestep_enabled :: bool
  dc_features :: "arm_feature \<Rightarrow> bool"
  dc_be_data :: nat
  dc_mmu_idx :: ARMMMUIdx
  dc_fp_excp_el :: nat
  dc_fp_access_checked :: bool
  dc_insn_start_idx :: nat
  host_words_bigendian :: bool
  dc_cp_regs :: "nat \<times> nat \<times> nat \<times> nat \<times> nat \<Rightarrow> cp_reg option"
  dc_tmp_a64 :: "tv64 list"
  tb_pc :: u64
  tb_last_io :: bool
  tb_use_icount :: bool
  user_only :: bool
  semihosting :: bool
  has_andc_i32 :: bool
  page_mask :: u64
  next_i64 :: nat
  next_i32 :: nat
  next_ptr :: nat
  next_label :: nat
  next_cc :: nat
  aborted :: bool
  code :: "tcg_op list"

type_synonym 'a gen = "(disas_context, 'a) state"

definition get_dc :: "(disas_context \<Rightarrow> 'a) \<Rightarrow> 'a gen" where
  "get_dc f = State (\<lambda>s. (f s, s))"

definition set_dc :: "(disas_context \<Rightarrow> disas_context) \<Rightarrow> unit gen" where
  "set_dc f = State (\<lambda>s. ((), f s))"

definition skip :: "unit gen" where
  "skip = State (\<lambda>s. ((), s))"

definition emit :: "tcg_op \<Rightarrow> unit gen" where
  "emit op = State (\<lambda>s. ((), s\<lparr>code := code s @ [op]\<rparr>))"

definition assert_that :: "bool \<Rightarrow> unit gen" where
  "assert_that b = State (\<lambda>s. ((), s\<lparr>aborted := aborted s \<or> \<not> b\<rparr>))"

definition tcg_temp_new_i64 :: "tv64 gen" where
  "tcg_temp_new_i64 = State (\<lambda>s. (T (next_i64 s), s\<lparr>next_i64 := Suc (next_i64 s)\<rparr>))"

definition tcg_temp_new_i32 :: "tv32 gen" where
  "tcg_temp_new_i32 = State (\<lambda>s. (T32 (next_i32 s), s\<lparr>next_i32 := Suc (next_i32 s)\<rparr>))"

definition gen_new_label :: "nat gen" where
  "gen_new_label = State (\<lambda>s. (next_label s, s\<lparr>next_label := Suc (next_label s)\<rparr>))"

lemma run_primitives [simp]:
  "run_state (get_dc f) s = (f s, s)"
  "run_state (set_dc g) s = ((), g s)"
  "run_state skip s = ((), s)"
  "run_state (emit op) s = ((), s\<lparr>code := code s @ [op]\<rparr>)"
  "run_state (assert_that b) s = ((), s\<lparr>aborted := aborted s \<or> \<not> b\<rparr>)"
  "run_state tcg_temp_new_i64 s = (T (next_i64 s), s\<lparr>next_i64 := Suc (next_i64 s)\<rparr>)"
  "run_state tcg_temp_new_i32 s = (T32 (next_i32 s), s\<lparr>next_i32 := Suc (next_i32 s)\<rparr>)"
  "run_state gen_new_label s = (next_label s, s\<lparr>next_label := Suc (next_label s)\<rparr>)"
  by (simp_all add: get_dc_def set_dc_def skip_def emit_def assert_that_def tcg_temp_new_i64_def
      tcg_temp_new_i32_def gen_new_label_def)

text \<open>\<open>tcg_const_*\<close> is documented as a new temporary with the constant moved into it.\<close>

definition tcg_const_i64 :: "u64 \<Rightarrow> tv64 gen" where
  "tcg_const_i64 v = do { t \<leftarrow> tcg_temp_new_i64; emit (Movi64 t v); State_Monad.return t }"

definition tcg_const_i32 :: "const32 \<Rightarrow> tv32 gen" where
  "tcg_const_i32 v = do { t \<leftarrow> tcg_temp_new_i32; emit (Movi32 t v); State_Monad.return t }"

definition tcg_const_ptr :: "nat gen" where
  "tcg_const_ptr = do {
     p \<leftarrow> get_dc next_ptr;
     set_dc (\<lambda>s. s\<lparr>next_ptr := Suc p\<rparr>);
     emit (ConstPtr p);
     State_Monad.return p }"

text \<open>\<open>arm_test_cc\<close> of \<open>translate.c\<close>: the condition and the variable to compare with zero.\<close>

definition arm_test_cc :: "nat \<Rightarrow> (tcg_cond \<times> nat) gen" where
  "arm_test_cc cc = do {
     k \<leftarrow> get_dc next_cc;
     set_dc (\<lambda>s. s\<lparr>next_cc := Suc k\<rparr>);
     emit (ArmTestCc cc k);
     State_Monad.return (ArmCond cc, k) }"

text \<open>\<open>extract32\<close>, \<open>extract64\<close> and \<open>sextract32\<close> of QEMU's bit operations, which read a bit field.\<close>

definition extract32 :: "u32 \<Rightarrow> nat \<Rightarrow> nat \<Rightarrow> nat" where
  "extract32 v start len = unat (take_bit len (drop_bit start v))"

definition sextract32 :: "u32 \<Rightarrow> nat \<Rightarrow> nat \<Rightarrow> int" where
  "sextract32 v start len = signed_take_bit (len - 1) (uint (drop_bit start v))"

lemma extract32_less: "extract32 v start len < 2 ^ len"
  by (simp add: extract32_def unsigned_take_bit_eq)

section \<open>Conditions, exceptions and direct jumps\<close>

abbreviation "tcg_gen_mov_i64 d a \<equiv> emit (Un64 FMov d a)"
abbreviation "tcg_gen_ext32u_i64 d a \<equiv> emit (Un64 FExt32u d a)"

definition gen_a64_set_pc_im :: "u64 \<Rightarrow> unit gen" where
  "gen_a64_set_pc_im val = emit (Movi64 PC val)"

definition a64_test_cc :: "nat \<Rightarrow> (tcg_cond \<times> tv64) gen" where
  "a64_test_cc cc = do {
     (cond, k) \<leftarrow> arm_test_cc cc;
     value \<leftarrow> tcg_temp_new_i64;
     emit (Exts value (CcValue k));
     emit (ArmFreeCc k);
     State_Monad.return (cond, value) }"

definition a64_free_cc :: "tcg_cond \<times> tv64 \<Rightarrow> unit gen" where
  "a64_free_cc c = emit (Free64 (snd c))"

definition gen_exception_internal :: "excp \<Rightarrow> unit gen" where
  "gen_exception_internal e = do {
     tcg_excp \<leftarrow> tcg_const_i32 (Excp e);
     assert_that (e \<in> {EXCP_DEBUG, EXCP_SEMIHOST, EXCP_STREX});
     emit (Env (ExceptionInternal tcg_excp));
     emit (Free32 tcg_excp) }"

definition gen_exception :: "excp \<Rightarrow> const32 \<Rightarrow> const32 \<Rightarrow> unit gen" where
  "gen_exception e syndrome target_el = do {
     tcg_excp \<leftarrow> tcg_const_i32 (Excp e);
     tcg_syn \<leftarrow> tcg_const_i32 syndrome;
     tcg_el \<leftarrow> tcg_const_i32 target_el;
     emit (Env (ExceptionWithSyndrome tcg_excp tcg_syn tcg_el));
     emit (Free32 tcg_el);
     emit (Free32 tcg_syn);
     emit (Free32 tcg_excp) }"

definition set_is_jmp :: "disas_jmp \<Rightarrow> unit gen" where
  "set_is_jmp j = set_dc (\<lambda>s. s\<lparr>dc_is_jmp := j\<rparr>)"

definition gen_exception_internal_insn :: "u64 \<Rightarrow> excp \<Rightarrow> unit gen" where
  "gen_exception_internal_insn offset e = do {
     pc \<leftarrow> get_dc dc_pc;
     gen_a64_set_pc_im (pc - offset);
     gen_exception_internal e;
     set_is_jmp DISAS_EXC }"

definition gen_exception_insn :: "u64 \<Rightarrow> excp \<Rightarrow> const32 \<Rightarrow> const32 \<Rightarrow> unit gen" where
  "gen_exception_insn offset e syndrome target_el = do {
     pc \<leftarrow> get_dc dc_pc;
     gen_a64_set_pc_im (pc - offset);
     gen_exception e syndrome target_el;
     set_is_jmp DISAS_EXC }"

definition gen_ss_advance :: "unit gen" where
  "gen_ss_advance = do {
     ss_active \<leftarrow> get_dc dc_ss_active;
     if ss_active then do {
       set_dc (\<lambda>s. s\<lparr>dc_pstate_ss := False\<rparr>);
       emit (Env ClearPstateSs) }
     else skip }"

definition gen_step_complete_exception :: "unit gen" where
  "gen_step_complete_exception = do {
     gen_ss_advance;
     s \<leftarrow> get_dc (\<lambda>s. s);
     gen_exception EXCP_UDEF (SynSwstep (dc_ss_same_el s) True (dc_is_ldex s)) DefaultExceptionEl;
     set_is_jmp DISAS_EXC }"

definition use_goto_tb :: "disas_context \<Rightarrow> u64 \<Rightarrow> bool" where
  "use_goto_tb s dest =
     (if dc_singlestep_enabled s \<or> dc_ss_active s \<or> tb_last_io s then False
      else if \<not> user_only s \<and> tb_pc s AND page_mask s \<noteq> dest AND page_mask s then False
      else True)"

definition gen_goto_tb :: "nat \<Rightarrow> u64 \<Rightarrow> unit gen" where
  "gen_goto_tb n dest = do {
     s \<leftarrow> get_dc (\<lambda>s. s);
     if use_goto_tb s dest then do {
       emit (GotoTb n);
       gen_a64_set_pc_im dest;
       emit (ExitTb (Some n));
       set_is_jmp DISAS_TB_JUMP }
     else do {
       gen_a64_set_pc_im dest;
       if dc_ss_active s then gen_step_complete_exception
       else if dc_singlestep_enabled s then gen_exception_internal EXCP_DEBUG
       else do {
         emit (ExitTb None);
         set_is_jmp DISAS_TB_JUMP } } }"

definition unallocated_encoding :: "unit gen" where
  "unallocated_encoding = gen_exception_insn 4 EXCP_UDEF SynUncategorized DefaultExceptionEl"

text \<open>The log message apart, \<open>unsupported_encoding\<close> is \<open>unallocated_encoding\<close>.\<close>

definition unsupported_encoding :: "unit gen" where
  "unsupported_encoding = unallocated_encoding"

section \<open>Temporaries and registers\<close>

definition TMP_A64_MAX :: nat where "TMP_A64_MAX = 16"

definition init_tmp_a64_array :: "unit gen" where
  "init_tmp_a64_array = set_dc (\<lambda>s. s\<lparr>dc_tmp_a64 := []\<rparr>)"

fun free_all :: "tv64 list \<Rightarrow> unit gen" where
  "free_all [] = skip"
| "free_all (t # ts) = do { emit (Free64 t); free_all ts }"

definition free_tmp_a64 :: "unit gen" where
  "free_tmp_a64 = do {
     ts \<leftarrow> get_dc dc_tmp_a64;
     free_all ts;
     init_tmp_a64_array }"

definition new_tmp_a64 :: "tv64 gen" where
  "new_tmp_a64 = do {
     n \<leftarrow> get_dc (\<lambda>s. length (dc_tmp_a64 s));
     assert_that (n < TMP_A64_MAX);
     t \<leftarrow> tcg_temp_new_i64;
     set_dc (\<lambda>s. s\<lparr>dc_tmp_a64 := dc_tmp_a64 s @ [t]\<rparr>);
     State_Monad.return t }"

definition new_tmp_a64_zero :: "tv64 gen" where
  "new_tmp_a64_zero = do {
     t \<leftarrow> new_tmp_a64;
     emit (Movi64 t 0);
     State_Monad.return t }"

definition cpu_reg :: "nat \<Rightarrow> tv64 gen" where
  "cpu_reg reg = (if reg = 31 then new_tmp_a64_zero else State_Monad.return (X reg))"

definition cpu_reg_sp :: "nat \<Rightarrow> tv64 gen" where
  "cpu_reg_sp reg = State_Monad.return (X reg)"

definition read_cpu_reg :: "nat \<Rightarrow> bool \<Rightarrow> tv64 gen" where
  "read_cpu_reg reg sf = do {
     v \<leftarrow> new_tmp_a64;
     (if reg \<noteq> 31 then
        if sf then tcg_gen_mov_i64 v (X reg) else tcg_gen_ext32u_i64 v (X reg)
      else emit (Movi64 v 0));
     State_Monad.return v }"

definition read_cpu_reg_sp :: "nat \<Rightarrow> bool \<Rightarrow> tv64 gen" where
  "read_cpu_reg_sp reg sf = do {
     v \<leftarrow> new_tmp_a64;
     (if sf then tcg_gen_mov_i64 v (X reg) else tcg_gen_ext32u_i64 v (X reg));
     State_Monad.return v }"

end
