(* ===== verification/A64Gen.thy ===== *)
theory A64Gen
  imports A64Tcg
begin

text \<open>
  The code generators the A64 decoders share: the condition flags of logical operations,
  additions, subtractions and additions with carry, register extension, and shifts
  (\<open>translate-a64.c\<close>).
\<close>

section \<open>Condition flags\<close>

definition gen_set_NZ64 :: "tv64 \<Rightarrow> unit gen" where
  "gen_set_NZ64 result = do {
     emit (Extr ZF NF result);
     emit (Bin32 FOr ZF ZF NF) }"

definition gen_logic_CC :: "bool \<Rightarrow> tv64 \<Rightarrow> unit gen" where
  "gen_logic_CC sf result = do {
     (if sf then gen_set_NZ64 result
      else do {
        emit (Extrl ZF result);
        emit (Un32 FMov NF ZF) });
     emit (Movi32 CF (Num 0));
     emit (Movi32 VF (Num 0)) }"

definition gen_add_CC64 :: "tv64 \<Rightarrow> tv64 \<Rightarrow> tv64 \<Rightarrow> unit gen" where
  "gen_add_CC64 dest t0 t1 = do {
     result \<leftarrow> tcg_temp_new_i64;
     flag \<leftarrow> tcg_temp_new_i64;
     tmp \<leftarrow> tcg_temp_new_i64;
     emit (Movi64 tmp 0);
     emit (Add2_64 result flag t0 tmp t1 tmp);
     emit (Extrl CF flag);
     gen_set_NZ64 result;
     emit (Bin64 FXor flag result t0);
     emit (Bin64 FXor tmp t0 t1);
     emit (Bin64 FAndc flag flag tmp);
     emit (Free64 tmp);
     emit (Extrh VF flag);
     tcg_gen_mov_i64 dest result;
     emit (Free64 result);
     emit (Free64 flag) }"

definition gen_add_CC32 :: "tv64 \<Rightarrow> tv64 \<Rightarrow> tv64 \<Rightarrow> unit gen" where
  "gen_add_CC32 dest t0 t1 = do {
     t0_32 \<leftarrow> tcg_temp_new_i32;
     t1_32 \<leftarrow> tcg_temp_new_i32;
     tmp \<leftarrow> tcg_temp_new_i32;
     emit (Movi32 tmp (Num 0));
     emit (Extrl t0_32 t0);
     emit (Extrl t1_32 t1);
     emit (Add2_32 NF CF t0_32 tmp t1_32 tmp);
     emit (Un32 FMov ZF NF);
     emit (Bin32 FXor VF NF t0_32);
     emit (Bin32 FXor tmp t0_32 t1_32);
     emit (Bin32 FAndc VF VF tmp);
     emit (Extu dest NF);
     emit (Free32 tmp);
     emit (Free32 t0_32);
     emit (Free32 t1_32) }"

definition gen_add_CC :: "bool \<Rightarrow> tv64 \<Rightarrow> tv64 \<Rightarrow> tv64 \<Rightarrow> unit gen" where
  "gen_add_CC sf dest t0 t1 = (if sf then gen_add_CC64 dest t0 t1 else gen_add_CC32 dest t0 t1)"

definition gen_sub_CC64 :: "tv64 \<Rightarrow> tv64 \<Rightarrow> tv64 \<Rightarrow> unit gen" where
  "gen_sub_CC64 dest t0 t1 = do {
     result \<leftarrow> tcg_temp_new_i64;
     flag \<leftarrow> tcg_temp_new_i64;
     emit (Bin64 FSub result t0 t1);
     gen_set_NZ64 result;
     emit (Setcond64 TCG_COND_GEU flag t0 t1);
     emit (Extrl CF flag);
     emit (Bin64 FXor flag result t0);
     tmp \<leftarrow> tcg_temp_new_i64;
     emit (Bin64 FXor tmp t0 t1);
     emit (Bin64 FAnd flag flag tmp);
     emit (Free64 tmp);
     emit (Extrh VF flag);
     tcg_gen_mov_i64 dest result;
     emit (Free64 flag);
     emit (Free64 result) }"

definition gen_sub_CC32 :: "tv64 \<Rightarrow> tv64 \<Rightarrow> tv64 \<Rightarrow> unit gen" where
  "gen_sub_CC32 dest t0 t1 = do {
     t0_32 \<leftarrow> tcg_temp_new_i32;
     t1_32 \<leftarrow> tcg_temp_new_i32;
     emit (Extrl t0_32 t0);
     emit (Extrl t1_32 t1);
     emit (Bin32 FSub NF t0_32 t1_32);
     emit (Un32 FMov ZF NF);
     emit (Setcond32 TCG_COND_GEU CF t0_32 t1_32);
     emit (Bin32 FXor VF NF t0_32);
     tmp \<leftarrow> tcg_temp_new_i32;
     emit (Bin32 FXor tmp t0_32 t1_32);
     emit (Free32 t0_32);
     emit (Free32 t1_32);
     emit (Bin32 FAnd VF VF tmp);
     emit (Free32 tmp);
     emit (Extu dest NF) }"

definition gen_sub_CC :: "bool \<Rightarrow> tv64 \<Rightarrow> tv64 \<Rightarrow> tv64 \<Rightarrow> unit gen" where
  "gen_sub_CC sf dest t0 t1 = (if sf then gen_sub_CC64 dest t0 t1 else gen_sub_CC32 dest t0 t1)"

definition gen_adc :: "bool \<Rightarrow> tv64 \<Rightarrow> tv64 \<Rightarrow> tv64 \<Rightarrow> unit gen" where
  "gen_adc sf dest t0 t1 = do {
     flag \<leftarrow> tcg_temp_new_i64;
     emit (Extu flag CF);
     emit (Bin64 FAdd dest t0 t1);
     emit (Bin64 FAdd dest dest flag);
     emit (Free64 flag);
     if \<not> sf then tcg_gen_ext32u_i64 dest dest else skip }"

definition gen_adc_CC64 :: "tv64 \<Rightarrow> tv64 \<Rightarrow> tv64 \<Rightarrow> unit gen" where
  "gen_adc_CC64 dest t0 t1 = do {
     result \<leftarrow> tcg_temp_new_i64;
     cf_64 \<leftarrow> tcg_temp_new_i64;
     vf_64 \<leftarrow> tcg_temp_new_i64;
     tmp \<leftarrow> tcg_const_i64 0;
     emit (Extu cf_64 CF);
     emit (Add2_64 result cf_64 t0 tmp cf_64 tmp);
     emit (Add2_64 result cf_64 result cf_64 t1 tmp);
     emit (Extrl CF cf_64);
     gen_set_NZ64 result;
     emit (Bin64 FXor vf_64 result t0);
     emit (Bin64 FXor tmp t0 t1);
     emit (Bin64 FAndc vf_64 vf_64 tmp);
     emit (Extrh VF vf_64);
     tcg_gen_mov_i64 dest result;
     emit (Free64 tmp);
     emit (Free64 vf_64);
     emit (Free64 cf_64);
     emit (Free64 result) }"

definition gen_adc_CC32 :: "tv64 \<Rightarrow> tv64 \<Rightarrow> tv64 \<Rightarrow> unit gen" where
  "gen_adc_CC32 dest t0 t1 = do {
     t0_32 \<leftarrow> tcg_temp_new_i32;
     t1_32 \<leftarrow> tcg_temp_new_i32;
     tmp \<leftarrow> tcg_const_i32 (Num 0);
     emit (Extrl t0_32 t0);
     emit (Extrl t1_32 t1);
     emit (Add2_32 NF CF t0_32 tmp CF tmp);
     emit (Add2_32 NF CF NF CF t1_32 tmp);
     emit (Un32 FMov ZF NF);
     emit (Bin32 FXor VF NF t0_32);
     emit (Bin32 FXor tmp t0_32 t1_32);
     emit (Bin32 FAndc VF VF tmp);
     emit (Extu dest NF);
     emit (Free32 tmp);
     emit (Free32 t1_32);
     emit (Free32 t0_32) }"

definition gen_adc_CC :: "bool \<Rightarrow> tv64 \<Rightarrow> tv64 \<Rightarrow> tv64 \<Rightarrow> unit gen" where
  "gen_adc_CC sf dest t0 t1 = (if sf then gen_adc_CC64 dest t0 t1 else gen_adc_CC32 dest t0 t1)"

section \<open>Extensions and shifts\<close>

definition ext_and_shift_reg :: "tv64 \<Rightarrow> tv64 \<Rightarrow> nat \<Rightarrow> nat \<Rightarrow> unit gen" where
  "ext_and_shift_reg tcg_out tcg_in option shift = do {
     let extsize = extract32 (of_nat option) 0 2;
     let is_signed = (extract32 (of_nat option) 2 1 = 1);
     (if is_signed then
        if extsize = 0 then emit (Un64 FExt8s tcg_out tcg_in)
        else if extsize = 1 then emit (Un64 FExt16s tcg_out tcg_in)
        else if extsize = 2 then emit (Un64 FExt32s tcg_out tcg_in)
        else if extsize = 3 then emit (Un64 FMov tcg_out tcg_in)
        else skip
      else
        if extsize = 0 then emit (Un64 FExt8u tcg_out tcg_in)
        else if extsize = 1 then emit (Un64 FExt16u tcg_out tcg_in)
        else if extsize = 2 then emit (Un64 FExt32u tcg_out tcg_in)
        else if extsize = 3 then emit (Un64 FMov tcg_out tcg_in)
        else skip);
     if shift \<noteq> 0 then emit (Bini64 FShl tcg_out tcg_out (of_nat shift)) else skip }"

datatype a64_shift_type = A64_SHIFT_TYPE_LSL | A64_SHIFT_TYPE_LSR | A64_SHIFT_TYPE_ASR | A64_SHIFT_TYPE_ROR

definition shift_type_of :: "nat \<Rightarrow> a64_shift_type" where
  "shift_type_of n = (if n = 0 then A64_SHIFT_TYPE_LSL else if n = 1 then A64_SHIFT_TYPE_LSR
     else if n = 2 then A64_SHIFT_TYPE_ASR else A64_SHIFT_TYPE_ROR)"

definition shift_reg :: "tv64 \<Rightarrow> tv64 \<Rightarrow> bool \<Rightarrow> a64_shift_type \<Rightarrow> tv64 \<Rightarrow> unit gen" where
  "shift_reg dst src sf shift_type shift_amount = do {
     (case shift_type of
        A64_SHIFT_TYPE_LSL \<Rightarrow> emit (Bin64 FShl dst src shift_amount)
      | A64_SHIFT_TYPE_LSR \<Rightarrow> emit (Bin64 FShr dst src shift_amount)
      | A64_SHIFT_TYPE_ASR \<Rightarrow> do {
          (if \<not> sf then emit (Un64 FExt32s dst src) else skip);
          emit (Bin64 FSar dst (if sf then src else dst) shift_amount) }
      | A64_SHIFT_TYPE_ROR \<Rightarrow>
          if sf then emit (Bin64 FRotr dst src shift_amount)
          else do {
            t0 \<leftarrow> tcg_temp_new_i32;
            t1 \<leftarrow> tcg_temp_new_i32;
            emit (Extrl t0 src);
            emit (Extrl t1 shift_amount);
            emit (Bin32 FRotr t0 t0 t1);
            emit (Extu dst t0);
            emit (Free32 t0);
            emit (Free32 t1) });
     if \<not> sf then tcg_gen_ext32u_i64 dst dst else skip }"

definition shift_reg_imm :: "tv64 \<Rightarrow> tv64 \<Rightarrow> bool \<Rightarrow> a64_shift_type \<Rightarrow> nat \<Rightarrow> unit gen" where
  "shift_reg_imm dst src sf shift_type shift_i = do {
     assert_that (shift_i < (if sf then 64 else 32));
     if shift_i = 0 then tcg_gen_mov_i64 dst src
     else do {
       shift_const \<leftarrow> tcg_const_i64 (of_nat shift_i);
       shift_reg dst src sf shift_type shift_const;
       emit (Free64 shift_const) } }"

end
