(* ===== verification/A64Imm.thy ===== *)
theory A64Imm
  imports A64Gen
begin

text \<open>
  The data processing instructions with an immediate operand: PC-relative addresses, additions,
  logical immediates with the decoder of their bit patterns, wide moves, bit fields and extracts
  (\<open>translate-a64.c\<close>).
\<close>

definition disas_pc_rel_adr :: "u32 \<Rightarrow> unit gen" where
  "disas_pc_rel_adr insn = do {
     let page = extract32 insn 31 1;
     let offset = (push_bit 2 (word_of_int (sextract32 insn 5 19)) OR of_nat (extract32 insn 29 2) :: u64);
     let rd = extract32 insn 0 5;
     pc \<leftarrow> get_dc dc_pc;
     let base = pc - 4;
     let base = (if page = 1 then base AND NOT 0xfff else base);
     let offset = (if page = 1 then push_bit 12 offset else offset);
     tcg_rd \<leftarrow> cpu_reg rd;
     emit (Movi64 tcg_rd (base + offset)) }"

definition add_sub_result :: "bool \<Rightarrow> bool \<Rightarrow> bool \<Rightarrow> tv64 \<Rightarrow> tv64 \<Rightarrow> tv64 \<Rightarrow> unit gen" where
  "add_sub_result sf setflags sub_op tcg_result tcg_rn tcg_rm =
     (if \<not> setflags then
        if sub_op then emit (Bin64 FSub tcg_result tcg_rn tcg_rm)
        else emit (Bin64 FAdd tcg_result tcg_rn tcg_rm)
      else
        if sub_op then gen_sub_CC sf tcg_result tcg_rn tcg_rm
        else gen_add_CC sf tcg_result tcg_rn tcg_rm)"

definition disas_add_sub_imm :: "u32 \<Rightarrow> unit gen" where
  "disas_add_sub_imm insn = do {
     let rd = extract32 insn 0 5;
     let rn = extract32 insn 5 5;
     let imm = (of_nat (extract32 insn 10 12) :: u64);
     let shift = extract32 insn 22 2;
     let setflags = (extract32 insn 29 1 = 1);
     let sub_op = (extract32 insn 30 1 = 1);
     let is_64bit = (extract32 insn 31 1 = 1);
     tcg_rn \<leftarrow> cpu_reg_sp rn;
     tcg_rd \<leftarrow> (if setflags then cpu_reg rd else cpu_reg_sp rd);
     if shift > 1 then unallocated_encoding
     else do {
       let imm = (if shift = 1 then push_bit 12 imm else imm);
       tcg_result \<leftarrow> tcg_temp_new_i64;
       (if \<not> setflags then
          if sub_op then emit (Bini64 FSub tcg_result tcg_rn imm)
          else emit (Bini64 FAdd tcg_result tcg_rn imm)
        else do {
          tcg_imm \<leftarrow> tcg_const_i64 imm;
          (if sub_op then gen_sub_CC is_64bit tcg_result tcg_rn tcg_imm
           else gen_add_CC is_64bit tcg_result tcg_rn tcg_imm);
          emit (Free64 tcg_imm) });
       (if is_64bit then tcg_gen_mov_i64 tcg_rd tcg_result
        else tcg_gen_ext32u_i64 tcg_rd tcg_result);
       emit (Free64 tcg_result) } }"

section \<open>Logical immediates\<close>

function replicate_loop :: "u64 \<Rightarrow> nat \<Rightarrow> u64" where
  "replicate_loop m e = (if 0 < e \<and> e < 64 then replicate_loop (m OR push_bit e m) (e * 2) else m)"
  by pat_completeness auto
termination by (relation "measure (\<lambda>(m, e). 64 - e)") auto

declare replicate_loop.simps [simp del]

text \<open>\<open>bitfield_replicate\<close> and \<open>bitmask64\<close>; an argument outside the range they assert gives
  \<open>None\<close>.\<close>

definition bitfield_replicate :: "u64 \<Rightarrow> nat \<Rightarrow> u64 option" where
  "bitfield_replicate m e = (if e = 0 then None else Some (replicate_loop m e))"

definition bitmask64 :: "nat \<Rightarrow> u64 option" where
  "bitmask64 len = (if 0 < len \<and> len \<le> 64 then Some (drop_bit (64 - len) (-1)) else None)"

text \<open>
  The position of the highest bit of \<open>immn << 6 | (~imms & 0x3f)\<close>, which the source computes as
  31 minus the leading zeros; -1 for zero.
\<close>

definition top_bit :: "nat \<Rightarrow> int" where
  "top_bit n = (if n = 0 then -1 else int (Max (set (filter (bit n) [0..<32]))))"

datatype wmask_result = Reserved | Wmask u64 | AssertionFailed

definition logic_imm_decode_wmask :: "nat \<Rightarrow> nat \<Rightarrow> nat \<Rightarrow> wmask_result" where
  "logic_imm_decode_wmask immn imms immr =
     (if \<not> (immn < 2 \<and> imms < 64 \<and> immr < 64) then AssertionFailed
      else let len = top_bit (64 * immn + (63 - imms))
      in if len < 1 then Reserved
         else let e = 2 ^ nat len;
                  levels = e - 1;
                  s = imms mod e;
                  r = immr mod e
         in if s = levels then Reserved
            else case (bitmask64 (s + 1), bitmask64 e) of
                (Some m, Some me) \<Rightarrow>
                  let m = (if r \<noteq> 0 then (drop_bit r m OR push_bit (e - r) m) AND me else m)
                  in (case bitfield_replicate m e of Some w \<Rightarrow> Wmask w | None \<Rightarrow> AssertionFailed)
              | _ \<Rightarrow> AssertionFailed)"

definition disas_logic_imm :: "u32 \<Rightarrow> unit gen" where
  "disas_logic_imm insn = do {
     let sf = (extract32 insn 31 1 = 1);
     let opc = extract32 insn 29 2;
     let is_n = extract32 insn 22 1;
     let immr = extract32 insn 16 6;
     let imms = extract32 insn 10 6;
     let rn = extract32 insn 5 5;
     let rd = extract32 insn 0 5;
     if \<not> sf \<and> is_n = 1 then unallocated_encoding
     else do {
       tcg_rd \<leftarrow> (if opc = 3 then cpu_reg rd else cpu_reg_sp rd);
       tcg_rn \<leftarrow> cpu_reg rn;
       case logic_imm_decode_wmask is_n imms immr of
         AssertionFailed \<Rightarrow> assert_that False
       | Reserved \<Rightarrow> unallocated_encoding
       | Wmask wmask \<Rightarrow> do {
           let wmask = (if sf then wmask else wmask AND 0xffffffff);
           (if opc = 3 \<or> opc = 0 then emit (Bini64 FAnd tcg_rd tcg_rn wmask)
            else if opc = 1 then emit (Bini64 FOr tcg_rd tcg_rn wmask)
            else emit (Bini64 FXor tcg_rd tcg_rn wmask));
           (if \<not> sf \<and> \<not> (opc = 3 \<or> opc = 0) then tcg_gen_ext32u_i64 tcg_rd tcg_rd else skip);
           if opc = 3 then gen_logic_CC sf tcg_rd else skip } } }"

section \<open>Wide moves, bit fields and extracts\<close>

definition disas_movw_imm :: "u32 \<Rightarrow> unit gen" where
  "disas_movw_imm insn = do {
     let rd = extract32 insn 0 5;
     let imm = (of_nat (extract32 insn 5 16) :: u64);
     let sf = (extract32 insn 31 1 = 1);
     let opc = extract32 insn 29 2;
     let pos = 16 * extract32 insn 21 2;
     tcg_rd \<leftarrow> cpu_reg rd;
     if \<not> sf \<and> pos \<ge> 32 then unallocated_encoding
     else if opc = 0 \<or> opc = 2 then do {
       let imm = push_bit pos imm;
       let imm = (if opc = 0 then NOT imm else imm);
       let imm = (if sf then imm else imm AND 0xffffffff);
       emit (Movi64 tcg_rd imm) }
     else if opc = 3 then do {
       tcg_imm \<leftarrow> tcg_const_i64 imm;
       emit (Deposit64 tcg_rd tcg_rd tcg_imm pos 16);
       emit (Free64 tcg_imm);
       if \<not> sf then tcg_gen_ext32u_i64 tcg_rd tcg_rd else skip }
     else unallocated_encoding }"

text \<open>The zero extension at the label \<open>done\<close>.\<close>

definition bitfield_done :: "bool \<Rightarrow> tv64 \<Rightarrow> unit gen" where
  "bitfield_done sf tcg_rd = (if \<not> sf then tcg_gen_ext32u_i64 tcg_rd tcg_rd else skip)"

text \<open>The general bit move, reached when no alias applies.\<close>

definition bitfield_move :: "bool \<Rightarrow> nat \<Rightarrow> nat \<Rightarrow> nat \<Rightarrow> tv64 \<Rightarrow> tv64 \<Rightarrow> unit gen" where
  "bitfield_move sf opc ri si tcg_rd tcg_tmp = do {
     let bitsize = (if sf then 64 else 32);
     (if opc \<noteq> 1 then emit (Movi64 tcg_rd 0) else skip);
     (if si \<ge> ri then emit (Bini64 FShr tcg_tmp tcg_tmp (of_nat ri)) else skip);
     let (pos, len) = (if si \<ge> ri then (0, si - ri + 1) else (bitsize - ri, si + 1));
     emit (Deposit64 tcg_rd tcg_rd tcg_tmp pos len);
     (if opc = 0 then do {
        emit (Bini64 FShl tcg_rd tcg_rd (of_nat (64 - (pos + len))));
        emit (Bini64 FSar tcg_rd tcg_rd (of_nat (64 - (pos + len)))) }
      else skip);
     bitfield_done sf tcg_rd }"

definition bitfield_sbfm :: "bool \<Rightarrow> nat \<Rightarrow> nat \<Rightarrow> tv64 \<Rightarrow> tv64 \<Rightarrow> unit gen" where
  "bitfield_sbfm sf ri si tcg_rd tcg_tmp =
     (if ri = 0 \<and> si = 7 then do { emit (Un64 FExt8s tcg_rd tcg_tmp); bitfield_done sf tcg_rd }
      else if ri = 0 \<and> si = 15 then do { emit (Un64 FExt16s tcg_rd tcg_tmp); bitfield_done sf tcg_rd }
      else if ri = 0 \<and> si = 31 then do { emit (Un64 FExt32s tcg_rd tcg_tmp); bitfield_done sf tcg_rd }
      else if si = 63 \<or> (si = 31 \<and> ri \<le> si) then do {
        (if si = 31 then emit (Un64 FExt32s tcg_tmp tcg_tmp) else skip);
        emit (Bini64 FSar tcg_rd tcg_tmp (of_nat ri));
        bitfield_done sf tcg_rd }
      else bitfield_move sf 0 ri si tcg_rd tcg_tmp)"

definition bitfield_ubfm :: "bool \<Rightarrow> nat \<Rightarrow> nat \<Rightarrow> tv64 \<Rightarrow> tv64 \<Rightarrow> unit gen" where
  "bitfield_ubfm sf ri si tcg_rd tcg_tmp =
     (if ri = 0 then
        (case bitmask64 (si + 1) of
           Some m \<Rightarrow> emit (Bini64 FAnd tcg_rd tcg_tmp m)
         | None \<Rightarrow> assert_that False)
      else if si = 63 \<or> (si = 31 \<and> ri \<le> si) then do {
        (if si = 31 then tcg_gen_ext32u_i64 tcg_tmp tcg_tmp else skip);
        emit (Bini64 FShr tcg_rd tcg_tmp (of_nat ri)) }
      else if si + 1 = ri \<and> si \<noteq> (if sf then 64 else 32) - 1 then do {
        emit (Bini64 FShl tcg_rd tcg_tmp (of_nat ((if sf then 64 else 32) - 1 - si)));
        bitfield_done sf tcg_rd }
      else bitfield_move sf 2 ri si tcg_rd tcg_tmp)"

definition disas_bitfield :: "u32 \<Rightarrow> unit gen" where
  "disas_bitfield insn = do {
     let sf = (extract32 insn 31 1 = 1);
     let opc = extract32 insn 29 2;
     let n = (extract32 insn 22 1 = 1);
     let ri = extract32 insn 16 6;
     let si = extract32 insn 10 6;
     let rn = extract32 insn 5 5;
     let rd = extract32 insn 0 5;
     let bitsize = (if sf then 64 else 32 :: nat);
     if sf \<noteq> n \<or> ri \<ge> bitsize \<or> si \<ge> bitsize \<or> opc > 2 then unallocated_encoding
     else do {
       tcg_rd \<leftarrow> cpu_reg rd;
       tcg_tmp \<leftarrow> read_cpu_reg rn True;
       if opc = 0 then bitfield_sbfm sf ri si tcg_rd tcg_tmp
       else if opc = 2 then bitfield_ubfm sf ri si tcg_rd tcg_tmp
       else bitfield_move sf opc ri si tcg_rd tcg_tmp } }"

definition disas_extract :: "u32 \<Rightarrow> unit gen" where
  "disas_extract insn = do {
     let sf = (extract32 insn 31 1 = 1);
     let n = (extract32 insn 22 1 = 1);
     let rm = extract32 insn 16 5;
     let imm = extract32 insn 10 6;
     let rn = extract32 insn 5 5;
     let rd = extract32 insn 0 5;
     let op21 = extract32 insn 29 2;
     let op0 = extract32 insn 21 1;
     let bitsize = (if sf then 64 else 32);
     if sf \<noteq> n \<or> op21 \<noteq> 0 \<or> op0 \<noteq> 0 \<or> imm \<ge> bitsize then unallocated_encoding
     else do {
       tcg_rd \<leftarrow> cpu_reg rd;
       if imm = 0 then do {
         tcg_rm \<leftarrow> cpu_reg rm;
         if sf then tcg_gen_mov_i64 tcg_rd tcg_rm else tcg_gen_ext32u_i64 tcg_rd tcg_rm }
       else if rm = rn then do {
         tcg_rm \<leftarrow> cpu_reg rm;
         if sf then emit (Bini64 FRotr tcg_rd tcg_rm (of_nat imm))
         else do {
           tmp \<leftarrow> tcg_temp_new_i32;
           emit (Extrl tmp tcg_rm);
           emit (Bini32 FRotr tmp tmp (of_nat imm));
           emit (Extu tcg_rd tmp);
           emit (Free32 tmp) } }
       else do {
         tcg_rm \<leftarrow> read_cpu_reg rm sf;
         tcg_rn \<leftarrow> read_cpu_reg rn sf;
         emit (Bini64 FShr tcg_rm tcg_rm (of_nat imm));
         emit (Bini64 FShl tcg_rn tcg_rn (of_nat (bitsize - imm)));
         emit (Bin64 FOr tcg_rd tcg_rm tcg_rn);
         if \<not> sf then tcg_gen_ext32u_i64 tcg_rd tcg_rd else skip } } }"

definition disas_data_proc_imm :: "u32 \<Rightarrow> unit gen" where
  "disas_data_proc_imm insn =
     (let c = extract32 insn 23 6
      in if c = 0x20 \<or> c = 0x21 then disas_pc_rel_adr insn
         else if c = 0x22 \<or> c = 0x23 then disas_add_sub_imm insn
         else if c = 0x24 then disas_logic_imm insn
         else if c = 0x25 then disas_movw_imm insn
         else if c = 0x26 then disas_bitfield insn
         else if c = 0x27 then disas_extract insn
         else unallocated_encoding)"

end
