(* ===== verification/A64Reg.thy ===== *)
theory A64Reg
  imports A64Imm
begin

text \<open>
  The data processing instructions on registers: logical and arithmetic with shifted and extended
  operands, multiplication, addition with carry, conditional compare and select, and the one- and
  two-source operations (\<open>translate-a64.c\<close>).
\<close>

section \<open>Logical and arithmetic\<close>

definition logic_op :: "nat \<Rightarrow> tv64 \<Rightarrow> tv64 \<Rightarrow> tv64 \<Rightarrow> unit gen" where
  "logic_op k tcg_rd tcg_rn tcg_rm =
     (if k = 0 \<or> k = 3 then emit (Bin64 FAnd tcg_rd tcg_rn tcg_rm)
      else if k = 1 then emit (Bin64 FOr tcg_rd tcg_rn tcg_rm)
      else if k = 2 then emit (Bin64 FXor tcg_rd tcg_rn tcg_rm)
      else if k = 4 \<or> k = 7 then emit (Bin64 FAndc tcg_rd tcg_rn tcg_rm)
      else if k = 5 then emit (Bin64 FOrc tcg_rd tcg_rn tcg_rm)
      else if k = 6 then emit (Bin64 FEqv tcg_rd tcg_rn tcg_rm)
      else assert_that False)"

definition disas_logic_reg :: "u32 \<Rightarrow> unit gen" where
  "disas_logic_reg insn = do {
     let sf = (extract32 insn 31 1 = 1);
     let opc = extract32 insn 29 2;
     let shift_type = extract32 insn 22 2;
     let invert = extract32 insn 21 1;
     let rm = extract32 insn 16 5;
     let shift_amount = extract32 insn 10 6;
     let rn = extract32 insn 5 5;
     let rd = extract32 insn 0 5;
     if \<not> sf \<and> bit shift_amount 5 then unallocated_encoding
     else do {
       tcg_rd \<leftarrow> cpu_reg rd;
       if opc = 1 \<and> shift_amount = 0 \<and> shift_type = 0 \<and> rn = 31 then do {
         tcg_rm \<leftarrow> cpu_reg rm;
         if invert = 1 then do {
           emit (Un64 FNot tcg_rd tcg_rm);
           if \<not> sf then tcg_gen_ext32u_i64 tcg_rd tcg_rd else skip }
         else if sf then tcg_gen_mov_i64 tcg_rd tcg_rm
         else tcg_gen_ext32u_i64 tcg_rd tcg_rm }
       else do {
         tcg_rm \<leftarrow> read_cpu_reg rm sf;
         (if shift_amount \<noteq> 0
          then shift_reg_imm tcg_rm tcg_rm sf (shift_type_of shift_type) shift_amount else skip);
         tcg_rn \<leftarrow> cpu_reg rn;
         logic_op (opc + 4 * invert) tcg_rd tcg_rn tcg_rm;
         (if \<not> sf then tcg_gen_ext32u_i64 tcg_rd tcg_rd else skip);
         if opc = 3 then gen_logic_CC sf tcg_rd else skip } } }"

definition disas_add_sub_ext_reg :: "u32 \<Rightarrow> unit gen" where
  "disas_add_sub_ext_reg insn = do {
     let rd = extract32 insn 0 5;
     let rn = extract32 insn 5 5;
     let imm3 = extract32 insn 10 3;
     let option = extract32 insn 13 3;
     let rm = extract32 insn 16 5;
     let setflags = (extract32 insn 29 1 = 1);
     let sub_op = (extract32 insn 30 1 = 1);
     let sf = (extract32 insn 31 1 = 1);
     if imm3 > 4 then unallocated_encoding
     else do {
       tcg_rd \<leftarrow> (if \<not> setflags then cpu_reg_sp rd else cpu_reg rd);
       tcg_rn \<leftarrow> read_cpu_reg_sp rn sf;
       tcg_rm \<leftarrow> read_cpu_reg rm sf;
       ext_and_shift_reg tcg_rm tcg_rm option imm3;
       tcg_result \<leftarrow> tcg_temp_new_i64;
       add_sub_result sf setflags sub_op tcg_result tcg_rn tcg_rm;
       (if sf then tcg_gen_mov_i64 tcg_rd tcg_result else tcg_gen_ext32u_i64 tcg_rd tcg_result);
       emit (Free64 tcg_result) } }"

definition disas_add_sub_reg :: "u32 \<Rightarrow> unit gen" where
  "disas_add_sub_reg insn = do {
     let rd = extract32 insn 0 5;
     let rn = extract32 insn 5 5;
     let imm6 = extract32 insn 10 6;
     let rm = extract32 insn 16 5;
     let shift_type = extract32 insn 22 2;
     let setflags = (extract32 insn 29 1 = 1);
     let sub_op = (extract32 insn 30 1 = 1);
     let sf = (extract32 insn 31 1 = 1);
     tcg_rd \<leftarrow> cpu_reg rd;
     if shift_type = 3 \<or> (\<not> sf \<and> imm6 > 31) then unallocated_encoding
     else do {
       tcg_rn \<leftarrow> read_cpu_reg rn sf;
       tcg_rm \<leftarrow> read_cpu_reg rm sf;
       shift_reg_imm tcg_rm tcg_rm sf (shift_type_of shift_type) imm6;
       tcg_result \<leftarrow> tcg_temp_new_i64;
       add_sub_result sf setflags sub_op tcg_result tcg_rn tcg_rm;
       (if sf then tcg_gen_mov_i64 tcg_rd tcg_result else tcg_gen_ext32u_i64 tcg_rd tcg_result);
       emit (Free64 tcg_result) } }"

section \<open>Multiplication\<close>

definition mul_high :: "bool \<Rightarrow> nat \<Rightarrow> nat \<Rightarrow> nat \<Rightarrow> unit gen" where
  "mul_high is_signed rd rn rm = do {
     low_bits \<leftarrow> tcg_temp_new_i64;
     tcg_rd \<leftarrow> cpu_reg rd;
     tcg_rn \<leftarrow> cpu_reg rn;
     tcg_rm \<leftarrow> cpu_reg rm;
     (if is_signed then emit (Muls2_64 low_bits tcg_rd tcg_rn tcg_rm)
      else emit (Mulu2_64 low_bits tcg_rd tcg_rn tcg_rm));
     emit (Free64 low_bits) }"

text \<open>The operands of one emission are evaluated from left to right.\<close>

definition disas_data_proc_3src :: "u32 \<Rightarrow> unit gen" where
  "disas_data_proc_3src insn = do {
     let rd = extract32 insn 0 5;
     let rn = extract32 insn 5 5;
     let ra = extract32 insn 10 5;
     let rm = extract32 insn 16 5;
     let op_id = 16 * extract32 insn 29 3 + 2 * extract32 insn 21 3 + extract32 insn 15 1;
     let sf = (extract32 insn 31 1 = 1);
     let is_sub = bit op_id 0;
     let is_high = bit op_id 2;
     let is_signed = (op_id \<in> {0x42, 0x43, 0x44});
     if op_id \<notin> {0x42, 0x43, 0x44, 0x0, 0x1, 0x40, 0x41, 0x4a, 0x4b, 0x4c} then unallocated_encoding
     else if is_high then mul_high is_signed rd rn rm
     else do {
       tcg_op1 \<leftarrow> tcg_temp_new_i64;
       tcg_op2 \<leftarrow> tcg_temp_new_i64;
       tcg_tmp \<leftarrow> tcg_temp_new_i64;
       tcg_rn \<leftarrow> cpu_reg rn;
       emit (Un64 (if op_id < 0x42 then FMov else if is_signed then FExt32s else FExt32u) tcg_op1 tcg_rn);
       tcg_rm \<leftarrow> cpu_reg rm;
       emit (Un64 (if op_id < 0x42 then FMov else if is_signed then FExt32s else FExt32u) tcg_op2 tcg_rm);
       (if ra = 31 \<and> \<not> is_sub then do {
          tcg_rd \<leftarrow> cpu_reg rd;
          emit (Bin64 FMul tcg_rd tcg_op1 tcg_op2) }
        else do {
          emit (Bin64 FMul tcg_tmp tcg_op1 tcg_op2);
          tcg_rd \<leftarrow> cpu_reg rd;
          tcg_ra \<leftarrow> cpu_reg ra;
          emit (Bin64 (if is_sub then FSub else FAdd) tcg_rd tcg_ra tcg_tmp) });
       (if \<not> sf then do {
          tcg_rd \<leftarrow> cpu_reg rd;
          tcg_rd' \<leftarrow> cpu_reg rd;
          tcg_gen_ext32u_i64 tcg_rd tcg_rd' }
        else skip);
       emit (Free64 tcg_op1);
       emit (Free64 tcg_op2);
       emit (Free64 tcg_tmp) } }"

section \<open>Carry and conditions\<close>

definition disas_adc_sbc :: "u32 \<Rightarrow> unit gen" where
  "disas_adc_sbc insn =
     (if extract32 insn 10 6 \<noteq> 0 then unallocated_encoding
      else do {
        let sf = (extract32 insn 31 1 = 1);
        let op = extract32 insn 30 1;
        let setflags = extract32 insn 29 1;
        let rm = extract32 insn 16 5;
        let rn = extract32 insn 5 5;
        let rd = extract32 insn 0 5;
        tcg_rd \<leftarrow> cpu_reg rd;
        tcg_rn \<leftarrow> cpu_reg rn;
        tcg_y \<leftarrow> (if op = 1 then do {
                   tcg_y \<leftarrow> new_tmp_a64;
                   tcg_rm \<leftarrow> cpu_reg rm;
                   emit (Un64 FNot tcg_y tcg_rm);
                   State_Monad.return tcg_y }
                 else cpu_reg rm);
        if setflags = 1 then gen_adc_CC sf tcg_rd tcg_rn tcg_y else gen_adc sf tcg_rd tcg_rn tcg_y })"

text \<open>\<open>flag AND NOT T1\<close>, by \<open>andc\<close> where the host has it and by the second mask otherwise.\<close>

definition clear_flag :: "tv32 \<Rightarrow> tv32 \<Rightarrow> tv32 \<Rightarrow> unit gen" where
  "clear_flag f tcg_t1 tcg_t2 = do {
     andc \<leftarrow> get_dc has_andc_i32;
     if andc then emit (Bin32 FAndc f f tcg_t1) else emit (Bin32 FAnd f f tcg_t2) }"

definition force_flags :: "nat \<Rightarrow> tv32 \<Rightarrow> tv32 \<Rightarrow> tv32 \<Rightarrow> unit gen" where
  "force_flags nzcv tcg_t0 tcg_t1 tcg_t2 = do {
     (if bit nzcv 3 then emit (Bin32 FOr NF NF tcg_t1) else clear_flag NF tcg_t1 tcg_t2);
     (if bit nzcv 2 then clear_flag ZF tcg_t1 tcg_t2 else emit (Bin32 FOr ZF ZF tcg_t0));
     (if bit nzcv 1 then emit (Bin32 FOr CF CF tcg_t0) else clear_flag CF tcg_t1 tcg_t2);
     (if bit nzcv 0 then emit (Bin32 FOr VF VF tcg_t1) else clear_flag VF tcg_t1 tcg_t2) }"

definition disas_cc :: "u32 \<Rightarrow> unit gen" where
  "disas_cc insn =
     (if extract32 insn 29 1 = 0 then unallocated_encoding
      else if bit insn 10 \<or> bit insn 4 then unallocated_encoding
      else do {
        let sf = (extract32 insn 31 1 = 1);
        let op = extract32 insn 30 1;
        let is_imm = extract32 insn 11 1;
        let y = extract32 insn 16 5;
        let cond = extract32 insn 12 4;
        let rn = extract32 insn 5 5;
        let nzcv = extract32 insn 0 4;
        tcg_t0 \<leftarrow> tcg_temp_new_i32;
        (c, k) \<leftarrow> arm_test_cc cond;
        emit (Setcondi32 (InvertCond c) tcg_t0 (CcValue k) 0);
        emit (ArmFreeCc k);
        tcg_y \<leftarrow> (if is_imm = 1 then do {
                   tcg_y \<leftarrow> new_tmp_a64;
                   emit (Movi64 tcg_y (of_nat y));
                   State_Monad.return tcg_y }
                 else cpu_reg y);
        tcg_rn \<leftarrow> cpu_reg rn;
        tcg_tmp \<leftarrow> tcg_temp_new_i64;
        (if op = 1 then gen_sub_CC sf tcg_tmp tcg_rn tcg_y else gen_add_CC sf tcg_tmp tcg_rn tcg_y);
        emit (Free64 tcg_tmp);
        tcg_t1 \<leftarrow> tcg_temp_new_i32;
        tcg_t2 \<leftarrow> tcg_temp_new_i32;
        emit (Un32 FNeg tcg_t1 tcg_t0);
        emit (Bini32 FSub tcg_t2 tcg_t0 1);
        force_flags nzcv tcg_t0 tcg_t1 tcg_t2;
        emit (Free32 tcg_t0);
        emit (Free32 tcg_t1);
        emit (Free32 tcg_t2) })"

definition disas_cond_select :: "u32 \<Rightarrow> unit gen" where
  "disas_cond_select insn =
     (if extract32 insn 29 1 = 1 \<or> extract32 insn 11 1 = 1 then unallocated_encoding
      else do {
        let sf = (extract32 insn 31 1 = 1);
        let else_inv = (extract32 insn 30 1 = 1);
        let rm = extract32 insn 16 5;
        let cond = extract32 insn 12 4;
        let else_inc = (extract32 insn 10 1 = 1);
        let rn = extract32 insn 5 5;
        let rd = extract32 insn 0 5;
        tcg_rd \<leftarrow> cpu_reg rd;
        c \<leftarrow> a64_test_cc cond;
        zero \<leftarrow> tcg_const_i64 0;
        (if rn = 31 \<and> rm = 31 \<and> else_inc \<noteq> else_inv then do {
           emit (Setcond64 (InvertCond (fst c)) tcg_rd (snd c) zero);
           if else_inv then emit (Un64 FNeg tcg_rd tcg_rd) else skip }
         else do {
           t_true \<leftarrow> cpu_reg rn;
           t_false \<leftarrow> read_cpu_reg rm True;
           (if else_inv \<and> else_inc then emit (Un64 FNeg t_false t_false)
            else if else_inv then emit (Un64 FNot t_false t_false)
            else if else_inc then emit (Bini64 FAdd t_false t_false 1)
            else skip);
           emit (Movcond64 (fst c) tcg_rd (snd c) zero t_true t_false) });
        emit (Free64 zero);
        a64_free_cc c;
        if \<not> sf then tcg_gen_ext32u_i64 tcg_rd tcg_rd else skip })"

section \<open>One source\<close>

text \<open>The shape \<open>handle_clz\<close>, \<open>handle_cls\<close> and \<open>handle_rbit\<close> share.\<close>

definition handle_help1 :: "helper1 \<Rightarrow> helper1_32 \<Rightarrow> bool \<Rightarrow> nat \<Rightarrow> nat \<Rightarrow> unit gen" where
  "handle_help1 h64 h32 sf rn rd = do {
     tcg_rd \<leftarrow> cpu_reg rd;
     tcg_rn \<leftarrow> cpu_reg rn;
     if sf then emit (Help1 h64 tcg_rd tcg_rn)
     else do {
       tcg_tmp32 \<leftarrow> tcg_temp_new_i32;
       emit (Extrl tcg_tmp32 tcg_rn);
       emit (Help1_32 h32 tcg_tmp32 tcg_tmp32);
       emit (Extu tcg_rd tcg_tmp32);
       emit (Free32 tcg_tmp32) } }"

definition handle_clz :: "bool \<Rightarrow> nat \<Rightarrow> nat \<Rightarrow> unit gen" where
  "handle_clz = handle_help1 HClz64 HClz"

definition handle_cls :: "bool \<Rightarrow> nat \<Rightarrow> nat \<Rightarrow> unit gen" where
  "handle_cls = handle_help1 HCls64 HCls32"

definition handle_rbit :: "bool \<Rightarrow> nat \<Rightarrow> nat \<Rightarrow> unit gen" where
  "handle_rbit = handle_help1 HRbit64 HRbit"

definition handle_rev64 :: "bool \<Rightarrow> nat \<Rightarrow> nat \<Rightarrow> unit gen" where
  "handle_rev64 sf rn rd =
     (if \<not> sf then unallocated_encoding
      else do {
        tcg_rd \<leftarrow> cpu_reg rd;
        tcg_rn \<leftarrow> cpu_reg rn;
        emit (Un64 FBswap64 tcg_rd tcg_rn) })"

definition handle_rev32 :: "bool \<Rightarrow> nat \<Rightarrow> nat \<Rightarrow> unit gen" where
  "handle_rev32 sf rn rd = do {
     tcg_rd \<leftarrow> cpu_reg rd;
     if sf then do {
       tcg_tmp \<leftarrow> tcg_temp_new_i64;
       tcg_rn \<leftarrow> read_cpu_reg rn sf;
       tcg_gen_ext32u_i64 tcg_tmp tcg_rn;
       emit (Un64 FBswap32 tcg_rd tcg_tmp);
       emit (Bini64 FShr tcg_tmp tcg_rn 32);
       emit (Un64 FBswap32 tcg_tmp tcg_tmp);
       emit (Concat32 tcg_rd tcg_rd tcg_tmp);
       emit (Free64 tcg_tmp) }
     else do {
       tcg_rn \<leftarrow> cpu_reg rn;
       tcg_gen_ext32u_i64 tcg_rd tcg_rn;
       emit (Un64 FBswap32 tcg_rd tcg_rd) } }"

definition handle_rev16 :: "bool \<Rightarrow> nat \<Rightarrow> nat \<Rightarrow> unit gen" where
  "handle_rev16 sf rn rd = do {
     tcg_rd \<leftarrow> cpu_reg rd;
     tcg_tmp \<leftarrow> tcg_temp_new_i64;
     tcg_rn \<leftarrow> read_cpu_reg rn sf;
     emit (Bini64 FAnd tcg_tmp tcg_rn 0xffff);
     emit (Un64 FBswap16 tcg_rd tcg_tmp);
     emit (Bini64 FShr tcg_tmp tcg_rn 16);
     emit (Bini64 FAnd tcg_tmp tcg_tmp 0xffff);
     emit (Un64 FBswap16 tcg_tmp tcg_tmp);
     emit (Deposit64 tcg_rd tcg_rd tcg_tmp 16 16);
     (if sf then do {
        emit (Bini64 FShr tcg_tmp tcg_rn 32);
        emit (Bini64 FAnd tcg_tmp tcg_tmp 0xffff);
        emit (Un64 FBswap16 tcg_tmp tcg_tmp);
        emit (Deposit64 tcg_rd tcg_rd tcg_tmp 32 16);
        emit (Bini64 FShr tcg_tmp tcg_rn 48);
        emit (Un64 FBswap16 tcg_tmp tcg_tmp);
        emit (Deposit64 tcg_rd tcg_rd tcg_tmp 48 16) }
      else skip);
     emit (Free64 tcg_tmp) }"

definition disas_data_proc_1src :: "u32 \<Rightarrow> unit gen" where
  "disas_data_proc_1src insn =
     (if extract32 insn 29 1 \<noteq> 0 \<or> extract32 insn 16 5 \<noteq> 0 then unallocated_encoding
      else let sf = (extract32 insn 31 1 = 1);
               opcode = extract32 insn 10 6;
               rn = extract32 insn 5 5;
               rd = extract32 insn 0 5
           in if opcode = 0 then handle_rbit sf rn rd
              else if opcode = 1 then handle_rev16 sf rn rd
              else if opcode = 2 then handle_rev32 sf rn rd
              else if opcode = 3 then handle_rev64 sf rn rd
              else if opcode = 4 then handle_clz sf rn rd
              else if opcode = 5 then handle_cls sf rn rd
              else skip)"

section \<open>Two sources\<close>

definition handle_div :: "bool \<Rightarrow> bool \<Rightarrow> nat \<Rightarrow> nat \<Rightarrow> nat \<Rightarrow> unit gen" where
  "handle_div is_signed sf rm rn rd = do {
     tcg_rd \<leftarrow> cpu_reg rd;
     (tcg_n, tcg_m) \<leftarrow>
       (if \<not> sf \<and> is_signed then do {
          tcg_n \<leftarrow> new_tmp_a64;
          tcg_m \<leftarrow> new_tmp_a64;
          tcg_rn \<leftarrow> cpu_reg rn;
          emit (Un64 FExt32s tcg_n tcg_rn);
          tcg_rm \<leftarrow> cpu_reg rm;
          emit (Un64 FExt32s tcg_m tcg_rm);
          State_Monad.return (tcg_n, tcg_m) }
        else do {
          tcg_n \<leftarrow> read_cpu_reg rn sf;
          tcg_m \<leftarrow> read_cpu_reg rm sf;
          State_Monad.return (tcg_n, tcg_m) });
     (if is_signed then emit (Help2 HSdiv64 tcg_rd tcg_n tcg_m)
      else emit (Help2 HUdiv64 tcg_rd tcg_n tcg_m));
     if \<not> sf then tcg_gen_ext32u_i64 tcg_rd tcg_rd else skip }"

definition handle_shift_reg :: "a64_shift_type \<Rightarrow> bool \<Rightarrow> nat \<Rightarrow> nat \<Rightarrow> nat \<Rightarrow> unit gen" where
  "handle_shift_reg shift_type sf rm rn rd = do {
     tcg_shift \<leftarrow> tcg_temp_new_i64;
     tcg_rd \<leftarrow> cpu_reg rd;
     tcg_rn \<leftarrow> read_cpu_reg rn sf;
     tcg_rm \<leftarrow> cpu_reg rm;
     emit (Bini64 FAnd tcg_shift tcg_rm (if sf then 63 else 31));
     shift_reg tcg_rd tcg_rn sf shift_type tcg_shift;
     emit (Free64 tcg_shift) }"

definition handle_crc32 :: "bool \<Rightarrow> nat \<Rightarrow> bool \<Rightarrow> nat \<Rightarrow> nat \<Rightarrow> nat \<Rightarrow> unit gen" where
  "handle_crc32 sf sz crc32c rm rn rd = do {
     crc \<leftarrow> get_dc (\<lambda>s. dc_features s ARM_FEATURE_CRC);
     if \<not> crc \<or> (sf \<and> sz \<noteq> 3) \<or> (\<not> sf \<and> sz = 3) then unallocated_encoding
     else do {
       tcg_val \<leftarrow> (if sz = 3 then cpu_reg rm
                   else do {
                     let m = (if sz = 0 then 0xFF else if sz = 1 then 0xFFFF else 0xFFFFFFFF);
                     tcg_val \<leftarrow> new_tmp_a64;
                     tcg_rm \<leftarrow> cpu_reg rm;
                     emit (Bini64 FAnd tcg_val tcg_rm m);
                     State_Monad.return tcg_val });
       tcg_acc \<leftarrow> cpu_reg rn;
       tcg_bytes \<leftarrow> tcg_const_i32 (Num (2 ^ sz));
       tcg_rd \<leftarrow> cpu_reg rd;
       emit (HelpCrc (if crc32c then HCrc32c_64 else HCrc32_64) tcg_rd tcg_acc tcg_val tcg_bytes);
       emit (Free32 tcg_bytes) } }"

definition disas_data_proc_2src :: "u32 \<Rightarrow> unit gen" where
  "disas_data_proc_2src insn =
     (let sf = (extract32 insn 31 1 = 1);
          rm = extract32 insn 16 5;
          opcode = extract32 insn 10 6;
          rn = extract32 insn 5 5;
          rd = extract32 insn 0 5
      in if extract32 insn 29 1 \<noteq> 0 then unallocated_encoding
         else if opcode = 2 then handle_div False sf rm rn rd
         else if opcode = 3 then handle_div True sf rm rn rd
         else if opcode = 8 then handle_shift_reg A64_SHIFT_TYPE_LSL sf rm rn rd
         else if opcode = 9 then handle_shift_reg A64_SHIFT_TYPE_LSR sf rm rn rd
         else if opcode = 10 then handle_shift_reg A64_SHIFT_TYPE_ASR sf rm rn rd
         else if opcode = 11 then handle_shift_reg A64_SHIFT_TYPE_ROR sf rm rn rd
         else if 16 \<le> opcode \<and> opcode \<le> 23 then
           handle_crc32 sf (opcode mod 4) (bit opcode 2) rm rn rd
         else unallocated_encoding)"

definition disas_data_proc_reg :: "u32 \<Rightarrow> unit gen" where
  "disas_data_proc_reg insn =
     (let c = extract32 insn 24 5
      in if c = 0x0a then disas_logic_reg insn
         else if c = 0x0b then
           if bit insn 21 then disas_add_sub_ext_reg insn else disas_add_sub_reg insn
         else if c = 0x1b then disas_data_proc_3src insn
         else if c = 0x1a then
           let k = extract32 insn 21 3
           in if k = 0 then disas_adc_sbc insn
              else if k = 2 then disas_cc insn
              else if k = 4 then disas_cond_select insn
              else if k = 6 then
                if bit insn 30 then disas_data_proc_1src insn else disas_data_proc_2src insn
              else unallocated_encoding
         else unallocated_encoding)"

end
