(* ===== verification/A64Branch.thy ===== *)
theory A64Branch
  imports A64Gen
begin

text \<open>
  The branch, exception and system instructions of the A64 translator, with the calls of the
  printer helper the repository added to the direct branches (\<open>translate-a64.c\<close>).
\<close>

section \<open>Direct branches\<close>

text \<open>The sequence the instrumentation inserts: three constants, the call, the temporaries freed.\<close>

definition call_printer :: "u64 \<Rightarrow> u64 \<Rightarrow> u64 \<Rightarrow> unit gen" where
  "call_printer pc addr t_nt = do {
     tcg_pc \<leftarrow> tcg_const_i64 pc;
     tcg_addr \<leftarrow> tcg_const_i64 addr;
     tcg_t_nt \<leftarrow> tcg_const_i64 t_nt;
     emit (Printer tcg_pc tcg_addr tcg_t_nt);
     emit (Free64 tcg_pc);
     emit (Free64 tcg_addr);
     emit (Free64 tcg_t_nt) }"

definition branch_target :: "u64 \<Rightarrow> u32 \<Rightarrow> nat \<Rightarrow> nat \<Rightarrow> u64" where
  "branch_target pc insn start len = pc + word_of_int (sextract32 insn start len * 4) - 4"

definition disas_uncond_b_imm :: "u32 \<Rightarrow> unit gen" where
  "disas_uncond_b_imm insn = do {
     pc \<leftarrow> get_dc dc_pc;
     let addr = branch_target pc insn 0 26;
     (if bit insn 31 then do { lr \<leftarrow> cpu_reg 30; emit (Movi64 lr pc) } else skip);
     call_printer pc addr 1;
     gen_goto_tb 0 addr }"

definition disas_comp_b_imm :: "u32 \<Rightarrow> unit gen" where
  "disas_comp_b_imm insn = do {
     let sf = extract32 insn 31 1;
     let op = extract32 insn 24 1;
     let rt = extract32 insn 0 5;
     pc \<leftarrow> get_dc dc_pc;
     let addr = branch_target pc insn 5 19;
     tcg_cmp \<leftarrow> read_cpu_reg rt (sf = 1);
     label_match \<leftarrow> gen_new_label;
     emit (Brcondi64 (if op = 1 then TCG_COND_NE else TCG_COND_EQ) tcg_cmp 0 label_match);
     call_printer pc addr 0;
     gen_goto_tb 0 pc;
     emit (SetLabel label_match);
     call_printer pc addr 1;
     gen_goto_tb 1 addr }"

definition disas_test_b_imm :: "u32 \<Rightarrow> unit gen" where
  "disas_test_b_imm insn = do {
     let bit_pos = 32 * extract32 insn 31 1 + extract32 insn 19 5;
     let op = extract32 insn 24 1;
     pc \<leftarrow> get_dc dc_pc;
     let addr = branch_target pc insn 5 14;
     let rt = extract32 insn 0 5;
     tcg_cmp \<leftarrow> tcg_temp_new_i64;
     tcg_rt \<leftarrow> cpu_reg rt;
     emit (Bini64 FAnd tcg_cmp tcg_rt (2 ^ bit_pos));
     label_match \<leftarrow> gen_new_label;
     emit (Brcondi64 (if op = 1 then TCG_COND_NE else TCG_COND_EQ) tcg_cmp 0 label_match);
     emit (Free64 tcg_cmp);
     call_printer pc addr 0;
     gen_goto_tb 0 pc;
     emit (SetLabel label_match);
     call_printer pc addr 1;
     gen_goto_tb 1 addr }"

definition disas_cond_b_imm :: "u32 \<Rightarrow> unit gen" where
  "disas_cond_b_imm insn =
     (if bit insn 4 \<or> bit insn 24 then unallocated_encoding
      else do {
        pc \<leftarrow> get_dc dc_pc;
        let addr = branch_target pc insn 5 19;
        let cond = extract32 insn 0 4;
        if cond < 0x0e then do {
          label_match \<leftarrow> gen_new_label;
          emit (ArmGenTestCc cond label_match);
          call_printer pc addr 0;
          gen_goto_tb 0 pc;
          emit (SetLabel label_match);
          call_printer pc addr 1;
          gen_goto_tb 1 addr }
        else do {
          call_printer pc addr 1;
          gen_goto_tb 0 addr } })"

section \<open>System instructions\<close>

definition handle_hint :: "nat \<Rightarrow> nat \<Rightarrow> nat \<Rightarrow> unit gen" where
  "handle_hint op1 op2 crm =
     (let selector = 8 * crm + op2
      in if op1 \<noteq> 3 then unallocated_encoding
         else if selector = 0 then skip
         else if selector = 3 then set_is_jmp DISAS_WFI
         else if selector = 1 then set_is_jmp DISAS_YIELD
         else if selector = 2 then set_is_jmp DISAS_WFE
         else skip)"

definition gen_clrex :: "unit gen" where
  "gen_clrex = emit (Movi64 EXCL (-1))"

definition handle_sync :: "nat \<Rightarrow> nat \<Rightarrow> nat \<Rightarrow> unit gen" where
  "handle_sync op1 op2 crm =
     (if op1 \<noteq> 3 then unallocated_encoding
      else if op2 = 2 then gen_clrex
      else if op2 = 4 \<or> op2 = 5 then skip
      else if op2 = 6 then set_is_jmp DISAS_UPDATE
      else unallocated_encoding)"

definition handle_msr_i :: "nat \<Rightarrow> nat \<Rightarrow> nat \<Rightarrow> unit gen" where
  "handle_msr_i op1 op2 crm = do {
     let op = 8 * op1 + op2;
     el \<leftarrow> get_dc dc_current_el;
     if op = 0x05 \<and> el = 0 then unallocated_encoding
     else if op = 0x05 \<or> op = 0x1e \<or> op = 0x1f then do {
       tcg_imm \<leftarrow> tcg_const_i32 (Num (of_nat crm));
       tcg_op \<leftarrow> tcg_const_i32 (Num (of_nat op));
       pc \<leftarrow> get_dc dc_pc;
       gen_a64_set_pc_im (pc - 4);
       emit (Env (MsrIPstate tcg_op tcg_imm));
       emit (Free32 tcg_imm);
       emit (Free32 tcg_op);
       set_is_jmp DISAS_UPDATE }
     else unallocated_encoding }"

definition gen_get_nzcv :: "tv64 \<Rightarrow> unit gen" where
  "gen_get_nzcv tcg_rt = do {
     tmp \<leftarrow> tcg_temp_new_i32;
     nzcv \<leftarrow> tcg_temp_new_i32;
     emit (Bini32 FAnd nzcv NF (2 ^ 31));
     emit (Setcondi32 TCG_COND_EQ tmp ZF 0);
     emit (Deposit32 nzcv nzcv tmp 30 1);
     emit (Deposit32 nzcv nzcv CF 29 1);
     emit (Bini32 FShr tmp VF 31);
     emit (Deposit32 nzcv nzcv tmp 28 1);
     emit (Extu tcg_rt nzcv);
     emit (Free32 nzcv);
     emit (Free32 tmp) }"

definition gen_set_nzcv :: "tv64 \<Rightarrow> unit gen" where
  "gen_set_nzcv tcg_rt = do {
     nzcv \<leftarrow> tcg_temp_new_i32;
     emit (Extrl nzcv tcg_rt);
     emit (Bini32 FAnd NF nzcv (2 ^ 31));
     emit (Bini32 FAnd ZF nzcv (2 ^ 30));
     emit (Setcondi32 TCG_COND_EQ ZF ZF 0);
     emit (Bini32 FAnd CF nzcv (2 ^ 29));
     emit (Bini32 FShr CF CF 29);
     emit (Bini32 FAnd VF nzcv (2 ^ 28));
     emit (Bini32 FShl VF VF 3);
     emit (Free32 nzcv) }"

text \<open>The runtime access check of \<open>handle_sys\<close>.\<close>

definition sys_access_check :: "bool \<Rightarrow> nat \<Rightarrow> nat \<Rightarrow> nat \<Rightarrow> nat \<Rightarrow> nat \<Rightarrow> nat \<Rightarrow> unit gen" where
  "sys_access_check isread op0 op1 op2 crn crm rt = do {
     pc \<leftarrow> get_dc dc_pc;
     gen_a64_set_pc_im (pc - 4);
     tmpptr \<leftarrow> tcg_const_ptr;
     tcg_syn \<leftarrow> tcg_const_i32 (SynSysregtrap op0 op1 op2 crn crm rt isread);
     tcg_isread \<leftarrow> tcg_const_i32 (Num (of_bool isread));
     emit (Env (AccessCheckCpReg tmpptr tcg_syn tcg_isread));
     emit (FreePtr tmpptr);
     emit (Free32 tcg_syn);
     emit (Free32 tcg_isread) }"

definition sys_read :: "cp_reg \<Rightarrow> tv64 \<Rightarrow> unit gen" where
  "sys_read ri tcg_rt =
     (if ri_const ri then emit (Movi64 tcg_rt (ri_resetvalue ri))
      else if ri_readfn ri then do {
        tmpptr \<leftarrow> tcg_const_ptr;
        emit (GetCpReg tcg_rt tmpptr);
        emit (FreePtr tmpptr) }
      else emit (Ld64 tcg_rt (ri_fieldoffset ri)))"

definition sys_write :: "cp_reg \<Rightarrow> tv64 \<Rightarrow> unit gen" where
  "sys_write ri tcg_rt =
     (if ri_writefn ri then do {
        tmpptr \<leftarrow> tcg_const_ptr;
        emit (SetCpReg tmpptr tcg_rt);
        emit (FreePtr tmpptr) }
      else emit (St64 tcg_rt (ri_fieldoffset ri)))"

text \<open>The end of \<open>handle_sys\<close>: an access to a device or a write ends the translation block.\<close>

definition sys_end_tb :: "cp_reg \<Rightarrow> bool \<Rightarrow> unit gen" where
  "sys_end_tb ri isread = do {
     icount \<leftarrow> get_dc tb_use_icount;
     if icount \<and> ri_io ri then do { emit (Env IoEnd); set_is_jmp DISAS_UPDATE }
     else if \<not> isread \<and> \<not> ri_suppress_tb_end ri then set_is_jmp DISAS_UPDATE
     else skip }"

definition sys_regular :: "cp_reg \<Rightarrow> bool \<Rightarrow> nat \<Rightarrow> unit gen" where
  "sys_regular ri isread rt = do {
     icount \<leftarrow> get_dc tb_use_icount;
     (if icount \<and> ri_io ri then emit (Env IoStart) else skip);
     tcg_rt \<leftarrow> cpu_reg rt;
     if isread then do { sys_read ri tcg_rt; sys_end_tb ri isread }
     else if ri_const ri then skip
     else do { sys_write ri tcg_rt; sys_end_tb ri isread } }"

definition handle_sys :: "bool \<Rightarrow> nat \<Rightarrow> nat \<Rightarrow> nat \<Rightarrow> nat \<Rightarrow> nat \<Rightarrow> nat \<Rightarrow> unit gen" where
  "handle_sys isread op0 op1 op2 crn crm rt = do {
     s \<leftarrow> get_dc (\<lambda>s. s);
     case dc_cp_regs s (crn, crm, op0, op1, op2) of
       None \<Rightarrow> unallocated_encoding
     | Some ri \<Rightarrow>
         if \<not> ri_access_ok ri (dc_current_el s) isread then unallocated_encoding
         else do {
           (if ri_accessfn ri then sys_access_check isread op0 op1 op2 crn crm rt else skip);
           case ri_special ri of
             CP_NOP \<Rightarrow> skip
           | CP_NZCV \<Rightarrow> do {
               tcg_rt \<leftarrow> cpu_reg rt;
               if isread then gen_get_nzcv tcg_rt else gen_set_nzcv tcg_rt }
           | CP_CURRENTEL \<Rightarrow> do {
               tcg_rt \<leftarrow> cpu_reg rt;
               emit (Movi64 tcg_rt (of_nat (4 * dc_current_el s))) }
           | CP_DC_ZVA \<Rightarrow> do {
               tcg_rt \<leftarrow> cpu_reg rt;
               emit (Env (DcZva tcg_rt)) }
           | CP_REGULAR \<Rightarrow> sys_regular ri isread rt } }"

definition disas_system :: "u32 \<Rightarrow> unit gen" where
  "disas_system insn =
     (let l = extract32 insn 21 1;
          op0 = extract32 insn 19 2;
          op1 = extract32 insn 16 3;
          crn = extract32 insn 12 4;
          crm = extract32 insn 8 4;
          op2 = extract32 insn 5 3;
          rt = extract32 insn 0 5
      in if op0 = 0 then
           if l \<noteq> 0 \<or> rt \<noteq> 31 then unallocated_encoding
           else if crn = 2 then handle_hint op1 op2 crm
           else if crn = 3 then handle_sync op1 op2 crm
           else if crn = 4 then handle_msr_i op1 op2 crm
           else unallocated_encoding
         else handle_sys (l = 1) op0 op1 op2 crn crm rt)"

section \<open>Exceptions and indirect branches\<close>

definition exc_svc :: "nat \<Rightarrow> unit gen" where
  "exc_svc imm16 = do {
     gen_ss_advance;
     gen_exception_insn 0 EXCP_SWI (SynSvc imm16) DefaultExceptionEl }"

definition exc_hvc :: "nat \<Rightarrow> unit gen" where
  "exc_hvc imm16 = do {
     s \<leftarrow> get_dc (\<lambda>s. s);
     if dc_current_el s = 0 then unallocated_encoding
     else do {
       gen_a64_set_pc_im (dc_pc s - 4);
       emit (Env PreHvc);
       gen_ss_advance;
       gen_exception_insn 0 EXCP_HVC (SynHvc imm16) (Num 2) } }"

definition exc_smc :: "nat \<Rightarrow> unit gen" where
  "exc_smc imm16 = do {
     s \<leftarrow> get_dc (\<lambda>s. s);
     if dc_current_el s = 0 then unallocated_encoding
     else do {
       gen_a64_set_pc_im (dc_pc s - 4);
       tmp \<leftarrow> tcg_const_i32 (SynSmc imm16);
       emit (Env (PreSmc tmp));
       emit (Free32 tmp);
       gen_ss_advance;
       gen_exception_insn 0 EXCP_SMC (SynSmc imm16) (Num 3) } }"

definition exc_hlt :: "nat \<Rightarrow> unit gen" where
  "exc_hlt imm16 = do {
     s \<leftarrow> get_dc (\<lambda>s. s);
     if semihosting s \<and> imm16 = 0xf000 then
       if \<not> user_only s \<and> dc_current_el s = 0 then unsupported_encoding
       else gen_exception_internal_insn 0 EXCP_SEMIHOST
     else unsupported_encoding }"

definition disas_exc :: "u32 \<Rightarrow> unit gen" where
  "disas_exc insn =
     (let opc = extract32 insn 21 3;
          op2_ll = extract32 insn 0 5;
          imm16 = extract32 insn 5 16
      in if opc = 0 then
           if op2_ll = 1 then exc_svc imm16
           else if op2_ll = 2 then exc_hvc imm16
           else if op2_ll = 3 then exc_smc imm16
           else unallocated_encoding
         else if opc = 1 then
           if op2_ll \<noteq> 0 then unallocated_encoding
           else gen_exception_insn 4 EXCP_BKPT (SynBkpt imm16) DefaultExceptionEl
         else if opc = 2 then
           if op2_ll \<noteq> 0 then unallocated_encoding
           else exc_hlt imm16
         else if opc = 5 then
           if op2_ll < 1 \<or> op2_ll > 3 then unallocated_encoding
           else unsupported_encoding
         else unallocated_encoding)"

definition disas_uncond_b_reg :: "u32 \<Rightarrow> unit gen" where
  "disas_uncond_b_reg insn = do {
     let opc = extract32 insn 21 4;
     let op2 = extract32 insn 16 5;
     let op3 = extract32 insn 10 6;
     let rn = extract32 insn 5 5;
     let op4 = extract32 insn 0 5;
     s \<leftarrow> get_dc (\<lambda>s. s);
     if op4 \<noteq> 0 \<or> op3 \<noteq> 0 \<or> op2 \<noteq> 0x1f then unallocated_encoding
     else if opc = 0 \<or> opc = 2 then do {
       tcg_rn \<leftarrow> cpu_reg rn;
       tcg_gen_mov_i64 PC tcg_rn;
       set_is_jmp DISAS_JUMP }
     else if opc = 1 then do {
       tcg_rn \<leftarrow> cpu_reg rn;
       tcg_gen_mov_i64 PC tcg_rn;
       lr \<leftarrow> cpu_reg 30;
       emit (Movi64 lr (dc_pc s));
       set_is_jmp DISAS_JUMP }
     else if opc = 4 then
       if dc_current_el s = 0 then unallocated_encoding
       else do { emit (Env ExceptionReturn); set_is_jmp DISAS_JUMP }
     else if opc = 5 then
       if rn \<noteq> 0x1f then unallocated_encoding else unsupported_encoding
     else unallocated_encoding }"

definition disas_b_exc_sys :: "u32 \<Rightarrow> unit gen" where
  "disas_b_exc_sys insn =
     (let c = extract32 insn 25 7
      in if c \<in> {0x0a, 0x0b, 0x4a, 0x4b} then disas_uncond_b_imm insn
         else if c = 0x1a \<or> c = 0x5a then disas_comp_b_imm insn
         else if c = 0x1b \<or> c = 0x5b then disas_test_b_imm insn
         else if c = 0x2a then disas_cond_b_imm insn
         else if c = 0x6a then if bit insn 24 then disas_system insn else disas_exc insn
         else if c = 0x6b then disas_uncond_b_reg insn
         else unallocated_encoding)"

end
