(* ===== verification/A64Ldst.thy ===== *)
theory A64Ldst
  imports A64Gen
begin

text \<open>
  The loads and stores of the A64 translator, and the access to the SIMD and floating-point registers
  (\<open>translate-a64.c\<close>). The registers are the bytes of the array \<open>vfp.regs\<close>: an offset counts from its
  start. \<open>CONFIG_DEBUG_TCG\<close> is not set, so \<open>assert_fp_access_checked\<close> is empty. A \<open>TCGMemOp\<close> is the
  number TCG gives it: the size in the two low bits, \<open>MO_SIGN\<close> and \<open>MO_BSWAP\<close>.
\<close>

unbundle bit_operations_syntax

section \<open>Memory and registers\<close>

abbreviation MO_SIGN :: nat where "MO_SIGN \<equiv> 4"
abbreviation MO_64 :: nat where "MO_64 \<equiv> 3"

text \<open>\<open>MO_BE\<close> is \<open>MO_BSWAP\<close> on a little-endian host and 0 on a big-endian one.\<close>

definition MO_BE :: "disas_context \<Rightarrow> nat" where
  "MO_BE s = (if host_words_bigendian s then 0 else 8)"

definition get_mem_index :: "ARMMMUIdx gen" where
  "get_mem_index = get_dc dc_mmu_idx"

definition get_a64_user_mem_index :: "ARMMMUIdx gen" where
  "get_a64_user_mem_index = do {
     i \<leftarrow> get_dc dc_mmu_idx;
     case i of
       S12NSE1 \<Rightarrow> State_Monad.return S12NSE0
     | S1SE1 \<Rightarrow> State_Monad.return S1SE0
     | S2NS \<Rightarrow> do { assert_that False; State_Monad.return i }
     | _ \<Rightarrow> State_Monad.return i }"

definition vec_reg_offset :: "disas_context \<Rightarrow> nat \<Rightarrow> nat \<Rightarrow> nat \<Rightarrow> nat" where
  "vec_reg_offset s regno element sz =
     (if host_words_bigendian s then (16 * regno + (16 - (element + 1) * 2 ^ sz)) XOR 8
      else 16 * regno + element * 2 ^ sz)"

definition fp_reg_offset :: "disas_context \<Rightarrow> nat \<Rightarrow> nat \<Rightarrow> nat" where
  "fp_reg_offset s regno sz = 16 * regno + (if host_words_bigendian s then 8 - 2 ^ sz else 0)"

definition fp_reg_hi_offset :: "nat \<Rightarrow> nat" where
  "fp_reg_hi_offset regno = 8 * (regno * 2 + 1)"

definition read_fp_dreg :: "nat \<Rightarrow> tv64 gen" where
  "read_fp_dreg reg = do {
     v \<leftarrow> tcg_temp_new_i64;
     s \<leftarrow> get_dc (\<lambda>s. s);
     emit (LdEnv64 3 v (fp_reg_offset s reg 3));
     State_Monad.return v }"

definition read_fp_sreg :: "nat \<Rightarrow> tv32 gen" where
  "read_fp_sreg reg = do {
     v \<leftarrow> tcg_temp_new_i32;
     s \<leftarrow> get_dc (\<lambda>s. s);
     emit (LdEnv32 2 v (fp_reg_offset s reg 2));
     State_Monad.return v }"

definition write_fp_dreg :: "nat \<Rightarrow> tv64 \<Rightarrow> unit gen" where
  "write_fp_dreg reg v = do {
     tcg_zero \<leftarrow> tcg_const_i64 0;
     s \<leftarrow> get_dc (\<lambda>s. s);
     emit (StEnv64 3 v (fp_reg_offset s reg 3));
     emit (StEnv64 3 tcg_zero (fp_reg_hi_offset reg));
     emit (Free64 tcg_zero) }"

definition write_fp_sreg :: "nat \<Rightarrow> tv32 \<Rightarrow> unit gen" where
  "write_fp_sreg reg v = do {
     tmp \<leftarrow> tcg_temp_new_i64;
     emit (Extu tmp v);
     write_fp_dreg reg tmp;
     emit (Free64 tmp) }"

definition get_fpstatus_ptr :: "nat gen" where
  "get_fpstatus_ptr = do {
     p \<leftarrow> get_dc next_ptr;
     set_dc (\<lambda>s. s\<lparr>next_ptr := Suc p\<rparr>);
     emit (FpStatusPtr p);
     State_Monad.return p }"

text \<open>The syndrome is kept as the arguments it is computed from.\<close>

definition disas_set_insn_syndrome :: "data_abort_iss \<Rightarrow> unit gen" where
  "disas_set_insn_syndrome syn = do {
     idx \<leftarrow> get_dc dc_insn_start_idx;
     assert_that (idx \<noteq> 0);
     emit (SetInsnParam idx 2 syn);
     set_dc (\<lambda>s. s\<lparr>dc_insn_start_idx := 0\<rparr>) }"

definition do_gpr_st_memidx :: "tv64 \<Rightarrow> tv64 \<Rightarrow> nat \<Rightarrow> ARMMMUIdx \<Rightarrow> bool \<Rightarrow> nat \<Rightarrow> bool \<Rightarrow> bool \<Rightarrow> unit gen" where
  "do_gpr_st_memidx source tcg_addr sz memidx iss_valid iss_srt iss_sf iss_ar = do {
     assert_that (sz \<le> 3);
     be_data \<leftarrow> get_dc dc_be_data;
     emit (QemuSt64 source tcg_addr memidx (be_data + sz));
     if iss_valid then disas_set_insn_syndrome (SynDataAbort sz False iss_srt iss_sf iss_ar) else skip }"

definition do_gpr_st :: "tv64 \<Rightarrow> tv64 \<Rightarrow> nat \<Rightarrow> bool \<Rightarrow> nat \<Rightarrow> bool \<Rightarrow> bool \<Rightarrow> unit gen" where
  "do_gpr_st source tcg_addr sz iss_valid iss_srt iss_sf iss_ar = do {
     memidx \<leftarrow> get_mem_index;
     do_gpr_st_memidx source tcg_addr sz memidx iss_valid iss_srt iss_sf iss_ar }"

definition do_gpr_ld_memidx ::
    "tv64 \<Rightarrow> tv64 \<Rightarrow> nat \<Rightarrow> bool \<Rightarrow> bool \<Rightarrow> ARMMMUIdx \<Rightarrow> bool \<Rightarrow> nat \<Rightarrow> bool \<Rightarrow> bool \<Rightarrow> unit gen" where
  "do_gpr_ld_memidx dest tcg_addr sz is_signed ext memidx iss_valid iss_srt iss_sf iss_ar = do {
     be_data \<leftarrow> get_dc dc_be_data;
     assert_that (sz \<le> 3);
     let memop = be_data + sz + (if is_signed then MO_SIGN else 0);
     emit (QemuLd64 dest tcg_addr memidx memop);
     (if ext \<and> is_signed then do {
        assert_that (sz < 3);
        tcg_gen_ext32u_i64 dest dest }
      else skip);
     if iss_valid then disas_set_insn_syndrome (SynDataAbort sz is_signed iss_srt iss_sf iss_ar) else skip }"

definition do_gpr_ld :: "tv64 \<Rightarrow> tv64 \<Rightarrow> nat \<Rightarrow> bool \<Rightarrow> bool \<Rightarrow> bool \<Rightarrow> nat \<Rightarrow> bool \<Rightarrow> bool \<Rightarrow> unit gen" where
  "do_gpr_ld dest tcg_addr sz is_signed ext iss_valid iss_srt iss_sf iss_ar = do {
     memidx \<leftarrow> get_mem_index;
     do_gpr_ld_memidx dest tcg_addr sz is_signed ext memidx iss_valid iss_srt iss_sf iss_ar }"

definition do_fp_st :: "nat \<Rightarrow> tv64 \<Rightarrow> nat \<Rightarrow> unit gen" where
  "do_fp_st srcidx tcg_addr sz = do {
     tmp \<leftarrow> tcg_temp_new_i64;
     s \<leftarrow> get_dc (\<lambda>s. s);
     emit (LdEnv64 3 tmp (fp_reg_offset s srcidx MO_64));
     memidx \<leftarrow> get_mem_index;
     (if sz < 4 then emit (QemuSt64 tmp tcg_addr memidx (dc_be_data s + sz))
      else do {
        let be = (dc_be_data s = MO_BE s);
        tcg_hiaddr \<leftarrow> tcg_temp_new_i64;
        emit (Bini64 FAdd tcg_hiaddr tcg_addr 8);
        emit (QemuSt64 tmp (if be then tcg_hiaddr else tcg_addr) memidx (dc_be_data s OR MO_64));
        emit (LdEnv64 3 tmp (fp_reg_hi_offset srcidx));
        emit (QemuSt64 tmp (if be then tcg_addr else tcg_hiaddr) memidx (dc_be_data s OR MO_64));
        emit (Free64 tcg_hiaddr) });
     emit (Free64 tmp) }"

definition do_fp_ld :: "nat \<Rightarrow> tv64 \<Rightarrow> nat \<Rightarrow> unit gen" where
  "do_fp_ld destidx tcg_addr sz = do {
     tmplo \<leftarrow> tcg_temp_new_i64;
     s \<leftarrow> get_dc (\<lambda>s. s);
     memidx \<leftarrow> get_mem_index;
     tmphi \<leftarrow> (if sz < 4 then do {
                 tmphi \<leftarrow> tcg_const_i64 0;
                 emit (QemuLd64 tmplo tcg_addr memidx (dc_be_data s + sz));
                 State_Monad.return tmphi }
               else do {
                 let be = (dc_be_data s = MO_BE s);
                 tmphi \<leftarrow> tcg_temp_new_i64;
                 tcg_hiaddr \<leftarrow> tcg_temp_new_i64;
                 emit (Bini64 FAdd tcg_hiaddr tcg_addr 8);
                 emit (QemuLd64 tmplo (if be then tcg_hiaddr else tcg_addr) memidx (dc_be_data s OR MO_64));
                 emit (QemuLd64 tmphi (if be then tcg_addr else tcg_hiaddr) memidx (dc_be_data s OR MO_64));
                 emit (Free64 tcg_hiaddr);
                 State_Monad.return tmphi });
     emit (StEnv64 3 tmplo (fp_reg_offset s destidx MO_64));
     emit (StEnv64 3 tmphi (fp_reg_hi_offset destidx));
     emit (Free64 tmplo);
     emit (Free64 tmphi) }"

section \<open>Elements of vectors\<close>

definition read_vec_element :: "tv64 \<Rightarrow> nat \<Rightarrow> nat \<Rightarrow> nat \<Rightarrow> unit gen" where
  "read_vec_element tcg_dest srcidx element memop = do {
     s \<leftarrow> get_dc (\<lambda>s. s);
     let vect_off = vec_reg_offset s srcidx element (memop mod 4);
     if memop \<in> {0, 1, 2, 0 + MO_SIGN, 1 + MO_SIGN, 2 + MO_SIGN} then emit (LdEnv64 memop tcg_dest vect_off)
     else if memop \<in> {3, 3 + MO_SIGN} then emit (LdEnv64 3 tcg_dest vect_off)
     else assert_that False }"

definition read_vec_element_i32 :: "tv32 \<Rightarrow> nat \<Rightarrow> nat \<Rightarrow> nat \<Rightarrow> unit gen" where
  "read_vec_element_i32 tcg_dest srcidx element memop = do {
     s \<leftarrow> get_dc (\<lambda>s. s);
     let vect_off = vec_reg_offset s srcidx element (memop mod 4);
     if memop \<in> {0, 1, 0 + MO_SIGN, 1 + MO_SIGN} then emit (LdEnv32 memop tcg_dest vect_off)
     else if memop \<in> {2, 2 + MO_SIGN} then emit (LdEnv32 2 tcg_dest vect_off)
     else assert_that False }"

definition write_vec_element :: "tv64 \<Rightarrow> nat \<Rightarrow> nat \<Rightarrow> nat \<Rightarrow> unit gen" where
  "write_vec_element tcg_src destidx element memop = do {
     s \<leftarrow> get_dc (\<lambda>s. s);
     let vect_off = vec_reg_offset s destidx element (memop mod 4);
     if memop \<in> {0, 1, 2, 3} then emit (StEnv64 memop tcg_src vect_off) else assert_that False }"

definition write_vec_element_i32 :: "tv32 \<Rightarrow> nat \<Rightarrow> nat \<Rightarrow> nat \<Rightarrow> unit gen" where
  "write_vec_element_i32 tcg_src destidx element memop = do {
     s \<leftarrow> get_dc (\<lambda>s. s);
     let vect_off = vec_reg_offset s destidx element (memop mod 4);
     if memop \<in> {0, 1, 2} then emit (StEnv32 memop tcg_src vect_off) else assert_that False }"

definition clear_vec_high :: "nat \<Rightarrow> unit gen" where
  "clear_vec_high rd = do {
     tcg_zero \<leftarrow> tcg_const_i64 0;
     write_vec_element tcg_zero rd 1 MO_64;
     emit (Free64 tcg_zero) }"

definition do_vec_st :: "nat \<Rightarrow> nat \<Rightarrow> tv64 \<Rightarrow> nat \<Rightarrow> unit gen" where
  "do_vec_st srcidx element tcg_addr sz = do {
     be_data \<leftarrow> get_dc dc_be_data;
     let memop = be_data + sz;
     tcg_tmp \<leftarrow> tcg_temp_new_i64;
     read_vec_element tcg_tmp srcidx element sz;
     memidx \<leftarrow> get_mem_index;
     emit (QemuSt64 tcg_tmp tcg_addr memidx memop);
     emit (Free64 tcg_tmp) }"

definition do_vec_ld :: "nat \<Rightarrow> nat \<Rightarrow> tv64 \<Rightarrow> nat \<Rightarrow> unit gen" where
  "do_vec_ld destidx element tcg_addr sz = do {
     be_data \<leftarrow> get_dc dc_be_data;
     let memop = be_data + sz;
     tcg_tmp \<leftarrow> tcg_temp_new_i64;
     memidx \<leftarrow> get_mem_index;
     emit (QemuLd64 tcg_tmp tcg_addr memidx memop);
     write_vec_element tcg_tmp destidx element sz;
     emit (Free64 tcg_tmp) }"

definition fp_access_check :: "bool gen" where
  "fp_access_check = do {
     checked \<leftarrow> get_dc dc_fp_access_checked;
     assert_that (\<not> checked);
     set_dc (\<lambda>s. s\<lparr>dc_fp_access_checked := True\<rparr>);
     el \<leftarrow> get_dc dc_fp_excp_el;
     if el = 0 then State_Monad.return True
     else do {
       gen_exception_insn 4 EXCP_UDEF (SynFpAccessTrap 1 0xe False) (ExceptionEl el);
       State_Monad.return False } }"

definition gen_check_sp_alignment :: "unit gen" where
  "gen_check_sp_alignment = skip"

section \<open>Exclusive accesses\<close>

definition gen_load_exclusive :: "nat \<Rightarrow> nat \<Rightarrow> tv64 \<Rightarrow> nat \<Rightarrow> bool \<Rightarrow> unit gen" where
  "gen_load_exclusive rt rt2 addr sz is_pair = do {
     tmp \<leftarrow> tcg_temp_new_i64;
     be_data \<leftarrow> get_dc dc_be_data;
     let memop = be_data + sz;
     assert_that (sz \<le> 3);
     memidx \<leftarrow> get_mem_index;
     emit (QemuLd64 tmp addr memidx memop);
     (if is_pair then do {
        addr2 \<leftarrow> tcg_temp_new_i64;
        hitmp \<leftarrow> tcg_temp_new_i64;
        assert_that (2 \<le> sz);
        emit (Bini64 FAdd addr2 addr (2 ^ sz));
        emit (QemuLd64 hitmp addr2 memidx memop);
        emit (Free64 addr2);
        tcg_gen_mov_i64 EXCL_HIGH hitmp;
        tcg_rt2 \<leftarrow> cpu_reg rt2;
        tcg_gen_mov_i64 tcg_rt2 hitmp;
        emit (Free64 hitmp) }
      else skip);
     tcg_gen_mov_i64 EXCL_VAL tmp;
     tcg_rt \<leftarrow> cpu_reg rt;
     tcg_gen_mov_i64 tcg_rt tmp;
     emit (Free64 tmp);
     tcg_gen_mov_i64 EXCL addr }"

text \<open>The two versions of \<open>gen_store_exclusive\<close>: with \<open>CONFIG_USER_ONLY\<close> and without. A local temporary
  is a temporary that survives labels.\<close>

definition gen_store_exclusive_user :: "nat \<Rightarrow> nat \<Rightarrow> nat \<Rightarrow> tv64 \<Rightarrow> nat \<Rightarrow> nat \<Rightarrow> unit gen" where
  "gen_store_exclusive_user rd rt rt2 addr sz is_pair = do {
     tcg_gen_mov_i64 EXCL_TEST addr;
     emit (Movi32 EXCL_INFO (Num (of_nat sz OR push_bit 2 (of_nat is_pair) OR push_bit 4 (of_nat rd) OR
       push_bit 9 (of_nat rt) OR push_bit 14 (of_nat rt2))));
     gen_exception_internal_insn 4 EXCP_STREX }"

definition gen_store_exclusive_system :: "nat \<Rightarrow> nat \<Rightarrow> nat \<Rightarrow> tv64 \<Rightarrow> nat \<Rightarrow> bool \<Rightarrow> unit gen" where
  "gen_store_exclusive_system rd rt rt2 inaddr sz is_pair = do {
     fail_label \<leftarrow> gen_new_label;
     done_label \<leftarrow> gen_new_label;
     addr \<leftarrow> tcg_temp_new_i64;
     tcg_gen_mov_i64 addr inaddr;
     emit (Brcond64 TCG_COND_NE addr EXCL fail_label);
     tmp \<leftarrow> tcg_temp_new_i64;
     be_data \<leftarrow> get_dc dc_be_data;
     memidx \<leftarrow> get_mem_index;
     emit (QemuLd64 tmp addr memidx (be_data + sz));
     emit (Brcond64 TCG_COND_NE tmp EXCL_VAL fail_label);
     emit (Free64 tmp);
     (if is_pair then do {
        addrhi \<leftarrow> tcg_temp_new_i64;
        tmphi \<leftarrow> tcg_temp_new_i64;
        emit (Bini64 FAdd addrhi addr (2 ^ sz));
        emit (QemuLd64 tmphi addrhi memidx (be_data + sz));
        emit (Brcond64 TCG_COND_NE tmphi EXCL_HIGH fail_label);
        emit (Free64 tmphi);
        emit (Free64 addrhi) }
      else skip);
     tcg_rt \<leftarrow> cpu_reg rt;
     emit (QemuSt64 tcg_rt addr memidx (be_data + sz));
     (if is_pair then do {
        addrhi \<leftarrow> tcg_temp_new_i64;
        emit (Bini64 FAdd addrhi addr (2 ^ sz));
        tcg_rt2 \<leftarrow> cpu_reg rt2;
        emit (QemuSt64 tcg_rt2 addrhi memidx (be_data + sz));
        emit (Free64 addrhi) }
      else skip);
     emit (Free64 addr);
     tcg_rd \<leftarrow> cpu_reg rd;
     emit (Movi64 tcg_rd 0);
     emit (Br done_label);
     emit (SetLabel fail_label);
     tcg_rd' \<leftarrow> cpu_reg rd;
     emit (Movi64 tcg_rd' 1);
     emit (SetLabel done_label);
     emit (Movi64 EXCL (-1)) }"

definition disas_ldst_compute_iss_sf :: "nat \<Rightarrow> bool \<Rightarrow> nat \<Rightarrow> bool" where
  "disas_ldst_compute_iss_sf sz is_signed opc =
     (let regsize = (if is_signed then (if odd opc then 32 else 64) else if sz = 3 then 64 else 32)
      in regsize = (64 :: nat))"

definition disas_ldst_excl :: "u32 \<Rightarrow> unit gen" where
  "disas_ldst_excl insn = do {
     let rt = extract32 insn 0 5;
     let rn = extract32 insn 5 5;
     let rt2 = extract32 insn 10 5;
     let is_lasr = (extract32 insn 15 1 = 1);
     let rs = extract32 insn 16 5;
     let is_pair = (extract32 insn 21 1 = 1);
     let is_store = (extract32 insn 22 1 = 0);
     let is_excl = (extract32 insn 23 1 = 0);
     let sz = extract32 insn 30 2;
     if (\<not> is_excl \<and> \<not> is_pair \<and> \<not> is_lasr) \<or> (\<not> is_excl \<and> is_pair) \<or> (is_pair \<and> sz < 2) then unallocated_encoding
     else do {
       (if rn = 31 then gen_check_sp_alignment else skip);
       tcg_addr \<leftarrow> read_cpu_reg_sp rn True;
       if is_excl then
         if \<not> is_store then do {
           set_dc (\<lambda>s. s\<lparr>dc_is_ldex := True\<rparr>);
           gen_load_exclusive rt rt2 tcg_addr sz is_pair }
         else do {
           user \<leftarrow> get_dc user_only;
           if user then gen_store_exclusive_user rs rt rt2 tcg_addr sz (extract32 insn 21 1)
           else gen_store_exclusive_system rs rt rt2 tcg_addr sz is_pair }
       else do {
         tcg_rt \<leftarrow> cpu_reg rt;
         let iss_sf = disas_ldst_compute_iss_sf sz False 0;
         if is_store then do_gpr_st tcg_rt tcg_addr sz True rt iss_sf is_lasr
         else do_gpr_ld tcg_rt tcg_addr sz False False True rt iss_sf is_lasr } } }"

section \<open>Literals and pairs\<close>

text \<open>The width in the syndrome is the number 32 or 64 made a truth value.\<close>

definition disas_ld_lit :: "u32 \<Rightarrow> unit gen" where
  "disas_ld_lit insn = do {
     let rt = extract32 insn 0 5;
     let imm = (word_of_int (sextract32 insn 5 19 * 4) :: u64);
     let is_vector = (extract32 insn 26 1 = 1);
     let opc = extract32 insn 30 2;
     if opc = 3 then if is_vector then unallocated_encoding else skip
     else do {
       ok \<leftarrow> (if is_vector then fp_access_check else State_Monad.return True);
       if \<not> ok then skip
       else do {
         let sz = (if is_vector then 2 + opc else 2 + (if odd opc then 1 else 0));
         let is_signed = (\<not> is_vector \<and> bit opc 1);
         tcg_rt \<leftarrow> cpu_reg rt;
         pc \<leftarrow> get_dc dc_pc;
         tcg_addr \<leftarrow> tcg_const_i64 (pc - 4 + imm);
         (if is_vector then do_fp_ld rt tcg_addr sz
          else do {
            let iss_sf = ((if opc = 0 then 32 else 64) \<noteq> (0 :: nat));
            do_gpr_ld tcg_rt tcg_addr sz is_signed False True rt iss_sf False });
         emit (Free64 tcg_addr) } } }"

definition ldst_pair_one :: "bool \<Rightarrow> bool \<Rightarrow> nat \<Rightarrow> tv64 \<Rightarrow> nat \<Rightarrow> bool \<Rightarrow> unit gen" where
  "ldst_pair_one is_vector is_load rt tcg_addr sz is_signed =
     (if is_vector then
        if is_load then do_fp_ld rt tcg_addr sz else do_fp_st rt tcg_addr sz
      else do {
        tcg_rt \<leftarrow> cpu_reg rt;
        if is_load then do_gpr_ld tcg_rt tcg_addr sz is_signed False False 0 False False
        else do_gpr_st tcg_rt tcg_addr sz False 0 False False })"

definition disas_ldst_pair :: "u32 \<Rightarrow> unit gen" where
  "disas_ldst_pair insn = do {
     let rt = extract32 insn 0 5;
     let rn = extract32 insn 5 5;
     let rt2 = extract32 insn 10 5;
     let index = extract32 insn 23 2;
     let is_vector = (extract32 insn 26 1 = 1);
     let is_load = (extract32 insn 22 1 = 1);
     let opc = extract32 insn 30 2;
     let sz = (if is_vector then 2 + opc else 2 + (if bit opc 1 then 1 else 0));
     let is_signed = (\<not> is_vector \<and> odd opc);
     let offset = push_bit sz (word_of_int (sextract32 insn 15 7) :: u64);
     let postindex = (index = 1);
     let wback = (index = 1 \<or> index = 3);
     if opc = 3 then unallocated_encoding
     else if \<not> is_vector \<and> \<not> is_load \<and> is_signed then unallocated_encoding
     else if index = 0 \<and> is_signed then unallocated_encoding
     else do {
       ok \<leftarrow> (if is_vector then fp_access_check else State_Monad.return True);
       if \<not> ok then skip
       else do {
         (if rn = 31 then gen_check_sp_alignment else skip);
         tcg_addr \<leftarrow> read_cpu_reg_sp rn True;
         (if \<not> postindex then emit (Bini64 FAdd tcg_addr tcg_addr offset) else skip);
         ldst_pair_one is_vector is_load rt tcg_addr sz is_signed;
         emit (Bini64 FAdd tcg_addr tcg_addr (2 ^ sz));
         ldst_pair_one is_vector is_load rt2 tcg_addr sz is_signed;
         if wback then do {
           (if postindex then emit (Bini64 FAdd tcg_addr tcg_addr (offset - 2 ^ sz))
            else emit (Bini64 FSub tcg_addr tcg_addr (2 ^ sz)));
           tcg_rn \<leftarrow> cpu_reg_sp rn;
           tcg_gen_mov_i64 tcg_rn tcg_addr }
         else skip } } }"

section \<open>One register\<close>

text \<open>\<open>sz |= (opc & 2) << 1\<close>, for a size below 4.\<close>

definition vector_size :: "nat \<Rightarrow> nat \<Rightarrow> nat" where
  "vector_size sz opc = sz + (if bit opc 1 then 4 else 0)"

definition disas_ldst_reg_imm9 :: "u32 \<Rightarrow> nat \<Rightarrow> nat \<Rightarrow> nat \<Rightarrow> bool \<Rightarrow> unit gen" where
  "disas_ldst_reg_imm9 insn opc sz0 rt is_vector = do {
     let rn = extract32 insn 5 5;
     let imm9 = (word_of_int (sextract32 insn 12 9) :: u64);
     let idx = extract32 insn 10 2;
     let is_unpriv = (idx = 2);
     let sz = (if is_vector then vector_size sz0 opc else sz0);
     let post_index = (idx = 1);
     let writeback = (idx = 1 \<or> idx = 3);
     if is_vector \<and> (sz > 4 \<or> is_unpriv) then unallocated_encoding
     else if \<not> is_vector \<and> sz = 3 \<and> opc = 2 then
       if is_unpriv then unallocated_encoding else skip
     else if \<not> is_vector \<and> opc = 3 \<and> sz > 1 then unallocated_encoding
     else do {
       ok \<leftarrow> (if is_vector then fp_access_check else State_Monad.return True);
       if \<not> ok then skip
       else do {
         let is_store = (if is_vector then even opc else opc = 0);
         let is_signed = (\<not> is_vector \<and> bit opc 1);
         let is_extended = (\<not> is_vector \<and> sz < 3 \<and> odd opc);
         (if rn = 31 then gen_check_sp_alignment else skip);
         tcg_addr \<leftarrow> read_cpu_reg_sp rn True;
         (if \<not> post_index then emit (Bini64 FAdd tcg_addr tcg_addr imm9) else skip);
         (if is_vector then
            if is_store then do_fp_st rt tcg_addr sz else do_fp_ld rt tcg_addr sz
          else do {
            tcg_rt \<leftarrow> cpu_reg rt;
            memidx \<leftarrow> (if is_unpriv then get_a64_user_mem_index else get_mem_index);
            let iss_sf = disas_ldst_compute_iss_sf sz is_signed opc;
            if is_store then do_gpr_st_memidx tcg_rt tcg_addr sz memidx True rt iss_sf False
            else do_gpr_ld_memidx tcg_rt tcg_addr sz is_signed is_extended memidx True rt iss_sf False });
         if writeback then do {
           tcg_rn \<leftarrow> cpu_reg_sp rn;
           (if post_index then emit (Bini64 FAdd tcg_addr tcg_addr imm9) else skip);
           tcg_gen_mov_i64 tcg_rn tcg_addr }
         else skip } } }"

text \<open>The transfer the next two share.\<close>

definition ldst_reg_transfer :: "bool \<Rightarrow> nat \<Rightarrow> nat \<Rightarrow> nat \<Rightarrow> tv64 \<Rightarrow> unit gen" where
  "ldst_reg_transfer is_vector opc sz rt tcg_addr = do {
     let is_store = (if is_vector then even opc else opc = 0);
     let is_signed = (\<not> is_vector \<and> bit opc 1);
     let is_extended = (\<not> is_vector \<and> sz < 3 \<and> odd opc);
     if is_vector then
       if is_store then do_fp_st rt tcg_addr sz else do_fp_ld rt tcg_addr sz
     else do {
       tcg_rt \<leftarrow> cpu_reg rt;
       let iss_sf = disas_ldst_compute_iss_sf sz is_signed opc;
       if is_store then do_gpr_st tcg_rt tcg_addr sz True rt iss_sf False
       else do_gpr_ld tcg_rt tcg_addr sz is_signed is_extended True rt iss_sf False } }"

definition disas_ldst_reg_roffset :: "u32 \<Rightarrow> nat \<Rightarrow> nat \<Rightarrow> nat \<Rightarrow> bool \<Rightarrow> unit gen" where
  "disas_ldst_reg_roffset insn opc sz0 rt is_vector = do {
     let rn = extract32 insn 5 5;
     let shift = extract32 insn 12 1;
     let rm = extract32 insn 16 5;
     let opt = extract32 insn 13 3;
     let sz = (if is_vector then vector_size sz0 opc else sz0);
     if \<not> bit opt 1 then unallocated_encoding
     else if is_vector \<and> sz > 4 then unallocated_encoding
     else if \<not> is_vector \<and> sz = 3 \<and> opc = 2 then skip
     else if \<not> is_vector \<and> opc = 3 \<and> sz > 1 then unallocated_encoding
     else do {
       ok \<leftarrow> (if is_vector then fp_access_check else State_Monad.return True);
       if \<not> ok then skip
       else do {
         (if rn = 31 then gen_check_sp_alignment else skip);
         tcg_addr \<leftarrow> read_cpu_reg_sp rn True;
         tcg_rm \<leftarrow> read_cpu_reg rm True;
         ext_and_shift_reg tcg_rm tcg_rm opt (if shift = 1 then sz else 0);
         emit (Bin64 FAdd tcg_addr tcg_addr tcg_rm);
         ldst_reg_transfer is_vector opc sz rt tcg_addr } } }"

definition disas_ldst_reg_unsigned_imm :: "u32 \<Rightarrow> nat \<Rightarrow> nat \<Rightarrow> nat \<Rightarrow> bool \<Rightarrow> unit gen" where
  "disas_ldst_reg_unsigned_imm insn opc sz0 rt is_vector = do {
     let rn = extract32 insn 5 5;
     let imm12 = extract32 insn 10 12;
     let sz = (if is_vector then vector_size sz0 opc else sz0);
     if is_vector \<and> sz > 4 then unallocated_encoding
     else if \<not> is_vector \<and> sz = 3 \<and> opc = 2 then skip
     else if \<not> is_vector \<and> opc = 3 \<and> sz > 1 then unallocated_encoding
     else do {
       ok \<leftarrow> (if is_vector then fp_access_check else State_Monad.return True);
       if \<not> ok then skip
       else do {
         (if rn = 31 then gen_check_sp_alignment else skip);
         tcg_addr \<leftarrow> read_cpu_reg_sp rn True;
         let offset = imm12 * 2 ^ sz;
         emit (Bini64 FAdd tcg_addr tcg_addr (of_nat offset));
         ldst_reg_transfer is_vector opc sz rt tcg_addr } } }"

definition disas_ldst_reg :: "u32 \<Rightarrow> unit gen" where
  "disas_ldst_reg insn = do {
     let rt = extract32 insn 0 5;
     let opc = extract32 insn 22 2;
     let is_vector = (extract32 insn 26 1 = 1);
     let sz = extract32 insn 30 2;
     if extract32 insn 24 2 = 0 then
       if extract32 insn 21 1 = 1 \<and> extract32 insn 10 2 = 2 then disas_ldst_reg_roffset insn opc sz rt is_vector
       else disas_ldst_reg_imm9 insn opc sz rt is_vector
     else if extract32 insn 24 2 = 1 then disas_ldst_reg_unsigned_imm insn opc sz rt is_vector
     else unallocated_encoding }"

section \<open>Structures of elements\<close>

primrec for_gen :: "nat \<Rightarrow> (nat \<Rightarrow> unit gen) \<Rightarrow> unit gen" where
  "for_gen 0 f = skip"
| "for_gen (Suc n) f = do { for_gen n f; f n }"

definition struct_layout :: "nat \<Rightarrow> (nat \<times> nat) option" where
  "struct_layout opcode =
     (if opcode = 0x0 then Some (1, 4) else if opcode = 0x2 then Some (4, 1)
      else if opcode = 0x4 then Some (1, 3) else if opcode = 0x6 then Some (3, 1)
      else if opcode = 0x7 then Some (1, 1) else if opcode = 0x8 then Some (1, 2)
      else if opcode = 0xa then Some (2, 1) else None)"

definition struct_writeback :: "u32 \<Rightarrow> tv64 \<Rightarrow> tv64 \<Rightarrow> unit gen" where
  "struct_writeback insn tcg_rn tcg_addr = do {
     (if extract32 insn 23 1 = 1 then do {
        let rm = extract32 insn 16 5;
        if rm = 31 then tcg_gen_mov_i64 tcg_rn tcg_addr
        else do {
          tcg_rm \<leftarrow> cpu_reg rm;
          emit (Bin64 FAdd tcg_rn tcg_rn tcg_rm) } }
      else skip);
     emit (Free64 tcg_addr) }"

definition disas_ldst_multiple_struct :: "u32 \<Rightarrow> unit gen" where
  "disas_ldst_multiple_struct insn = do {
     let rt = extract32 insn 0 5;
     let rn = extract32 insn 5 5;
     let sz = extract32 insn 10 2;
     let opcode = extract32 insn 12 4;
     let is_store = (extract32 insn 22 1 = 0);
     let is_q = (extract32 insn 30 1 = 1);
     let ebytes = 2 ^ sz;
     let elements = (if is_q then 128 else 64) div (8 * 2 ^ sz);
     if extract32 insn 31 1 = 1 \<or> extract32 insn 21 1 = 1 then unallocated_encoding
     else case struct_layout opcode of
       None \<Rightarrow> unallocated_encoding
     | Some (rpt, selem) \<Rightarrow>
         if sz = 3 \<and> \<not> is_q \<and> selem \<noteq> 1 then unallocated_encoding
         else do {
           ok \<leftarrow> fp_access_check;
           if \<not> ok then skip
           else do {
             (if rn = 31 then gen_check_sp_alignment else skip);
             tcg_rn \<leftarrow> cpu_reg_sp rn;
             tcg_addr \<leftarrow> tcg_temp_new_i64;
             tcg_gen_mov_i64 tcg_addr tcg_rn;
             for_gen rpt (\<lambda>r. for_gen elements (\<lambda>e. for_gen selem (\<lambda>xs. do {
               let tt = (rt + r + xs) mod 32;
               (if is_store then do_vec_st tt e tcg_addr sz
                else do {
                  do_vec_ld tt e tcg_addr sz;
                  if \<not> is_q \<and> e = 0 \<and> (r = 0 \<or> xs = selem - 1) then clear_vec_high tt else skip });
               emit (Bini64 FAdd tcg_addr tcg_addr ebytes) })));
             struct_writeback insn tcg_rn tcg_addr } } }"

text \<open>The scale, whether the element is replicated, and its index; nothing for a reserved encoding.\<close>

definition single_struct_layout :: "nat \<Rightarrow> nat \<Rightarrow> nat \<Rightarrow> nat \<Rightarrow> bool \<Rightarrow> (nat \<times> bool \<times> nat) option" where
  "single_struct_layout scale sz S is_q is_load =
     (let index = 8 * is_q + 4 * S + sz
      in if scale = 3 then if \<not> is_load \<or> S = 1 then None else Some (sz, True, index)
         else if scale = 0 then Some (0, False, index)
         else if scale = 1 then if odd sz then None else Some (1, False, index div 2)
         else if bit sz 1 then None
         else if even sz then Some (2, False, index div 4)
         else if S = 1 then None
         else Some (3, False, index div 8))"

definition replicate_const :: "nat \<Rightarrow> u64" where
  "replicate_const scale =
     (if scale = 0 then 0x0101010101010101 else if scale = 1 then 0x0001000100010001
      else if scale = 2 then 0x0000000100000001 else 0)"

definition replicate_element :: "nat \<Rightarrow> tv64 \<Rightarrow> nat \<Rightarrow> bool \<Rightarrow> unit gen" where
  "replicate_element rt tcg_addr scale is_q = do {
     tcg_tmp \<leftarrow> tcg_temp_new_i64;
     be_data \<leftarrow> get_dc dc_be_data;
     memidx \<leftarrow> get_mem_index;
     emit (QemuLd64 tcg_tmp tcg_addr memidx (be_data + scale));
     let mulconst = replicate_const scale;
     (if mulconst \<noteq> 0 then emit (Bini64 FMul tcg_tmp tcg_tmp mulconst) else skip);
     write_vec_element tcg_tmp rt 0 MO_64;
     (if is_q then write_vec_element tcg_tmp rt 1 MO_64 else clear_vec_high rt);
     emit (Free64 tcg_tmp) }"

definition disas_ldst_single_struct :: "u32 \<Rightarrow> unit gen" where
  "disas_ldst_single_struct insn = do {
     let rt = extract32 insn 0 5;
     let rn = extract32 insn 5 5;
     let sz = extract32 insn 10 2;
     let S = extract32 insn 12 1;
     let opc = extract32 insn 13 3;
     let R = extract32 insn 21 1;
     let is_load = (extract32 insn 22 1 = 1);
     let is_q = extract32 insn 30 1;
     let selem = 2 * (opc mod 2) + R + 1;
     case single_struct_layout (opc div 2) sz S is_q is_load of
       None \<Rightarrow> unallocated_encoding
     | Some (scale, repl, index) \<Rightarrow> do {
         ok \<leftarrow> fp_access_check;
         if \<not> ok then skip
         else do {
           let ebytes = 2 ^ scale;
           (if rn = 31 then gen_check_sp_alignment else skip);
           tcg_rn \<leftarrow> cpu_reg_sp rn;
           tcg_addr \<leftarrow> tcg_temp_new_i64;
           tcg_gen_mov_i64 tcg_addr tcg_rn;
           be_data \<leftarrow> get_dc dc_be_data;
           for_gen selem (\<lambda>xs. do {
             let tt = (rt + xs) mod 32;
             (if repl then replicate_element tt tcg_addr scale (is_q = 1)
              else if is_load then do_vec_ld tt index tcg_addr (be_data + scale)
              else do_vec_st tt index tcg_addr (be_data + scale));
             emit (Bini64 FAdd tcg_addr tcg_addr ebytes) });
           struct_writeback insn tcg_rn tcg_addr } } }"

definition disas_ldst :: "u32 \<Rightarrow> unit gen" where
  "disas_ldst insn =
     (let c = extract32 insn 24 6
      in if c = 0x08 then disas_ldst_excl insn
         else if c = 0x18 \<or> c = 0x1c then disas_ld_lit insn
         else if c \<in> {0x28, 0x29, 0x2c, 0x2d} then disas_ldst_pair insn
         else if c \<in> {0x38, 0x39, 0x3c, 0x3d} then disas_ldst_reg insn
         else if c = 0x0c then disas_ldst_multiple_struct insn
         else if c = 0x0d then disas_ldst_single_struct insn
         else unallocated_encoding)"

end
