(* ===== verification/A64Fp.thy ===== *)
theory A64Fp
  imports A64Branch A64Ldst
begin

text \<open>
  The scalar floating-point instructions of the A64 translator (\<open>disas_data_proc_fp\<close> and below in
  \<open>translate-a64.c\<close>). The arithmetic is done by helpers that are called by name; what they compute
  is not modelled here. \<open>abort ()\<close> is an assertion that fails.
\<close>

unbundle bit_operations_syntax

section \<open>Comparisons and selections\<close>

definition handle_fp_compare :: "bool \<Rightarrow> nat \<Rightarrow> nat \<Rightarrow> bool \<Rightarrow> bool \<Rightarrow> unit gen" where
  "handle_fp_compare is_double rn rm cmp_with_zero signal_all_nans = do {
     tcg_flags \<leftarrow> tcg_temp_new_i64;
     fpst \<leftarrow> get_fpstatus_ptr;
     (if is_double then do {
        tcg_vn \<leftarrow> read_fp_dreg rn;
        tcg_vm \<leftarrow> (if cmp_with_zero then tcg_const_i64 0 else read_fp_dreg rm);
        (if signal_all_nans then emit (Call ''vfp_cmped_a64'' [R64 tcg_flags, R64 tcg_vn, R64 tcg_vm, Ptr fpst])
         else emit (Call ''vfp_cmpd_a64'' [R64 tcg_flags, R64 tcg_vn, R64 tcg_vm, Ptr fpst]));
        emit (Free64 tcg_vn);
        emit (Free64 tcg_vm) }
      else do {
        tcg_vn \<leftarrow> read_fp_sreg rn;
        tcg_vm \<leftarrow> (if cmp_with_zero then tcg_const_i32 (Num 0) else read_fp_sreg rm);
        (if signal_all_nans then emit (Call ''vfp_cmpes_a64'' [R64 tcg_flags, R32 tcg_vn, R32 tcg_vm, Ptr fpst])
         else emit (Call ''vfp_cmps_a64'' [R64 tcg_flags, R32 tcg_vn, R32 tcg_vm, Ptr fpst]));
        emit (Free32 tcg_vn);
        emit (Free32 tcg_vm) });
     emit (FreePtr fpst);
     gen_set_nzcv tcg_flags;
     emit (Free64 tcg_flags) }"

definition disas_fp_compare :: "u32 \<Rightarrow> unit gen" where
  "disas_fp_compare insn =
     (let mos = extract32 insn 29 3;
          type = extract32 insn 22 2;
          rm = extract32 insn 16 5;
          op = extract32 insn 14 2;
          rn = extract32 insn 5 5;
          opc = extract32 insn 3 2;
          op2r = extract32 insn 0 3
      in if mos \<noteq> 0 \<or> op \<noteq> 0 \<or> op2r \<noteq> 0 \<or> type > 1 then unallocated_encoding
         else do {
           ok \<leftarrow> fp_access_check;
           if ok then handle_fp_compare (type \<noteq> 0) rn rm (bit opc 0) (bit opc 1) else skip })"

definition disas_fp_ccomp :: "u32 \<Rightarrow> unit gen" where
  "disas_fp_ccomp insn =
     (let mos = extract32 insn 29 3;
          type = extract32 insn 22 2;
          rm = extract32 insn 16 5;
          cond = extract32 insn 12 4;
          rn = extract32 insn 5 5;
          op = extract32 insn 4 1;
          nzcv = extract32 insn 0 4
      in if mos \<noteq> 0 \<or> type > 1 then unallocated_encoding
         else do {
           ok \<leftarrow> fp_access_check;
           if ok then
             if cond < 0xe then do {
               label_match \<leftarrow> gen_new_label;
               label_continue \<leftarrow> gen_new_label;
               emit (ArmGenTestCc cond label_match);
               tcg_flags \<leftarrow> tcg_const_i64 (push_bit 28 (of_nat nzcv));
               gen_set_nzcv tcg_flags;
               emit (Free64 tcg_flags);
               emit (Br label_continue);
               emit (SetLabel label_match);
               handle_fp_compare (type \<noteq> 0) rn rm False (op \<noteq> 0);
               emit (SetLabel label_continue) }
             else handle_fp_compare (type \<noteq> 0) rn rm False (op \<noteq> 0)
           else skip })"

definition disas_fp_csel :: "u32 \<Rightarrow> unit gen" where
  "disas_fp_csel insn =
     (let mos = extract32 insn 29 3;
          type = extract32 insn 22 2;
          rm = extract32 insn 16 5;
          cond = extract32 insn 12 4;
          rn = extract32 insn 5 5;
          rd = extract32 insn 0 5
      in if mos \<noteq> 0 \<or> type > 1 then unallocated_encoding
         else do {
           ok \<leftarrow> fp_access_check;
           if ok then do {
             t_true \<leftarrow> tcg_temp_new_i64;
             t_false \<leftarrow> tcg_temp_new_i64;
             read_vec_element t_true rn 0 (if type \<noteq> 0 then MO_64 else 2);
             read_vec_element t_false rm 0 (if type \<noteq> 0 then MO_64 else 2);
             c \<leftarrow> a64_test_cc cond;
             t_zero \<leftarrow> tcg_const_i64 0;
             emit (Movcond64 (fst c) t_true (snd c) t_zero t_true t_false);
             emit (Free64 t_zero);
             emit (Free64 t_false);
             a64_free_cc c;
             write_fp_dreg rd t_true;
             emit (Free64 t_true) }
           else skip })"

section \<open>One source\<close>

definition handle_fp_1src_single :: "nat \<Rightarrow> nat \<Rightarrow> nat \<Rightarrow> unit gen" where
  "handle_fp_1src_single opcode rd rn = do {
     fpst \<leftarrow> get_fpstatus_ptr;
     tcg_op \<leftarrow> read_fp_sreg rn;
     tcg_res \<leftarrow> tcg_temp_new_i32;
     (if opcode = 0x0 then emit (Un32 FMov tcg_res tcg_op)
      else if opcode = 0x1 then emit (Call ''vfp_abss'' [R32 tcg_res, R32 tcg_op])
      else if opcode = 0x2 then emit (Call ''vfp_negs'' [R32 tcg_res, R32 tcg_op])
      else if opcode = 0x3 then emit (Call ''vfp_sqrts'' [R32 tcg_res, R32 tcg_op, CpuEnv])
      else if opcode \<in> {0x8, 0x9, 0xa, 0xb, 0xc} then do {
        tcg_rmode \<leftarrow> tcg_const_i32 (RmodeToSf (Rmode (opcode mod 8)));
        emit (Call ''set_rmode'' [R32 tcg_rmode, R32 tcg_rmode, CpuEnv]);
        emit (Call ''rints'' [R32 tcg_res, R32 tcg_op, Ptr fpst]);
        emit (Call ''set_rmode'' [R32 tcg_rmode, R32 tcg_rmode, CpuEnv]);
        emit (Free32 tcg_rmode) }
      else if opcode = 0xe then emit (Call ''rints_exact'' [R32 tcg_res, R32 tcg_op, Ptr fpst])
      else if opcode = 0xf then emit (Call ''rints'' [R32 tcg_res, R32 tcg_op, Ptr fpst])
      else assert_that False);
     write_fp_sreg rd tcg_res;
     emit (FreePtr fpst);
     emit (Free32 tcg_op);
     emit (Free32 tcg_res) }"

definition handle_fp_1src_double :: "nat \<Rightarrow> nat \<Rightarrow> nat \<Rightarrow> unit gen" where
  "handle_fp_1src_double opcode rd rn = do {
     fpst \<leftarrow> get_fpstatus_ptr;
     tcg_op \<leftarrow> read_fp_dreg rn;
     tcg_res \<leftarrow> tcg_temp_new_i64;
     (if opcode = 0x0 then tcg_gen_mov_i64 tcg_res tcg_op
      else if opcode = 0x1 then emit (Call ''vfp_absd'' [R64 tcg_res, R64 tcg_op])
      else if opcode = 0x2 then emit (Call ''vfp_negd'' [R64 tcg_res, R64 tcg_op])
      else if opcode = 0x3 then emit (Call ''vfp_sqrtd'' [R64 tcg_res, R64 tcg_op, CpuEnv])
      else if opcode \<in> {0x8, 0x9, 0xa, 0xb, 0xc} then do {
        tcg_rmode \<leftarrow> tcg_const_i32 (RmodeToSf (Rmode (opcode mod 8)));
        emit (Call ''set_rmode'' [R32 tcg_rmode, R32 tcg_rmode, CpuEnv]);
        emit (Call ''rintd'' [R64 tcg_res, R64 tcg_op, Ptr fpst]);
        emit (Call ''set_rmode'' [R32 tcg_rmode, R32 tcg_rmode, CpuEnv]);
        emit (Free32 tcg_rmode) }
      else if opcode = 0xe then emit (Call ''rintd_exact'' [R64 tcg_res, R64 tcg_op, Ptr fpst])
      else if opcode = 0xf then emit (Call ''rintd'' [R64 tcg_res, R64 tcg_op, Ptr fpst])
      else assert_that False);
     write_fp_dreg rd tcg_res;
     emit (FreePtr fpst);
     emit (Free64 tcg_op);
     emit (Free64 tcg_res) }"

definition handle_fp_fcvt :: "nat \<Rightarrow> nat \<Rightarrow> nat \<Rightarrow> nat \<Rightarrow> nat \<Rightarrow> unit gen" where
  "handle_fp_fcvt opcode rd rn dtype ntype =
     (if ntype = 0x0 then do {
        tcg_rn \<leftarrow> read_fp_sreg rn;
        (if dtype = 1 then do {
           tcg_rd \<leftarrow> tcg_temp_new_i64;
           emit (Call ''vfp_fcvtds'' [R64 tcg_rd, R32 tcg_rn, CpuEnv]);
           write_fp_dreg rd tcg_rd;
           emit (Free64 tcg_rd) }
         else do {
           tcg_rd \<leftarrow> tcg_temp_new_i32;
           emit (Call ''vfp_fcvt_f32_to_f16'' [R32 tcg_rd, R32 tcg_rn, CpuEnv]);
           write_fp_sreg rd tcg_rd;
           emit (Free32 tcg_rd) });
        emit (Free32 tcg_rn) }
      else if ntype = 0x1 then do {
        tcg_rn \<leftarrow> read_fp_dreg rn;
        tcg_rd \<leftarrow> tcg_temp_new_i32;
        (if dtype = 0 then emit (Call ''vfp_fcvtsd'' [R32 tcg_rd, R64 tcg_rn, CpuEnv])
         else emit (Call ''vfp_fcvt_f64_to_f16'' [R32 tcg_rd, R64 tcg_rn, CpuEnv]));
        write_fp_sreg rd tcg_rd;
        emit (Free32 tcg_rd);
        emit (Free64 tcg_rn) }
      else if ntype = 0x3 then do {
        tcg_rn \<leftarrow> read_fp_sreg rn;
        emit (Un32 FExt16u tcg_rn tcg_rn);
        (if dtype = 0 then do {
           tcg_rd \<leftarrow> tcg_temp_new_i32;
           emit (Call ''vfp_fcvt_f16_to_f32'' [R32 tcg_rd, R32 tcg_rn, CpuEnv]);
           write_fp_sreg rd tcg_rd;
           emit (Free32 tcg_rd) }
         else do {
           tcg_rd \<leftarrow> tcg_temp_new_i64;
           emit (Call ''vfp_fcvt_f16_to_f64'' [R64 tcg_rd, R32 tcg_rn, CpuEnv]);
           write_fp_dreg rd tcg_rd;
           emit (Free64 tcg_rd) });
        emit (Free32 tcg_rn) }
      else assert_that False)"

definition disas_fp_1src :: "u32 \<Rightarrow> unit gen" where
  "disas_fp_1src insn =
     (let type = extract32 insn 22 2;
          opcode = extract32 insn 15 6;
          rn = extract32 insn 5 5;
          rd = extract32 insn 0 5
      in if opcode \<in> {0x4, 0x5, 0x7} then
           let dtype = extract32 (of_nat opcode) 0 2
           in if type = 2 \<or> dtype = type then unallocated_encoding
              else do {
                ok \<leftarrow> fp_access_check;
                if ok then handle_fp_fcvt opcode rd rn dtype type else skip }
         else if opcode \<in> {0x0, 0x1, 0x2, 0x3} \<or> opcode \<in> {0x8, 0x9, 0xa, 0xb, 0xc} \<or> opcode \<in> {0xe, 0xf} then
           if type = 0 then do {
             ok \<leftarrow> fp_access_check;
             if ok then handle_fp_1src_single opcode rd rn else skip }
           else if type = 1 then do {
             ok \<leftarrow> fp_access_check;
             if ok then handle_fp_1src_double opcode rd rn else skip }
           else unallocated_encoding
         else unallocated_encoding)"

section \<open>Two and three sources\<close>

definition handle_fp_2src_single :: "nat \<Rightarrow> nat \<Rightarrow> nat \<Rightarrow> nat \<Rightarrow> unit gen" where
  "handle_fp_2src_single opcode rd rn rm = do {
     tcg_res \<leftarrow> tcg_temp_new_i32;
     fpst \<leftarrow> get_fpstatus_ptr;
     tcg_op1 \<leftarrow> read_fp_sreg rn;
     tcg_op2 \<leftarrow> read_fp_sreg rm;
     (if opcode = 0x0 then emit (Call ''vfp_muls'' [R32 tcg_res, R32 tcg_op1, R32 tcg_op2, Ptr fpst])
      else if opcode = 0x1 then emit (Call ''vfp_divs'' [R32 tcg_res, R32 tcg_op1, R32 tcg_op2, Ptr fpst])
      else if opcode = 0x2 then emit (Call ''vfp_adds'' [R32 tcg_res, R32 tcg_op1, R32 tcg_op2, Ptr fpst])
      else if opcode = 0x3 then emit (Call ''vfp_subs'' [R32 tcg_res, R32 tcg_op1, R32 tcg_op2, Ptr fpst])
      else if opcode = 0x4 then emit (Call ''vfp_maxs'' [R32 tcg_res, R32 tcg_op1, R32 tcg_op2, Ptr fpst])
      else if opcode = 0x5 then emit (Call ''vfp_mins'' [R32 tcg_res, R32 tcg_op1, R32 tcg_op2, Ptr fpst])
      else if opcode = 0x6 then emit (Call ''vfp_maxnums'' [R32 tcg_res, R32 tcg_op1, R32 tcg_op2, Ptr fpst])
      else if opcode = 0x7 then emit (Call ''vfp_minnums'' [R32 tcg_res, R32 tcg_op1, R32 tcg_op2, Ptr fpst])
      else if opcode = 0x8 then do {
        emit (Call ''vfp_muls'' [R32 tcg_res, R32 tcg_op1, R32 tcg_op2, Ptr fpst]);
        emit (Call ''vfp_negs'' [R32 tcg_res, R32 tcg_res]) }
      else skip);
     write_fp_sreg rd tcg_res;
     emit (FreePtr fpst);
     emit (Free32 tcg_op1);
     emit (Free32 tcg_op2);
     emit (Free32 tcg_res) }"

definition handle_fp_2src_double :: "nat \<Rightarrow> nat \<Rightarrow> nat \<Rightarrow> nat \<Rightarrow> unit gen" where
  "handle_fp_2src_double opcode rd rn rm = do {
     tcg_res \<leftarrow> tcg_temp_new_i64;
     fpst \<leftarrow> get_fpstatus_ptr;
     tcg_op1 \<leftarrow> read_fp_dreg rn;
     tcg_op2 \<leftarrow> read_fp_dreg rm;
     (if opcode = 0x0 then emit (Call ''vfp_muld'' [R64 tcg_res, R64 tcg_op1, R64 tcg_op2, Ptr fpst])
      else if opcode = 0x1 then emit (Call ''vfp_divd'' [R64 tcg_res, R64 tcg_op1, R64 tcg_op2, Ptr fpst])
      else if opcode = 0x2 then emit (Call ''vfp_addd'' [R64 tcg_res, R64 tcg_op1, R64 tcg_op2, Ptr fpst])
      else if opcode = 0x3 then emit (Call ''vfp_subd'' [R64 tcg_res, R64 tcg_op1, R64 tcg_op2, Ptr fpst])
      else if opcode = 0x4 then emit (Call ''vfp_maxd'' [R64 tcg_res, R64 tcg_op1, R64 tcg_op2, Ptr fpst])
      else if opcode = 0x5 then emit (Call ''vfp_mind'' [R64 tcg_res, R64 tcg_op1, R64 tcg_op2, Ptr fpst])
      else if opcode = 0x6 then emit (Call ''vfp_maxnumd'' [R64 tcg_res, R64 tcg_op1, R64 tcg_op2, Ptr fpst])
      else if opcode = 0x7 then emit (Call ''vfp_minnumd'' [R64 tcg_res, R64 tcg_op1, R64 tcg_op2, Ptr fpst])
      else if opcode = 0x8 then do {
        emit (Call ''vfp_muld'' [R64 tcg_res, R64 tcg_op1, R64 tcg_op2, Ptr fpst]);
        emit (Call ''vfp_negd'' [R64 tcg_res, R64 tcg_res]) }
      else skip);
     write_fp_dreg rd tcg_res;
     emit (FreePtr fpst);
     emit (Free64 tcg_op1);
     emit (Free64 tcg_op2);
     emit (Free64 tcg_res) }"

definition disas_fp_2src :: "u32 \<Rightarrow> unit gen" where
  "disas_fp_2src insn =
     (let type = extract32 insn 22 2;
          rd = extract32 insn 0 5;
          rn = extract32 insn 5 5;
          rm = extract32 insn 16 5;
          opcode = extract32 insn 12 4
      in if opcode > 8 then unallocated_encoding
         else if type = 0 then do {
           ok \<leftarrow> fp_access_check;
           if ok then handle_fp_2src_single opcode rd rn rm else skip }
         else if type = 1 then do {
           ok \<leftarrow> fp_access_check;
           if ok then handle_fp_2src_double opcode rd rn rm else skip }
         else unallocated_encoding)"

definition handle_fp_3src_single :: "bool \<Rightarrow> bool \<Rightarrow> nat \<Rightarrow> nat \<Rightarrow> nat \<Rightarrow> nat \<Rightarrow> unit gen" where
  "handle_fp_3src_single o0 o1 rd rn rm ra = do {
     tcg_res \<leftarrow> tcg_temp_new_i32;
     fpst \<leftarrow> get_fpstatus_ptr;
     tcg_op1 \<leftarrow> read_fp_sreg rn;
     tcg_op2 \<leftarrow> read_fp_sreg rm;
     tcg_op3 \<leftarrow> read_fp_sreg ra;
     (if o1 = True then emit (Call ''vfp_negs'' [R32 tcg_op3, R32 tcg_op3]) else skip);
     (if o0 \<noteq> o1 then emit (Call ''vfp_negs'' [R32 tcg_op1, R32 tcg_op1]) else skip);
     emit (Call ''vfp_muladds'' [R32 tcg_res, R32 tcg_op1, R32 tcg_op2, R32 tcg_op3, Ptr fpst]);
     write_fp_sreg rd tcg_res;
     emit (FreePtr fpst);
     emit (Free32 tcg_op1);
     emit (Free32 tcg_op2);
     emit (Free32 tcg_op3);
     emit (Free32 tcg_res) }"

definition handle_fp_3src_double :: "bool \<Rightarrow> bool \<Rightarrow> nat \<Rightarrow> nat \<Rightarrow> nat \<Rightarrow> nat \<Rightarrow> unit gen" where
  "handle_fp_3src_double o0 o1 rd rn rm ra = do {
     tcg_res \<leftarrow> tcg_temp_new_i64;
     fpst \<leftarrow> get_fpstatus_ptr;
     tcg_op1 \<leftarrow> read_fp_dreg rn;
     tcg_op2 \<leftarrow> read_fp_dreg rm;
     tcg_op3 \<leftarrow> read_fp_dreg ra;
     (if o1 = True then emit (Call ''vfp_negd'' [R64 tcg_op3, R64 tcg_op3]) else skip);
     (if o0 \<noteq> o1 then emit (Call ''vfp_negd'' [R64 tcg_op1, R64 tcg_op1]) else skip);
     emit (Call ''vfp_muladdd'' [R64 tcg_res, R64 tcg_op1, R64 tcg_op2, R64 tcg_op3, Ptr fpst]);
     write_fp_dreg rd tcg_res;
     emit (FreePtr fpst);
     emit (Free64 tcg_op1);
     emit (Free64 tcg_op2);
     emit (Free64 tcg_op3);
     emit (Free64 tcg_res) }"

definition disas_fp_3src :: "u32 \<Rightarrow> unit gen" where
  "disas_fp_3src insn =
     (let type = extract32 insn 22 2;
          rd = extract32 insn 0 5;
          rn = extract32 insn 5 5;
          ra = extract32 insn 10 5;
          rm = extract32 insn 16 5;
          o0 = (extract32 insn 15 1 = 1);
          o1 = (extract32 insn 21 1 = 1)
      in if type = 0 then do {
           ok \<leftarrow> fp_access_check;
           if ok then handle_fp_3src_single o0 o1 rd rn rm ra else skip }
         else if type = 1 then do {
           ok \<leftarrow> fp_access_check;
           if ok then handle_fp_3src_double o0 o1 rd rn rm ra else skip }
         else unallocated_encoding)"

section \<open>Immediates, conversions and moves\<close>

definition fp_imm_value :: "bool \<Rightarrow> u32 \<Rightarrow> u64" where
  "fp_imm_value is_double imm8 =
     (if is_double then
        push_bit 48 ((if extract32 imm8 7 1 \<noteq> 0 then 0x8000 else 0) OR
          (if extract32 imm8 6 1 \<noteq> 0 then 0x3fc0 else 0x4000) OR of_nat (extract32 imm8 0 6))
      else
        push_bit 16 ((if extract32 imm8 7 1 \<noteq> 0 then 0x8000 else 0) OR
          (if extract32 imm8 6 1 \<noteq> 0 then 0x3e00 else 0x4000) OR push_bit 3 (of_nat (extract32 imm8 0 6))))"

definition disas_fp_imm :: "u32 \<Rightarrow> unit gen" where
  "disas_fp_imm insn =
     (let rd = extract32 insn 0 5;
          imm8 = extract32 insn 13 8;
          is_double = extract32 insn 22 2
      in if is_double > 1 then unallocated_encoding
         else do {
           ok \<leftarrow> fp_access_check;
           if ok then do {
             tcg_res \<leftarrow> tcg_const_i64 (fp_imm_value (is_double \<noteq> 0) (of_nat imm8));
             write_fp_dreg rd tcg_res;
             emit (Free64 tcg_res) }
           else skip })"

text \<open>The two directions of \<open>handle_fpfpcvt\<close>: from a general register, and to one.\<close>

definition fpcvt_from_int :: "bool \<Rightarrow> bool \<Rightarrow> bool \<Rightarrow> nat \<Rightarrow> nat \<Rightarrow> tv32 \<Rightarrow> nat \<Rightarrow> unit gen" where
  "fpcvt_from_int is_signed is_double sf rd rn tcg_shift tcg_fpstatus = do {
     tcg_int \<leftarrow> cpu_reg rn;
     tcg_int \<leftarrow> (if \<not> sf then do {
                  tcg_extend \<leftarrow> new_tmp_a64;
                  (if is_signed then emit (Un64 FExt32s tcg_extend tcg_int) else tcg_gen_ext32u_i64 tcg_extend tcg_int);
                  State_Monad.return tcg_extend }
                else State_Monad.return tcg_int);
     if is_double then do {
       tcg_double \<leftarrow> tcg_temp_new_i64;
       (if is_signed then emit (Call ''vfp_sqtod'' [R64 tcg_double, R64 tcg_int, R32 tcg_shift, Ptr tcg_fpstatus])
        else emit (Call ''vfp_uqtod'' [R64 tcg_double, R64 tcg_int, R32 tcg_shift, Ptr tcg_fpstatus]));
       write_fp_dreg rd tcg_double;
       emit (Free64 tcg_double) }
     else do {
       tcg_single \<leftarrow> tcg_temp_new_i32;
       (if is_signed then emit (Call ''vfp_sqtos'' [R32 tcg_single, R64 tcg_int, R32 tcg_shift, Ptr tcg_fpstatus])
        else emit (Call ''vfp_uqtos'' [R32 tcg_single, R64 tcg_int, R32 tcg_shift, Ptr tcg_fpstatus]));
       write_fp_sreg rd tcg_single;
       emit (Free32 tcg_single) } }"

definition fpcvt_to_int :: "nat \<Rightarrow> bool \<Rightarrow> bool \<Rightarrow> bool \<Rightarrow> fp_rounding \<Rightarrow> nat \<Rightarrow> nat \<Rightarrow> tv32 \<Rightarrow> nat \<Rightarrow> unit gen" where
  "fpcvt_to_int opcode is_signed is_double sf rmode rd rn tcg_shift tcg_fpstatus = do {
     tcg_int \<leftarrow> cpu_reg rd;
     let rmode = (if extract32 (of_nat opcode) 2 1 \<noteq> 0 then FPROUNDING_TIEAWAY else rmode);
     tcg_rmode \<leftarrow> tcg_const_i32 (RmodeToSf rmode);
     emit (Call ''set_rmode'' [R32 tcg_rmode, R32 tcg_rmode, CpuEnv]);
     (if is_double then do {
        tcg_double \<leftarrow> read_fp_dreg rn;
        (if is_signed then
           if \<not> sf then emit (Call ''vfp_tosld'' [R64 tcg_int, R64 tcg_double, R32 tcg_shift, Ptr tcg_fpstatus])
           else emit (Call ''vfp_tosqd'' [R64 tcg_int, R64 tcg_double, R32 tcg_shift, Ptr tcg_fpstatus])
         else
           if \<not> sf then emit (Call ''vfp_tould'' [R64 tcg_int, R64 tcg_double, R32 tcg_shift, Ptr tcg_fpstatus])
           else emit (Call ''vfp_touqd'' [R64 tcg_int, R64 tcg_double, R32 tcg_shift, Ptr tcg_fpstatus]));
        emit (Free64 tcg_double) }
      else do {
        tcg_single \<leftarrow> read_fp_sreg rn;
        (if sf then
           if is_signed then emit (Call ''vfp_tosqs'' [R64 tcg_int, R32 tcg_single, R32 tcg_shift, Ptr tcg_fpstatus])
           else emit (Call ''vfp_touqs'' [R64 tcg_int, R32 tcg_single, R32 tcg_shift, Ptr tcg_fpstatus])
         else do {
           tcg_dest \<leftarrow> tcg_temp_new_i32;
           (if is_signed then emit (Call ''vfp_tosls'' [R32 tcg_dest, R32 tcg_single, R32 tcg_shift, Ptr tcg_fpstatus])
            else emit (Call ''vfp_touls'' [R32 tcg_dest, R32 tcg_single, R32 tcg_shift, Ptr tcg_fpstatus]));
           emit (Extu tcg_int tcg_dest);
           emit (Free32 tcg_dest) });
        emit (Free32 tcg_single) });
     emit (Call ''set_rmode'' [R32 tcg_rmode, R32 tcg_rmode, CpuEnv]);
     emit (Free32 tcg_rmode);
     if \<not> sf then tcg_gen_ext32u_i64 tcg_int tcg_int else skip }"

definition handle_fpfpcvt :: "nat \<Rightarrow> nat \<Rightarrow> nat \<Rightarrow> bool \<Rightarrow> fp_rounding \<Rightarrow> nat \<Rightarrow> bool \<Rightarrow> nat \<Rightarrow> unit gen" where
  "handle_fpfpcvt rd rn opcode itof rmode scale sf type = do {
     let is_signed = (\<not> bit opcode 0);
     let is_double = (type \<noteq> 0);
     tcg_fpstatus \<leftarrow> get_fpstatus_ptr;
     tcg_shift \<leftarrow> tcg_const_i32 (Num (64 - of_nat scale));
     (if itof then fpcvt_from_int is_signed is_double sf rd rn tcg_shift tcg_fpstatus
      else fpcvt_to_int opcode is_signed is_double sf rmode rd rn tcg_shift tcg_fpstatus);
     emit (FreePtr tcg_fpstatus);
     emit (Free32 tcg_shift) }"

definition disas_fp_fixed_conv :: "u32 \<Rightarrow> unit gen" where
  "disas_fp_fixed_conv insn =
     (let rd = extract32 insn 0 5;
          rn = extract32 insn 5 5;
          scale = extract32 insn 10 6;
          opcode = extract32 insn 16 3;
          rmode = extract32 insn 19 2;
          type = extract32 insn 22 2;
          sbit = (extract32 insn 29 1 = 1);
          sf = (extract32 insn 31 1 = 1);
          op = push_bit 3 rmode OR opcode
      in if sbit \<or> type > 1 \<or> \<not> sf \<and> scale < 32 then unallocated_encoding
         else if op \<notin> {0x2, 0x3, 0x18, 0x19} then unallocated_encoding
         else do {
           ok \<leftarrow> fp_access_check;
           if ok then handle_fpfpcvt rd rn opcode (op \<in> {0x2, 0x3}) FPROUNDING_ZERO scale sf type else skip })"

definition handle_fmov :: "nat \<Rightarrow> nat \<Rightarrow> nat \<Rightarrow> bool \<Rightarrow> unit gen" where
  "handle_fmov rd rn type itof = do {
     s \<leftarrow> get_dc (\<lambda>s. s);
     if itof then do {
       tcg_rn \<leftarrow> cpu_reg rn;
       if type = 0 then do {
         tmp \<leftarrow> tcg_temp_new_i64;
         tcg_gen_ext32u_i64 tmp tcg_rn;
         emit (StEnv64 3 tmp (fp_reg_offset s rd MO_64));
         emit (Movi64 tmp 0);
         emit (StEnv64 3 tmp (fp_reg_hi_offset rd));
         emit (Free64 tmp) }
       else if type = 1 then do {
         tmp \<leftarrow> tcg_const_i64 0;
         emit (StEnv64 3 tcg_rn (fp_reg_offset s rd MO_64));
         emit (StEnv64 3 tmp (fp_reg_hi_offset rd));
         emit (Free64 tmp) }
       else if type = 2 then emit (StEnv64 3 tcg_rn (fp_reg_hi_offset rd))
       else skip }
     else do {
       tcg_rd \<leftarrow> cpu_reg rd;
       if type = 0 then emit (LdEnv64 2 tcg_rd (fp_reg_offset s rn 2))
       else if type = 1 then emit (LdEnv64 3 tcg_rd (fp_reg_offset s rn MO_64))
       else if type = 2 then emit (LdEnv64 3 tcg_rd (fp_reg_hi_offset rn))
       else skip } }"

text \<open>An invalid combination of an \<open>FMOV\<close> raises the exception and then generates the move all the same.\<close>

definition disas_fp_int_conv :: "u32 \<Rightarrow> unit gen" where
  "disas_fp_int_conv insn =
     (let rd = extract32 insn 0 5;
          rn = extract32 insn 5 5;
          opcode = extract32 insn 16 3;
          rmode = extract32 insn 19 2;
          type = extract32 insn 22 2;
          sbit = (extract32 insn 29 1 = 1);
          sf = (extract32 insn 31 1 = 1)
      in if sbit then unallocated_encoding
         else if opcode > 5 then
           let itof = bit opcode 0
           in if rmode \<ge> 2 then unallocated_encoding
              else do {
                (if push_bit 3 (of_bool sf) OR push_bit 1 type OR rmode \<in> {0x0, 0xa, 0xd :: nat} then skip
                 else unallocated_encoding);
                ok \<leftarrow> fp_access_check;
                if ok then handle_fmov rd rn type itof else skip }
         else
           let itof = (extract32 (of_nat opcode) 1 1 = 1)
           in if type > 1 \<or> rmode \<noteq> 0 \<and> opcode > 1 then unallocated_encoding
              else do {
                ok \<leftarrow> fp_access_check;
                if ok then handle_fpfpcvt rd rn opcode itof (Rmode rmode) 64 sf type else skip })"

text \<open>\<open>ctz32\<close> of QEMU's host utilities counts the zeros below the lowest bit set, 32 for 0.\<close>

definition ctz32 :: "u32 \<Rightarrow> nat" where
  "ctz32 v = length (takeWhile (\<lambda>i. \<not> bit v i) [0..<32])"

definition disas_data_proc_fp :: "u32 \<Rightarrow> unit gen" where
  "disas_data_proc_fp insn =
     (if extract32 insn 24 1 \<noteq> 0 then disas_fp_3src insn
      else if extract32 insn 21 1 = 0 then disas_fp_fixed_conv insn
      else
        let c = extract32 insn 10 2
        in if c = 1 then disas_fp_ccomp insn
           else if c = 2 then disas_fp_2src insn
           else if c = 3 then disas_fp_csel insn
           else
             let z = ctz32 (of_nat (extract32 insn 12 4))
             in if z = 0 then disas_fp_imm insn
                else if z = 1 then disas_fp_compare insn
                else if z = 2 then disas_fp_1src insn
                else if z = 3 then unallocated_encoding
                else disas_fp_int_conv insn)"

end
