(* ===== verification/A64Insn.thy ===== *)
theory A64Insn
  imports A64Reg A64Fp
begin

text \<open>
  The top of the A64 translator: the decoding of one instruction and the loop that fills a
  translation block (\<open>disas_a64_insn\<close> and \<open>gen_intermediate_code_a64\<close> of \<open>translate-a64.c\<close>).
  The decoder of the SIMD instructions is a parameter, as is the environment of the translation
  (guest memory, breakpoints, limits of TCG).
\<close>

record decoders =
  disas_data_proc_simd :: "u32 \<Rightarrow> unit gen"
  arm_ldl_code :: "u64 \<Rightarrow> u32"

definition disas_data_proc_simd_fp :: "decoders \<Rightarrow> u32 \<Rightarrow> unit gen" where
  "disas_data_proc_simd_fp D insn =
     (if extract32 insn 28 1 = 1 \<and> extract32 insn 30 1 = 0 then disas_data_proc_fp insn
      else disas_data_proc_simd D insn)"

definition disas_a64_class :: "decoders \<Rightarrow> u32 \<Rightarrow> unit gen" where
  "disas_a64_class D insn =
     (let c = extract32 insn 25 4
      in if c \<le> 3 then unallocated_encoding
         else if c = 0x8 \<or> c = 0x9 then disas_data_proc_imm insn
         else if c = 0xa \<or> c = 0xb then disas_b_exc_sys insn
         else if c \<in> {0x4, 0x6, 0xc, 0xe} then disas_ldst insn
         else if c = 0x5 \<or> c = 0xd then disas_data_proc_reg insn
         else if c = 0x7 \<or> c = 0xf then disas_data_proc_simd_fp D insn
         else assert_that False)"

definition disas_a64_insn :: "decoders \<Rightarrow> unit gen" where
  "disas_a64_insn D = do {
     pc \<leftarrow> get_dc dc_pc;
     let insn = arm_ldl_code D pc;
     set_dc (\<lambda>s. s\<lparr>dc_pc := pc + 4, dc_fp_access_checked := False\<rparr>);
     disas_a64_class D insn;
     free_tmp_a64 }"

text \<open>
  The environment: the breakpoints with their \<open>BP_CPU\<close> flag, QEMU's \<open>singlestep\<close> switch, the limit
  on instructions of the block (the count in its flags, or \<open>CF_COUNT_MASK\<close>, cut at
  \<open>TCG_MAX_INSNS\<close>), the page size and the test for a full operation buffer.
\<close>

record tb_env =
  breakpoints :: "(u64 \<times> bool) list"
  singlestep :: bool
  cf_count :: nat
  CF_COUNT_MASK :: nat
  TCG_MAX_INSNS :: nat
  TARGET_PAGE_SIZE :: u64
  tcg_op_buf_full :: "tcg_op list \<Rightarrow> bool"

definition max_insns :: "tb_env \<Rightarrow> nat" where
  "max_insns E = min (if cf_count E = 0 then CF_COUNT_MASK E else cf_count E) (TCG_MAX_INSNS E)"

datatype loop_exit = Continue | LoopDone | DoneGenerating

text \<open>The part of the loop body before the instruction is decoded.\<close>

definition check_breakpoint :: "tb_env \<Rightarrow> loop_exit gen" where
  "check_breakpoint E = do {
     pc \<leftarrow> get_dc dc_pc;
     case find (\<lambda>bp. fst bp = pc) (breakpoints E) of
       None \<Rightarrow> State_Monad.return Continue
     | Some bp \<Rightarrow>
         if snd bp then do {
           gen_a64_set_pc_im pc;
           emit (Env CheckBreakpoints);
           set_is_jmp DISAS_UPDATE;
           State_Monad.return Continue }
         else do {
           gen_exception_internal_insn 0 EXCP_DEBUG;
           set_dc (\<lambda>s. s\<lparr>dc_pc := dc_pc s + 4\<rparr>);
           State_Monad.return DoneGenerating } }"

definition step_pending :: "nat \<Rightarrow> unit gen" where
  "step_pending num_insns = do {
     s \<leftarrow> get_dc (\<lambda>s. s);
     assert_that (num_insns = 1);
     gen_exception EXCP_UDEF (SynSwstep (dc_ss_same_el s) False False) DefaultExceptionEl;
     set_is_jmp DISAS_EXC }"

definition keep_going :: "tb_env \<Rightarrow> u64 \<Rightarrow> disas_context \<Rightarrow> bool" where
  "keep_going E next_page_start s =
     (dc_is_jmp s = DISAS_NEXT \<and> \<not> tcg_op_buf_full E (code s) \<and> \<not> dc_singlestep_enabled s \<and>
      \<not> singlestep E \<and> \<not> dc_ss_active s \<and> dc_pc s < next_page_start)"

text \<open>\<open>tcg_op_buf_count\<close>, which numbers the operation that starts the instruction, is the length of the code.\<close>

definition insn_step :: "decoders \<Rightarrow> tb_env \<Rightarrow> u64 \<Rightarrow> nat \<Rightarrow> loop_exit gen" where
  "insn_step D E next_page_start num_insns = do {
     pc \<leftarrow> get_dc dc_pc;
     set_dc (\<lambda>s. s\<lparr>dc_insn_start_idx := length (code s)\<rparr>);
     emit (InsnStart pc);
     bp \<leftarrow> check_breakpoint E;
     if bp = DoneGenerating then State_Monad.return DoneGenerating
     else do {
       s \<leftarrow> get_dc (\<lambda>s. s);
       (if num_insns = max_insns E \<and> tb_last_io s then emit (Env IoStart) else skip);
       if dc_ss_active s \<and> \<not> dc_pstate_ss s then do {
         step_pending num_insns;
         State_Monad.return LoopDone }
       else do {
         disas_a64_insn D;
         s \<leftarrow> get_dc (\<lambda>s. s);
         State_Monad.return
           (if keep_going E next_page_start s \<and> num_insns < max_insns E then Continue else LoopDone) } } }"

text \<open>
  The loop, by recursion on the instructions the block still has room for; \<open>num_insns\<close> counts the
  ones begun. The first one is always translated.
\<close>

fun insn_loop :: "decoders \<Rightarrow> tb_env \<Rightarrow> u64 \<Rightarrow> nat \<Rightarrow> nat \<Rightarrow> (loop_exit \<times> nat) gen" where
  "insn_loop D E next_page_start 0 num_insns = do {
     r \<leftarrow> insn_step D E next_page_start (Suc num_insns);
     State_Monad.return (r, Suc num_insns) }"
| "insn_loop D E next_page_start (Suc room) num_insns = do {
     r \<leftarrow> insn_step D E next_page_start (Suc num_insns);
     if r = Continue then insn_loop D E next_page_start room (Suc num_insns)
     else State_Monad.return (r, Suc num_insns) }"

text \<open>What ends a block after the loop.\<close>

definition finish_tb :: "tb_env \<Rightarrow> unit gen" where
  "finish_tb E = do {
     s \<leftarrow> get_dc (\<lambda>s. s);
     (if tb_last_io s then emit (Env IoEnd) else skip);
     if (dc_singlestep_enabled s \<or> dc_ss_active s) \<and> dc_is_jmp s \<noteq> DISAS_EXC then do {
       assert_that (dc_is_jmp s \<noteq> DISAS_TB_JUMP);
       (if dc_is_jmp s \<noteq> DISAS_JUMP then gen_a64_set_pc_im (dc_pc s) else skip);
       if dc_singlestep_enabled s then gen_exception_internal EXCP_DEBUG
       else gen_step_complete_exception }
     else case dc_is_jmp s of
         DISAS_NEXT \<Rightarrow> gen_goto_tb 1 (dc_pc s)
       | DISAS_UPDATE \<Rightarrow> do { gen_a64_set_pc_im (dc_pc s); emit (ExitTb None) }
       | DISAS_JUMP \<Rightarrow> emit (ExitTb None)
       | DISAS_TB_JUMP \<Rightarrow> skip
       | DISAS_EXC \<Rightarrow> skip
       | DISAS_SWI \<Rightarrow> skip
       | DISAS_WFE \<Rightarrow> do { gen_a64_set_pc_im (dc_pc s); emit (Env Wfe) }
       | DISAS_YIELD \<Rightarrow> do { gen_a64_set_pc_im (dc_pc s); emit (Env Yield) }
       | DISAS_WFI \<Rightarrow> do {
           gen_a64_set_pc_im (dc_pc s);
           emit (Env Wfi);
           emit (ExitTb None) } }"

text \<open>
  The block at \<open>tb_pc\<close>: its size in bytes and the number of its instructions. The context comes
  in with the fields that are decoded from the flags of the block and from the processor.
\<close>

definition gen_intermediate_code_a64 :: "decoders \<Rightarrow> tb_env \<Rightarrow> (u64 \<times> nat) gen" where
  "gen_intermediate_code_a64 D E = do {
     pc_start \<leftarrow> get_dc tb_pc;
     set_dc (\<lambda>s. s\<lparr>dc_is_jmp := DISAS_NEXT, dc_pc := pc_start, dc_is_ldex := False\<rparr>);
     init_tmp_a64_array;
     mask \<leftarrow> get_dc page_mask;
     let next_page_start = (pc_start AND mask) + TARGET_PAGE_SIZE E;
     emit (Env TbStart);
     (r, num_insns) \<leftarrow> insn_loop D E next_page_start (max_insns E - 1) 0;
     (if r = DoneGenerating then skip else finish_tb E);
     emit (Env (TbEnd num_insns));
     pc \<leftarrow> get_dc dc_pc;
     State_Monad.return (pc - pc_start, num_insns) }"

end
