(* ===== verification/A64Helper.thy ===== *)
theory A64Helper
  imports Prelude "HOL-Library.Signed_Division"
begin

text \<open>
  The AArch64 helpers of the instrumented QEMU (\<open>qemu_src_shm/helper-a64.c\<close>), the printer apart,
  which \<open>ShmProtocol\<close> models: division, bit counting, the NZCV flags of a floating point
  comparison, the table lookup of \<open>TBL\<close>/\<open>TBX\<close>, the reciprocal steps, the pairwise long additions
  on packed elements, the reciprocal exponent, the rounding to odd and the CRC wrappers. QEMU's
  softfloat and host utilities and zlib are parameters.
\<close>

section \<open>Integer helpers\<close>

definition LLONG_MIN :: u64 where "LLONG_MIN = push_bit 63 1"

definition helper_udiv64 :: "u64 \<Rightarrow> u64 \<Rightarrow> u64" where
  "helper_udiv64 num den = (if den = 0 then 0 else num div den)"

definition helper_sdiv64 :: "u64 \<Rightarrow> u64 \<Rightarrow> u64" where
  "helper_sdiv64 num den =
     (if den = 0 then 0
      else if num = LLONG_MIN \<and> den = -1 then LLONG_MIN
      else word_of_int (sint num sdiv sint den))"

text \<open>The host's bit utilities.\<close>

record host_utils =
  clz64 :: "u64 \<Rightarrow> nat"
  clrsb64 :: "u64 \<Rightarrow> nat"
  clrsb32 :: "u32 \<Rightarrow> nat"
  clz32 :: "u32 \<Rightarrow> nat"
  revbit64 :: "u64 \<Rightarrow> u64"

definition helper_clz64 :: "host_utils \<Rightarrow> u64 \<Rightarrow> u64" where
  "helper_clz64 h x = of_nat (clz64 h x)"

definition helper_cls64 :: "host_utils \<Rightarrow> u64 \<Rightarrow> u64" where
  "helper_cls64 h x = of_nat (clrsb64 h x)"

definition helper_cls32 :: "host_utils \<Rightarrow> u32 \<Rightarrow> u32" where
  "helper_cls32 h x = of_nat (clrsb32 h x)"

definition helper_clz32 :: "host_utils \<Rightarrow> u32 \<Rightarrow> u32" where
  "helper_clz32 h x = of_nat (clz32 h x)"

definition helper_rbit64 :: "host_utils \<Rightarrow> u64 \<Rightarrow> u64" where
  "helper_rbit64 h x = revbit64 h x"

section \<open>Floating point comparisons\<close>

datatype float_relation = float_relation_less | float_relation_equal | float_relation_greater
  | float_relation_unordered

definition PSTATE_N :: u64 where "PSTATE_N = push_bit 31 1"
definition PSTATE_Z :: u64 where "PSTATE_Z = push_bit 30 1"
definition PSTATE_C :: u64 where "PSTATE_C = push_bit 29 1"
definition PSTATE_V :: u64 where "PSTATE_V = push_bit 28 1"

definition float_rel_to_flags :: "float_relation \<Rightarrow> u32" where
  "float_rel_to_flags res = ucast (case res of
       float_relation_equal \<Rightarrow> PSTATE_Z OR PSTATE_C
     | float_relation_less \<Rightarrow> PSTATE_N
     | float_relation_greater \<Rightarrow> PSTATE_C
     | float_relation_unordered \<Rightarrow> PSTATE_C OR PSTATE_V)"

text \<open>
  The softfloat functions the helpers call, over a status \<open>'f\<close> they may update (rounding mode and
  accumulated exception flags).
\<close>

record 'f softfloat =
  float32_compare_quiet :: "u32 \<Rightarrow> u32 \<Rightarrow> 'f \<Rightarrow> float_relation \<times> 'f"
  float32_compare :: "u32 \<Rightarrow> u32 \<Rightarrow> 'f \<Rightarrow> float_relation \<times> 'f"
  float64_compare_quiet :: "u64 \<Rightarrow> u64 \<Rightarrow> 'f \<Rightarrow> float_relation \<times> 'f"
  float64_compare :: "u64 \<Rightarrow> u64 \<Rightarrow> 'f \<Rightarrow> float_relation \<times> 'f"
  float64_eq_quiet :: "u64 \<Rightarrow> u64 \<Rightarrow> 'f \<Rightarrow> bool \<times> 'f"
  float64_le :: "u64 \<Rightarrow> u64 \<Rightarrow> 'f \<Rightarrow> bool \<times> 'f"
  float64_lt :: "u64 \<Rightarrow> u64 \<Rightarrow> 'f \<Rightarrow> bool \<times> 'f"
  float32_squash_input_denormal :: "u32 \<Rightarrow> 'f \<Rightarrow> u32 \<times> 'f"
  float64_squash_input_denormal :: "u64 \<Rightarrow> 'f \<Rightarrow> u64 \<times> 'f"
  float32_is_zero :: "u32 \<Rightarrow> bool"
  float64_is_zero :: "u64 \<Rightarrow> bool"
  float32_is_infinity :: "u32 \<Rightarrow> bool"
  float64_is_infinity :: "u64 \<Rightarrow> bool"
  float32_is_any_nan :: "u32 \<Rightarrow> bool"
  float64_is_any_nan :: "u64 \<Rightarrow> bool"
  float32_is_signaling_nan :: "u32 \<Rightarrow> 'f \<Rightarrow> bool"
  float64_is_signaling_nan :: "u64 \<Rightarrow> 'f \<Rightarrow> bool"
  float32_maybe_silence_nan :: "u32 \<Rightarrow> 'f \<Rightarrow> u32 \<times> 'f"
  float64_maybe_silence_nan :: "u64 \<Rightarrow> 'f \<Rightarrow> u64 \<times> 'f"
  float32_default_nan :: "'f \<Rightarrow> u32"
  float64_default_nan :: "'f \<Rightarrow> u64"
  float32_chs :: "u32 \<Rightarrow> u32"
  float64_chs :: "u64 \<Rightarrow> u64"
  float32_mul :: "u32 \<Rightarrow> u32 \<Rightarrow> 'f \<Rightarrow> u32 \<times> 'f"
  float64_mul :: "u64 \<Rightarrow> u64 \<Rightarrow> 'f \<Rightarrow> u64 \<times> 'f"
  float32_muladd :: "u32 \<Rightarrow> u32 \<Rightarrow> u32 \<Rightarrow> bool \<Rightarrow> 'f \<Rightarrow> u32 \<times> 'f"
  float64_muladd :: "u64 \<Rightarrow> u64 \<Rightarrow> u64 \<Rightarrow> bool \<Rightarrow> 'f \<Rightarrow> u64 \<times> 'f"
  float64_to_float32 :: "u64 \<Rightarrow> 'f \<Rightarrow> u32 \<times> 'f"
  float_raise_invalid :: "'f \<Rightarrow> 'f"
  default_nan_mode :: "'f \<Rightarrow> bool"
  set_rounding_to_zero :: "'f \<Rightarrow> 'f"
  set_exception_flags :: "u32 \<Rightarrow> 'f \<Rightarrow> 'f"
  get_exception_flags :: "'f \<Rightarrow> u32"
  float_flag_inexact :: u32

definition helper_vfp_cmps_a64 :: "'f softfloat \<Rightarrow> u32 \<Rightarrow> u32 \<Rightarrow> 'f \<Rightarrow> u64 \<times> 'f" where
  "helper_vfp_cmps_a64 fl x y fpst =
     (let (r, fpst) = float32_compare_quiet fl x y fpst in (ucast (float_rel_to_flags r), fpst))"

definition helper_vfp_cmpes_a64 :: "'f softfloat \<Rightarrow> u32 \<Rightarrow> u32 \<Rightarrow> 'f \<Rightarrow> u64 \<times> 'f" where
  "helper_vfp_cmpes_a64 fl x y fpst =
     (let (r, fpst) = float32_compare fl x y fpst in (ucast (float_rel_to_flags r), fpst))"

definition helper_vfp_cmpd_a64 :: "'f softfloat \<Rightarrow> u64 \<Rightarrow> u64 \<Rightarrow> 'f \<Rightarrow> u64 \<times> 'f" where
  "helper_vfp_cmpd_a64 fl x y fpst =
     (let (r, fpst) = float64_compare_quiet fl x y fpst in (ucast (float_rel_to_flags r), fpst))"

definition helper_vfp_cmped_a64 :: "'f softfloat \<Rightarrow> u64 \<Rightarrow> u64 \<Rightarrow> 'f \<Rightarrow> u64 \<times> 'f" where
  "helper_vfp_cmped_a64 fl x y fpst =
     (let (r, fpst) = float64_compare fl x y fpst in (ucast (float_rel_to_flags r), fpst))"

definition helper_vfp_mulxs :: "'f softfloat \<Rightarrow> u32 \<Rightarrow> u32 \<Rightarrow> 'f \<Rightarrow> u32 \<times> 'f" where
  "helper_vfp_mulxs fl a b fpst =
     (let (a, fpst) = float32_squash_input_denormal fl a fpst;
          (b, fpst) = float32_squash_input_denormal fl b fpst
      in if (float32_is_zero fl a \<and> float32_is_infinity fl b) \<or>
            (float32_is_infinity fl a \<and> float32_is_zero fl b)
         then (push_bit 30 1 OR ((a XOR b) AND push_bit 31 1), fpst)
         else float32_mul fl a b fpst)"

definition helper_vfp_mulxd :: "'f softfloat \<Rightarrow> u64 \<Rightarrow> u64 \<Rightarrow> 'f \<Rightarrow> u64 \<times> 'f" where
  "helper_vfp_mulxd fl a b fpst =
     (let (a, fpst) = float64_squash_input_denormal fl a fpst;
          (b, fpst) = float64_squash_input_denormal fl b fpst
      in if (float64_is_zero fl a \<and> float64_is_infinity fl b) \<or>
            (float64_is_infinity fl a \<and> float64_is_zero fl b)
         then (push_bit 62 1 OR ((a XOR b) AND push_bit 63 1), fpst)
         else float64_mul fl a b fpst)"

definition helper_neon_ceq_f64 :: "'f softfloat \<Rightarrow> u64 \<Rightarrow> u64 \<Rightarrow> 'f \<Rightarrow> u64 \<times> 'f" where
  "helper_neon_ceq_f64 fl a b fpst =
     (let (r, fpst) = float64_eq_quiet fl a b fpst in (- of_bool r, fpst))"

definition helper_neon_cge_f64 :: "'f softfloat \<Rightarrow> u64 \<Rightarrow> u64 \<Rightarrow> 'f \<Rightarrow> u64 \<times> 'f" where
  "helper_neon_cge_f64 fl a b fpst =
     (let (r, fpst) = float64_le fl b a fpst in (- of_bool r, fpst))"

definition helper_neon_cgt_f64 :: "'f softfloat \<Rightarrow> u64 \<Rightarrow> u64 \<Rightarrow> 'f \<Rightarrow> u64 \<times> 'f" where
  "helper_neon_cgt_f64 fl a b fpst =
     (let (r, fpst) = float64_lt fl b a fpst in (- of_bool r, fpst))"

section \<open>Table lookup\<close>

definition extract64 :: "u64 \<Rightarrow> nat \<Rightarrow> nat \<Rightarrow> u64" where
  "extract64 v start len = take_bit len (drop_bit start v)"

definition deposit64 :: "u64 \<Rightarrow> nat \<Rightarrow> nat \<Rightarrow> u64 \<Rightarrow> u64" where
  "deposit64 v start len fv =
     (v AND NOT (push_bit start (mask len))) OR push_bit start (take_bit len fv)"

definition tbl_step :: "u64 list \<Rightarrow> u64 \<Rightarrow> u32 \<Rightarrow> u32 \<Rightarrow> nat \<Rightarrow> u64 \<Rightarrow> u64" where
  "tbl_step regs indices rn numregs i result =
     (let shift = 8 * i;
          index = unat (extract64 indices shift 8)
      in if (of_nat index :: u32) < 16 * numregs then
           let elt = unat ((rn * 2 + of_nat (index div 8)) mod 64);
               bitidx = (index mod 8) * 8;
               val = extract64 (regs ! elt) bitidx 8
           in deposit64 result shift 8 val
         else result)"

definition helper_simd_tbl :: "u64 list \<Rightarrow> u64 \<Rightarrow> u64 \<Rightarrow> u32 \<Rightarrow> u32 \<Rightarrow> u64" where
  "helper_simd_tbl regs result indices rn numregs =
     for_loop 0 8 (tbl_step regs indices rn numregs) result"

section \<open>Reciprocal steps\<close>

definition float32_two :: u32 where "float32_two = 0x40000000"
definition float32_three :: u32 where "float32_three = 0x40400000"
definition float32_one_point_five :: u32 where "float32_one_point_five = 0x3fc00000"
definition float64_two :: u64 where "float64_two = 0x4000000000000000"
definition float64_three :: u64 where "float64_three = 0x4008000000000000"
definition float64_one_point_five :: u64 where "float64_one_point_five = 0x3FF8000000000000"

text \<open>The fourth argument of a fused multiply-add says whether the result is halved.\<close>

definition helper_recpsf_f32 :: "'f softfloat \<Rightarrow> u32 \<Rightarrow> u32 \<Rightarrow> 'f \<Rightarrow> u32 \<times> 'f" where
  "helper_recpsf_f32 fl a b fpst =
     (let (a, fpst) = float32_squash_input_denormal fl a fpst;
          (b, fpst) = float32_squash_input_denormal fl b fpst;
          a = float32_chs fl a
      in if (float32_is_infinity fl a \<and> float32_is_zero fl b) \<or>
            (float32_is_infinity fl b \<and> float32_is_zero fl a)
         then (float32_two, fpst)
         else float32_muladd fl a b float32_two False fpst)"

definition helper_recpsf_f64 :: "'f softfloat \<Rightarrow> u64 \<Rightarrow> u64 \<Rightarrow> 'f \<Rightarrow> u64 \<times> 'f" where
  "helper_recpsf_f64 fl a b fpst =
     (let (a, fpst) = float64_squash_input_denormal fl a fpst;
          (b, fpst) = float64_squash_input_denormal fl b fpst;
          a = float64_chs fl a
      in if (float64_is_infinity fl a \<and> float64_is_zero fl b) \<or>
            (float64_is_infinity fl b \<and> float64_is_zero fl a)
         then (float64_two, fpst)
         else float64_muladd fl a b float64_two False fpst)"

definition helper_rsqrtsf_f32 :: "'f softfloat \<Rightarrow> u32 \<Rightarrow> u32 \<Rightarrow> 'f \<Rightarrow> u32 \<times> 'f" where
  "helper_rsqrtsf_f32 fl a b fpst =
     (let (a, fpst) = float32_squash_input_denormal fl a fpst;
          (b, fpst) = float32_squash_input_denormal fl b fpst;
          a = float32_chs fl a
      in if (float32_is_infinity fl a \<and> float32_is_zero fl b) \<or>
            (float32_is_infinity fl b \<and> float32_is_zero fl a)
         then (float32_one_point_five, fpst)
         else float32_muladd fl a b float32_three True fpst)"

definition helper_rsqrtsf_f64 :: "'f softfloat \<Rightarrow> u64 \<Rightarrow> u64 \<Rightarrow> 'f \<Rightarrow> u64 \<times> 'f" where
  "helper_rsqrtsf_f64 fl a b fpst =
     (let (a, fpst) = float64_squash_input_denormal fl a fpst;
          (b, fpst) = float64_squash_input_denormal fl b fpst;
          a = float64_chs fl a
      in if (float64_is_infinity fl a \<and> float64_is_zero fl b) \<or>
            (float64_is_infinity fl b \<and> float64_is_zero fl a)
         then (float64_one_point_five, fpst)
         else float64_muladd fl a b float64_three True fpst)"

section \<open>Pairwise long additions\<close>

definition sext_fields :: "u64 \<Rightarrow> u64" where
  "sext_fields tmp =
     (let nsignmask = 0x0080008000800080; wsignmask = 0x8000800080008000
      in (((tmp XOR nsignmask) OR wsignmask) - nsignmask) XOR wsignmask)"

definition helper_neon_addlp_s8 :: "u64 \<Rightarrow> u64" where
  "helper_neon_addlp_s8 a =
     (let wsignmask = 0x8000800080008000;
          elementmask = 0x00ff00ff00ff00ff;
          tmp1 = sext_fields (a AND elementmask);
          tmp2 = sext_fields (drop_bit 8 a AND elementmask);
          signres = (tmp1 XOR tmp2) AND wsignmask;
          res = (tmp1 AND NOT wsignmask) + (tmp2 AND NOT wsignmask)
      in res XOR signres)"

definition helper_neon_addlp_u8 :: "u64 \<Rightarrow> u64" where
  "helper_neon_addlp_u8 a =
     (a AND 0x00ff00ff00ff00ff) + (drop_bit 8 a AND 0x00ff00ff00ff00ff)"

definition helper_neon_addlp_s16 :: "u64 \<Rightarrow> u64" where
  "helper_neon_addlp_s16 a =
     (let i16 = (\<lambda>v :: u64. scast (ucast v :: u16) :: u32);
          reslo = i16 a + i16 (drop_bit 16 a);
          reshi = i16 (drop_bit 32 a) + i16 (drop_bit 48 a)
      in ucast reslo OR push_bit 32 (scast reshi))"

definition helper_neon_addlp_u16 :: "u64 \<Rightarrow> u64" where
  "helper_neon_addlp_u16 a =
     (a AND 0x0000ffff0000ffff) + (drop_bit 16 a AND 0x0000ffff0000ffff)"

section \<open>Reciprocal exponent, rounding to odd, checksums\<close>

definition helper_frecpx_f32 :: "'f softfloat \<Rightarrow> u32 \<Rightarrow> 'f \<Rightarrow> u32 \<times> 'f" where
  "helper_frecpx_f32 fl a fpst =
     (if float32_is_any_nan fl a then
        let (nan, fpst) =
              (if float32_is_signaling_nan fl a fpst
               then float32_maybe_silence_nan fl a (float_raise_invalid fl fpst)
               else (a, fpst))
        in (if default_nan_mode fl fpst then float32_default_nan fl fpst else nan, fpst)
      else
        let sbit = 0x80000000 AND a;
            exp = take_bit 8 (drop_bit 23 a)
        in (if exp = 0 then sbit OR push_bit 23 0xfe
            else sbit OR push_bit 23 (NOT exp AND 0xff), fpst))"

definition helper_frecpx_f64 :: "'f softfloat \<Rightarrow> u64 \<Rightarrow> 'f \<Rightarrow> u64 \<times> 'f" where
  "helper_frecpx_f64 fl a fpst =
     (if float64_is_any_nan fl a then
        let (nan, fpst) =
              (if float64_is_signaling_nan fl a fpst
               then float64_maybe_silence_nan fl a (float_raise_invalid fl fpst)
               else (a, fpst))
        in (if default_nan_mode fl fpst then float64_default_nan fl fpst else nan, fpst)
      else
        let sbit = 0x8000000000000000 AND a;
            exp = extract64 a 52 11
        in (if exp = 0 then sbit OR push_bit 52 0x7fe
            else sbit OR push_bit 52 (NOT exp AND 0x7ff), fpst))"

definition helper_fcvtx_f64_to_f32 :: "'f softfloat \<Rightarrow> u64 \<Rightarrow> 'f \<Rightarrow> u32 \<times> 'f" where
  "helper_fcvtx_f64_to_f32 fl a fpst =
     (let tstat = set_exception_flags fl 0 (set_rounding_to_zero fl fpst);
          (r, tstat) = float64_to_float32 fl a tstat;
          (r, tstat) = float32_maybe_silence_nan fl r tstat;
          exflags = get_exception_flags fl tstat;
          r = (if exflags AND float_flag_inexact fl \<noteq> 0 then r OR 1 else r);
          exflags = exflags OR get_exception_flags fl fpst
      in (r, set_exception_flags fl exflags fpst))"

definition stq_le_p :: "u64 \<Rightarrow> u8 list" where
  "stq_le_p v = map (\<lambda>i. ucast (drop_bit (8 * i) v)) [0..<8]"

text \<open>\<open>crc\<close> is zlib's or the kernel's function of the accumulator and the bytes it reads.\<close>

definition helper_crc32_64 :: "(u64 \<Rightarrow> u8 list \<Rightarrow> u64) \<Rightarrow> u64 \<Rightarrow> u64 \<Rightarrow> u32 \<Rightarrow> u64" where
  "helper_crc32_64 crc acc val bytes =
     crc (acc XOR 0xffffffff) (take (unat bytes) (stq_le_p val)) XOR 0xffffffff"

definition helper_crc32c_64 :: "(u32 \<Rightarrow> u8 list \<Rightarrow> u32) \<Rightarrow> u64 \<Rightarrow> u64 \<Rightarrow> u32 \<Rightarrow> u64" where
  "helper_crc32c_64 crc acc val bytes =
     ucast (crc (ucast acc) (take (unat bytes) (stq_le_p val)) XOR 0xffffffff)"

section \<open>Facts on words\<close>

lemma nat_low_parts_add:
  fixes P Q :: nat
  assumes "\<And>j. j < k \<Longrightarrow> P div 2 ^ (n * j) mod 2 ^ n + Q div 2 ^ (n * j) mod 2 ^ n < 2 ^ n"
  shows "P mod 2 ^ (n * k) + Q mod 2 ^ (n * k) < 2 ^ (n * k)"
  using assms
proof (induction k)
  case (Suc k)
  let ?M = "2 ^ (n * k) :: nat"
  have e: "2 ^ (n * Suc k) = ?M * 2 ^ n" by (simp add: power_add mult.commute)
  have low: "P mod ?M + Q mod ?M < ?M" using Suc by simp
  have "P div ?M mod 2 ^ n + Q div ?M mod 2 ^ n + 1 \<le> 2 ^ n" using Suc.prems [of k] by simp
  then have "?M * (P div ?M mod 2 ^ n + Q div ?M mod 2 ^ n + 1) \<le> ?M * 2 ^ n" by (rule mult_le_mono2)
  then show ?case unfolding e mod_mult2_eq using low by (simp add: distrib_left)
qed simp

definition lane16 :: "nat \<Rightarrow> u64 \<Rightarrow> u16" where
  "lane16 k a = ucast (drop_bit (16 * k) a)"

lemma unat_lane16: "unat (lane16 k a) = unat a div 2 ^ (16 * k) mod 2 ^ 16"
proof -
  have "take_bit LENGTH(64) (unat a) = unat a"
    by (rule take_bit_nat_eq_self) (rule unsigned_less)
  moreover have "LENGTH(16) = 16" by simp
  ultimately show ?thesis
    by (simp only: lane16_def unsigned_ucast_eq unsigned_drop_bit_eq) (simp only: take_bit_eq_mod drop_bit_eq_div)
qed

lemma lane16_bitwise [simp]:
  "lane16 k (a AND b) = lane16 k a AND lane16 k b"
  "lane16 k (a OR b) = lane16 k a OR lane16 k b"
  "lane16 k (a XOR b) = lane16 k a XOR lane16 k b"
  by (simp_all add: lane16_def unsigned_and_eq unsigned_or_eq unsigned_xor_eq)

lemma lane16_not: "k < 4 \<Longrightarrow> lane16 k (NOT a) = NOT (lane16 k a)"
  unfolding lane16_def by (rule bit_word_eqI) (auto simp: bit_simps)

lemma len64: "LENGTH(64) = 64" by simp
lemma len16: "LENGTH(16) = 16" by simp

lemma lane16_add:
  assumes "k < 4" and "\<And>j. j < k \<Longrightarrow> unat (lane16 j p) + unat (lane16 j q) < 2 ^ 16"
  shows "lane16 k (p + q) = lane16 k p + lane16 k q"
proof -
  let ?M = "2 ^ (16 * k) :: nat"
  have low: "unat p mod ?M + unat q mod ?M < ?M"
    by (rule nat_low_parts_add) (use assms(2) in \<open>simp add: unat_lane16\<close>)
  have L: "(2 :: nat) ^ 64 = ?M * 2 ^ (64 - 16 * k)"
    using assms(1) by (simp flip: power_add)
  have d: "(2 :: nat) ^ 16 dvd 2 ^ (64 - 16 * k)" using assms(1) by (intro le_imp_power_dvd) simp
  have "unat (p + q) div ?M mod 2 ^ 16 = (unat p + unat q) mod (?M * 2 ^ (64 - 16 * k)) div ?M mod 2 ^ 16"
    by (simp only: unat_word_ariths(1) len64 L)
  also have "\<dots> = (unat p + unat q) div ?M mod 2 ^ (64 - 16 * k) mod 2 ^ 16"
    by (simp add: mod_mult2_eq)
  also have "\<dots> = (unat p + unat q) div ?M mod 2 ^ 16"
    using d by (rule mod_mod_cancel)
  also have "\<dots> = (unat p div ?M + unat q div ?M) mod 2 ^ 16"
    using low by (subst div_add1_eq) simp
  also have "\<dots> = (unat p div ?M mod 2 ^ 16 + unat q div ?M mod 2 ^ 16) mod 2 ^ 16"
    by (rule mod_add_eq [symmetric])
  also have "\<dots> = unat (lane16 k p + lane16 k q)"
    by (simp only: unat_lane16 unat_word_ariths(1) len16)
  finally have "unat (lane16 k (p + q)) = unat (lane16 k p + lane16 k q)"
    by (simp only: unat_lane16)
  then show ?thesis by (simp only: word_unat_eq_iff)
qed

lemma lane16_consts:
  assumes "k < 4"
  shows "lane16 k 0x0080008000800080 = 0x80" "lane16 k 0x8000800080008000 = 0x8000"
    "lane16 k 0x00ff00ff00ff00ff = 0xff" "lane16 k 0x7f807f807f807f80 = 0x7f80"
  using less_4_cases [OF assms] by (auto simp: lane16_def)

lemma sext_fields_and:
  "sext_fields (a AND 0x00ff00ff00ff00ff) =
     (0x7f807f807f807f80 + ((a AND 0x00ff00ff00ff00ff) XOR 0x0080008000800080)) XOR 0x8000800080008000"
proof -
  let ?z = "(a AND 0x00ff00ff00ff00ff) XOR 0x0080008000800080"
  have "(a AND 0x00ff00ff00ff00ff) AND 0x8000800080008000 = 0" by (simp add: and.assoc)
  then have "?z AND 0x8000800080008000 = 0" by (simp add: bit.conj_xor_distrib2)
  then have "?z OR 0x8000800080008000 = ?z + 0x8000800080008000" by (simp add: disjunctive_add_eq_or)
  then show ?thesis by (simp add: sext_fields_def Let_def)
qed

lemma xor_msb: "(z :: 'a :: len word) XOR 2 ^ (LENGTH('a) - 1) = z + 2 ^ (LENGTH('a) - 1)"
proof -
  let ?m = "2 ^ (LENGTH('a) - 1) :: 'a word"
  have add: "y XOR ?m = y + ?m" if "\<not> bit y (LENGTH('a) - 1)" for y
    by (rule disjunctive_add_eq_xor [symmetric]) (simp only: and_exp_eq_0_iff_not_bit that not_False_eq_True)
  have "2 * ?m = 0"
    by (simp flip: power_Suc)
  then have two: "?m + ?m = 0" by simp
  show ?thesis
  proof (cases "bit z (LENGTH('a) - 1)")
    case True
    then have "\<not> bit (z XOR ?m) (LENGTH('a) - 1)" by (simp add: bit_simps)
    from add [OF this] have "z = (z XOR ?m) + ?m" by (simp add: xor.assoc)
    then have "z + ?m = ((z XOR ?m) + ?m) + ?m" by (rule arg_cong)
    then show ?thesis using two by (simp only: add.assoc add_0_right)
  qed (rule add)
qed

lemma sint_offset8: "uint ((b :: u8) + 0x80) = sint b + 0x80"
proof -
  have r: "- 128 \<le> sint b \<and> sint b < 128" using sint_range_size [of b] by (simp add: word_size)
  have "b + 0x80 = word_of_int (sint b + 0x80)" by simp
  then have "uint (b + 0x80) = uint (word_of_int (sint b + 0x80) :: u8)" by (rule arg_cong)
  then have "uint (b + 0x80) = (sint b + 0x80) mod 256" by (simp only: uint_word_of_int) simp
  then show ?thesis using r by simp
qed

lemma byte_sext: "(0x7f80 + ((ucast (b :: u8) :: u16) XOR 0x80)) XOR 0x8000 = scast b"
proof -
  have x: "b XOR 0x80 = b + 0x80" using xor_msb [of b] by simp
  have "(ucast b :: u16) XOR 0x80 = ucast (b + 0x80)" by (simp add: x [symmetric] unsigned_xor_eq)
  also have "\<dots> = word_of_int (sint b + 0x80)" by (simp add: sint_offset8 [symmetric])
  finally show ?thesis using xor_msb [of "0x7f80 + ((ucast b :: u16) XOR 0x80)"] by simp
qed

lemma u16_and_ff: "(ucast (x :: u64) :: u16) AND 0xff = ucast (ucast x :: u8)"
proof -
  have "(0xff :: u16) = mask 8" by (simp add: mask_eq_exp_minus_1)
  then have "(ucast x :: u16) AND 0xff = take_bit 8 (ucast x)" by (simp only: take_bit_eq_mask)
  also have "\<dots> = ucast (ucast x :: u8)" by (rule bit_word_eqI) (auto simp: bit_simps)
  finally show ?thesis .
qed

lemma lane16_bytes:
  assumes "k < 4"
  shows "lane16 k (a AND 0x00ff00ff00ff00ff) = ucast (ucast (drop_bit (16 * k) a) :: u8)"
  using assms by (simp only: lane16_bitwise lane16_consts) (simp add: lane16_def u16_and_ff)

lemma lane16_sext:
  assumes "k < 4"
  shows "lane16 k (sext_fields (a AND 0x00ff00ff00ff00ff)) = scast (ucast (drop_bit (16 * k) a) :: u8)"
proof -
  let ?z = "(a AND 0x00ff00ff00ff00ff) XOR 0x0080008000800080"
  have lt: "unat (lane16 j ?z) < 2 ^ 8" if "j < 4" for j
  proof -
    have "lane16 j ?z = ucast ((ucast (drop_bit (16 * j) a) :: u8) XOR 0x80)"
      using that by (simp only: lane16_bitwise(3) lane16_bytes lane16_consts(1) unsigned_xor_eq) simp
    then show ?thesis using unsigned_less [of "(ucast (drop_bit (16 * j) a) :: u8) XOR 0x80", where 'a = nat]
      by (simp only: unsigned_ucast_eq) (simp add: take_bit_eq_mod)
  qed
  have "lane16 k (0x7f807f807f807f80 + ?z) = 0x7f80 + lane16 k ?z"
  proof (subst lane16_add [OF assms])
    fix j assume "j < k"
    with assms have j: "j < 4" by simp
    show "unat (lane16 j 0x7f807f807f807f80) + unat (lane16 j ?z) < 2 ^ 16"
      using lt [OF j] lane16_consts(4) [OF j] by simp
  qed (simp add: lane16_consts(4) [OF assms])
  moreover have "lane16 k ?z = ucast (ucast (drop_bit (16 * k) a) :: u8) XOR 0x80"
    by (simp only: lane16_bitwise(3) lane16_bytes [OF assms] lane16_consts(1) [OF assms])
  ultimately show ?thesis
    by (simp only: sext_fields_and lane16_bitwise(3) lane16_consts(2) [OF assms] byte_sext)
qed

lemma and_exp_word: "(z :: 'a :: len word) AND 2 ^ n = (if bit z n then 2 ^ n else 0)"
  by (rule bit_word_eqI) (auto simp: bit_simps)

lemma signed_halves_add:
  fixes x y :: u16
  shows "((x AND NOT 0x8000) + (y AND NOT 0x8000)) XOR ((x XOR y) AND 0x8000) = x + y"
proof -
  let ?m = "0x8000 :: u16"
  have split: "z = (z AND NOT ?m) + (z AND ?m)" for z
    by (subst disjunctive_add_eq_or) (simp_all add: and.assoc bit.conj_disj_distrib [symmetric] flip: and.left_commute)
  have msb: "z AND ?m = (if bit z 15 then ?m else 0)" for z :: u16
    using and_exp_word [of z 15] by simp
  have two: "?m + ?m = 0" by simp
  have flip: "z XOR ?m = z + ?m" for z :: u16 using xor_msb [of z] by simp
  have "x + y = ((x AND NOT ?m) + (x AND ?m)) + ((y AND NOT ?m) + (y AND ?m))"
    by (rule arg_cong2 [OF split split])
  also have "\<dots> = ((x AND NOT ?m) + (y AND NOT ?m)) + ((x AND ?m) + (y AND ?m))"
    by (simp only: ac_simps)
  also have "\<dots> = ((x AND NOT ?m) + (y AND NOT ?m)) XOR ((x XOR y) AND ?m)"
    by (cases "bit x 15"; cases "bit y 15") (simp_all only: msb bit_xor_iff flip two simp_thms if_True if_False xor.right_neutral add_0_left add_0_right)
  finally show ?thesis by simp
qed

text \<open>The elements of a packed value.\<close>

definition elem8 :: "u64 \<Rightarrow> nat \<Rightarrow> u8" where "elem8 a i = ucast (drop_bit (8 * i) a)"
definition elem16 :: "u64 \<Rightarrow> nat \<Rightarrow> u16" where "elem16 a i = ucast (drop_bit (16 * i) a)"
definition elem32 :: "u64 \<Rightarrow> nat \<Rightarrow> u32" where "elem32 a i = ucast (drop_bit (32 * i) a)"

lemma elem16_lane16: "elem16 a k = lane16 k a" by (simp add: elem16_def lane16_def)

lemma not_8000: "NOT (0x8000 :: u16) = mask 15" by code_simp

lemma unat_ucast_8_16: "unat (ucast (b :: u8) :: u16) = unat b"
  using unsigned_less [of b, where 'a = nat] by (simp add: unsigned_ucast_eq take_bit_nat_eq_self)

lemma addlp_s8_lane:
  assumes "k < 4"
  shows "elem16 (helper_neon_addlp_s8 a) k = scast (elem8 a (2 * k)) + scast (elem8 a (2 * k + 1))"
proof -
  let ?e = "0x00ff00ff00ff00ff :: u64" and ?w = "0x8000800080008000 :: u64"
  let ?x = "sext_fields (a AND ?e)" and ?y = "sext_fields (drop_bit 8 a AND ?e)"
  have sum: "lane16 k ((?x AND NOT ?w) + (?y AND NOT ?w)) = lane16 k (?x AND NOT ?w) + lane16 k (?y AND NOT ?w)"
  proof (rule lane16_add [OF assms])
    fix j assume "j < k"
    with assms have j: "j < 4" by simp
    have low: "unat (lane16 j (z AND NOT ?w)) < 2 ^ 15" for z
    proof -
      have "lane16 j (z AND NOT ?w) = lane16 j z AND mask 15"
        by (simp only: lane16_bitwise(1) lane16_not [OF j] lane16_consts(2) [OF j] not_8000)
      then show ?thesis using take_bit_nat_less_exp [of 15 "unat (lane16 j z)"]
        by (simp only: unsigned_take_bit_eq flip: take_bit_eq_mask)
    qed
    show "unat (lane16 j (?x AND NOT ?w)) + unat (lane16 j (?y AND NOT ?w)) < 2 ^ 16"
      using low [of ?x] low [of ?y] by simp
  qed
  have "lane16 k (helper_neon_addlp_s8 a) = lane16 k ?x + lane16 k ?y"
    by (simp only: helper_neon_addlp_s8_def Let_def lane16_bitwise(1,3) lane16_not [OF assms] sum
        lane16_consts(2) [OF assms] signed_halves_add)
  then show ?thesis
    by (simp only: elem16_lane16 elem8_def lane16_sext [OF assms] drop_bit_drop_bit) (simp add: algebra_simps)
qed

lemma addlp_u8_lane:
  assumes "k < 4"
  shows "elem16 (helper_neon_addlp_u8 a) k = ucast (elem8 a (2 * k)) + ucast (elem8 a (2 * k + 1))"
proof -
  let ?e = "0x00ff00ff00ff00ff :: u64"
  have low: "unat (lane16 j (z AND ?e)) < 2 ^ 8" if "j < 4" for j z
    using unsigned_less [of "ucast (drop_bit (16 * j) z) :: u8", where 'a = nat]
    by (simp only: lane16_bytes [OF that] unat_ucast_8_16) simp
  have "lane16 k (helper_neon_addlp_u8 a) = lane16 k (a AND ?e) + lane16 k (drop_bit 8 a AND ?e)"
    unfolding helper_neon_addlp_u8_def
  proof (rule lane16_add [OF assms])
    fix j assume "j < k"
    with assms have j: "j < 4" by simp
    show "unat (lane16 j (a AND ?e)) + unat (lane16 j (drop_bit 8 a AND ?e)) < 2 ^ 16"
      using low [OF j, of a] low [OF j, of "drop_bit 8 a"] by simp
  qed
  then show ?thesis
    by (simp only: elem16_lane16 elem8_def lane16_bytes [OF assms] drop_bit_drop_bit) (simp add: algebra_simps)
qed

lemma elem32_s16_or:
  "elem32 (ucast (lo :: u32) OR push_bit 32 (scast (hi :: u32))) 0 = lo"
  "elem32 (ucast (lo :: u32) OR push_bit 32 (scast (hi :: u32))) 1 = hi"
  unfolding elem32_def by (rule bit_word_eqI, auto simp: bit_simps dest: bit_imp_le_length)+

lemma elem16_masked:
  "(a AND 0x0000ffff0000ffff) = (a AND push_bit 32 (mask 16) OR a AND mask 16)" for a :: u64
proof -
  have "(0x0000ffff0000ffff :: u64) = push_bit 32 (mask 16) OR mask 16" by (simp add: mask_eq_exp_minus_1)
  then show ?thesis by (simp only: bit.conj_disj_distrib)
qed

lemma unat_u16_parts:
  fixes a :: u64
  shows "unat (a AND 0x0000ffff0000ffff) = unat (elem16 a 0) + 2 ^ 32 * unat (elem16 a 2)"
proof -
  have e: "elem16 a 2 = ucast (drop_bit 32 a)" "elem16 a 0 = ucast a" by (simp_all add: elem16_def)
  have d: "(a AND 0x0000ffff0000ffff) = (ucast (elem16 a 0) :: u64) OR push_bit 32 (ucast (elem16 a 2))"
    unfolding elem16_masked e by (rule bit_word_eqI) (auto simp: bit_simps)
  have "(ucast (elem16 a 0) :: u64) AND push_bit 32 (ucast (elem16 a 2)) = 0"
    by (rule bit_word_eqI) (auto simp: bit_simps dest: bit_imp_le_length)
  then have d': "(a AND 0x0000ffff0000ffff) = ucast (elem16 a 0) + push_bit 32 (ucast (elem16 a 2))"
    unfolding d by (simp add: disjunctive_add_eq_or)
  have "(a AND 0x0000ffff0000ffff) = of_nat (unat (elem16 a 0) + 2 ^ 32 * unat (elem16 a 2))"
    unfolding d' by (simp add: push_bit_eq_mult)
  then have "unat (a AND 0x0000ffff0000ffff) = unat (of_nat (unat (elem16 a 0) + 2 ^ 32 * unat (elem16 a 2)) :: u64)"
    by (rule arg_cong)
  also have "\<dots> = unat (elem16 a 0) + 2 ^ 32 * unat (elem16 a 2)"
    using unsigned_less [of "elem16 a 0", where 'a = nat] unsigned_less [of "elem16 a 2", where 'a = nat]
    by (simp only: unat_of_nat len64) simp
  finally show ?thesis .
qed

lemma addlp_u16_elems:
  "elem32 (helper_neon_addlp_u16 a) 0 = ucast (elem16 a 0) + ucast (elem16 a 1)"
  "elem32 (helper_neon_addlp_u16 a) 1 = ucast (elem16 a 2) + ucast (elem16 a 3)"
proof -
  let ?e = "elem16 a"
  have b: "unat (?e i) < 2 ^ 16" for i using unsigned_less [of "?e i", where 'a = nat] by simp
  have sh: "elem16 (drop_bit 16 a) i = ?e (i + 1)" for i by (simp add: elem16_def add.commute)
  have lt: "unat (?e 0) + unat (?e 1) + 2 ^ 32 * (unat (?e 2) + unat (?e 3)) < 2 ^ 64"
    using b [of 0] b [of 1] b [of 2] b [of 3] by simp
  have parts: "unat (drop_bit 16 a AND 0x0000ffff0000ffff) = unat (?e 1) + 2 ^ 32 * unat (?e 3)"
    using unat_u16_parts [of "drop_bit 16 a"] by (simp add: sh)
  have U: "unat (helper_neon_addlp_u16 a) = unat (?e 0) + unat (?e 1) + 2 ^ 32 * (unat (?e 2) + unat (?e 3))"
    unfolding helper_neon_addlp_u16_def
    by (subst unat_word_ariths(1)) (use lt parts in \<open>simp add: unat_u16_parts sh\<close>)
  have lo: "unat (helper_neon_addlp_u16 a) mod 2 ^ 32 = unat (?e 0) + unat (?e 1)"
    unfolding U mod_mult_self2 using b [of 0] b [of 1] by simp
  have hi: "unat (helper_neon_addlp_u16 a) div 2 ^ 32 = unat (?e 2) + unat (?e 3)"
    unfolding U using b [of 0] b [of 1] by (subst div_mult_self2) simp_all
  have el: "unat (elem32 x i) = unat x div 2 ^ (32 * i) mod 2 ^ 32" for x i
  proof -
    have "take_bit LENGTH(64) (unat x) = unat x" by (rule take_bit_nat_eq_self) (rule unsigned_less)
    then show ?thesis
      by (simp only: elem32_def unsigned_ucast_eq unsigned_drop_bit_eq) (simp add: take_bit_eq_mod drop_bit_eq_div)
  qed
  have uc: "unat (ucast x + ucast y :: u32) = unat x + unat y" for x y :: u16
    using unsigned_less [of x, where 'a = nat] unsigned_less [of y, where 'a = nat]
    by (simp add: unat_word_ariths unsigned_ucast_eq take_bit_nat_eq_self)
  show "elem32 (helper_neon_addlp_u16 a) 0 = ucast (?e 0) + ucast (?e 1)"
    "elem32 (helper_neon_addlp_u16 a) 1 = ucast (?e 2) + ucast (?e 3)"
    using b [of 0] b [of 1] b [of 2] b [of 3] lo hi by (simp_all add: word_unat_eq_iff el uc)
qed

text \<open>
  The pairwise long additions compute, on packed elements, the sum of each pair of neighbours in
  the double width: the carries never leave an element.
\<close>

theorem neon_addlp_elementwise:
  "map (elem16 (helper_neon_addlp_s8 a)) [0, 1, 2, 3] =
     map (\<lambda>k. scast (elem8 a (2 * k)) + scast (elem8 a (2 * k + 1))) [0, 1, 2, 3] \<and>
   map (elem16 (helper_neon_addlp_u8 a)) [0, 1, 2, 3] =
     map (\<lambda>k. ucast (elem8 a (2 * k)) + ucast (elem8 a (2 * k + 1))) [0, 1, 2, 3] \<and>
   map (elem32 (helper_neon_addlp_s16 a)) [0, 1] =
     map (\<lambda>k. scast (elem16 a (2 * k)) + scast (elem16 a (2 * k + 1))) [0, 1] \<and>
   map (elem32 (helper_neon_addlp_u16 a)) [0, 1] =
     map (\<lambda>k. ucast (elem16 a (2 * k)) + ucast (elem16 a (2 * k + 1))) [0, 1]"
proof (intro conjI)
  show "map (elem32 (helper_neon_addlp_s16 a)) [0, 1] =
     map (\<lambda>k. scast (elem16 a (2 * k)) + scast (elem16 a (2 * k + 1))) [0, 1]"
    by (simp only: helper_neon_addlp_s16_def Let_def list.map elem32_s16_or) (simp add: elem16_def)
  show "map (elem32 (helper_neon_addlp_u16 a)) [0, 1] =
     map (\<lambda>k. ucast (elem16 a (2 * k)) + ucast (elem16 a (2 * k + 1))) [0, 1]"
    using addlp_u16_elems [of a] by (simp add: numeral_eq_Suc)
qed (simp_all add: addlp_s8_lane addlp_u8_lane numeral_eq_Suc)

section \<open>Division\<close>

lemma sdiv_rem_bounds:
  fixes a b :: int
  assumes "b \<noteq> 0"
  shows "\<bar>a - (a sdiv b) * b\<bar> < \<bar>b\<bar>" and "0 \<le> (a - (a sdiv b) * b) * a" and "\<bar>a sdiv b\<bar> \<le> \<bar>a\<bar>"
proof -
  have eq: "a - (a sdiv b) * b = sgn a * (\<bar>a\<bar> mod \<bar>b\<bar>)"
    using assms by (simp add: signed_divide_int_def sgn_mult minus_div_mult_eq_mod [symmetric] algebra_simps abs_sgn)
  show "\<bar>a - (a sdiv b) * b\<bar> < \<bar>b\<bar>"
    unfolding eq using assms by (simp add: abs_mult abs_sgn_eq)
  show "0 \<le> (a - (a sdiv b) * b) * a"
    unfolding eq using assms by (cases a "0 :: int" rule: linorder_cases) (simp_all add: mult_nonneg_nonpos)
  have "\<bar>a\<bar> div \<bar>b\<bar> \<le> \<bar>a\<bar>"
    by (metis abs_ge_zero assms div_by_1 dual_order.strict_iff_order int_one_le_iff_zero_less zdiv_mono2 zero_less_abs_iff zero_less_one)
  then show "\<bar>a sdiv b\<bar> \<le> \<bar>a\<bar>"
    using assms pos_imp_zdiv_nonneg_iff [of "\<bar>b\<bar>" "\<bar>a\<bar>"] by (auto simp: signed_divide_int_def abs_mult abs_sgn_eq)
qed

lemma sdiv_in_range:
  fixes a b :: int
  assumes "b \<noteq> 0" and "- (2 ^ 63) \<le> a" and "a < 2 ^ 63" and "\<not> (a = - (2 ^ 63) \<and> b = -1)"
  shows "- (2 ^ 63) \<le> a sdiv b" and "a sdiv b < 2 ^ 63"
proof -
  have le: "\<bar>a sdiv b\<bar> \<le> \<bar>a\<bar>" by (rule sdiv_rem_bounds(3)) (rule assms(1))
  then show "- (2 ^ 63) \<le> a sdiv b" using assms by linarith
  show "a sdiv b < 2 ^ 63"
  proof (rule ccontr)
    assume n: "\<not> a sdiv b < 2 ^ 63"
    with le assms have a: "a = - (2 ^ 63)" and q: "a sdiv b = 2 ^ 63" by linarith+
    from sdiv_rem_bounds(1) [OF assms(1), of a] have "\<bar>- (2 ^ 63) - 2 ^ 63 * b\<bar> < \<bar>b\<bar>"
      unfolding q unfolding a .
    then have "b = -1" by (simp add: abs_if split: if_splits)
    with a assms(4) show False by simp
  qed
qed

lemma sint_bounds64: "- (2 ^ 63) \<le> sint (w :: u64)" "sint w < 2 ^ 63"
  using sint_range_size [of w] by (simp_all add: word_size)

text \<open>
  Signed division rounds toward zero: the remainder is smaller than the divisor and has the sign
  of the dividend. Division by zero gives zero and the one quotient that does not fit gives the
  minimum again.
\<close>

theorem helper_sdiv64_truncates:
  "(let a = sint num; b = sint den; q = sint (helper_sdiv64 num den) in
      if b = 0 then q = 0
      else if a = - (2 ^ 63) \<and> b = -1 then q = - (2 ^ 63)
      else \<bar>a - q * b\<bar> < \<bar>b\<bar> \<and> 0 \<le> (a - q * b) * a)"
proof -
  have min: "sint LLONG_MIN = - (2 ^ 63)" by (simp add: LLONG_MIN_def)
  have zero: "den = 0 \<longleftrightarrow> sint den = 0" using signed_word_eqI [of den 0] by auto
  have nmin: "num = LLONG_MIN \<longleftrightarrow> sint num = - (2 ^ 63)" by (metis min signed_word_eqI)
  have m1: "den = -1 \<longleftrightarrow> sint den = -1" using signed_word_eqI [of den "-1"] by auto
  have val: "sint (word_of_int (sint num sdiv sint den) :: u64) = sint num sdiv sint den"
    if "sint den \<noteq> 0" "\<not> (sint num = - (2 ^ 63) \<and> sint den = -1)"
    unfolding sint_sbintrunc'
    using sdiv_in_range [OF that(1) sint_bounds64 that(2)] by (simp add: signed_take_bit_int_eq_self)
  show ?thesis
    using sdiv_rem_bounds(1,2) [of "sint den" "sint num"] val
    by (auto simp: Let_def helper_sdiv64_def zero nmin m1 min)
qed

section \<open>Table lookup, reciprocal exponent\<close>

lemma deposit64_byte:
  assumes "i < 8"
  shows "bit (deposit64 r (8 * i) 8 v) n = (if n div 8 = i then bit v (n - 8 * i) else bit r n)"
proof -
  have "8 * i \<le> n \<and> n - 8 * i < 8 \<longleftrightarrow> n div 8 = i" by auto
  then show ?thesis using assms
    by (auto simp: deposit64_def bit_simps not_le not_less dest: bit_imp_le_length)
qed

text \<open>Byte \<open>k\<close> of the registers from \<open>rn\<close> on, which wrap around after register 31.\<close>

definition table_byte :: "u64 list \<Rightarrow> u32 \<Rightarrow> nat \<Rightarrow> u8" where
  "table_byte regs rn k = elem8 (regs ! ((unat rn * 2 + k div 8) mod 64)) (k mod 8)"

lemma table_index:
  assumes "k < 256"
  shows "unat ((rn * 2 + of_nat (k div 8)) mod 64 :: u32) = (unat rn * 2 + k div 8) mod 64"
proof -
  have d: "(64 :: nat) dvd 2 ^ 32" by simp
  have "unat (rn * 2 + of_nat (k div 8) :: u32) mod 64 = (unat rn * 2 + k div 8) mod 2 ^ 32 mod 64"
    using assms by (simp add: unat_word_ariths unat_of_nat mod_simps)
  then show ?thesis using d by (simp add: unat_mod_distrib mod_mod_cancel)
qed

lemma elem8_deposit:
  assumes "i < 8" "j < 8"
  shows "elem8 (deposit64 r (8 * j) 8 v) i = (if i = j then ucast v else elem8 r i)"
  using assms by (auto simp: elem8_def bit_simps deposit64_byte intro!: bit_word_eqI)

definition tbl_byte :: "u64 list \<Rightarrow> u64 \<Rightarrow> u64 \<Rightarrow> u32 \<Rightarrow> u32 \<Rightarrow> nat \<Rightarrow> u8" where
  "tbl_byte regs result indices rn numregs i =
     (let k = unat (elem8 indices i)
      in if (of_nat k :: u32) < 16 * numregs then table_byte regs rn k else elem8 result i)"

lemma extract64_byte: "extract64 v (8 * i) 8 = ucast (elem8 v i)"
  by (rule bit_word_eqI) (auto simp: extract64_def elem8_def bit_simps)

lemma tbl_step_byte:
  assumes "i < 8" "j < 8"
  shows "elem8 (tbl_step regs indices rn numregs j r) i =
    (if i = j then tbl_byte regs r indices rn numregs j else elem8 r i)"
proof -
  let ?k = "unat (elem8 indices j)"
  have k: "unat (extract64 indices (8 * j) 8) = ?k"
    using unsigned_less [of "elem8 indices j", where 'a = nat]
    by (simp add: extract64_byte unsigned_ucast_eq take_bit_nat_eq_self)
  have uc: "(ucast (extract64 indices (8 * j) 8) :: u32) = ucast (elem8 indices j)"
    unfolding extract64_byte by (rule bit_word_eqI) (auto simp: bit_simps)
  have k256: "?k < 256" using unsigned_less [of "elem8 indices j", where 'a = nat] by simp
  have byte: "ucast (extract64 w ((?k mod 8) * 8) 8) = elem8 w (?k mod 8)" for w
    unfolding mult.commute [of _ 8] extract64_byte by (rule bit_word_eqI) (auto simp: bit_simps)
  show ?thesis
    by (simp add: tbl_step_def tbl_byte_def Let_def k table_index [OF k256] table_byte_def elem8_deposit assms byte uc)
qed

text \<open>
  \<open>TBL\<close> and \<open>TBX\<close>: each byte of the index vector that lies in the table of \<open>numregs\<close> registers
  selects the byte of the table, which wraps around after the last register; the other bytes keep
  what the result had.
\<close>

theorem helper_simd_tbl_bytes:
  "map (elem8 (helper_simd_tbl regs result indices rn numregs)) [0..<8] =
     map (tbl_byte regs result indices rn numregs) [0..<8]"
proof -
  let ?P = "\<lambda>j r. \<forall>i < 8. elem8 r i = (if i < j then tbl_byte regs result indices rn numregs i else elem8 result i)"
  have "?P 8 (helper_simd_tbl regs result indices rn numregs)"
    unfolding helper_simd_tbl_def
  proof (rule for_loop_invariant [where P = ?P])
    fix j r assume "0 \<le> j" and j: "j < 8" and P: "?P j r"
    from P j have "tbl_byte regs r indices rn numregs j = tbl_byte regs result indices rn numregs j"
      by (simp add: tbl_byte_def Let_def)
    with P j show "?P (Suc j) (tbl_step regs indices rn numregs j r)"
      by (simp add: tbl_step_byte less_Suc_eq)
  qed simp_all
  then show ?thesis by simp
qed

lemma bit_and_exp: "bit (a AND 2 ^ m) n \<longleftrightarrow> n = m \<and> bit (a :: u64) n"
  by (auto simp: bit_simps dest: bit_imp_le_length)

text \<open>
  The reciprocal exponent of a number keeps the sign, clears the fraction and complements the
  exponent, a zero exponent counting as the largest finite one; the status is not touched.
\<close>

theorem helper_frecpx_f64_fields:
  assumes "\<not> float64_is_any_nan fl a"
  shows "(let r = fst (helper_frecpx_f64 fl a fpst); e = extract64 a 52 11 in
            snd (helper_frecpx_f64 fl a fpst) = fpst \<and> bit r 63 = bit a 63 \<and> take_bit 52 r = 0 \<and>
            extract64 r 52 11 = (if e = 0 then 0x7fe else e XOR 0x7ff))"
proof -
  let ?s = "0x8000000000000000 AND a" and ?e = "extract64 a 52 11"
  have sgn: "bit ?s n \<longleftrightarrow> n = 63 \<and> bit a 63" for n
    using bit_and_exp [of a 63 n] by (auto simp: and.commute)
  have fields: "bit (?s OR push_bit 52 (take_bit 11 x)) 63 = bit a 63 \<and>
      take_bit 52 (?s OR push_bit 52 (take_bit 11 x)) = 0 \<and>
      extract64 (?s OR push_bit 52 (take_bit 11 x)) 52 11 = take_bit 11 x" for x :: u64
    unfolding extract64_def
    by (intro conjI bit_word_eqI) (auto simp: bit_simps sgn simp del: bit_and_iff)
  have c: "NOT ?e AND 0x7ff = take_bit 11 (NOT ?e)"
    by (simp add: take_bit_eq_mask mask_eq_exp_minus_1)
  have x: "take_bit 11 (NOT ?e) = ?e XOR 0x7ff"
  proof -
    have "?e XOR mask 11 = take_bit 11 (NOT ?e)"
      by (rule bit_word_eqI) (auto simp: extract64_def bit_simps)
    then show ?thesis by (simp add: mask_eq_exp_minus_1)
  qed
  have k: "(0x7fe :: u64) = take_bit 11 0x7fe" by simp
  show ?thesis
    using assms fields [of "0x7fe"] fields [of "NOT ?e"]
    by (simp add: helper_frecpx_f64_def Let_def c x [symmetric])
qed

theorem helper_frecpx_f64_fields_witness:
  "(let fl = undefined\<lparr>float64_is_any_nan := \<lambda>_. False\<rparr> :: unit softfloat; a = 0xC000000000000000;
        r = fst (helper_frecpx_f64 fl a ()); e = extract64 a 52 11 in
      snd (helper_frecpx_f64 fl a ()) = () \<and> bit r 63 = bit a 63 \<and> take_bit 52 r = 0 \<and>
      extract64 r 52 11 = (if e = 0 then 0x7fe else e XOR 0x7ff))"
  using helper_frecpx_f64_fields [of "undefined\<lparr>float64_is_any_nan := \<lambda>_. False\<rparr>" "0xC000000000000000" "()"]
  by (simp only: Let_def softfloat.select_convs softfloat.update_convs simp_thms) simp

end
