(* ===== verification/A64Sem.thy ===== *)
theory A64Sem
  imports A64Gen A64Helper
begin

text \<open>
  What the emitted operations do. The effect of one operation on the processor is the parameter
  \<open>step S\<close>; the locale \<open>tcg_semantics\<close> states what TCG, the host utilities and the helpers
  document of it, for the operations and in the ranges for which they define a result. Running a
  block follows the labels forward and stops at the exit of the block or at an exception. The last
  section gives a processor that satisfies the laws.
\<close>

section \<open>The processor\<close>

text \<open>\<open>printed\<close> collects the calls of the printer helper, \<open>mem\<close> is the memory of the guest by virtual
  address and \<open>vfp\<close> the array \<open>vfp.regs\<close> of the SIMD and floating-point registers by byte.\<close>

record cpu =
  r64 :: "tv64 \<Rightarrow> u64"
  r32 :: "tv32 \<Rightarrow> u32"
  printed :: "(u64 \<times> u64 \<times> u64) list"
  mem :: "u64 \<Rightarrow> u8"
  vfp :: "nat \<Rightarrow> u8"

definition set64 :: "tv64 \<Rightarrow> u64 \<Rightarrow> cpu \<Rightarrow> cpu" where
  "set64 d v m = m\<lparr>r64 := (r64 m)(d := v)\<rparr>"

definition set32 :: "tv32 \<Rightarrow> u32 \<Rightarrow> cpu \<Rightarrow> cpu" where
  "set32 d v m = m\<lparr>r32 := (r32 m)(d := v)\<rparr>"

text \<open>What no operation on registers touches.\<close>

definition beyond :: "cpu \<Rightarrow> (u64 \<times> u64 \<times> u64) list \<times> (u64 \<Rightarrow> u8) \<times> (nat \<Rightarrow> u8)" where
  "beyond m = (printed m, mem m, vfp m)"

lemma set_select [simp]:
  "r64 (set64 d v m) x = (if x = d then v else r64 m x)"
  "r32 (set64 d v m) = r32 m"
  "printed (set64 d v m) = printed m"
  "r64 (set32 e w m) = r64 m"
  "r32 (set32 e w m) y = (if y = e then w else r32 m y)"
  "printed (set32 e w m) = printed m"
  "mem (set64 d v m) = mem m" "mem (set32 e w m) = mem m"
  "vfp (set64 d v m) = vfp m" "vfp (set32 e w m) = vfp m"
  "beyond (set64 d v m) = beyond m" "beyond (set32 e w m) = beyond m"
  by (simp_all add: set64_def set32_def beyond_def)

text \<open>
  The \<open>n\<close> bytes at an address as a number and a number as bytes, the first byte the most significant
  one (\<open>big\<close>) or the least; addresses wrap around.
\<close>

definition bytes_word :: "u8 list \<Rightarrow> u64" where
  "bytes_word bs = foldr (\<lambda>b acc. ucast b OR push_bit 8 acc) bs 0"

definition word_byte :: "bool \<Rightarrow> nat \<Rightarrow> u64 \<Rightarrow> nat \<Rightarrow> u8" where
  "word_byte big n v i = ucast (drop_bit (8 * (if big then n - 1 - i else i)) v)"

definition mem_read :: "bool \<Rightarrow> nat \<Rightarrow> u64 \<Rightarrow> (u64 \<Rightarrow> u8) \<Rightarrow> u64" where
  "mem_read big n a M = bytes_word (map (\<lambda>i. M (a + of_nat (if big then n - 1 - i else i))) [0..<n])"

definition mem_write :: "bool \<Rightarrow> nat \<Rightarrow> u64 \<Rightarrow> u64 \<Rightarrow> (u64 \<Rightarrow> u8) \<Rightarrow> u64 \<Rightarrow> u8" where
  "mem_write big n a v M = (\<lambda>x. if unat (x - a) < n then word_byte big n v (unat (x - a)) else M x)"

definition env_read :: "nat \<Rightarrow> nat \<Rightarrow> (nat \<Rightarrow> u8) \<Rightarrow> u64" where
  "env_read n off V = bytes_word (map (\<lambda>i. V (off + i)) [0..<n])"

definition env_write :: "nat \<Rightarrow> nat \<Rightarrow> u64 \<Rightarrow> (nat \<Rightarrow> u8) \<Rightarrow> nat \<Rightarrow> u8" where
  "env_write n off v V = (\<lambda>k. if off \<le> k \<and> k < off + n then word_byte False n v (k - off) else V k)"

text \<open>A \<open>TCGMemOp\<close>: the size in the two low bits, \<open>MO_SIGN\<close> and \<open>MO_BSWAP\<close>.\<close>

definition memop_bytes :: "nat \<Rightarrow> nat" where
  "memop_bytes memop = 2 ^ (memop mod 4)"

definition memop_extend :: "nat \<Rightarrow> u64 \<Rightarrow> u64" where
  "memop_extend memop v = (if bit memop 2 then signed_take_bit (8 * memop_bytes memop - 1) v else v)"

definition memop_swaps :: "nat \<Rightarrow> bool" where
  "memop_swaps memop \<longleftrightarrow> bit memop 3"

text \<open>The condition flags N, Z, C and V as the fields of \<open>CPUARMState\<close> encode them, and the
  conditions of the architecture.\<close>

record nzcv = flag_n :: bool  flag_z :: bool  flag_c :: bool  flag_v :: bool

definition flags :: "cpu \<Rightarrow> nzcv" where
  "flags m = \<lparr>flag_n = bit (r32 m NF) 31, flag_z = (r32 m ZF = 0), flag_c = (r32 m CF \<noteq> 0),
     flag_v = bit (r32 m VF) 31\<rparr>"

definition arm_condition :: "nat \<Rightarrow> nzcv \<Rightarrow> bool" where
  "arm_condition cc f =
     (let base = (if cc div 2 = 0 then flag_z f
                  else if cc div 2 = 1 then flag_c f
                  else if cc div 2 = 2 then flag_n f
                  else if cc div 2 = 3 then flag_v f
                  else if cc div 2 = 4 then flag_c f \<and> \<not> flag_z f
                  else if cc div 2 = 5 then flag_n f = flag_v f
                  else if cc div 2 = 6 then flag_n f = flag_v f \<and> \<not> flag_z f
                  else True)
      in if odd cc \<and> cc \<noteq> 15 then \<not> base else base)"

section \<open>Operators\<close>

definition swap_bytes :: "nat \<Rightarrow> u64 \<Rightarrow> u64" where
  "swap_bytes n x = foldr (\<lambda>i acc. push_bit (8 * (n - 1 - i)) (take_bit 8 (drop_bit (8 * i) x)) OR acc) [0..<n] 0"

fun fn1_64 :: "tcg_fn1 \<Rightarrow> u64 \<Rightarrow> u64" where
  "fn1_64 FMov x = x"
| "fn1_64 FNot x = NOT x"
| "fn1_64 FNeg x = - x"
| "fn1_64 FExt8s x = scast (ucast x :: u8)"
| "fn1_64 FExt16s x = scast (ucast x :: u16)"
| "fn1_64 FExt32s x = scast (ucast x :: u32)"
| "fn1_64 FExt8u x = ucast (ucast x :: u8)"
| "fn1_64 FExt16u x = ucast (ucast x :: u16)"
| "fn1_64 FExt32u x = ucast (ucast x :: u32)"
| "fn1_64 FBswap16 x = swap_bytes 2 x"
| "fn1_64 FBswap32 x = swap_bytes 4 x"
| "fn1_64 FBswap64 x = swap_bytes 8 x"

text \<open>The byte swaps of a part require the rest to be zero.\<close>

fun fn1_defined :: "tcg_fn1 \<Rightarrow> u64 \<Rightarrow> bool" where
  "fn1_defined FBswap16 x = (x < 2 ^ 16)"
| "fn1_defined FBswap32 x = (x < 2 ^ 32)"
| "fn1_defined _ x = True"

fun fn2 :: "tcg_fn2 \<Rightarrow> 'a::len word \<Rightarrow> 'a word \<Rightarrow> 'a word" where
  "fn2 FAdd x y = x + y"
| "fn2 FSub x y = x - y"
| "fn2 FMul x y = x * y"
| "fn2 FAnd x y = x AND y"
| "fn2 FOr x y = x OR y"
| "fn2 FXor x y = x XOR y"
| "fn2 FAndc x y = x AND NOT y"
| "fn2 FOrc x y = x OR NOT y"
| "fn2 FEqv x y = NOT (x XOR y)"
| "fn2 FShl x y = push_bit (unat y) x"
| "fn2 FShr x y = drop_bit (unat y) x"
| "fn2 FSar x y = signed_drop_bit (unat y) x"
| "fn2 FRotr x y = word_rotr (unat y) x"

text \<open>A shift by the width or more is undefined.\<close>

definition fn2_defined :: "tcg_fn2 \<Rightarrow> 'a::len word \<Rightarrow> bool" where
  "fn2_defined f y = (f \<in> {FShl, FShr, FSar, FRotr} \<longrightarrow> unat y < LENGTH('a))"

definition deposit :: "nat \<Rightarrow> nat \<Rightarrow> 'a::len word \<Rightarrow> 'a word \<Rightarrow> 'a word" where
  "deposit pos len x y = (x AND NOT (push_bit pos (mask len))) OR push_bit pos (take_bit len y)"

definition carry_out :: "'a::len word \<Rightarrow> 'a word \<Rightarrow> 'a word" where
  "carry_out x y = of_bool (2 ^ LENGTH('a) \<le> unat x + unat y)"

lemma fn2_defined_simps [simp]:
  "fn2_defined FAdd y" "fn2_defined FSub y" "fn2_defined FMul y" "fn2_defined FAnd y" "fn2_defined FOr y"
  "fn2_defined FXor y" "fn2_defined FAndc y" "fn2_defined FOrc y" "fn2_defined FEqv y"
  by (simp_all add: fn2_defined_def)

section \<open>The interface\<close>

record tcg_sem =
  step :: "tcg_op \<Rightarrow> cpu \<Rightarrow> cpu"
  cond64 :: "tcg_cond \<Rightarrow> u64 \<Rightarrow> u64 \<Rightarrow> bool"
  cond32 :: "tcg_cond \<Rightarrow> u32 \<Rightarrow> u32 \<Rightarrow> bool"
  cc_value :: "nat \<Rightarrow> cpu \<Rightarrow> u32"
  const_value :: "const32 \<Rightarrow> u32"
  host :: host_utils

locale tcg_semantics =
  fixes S :: tcg_sem
  assumes movi64: "step S (Movi64 d v) m = set64 d v m"
    and un64: "fn1_defined f (r64 m a) \<Longrightarrow> step S (Un64 f d a) m = set64 d (fn1_64 f (r64 m a)) m"
    and bin64: "fn2_defined g (r64 m b) \<Longrightarrow>
      step S (Bin64 g d a b) m = set64 d (fn2 g (r64 m a) (r64 m b)) m"
    and bini64: "fn2_defined g v \<Longrightarrow> step S (Bini64 g d a v) m = set64 d (fn2 g (r64 m a) v) m"
    and deposit64: "0 < l \<Longrightarrow> p + l \<le> 64 \<Longrightarrow>
      step S (Deposit64 d a b p l) m = set64 d (deposit p l (r64 m a) (r64 m b)) m"
    and add2_64: "rl \<noteq> rh \<Longrightarrow> step S (Add2_64 rl rh al ah bl bh) m =
      set64 rh (r64 m ah + r64 m bh + carry_out (r64 m al) (r64 m bl)) (set64 rl (r64 m al + r64 m bl) m)"
    and mulu2_64: "rl \<noteq> rh \<Longrightarrow> step S (Mulu2_64 rl rh a b) m =
      set64 rh (word_of_int (uint (r64 m a) * uint (r64 m b) div 2 ^ 64)) (set64 rl (r64 m a * r64 m b) m)"
    and muls2_64: "rl \<noteq> rh \<Longrightarrow> step S (Muls2_64 rl rh a b) m =
      set64 rh (word_of_int (sint (r64 m a) * sint (r64 m b) div 2 ^ 64)) (set64 rl (r64 m a * r64 m b) m)"
    and setcond64: "step S (Setcond64 c d a b) m = set64 d (of_bool (cond64 S c (r64 m a) (r64 m b))) m"
    and movcond64: "step S (Movcond64 c d a' b' a b) m =
      set64 d (if cond64 S c (r64 m a') (r64 m b') then r64 m a else r64 m b) m"
    and concat32: "step S (Concat32 d a b) m = set64 d (deposit 32 32 (r64 m a) (r64 m b)) m"
    and movi32_const: "step S (Movi32 e k32) m = set32 e (const_value S k32) m"
    and const_num: "const_value S (Num w) = w"
    and clear_ss: "r64 (step S (Env ClearPstateSs) m) = r64 m"
      "printed (step S (Env ClearPstateSs) m) = printed m" "mem (step S (Env ClearPstateSs) m) = mem m"
      "vfp (step S (Env ClearPstateSs) m) = vfp m"
    and mov32: "step S (Un32 FMov e x) m = set32 e (r32 m x) m"
    and neg32: "step S (Un32 FNeg e x) m = set32 e (- r32 m x) m"
    and bin32: "fn2_defined g (r32 m y) \<Longrightarrow>
      step S (Bin32 g e x y) m = set32 e (fn2 g (r32 m x) (r32 m y)) m"
    and bini32: "fn2_defined g w \<Longrightarrow> step S (Bini32 g e x w) m = set32 e (fn2 g (r32 m x) w) m"
    and deposit32: "0 < l \<Longrightarrow> p + l \<le> 32 \<Longrightarrow>
      step S (Deposit32 e x y p l) m = set32 e (deposit p l (r32 m x) (r32 m y)) m"
    and add2_32: "rl32 \<noteq> rh32 \<Longrightarrow> step S (Add2_32 rl32 rh32 xl xh yl yh) m =
      set32 rh32 (r32 m xh + r32 m yh + carry_out (r32 m xl) (r32 m yl)) (set32 rl32 (r32 m xl + r32 m yl) m)"
    and setcond32: "step S (Setcond32 c e x y) m = set32 e (of_bool (cond32 S c (r32 m x) (r32 m y))) m"
    and setcondi32: "step S (Setcondi32 c e x w) m = set32 e (of_bool (cond32 S c (r32 m x) w)) m"
    and extrl: "step S (Extrl e a) m = set32 e (ucast (r64 m a)) m"
    and extrh: "step S (Extrh e a) m = set32 e (ucast (drop_bit 32 (r64 m a))) m"
    and extr: "e \<noteq> e' \<Longrightarrow> step S (Extr e e' a) m =
      set32 e' (ucast (drop_bit 32 (r64 m a))) (set32 e (ucast (r64 m a)) m)"
    and extu: "step S (Extu d x) m = set64 d (ucast (r32 m x)) m"
    and exts: "step S (Exts d x) m = set64 d (scast (r32 m x)) m"
    and test_cc: "step S (ArmTestCc cc k) m = set32 (CcValue k) (cc_value S cc m) m"
    and frees: "step S (ArmFreeCc k) m = m" "step S (Free64 d) m = m" "step S (Free32 e) m = m"
      "step S (FreePtr n) m = m" "step S (ConstPtr n) m = m"
    and no_effect: "step S (SetLabel n) m = m" "step S (GotoTb n) m = m" "step S (InsnStart v) m = m"
    and cond64_eq: "cond64 S TCG_COND_EQ u v = (u = v)"
    and cond64_ne: "cond64 S TCG_COND_NE u v = (u \<noteq> v)"
    and cond64_geu: "cond64 S TCG_COND_GEU u v = (v \<le> u)"
    and cond64_invert: "cond64 S (InvertCond c) u v = (\<not> cond64 S c u v)"
    and cond32_eq: "cond32 S TCG_COND_EQ w z = (w = z)"
    and cond32_geu: "cond32 S TCG_COND_GEU w z = (z \<le> w)"
    and cond32_invert: "cond32 S (InvertCond c) w z = (\<not> cond32 S c w z)"
    and cond32_arm: "cond32 S (ArmCond cc) (cc_value S cc m) 0 = arm_condition cc (flags m)"
    and cond64_arm: "cond64 S (ArmCond cc) (scast (cc_value S cc m)) 0 = arm_condition cc (flags m)"
    and printer: "step S (Printer a b d) m = m\<lparr>printed := printed m @ [(r64 m a, r64 m b, r64 m d)]\<rparr>"
    and udiv64: "step S (Help2 HUdiv64 d a b) m = set64 d (helper_udiv64 (r64 m a) (r64 m b)) m"
    and sdiv64: "step S (Help2 HSdiv64 d a b) m = set64 d (helper_sdiv64 (r64 m a) (r64 m b)) m"
    and clz64: "step S (Help1 HClz64 d a) m = set64 d (helper_clz64 (host S) (r64 m a)) m"
    and cls64: "step S (Help1 HCls64 d a) m = set64 d (helper_cls64 (host S) (r64 m a)) m"
    and rbit64: "step S (Help1 HRbit64 d a) m = set64 d (helper_rbit64 (host S) (r64 m a)) m"
begin

lemmas ops = movi64 un64 bin64 bini64 deposit64 add2_64 mulu2_64 muls2_64 setcond64 movcond64
  concat32 movi32_const const_num mov32 neg32 bin32 bini32 deposit32 add2_32 setcond32 setcondi32 extrl extrh extr
  extu exts test_cc frees no_effect udiv64 sdiv64 clz64 cls64 rbit64

lemmas conds = cond64_eq cond64_ne cond64_geu cond64_invert cond32_eq cond32_geu cond32_invert
  cond32_arm cond64_arm

end

section \<open>Running a block\<close>

text \<open>
  \<open>goto_tb\<close> jumps to the linked block or falls through to the code that sets the PC and leaves;
  the model takes the second way. Exceptions and \<open>exit_tb\<close> stop the block.
\<close>

datatype status = Running | Skipping nat | Stopped

definition stops :: "tcg_op \<Rightarrow> bool" where
  "stops op = (case op of ExitTb _ \<Rightarrow> True
     | Env h \<Rightarrow> (case h of ExceptionInternal _ \<Rightarrow> True | ExceptionWithSyndrome _ _ _ \<Rightarrow> True | _ \<Rightarrow> False)
     | _ \<Rightarrow> False)"

definition jump :: "tcg_sem \<Rightarrow> tcg_op \<Rightarrow> cpu \<Rightarrow> nat option" where
  "jump S op m = (case op of
       Brcondi64 c a v l \<Rightarrow> if cond64 S c (r64 m a) v then Some l else None
     | Brcond64 c a b l \<Rightarrow> if cond64 S c (r64 m a) (r64 m b) then Some l else None
     | Br l \<Rightarrow> Some l
     | ArmGenTestCc cc l \<Rightarrow> if arm_condition cc (flags m) then Some l else None
     | _ \<Rightarrow> None)"

definition is_jump :: "tcg_op \<Rightarrow> bool" where
  "is_jump op = (case op of Brcondi64 _ _ _ _ \<Rightarrow> True | Brcond64 _ _ _ _ \<Rightarrow> True | Br _ \<Rightarrow> True
     | ArmGenTestCc _ _ \<Rightarrow> True | _ \<Rightarrow> False)"

definition exec1 :: "tcg_sem \<Rightarrow> tcg_op \<Rightarrow> status \<times> cpu \<Rightarrow> status \<times> cpu" where
  "exec1 S op z = (case z of
       (Running, m) \<Rightarrow>
         if stops op then (Stopped, m)
         else if is_jump op then
           (case jump S op m of Some l \<Rightarrow> (Skipping l, m) | None \<Rightarrow> (Running, m))
         else (Running, step S op m)
     | (Skipping l, m) \<Rightarrow> if op = SetLabel l then (Running, m) else (Skipping l, m)
     | (Stopped, m) \<Rightarrow> (Stopped, m))"

definition run_code :: "tcg_sem \<Rightarrow> tcg_op list \<Rightarrow> status \<times> cpu \<Rightarrow> status \<times> cpu" where
  "run_code S ops z = fold (exec1 S) ops z"

lemma run_code_simps [simp]:
  "run_code S [] z = z"
  "run_code S (op # ops) z = run_code S ops (exec1 S op z)"
  "run_code S (ops @ ops') z = run_code S ops' (run_code S ops z)"
  by (simp_all add: run_code_def)

lemma run_code_stopped [simp]: "run_code S ops (Stopped, m) = (Stopped, m)"
  by (induction ops) (simp_all add: exec1_def)

text \<open>The operations that neither leave the block nor jump.\<close>

lemma exec1_running [simp]:
  "exec1 S (Movi64 ua1 ub1) (Running, m) = (Running, step S (Movi64 ua1 ub1) m)"
  "exec1 S (Un64 ua2 ub2 uc2) (Running, m) = (Running, step S (Un64 ua2 ub2 uc2) m)"
  "exec1 S (Bin64 ua3 ub3 uc3 ud3) (Running, m) = (Running, step S (Bin64 ua3 ub3 uc3 ud3) m)"
  "exec1 S (Bini64 ua4 ub4 uc4 ud4) (Running, m) = (Running, step S (Bini64 ua4 ub4 uc4 ud4) m)"
  "exec1 S (Deposit64 ua5 ub5 uc5 ud5 ue5) (Running, m) = (Running, step S (Deposit64 ua5 ub5 uc5 ud5 ue5) m)"
  "exec1 S (Add2_64 ua6 ub6 uc6 ud6 ue6 uf6) (Running, m) = (Running, step S (Add2_64 ua6 ub6 uc6 ud6 ue6 uf6) m)"
  "exec1 S (Mulu2_64 ua7 ub7 uc7 ud7) (Running, m) = (Running, step S (Mulu2_64 ua7 ub7 uc7 ud7) m)"
  "exec1 S (Muls2_64 ua8 ub8 uc8 ud8) (Running, m) = (Running, step S (Muls2_64 ua8 ub8 uc8 ud8) m)"
  "exec1 S (Setcond64 ua9 ub9 uc9 ud9) (Running, m) = (Running, step S (Setcond64 ua9 ub9 uc9 ud9) m)"
  "exec1 S (Movcond64 ua10 ub10 uc10 ud10 ue10 uf10) (Running, m) = (Running, step S (Movcond64 ua10 ub10 uc10 ud10 ue10 uf10) m)"
  "exec1 S (Concat32 ua11 ub11 uc11) (Running, m) = (Running, step S (Concat32 ua11 ub11 uc11) m)"
  "exec1 S (Movi32 ua12 ub12) (Running, m) = (Running, step S (Movi32 ua12 ub12) m)"
  "exec1 S (Un32 ua13 ub13 uc13) (Running, m) = (Running, step S (Un32 ua13 ub13 uc13) m)"
  "exec1 S (Bin32 ua14 ub14 uc14 ud14) (Running, m) = (Running, step S (Bin32 ua14 ub14 uc14 ud14) m)"
  "exec1 S (Bini32 ua15 ub15 uc15 ud15) (Running, m) = (Running, step S (Bini32 ua15 ub15 uc15 ud15) m)"
  "exec1 S (Deposit32 ua16 ub16 uc16 ud16 ue16) (Running, m) = (Running, step S (Deposit32 ua16 ub16 uc16 ud16 ue16) m)"
  "exec1 S (Add2_32 ua17 ub17 uc17 ud17 ue17 uf17) (Running, m) = (Running, step S (Add2_32 ua17 ub17 uc17 ud17 ue17 uf17) m)"
  "exec1 S (Setcond32 ua18 ub18 uc18 ud18) (Running, m) = (Running, step S (Setcond32 ua18 ub18 uc18 ud18) m)"
  "exec1 S (Setcondi32 ua19 ub19 uc19 ud19) (Running, m) = (Running, step S (Setcondi32 ua19 ub19 uc19 ud19) m)"
  "exec1 S (Extrl ua20 ub20) (Running, m) = (Running, step S (Extrl ua20 ub20) m)"
  "exec1 S (Extrh ua21 ub21) (Running, m) = (Running, step S (Extrh ua21 ub21) m)"
  "exec1 S (Extr ua22 ub22 uc22) (Running, m) = (Running, step S (Extr ua22 ub22 uc22) m)"
  "exec1 S (Extu ua23 ub23) (Running, m) = (Running, step S (Extu ua23 ub23) m)"
  "exec1 S (Exts ua24 ub24) (Running, m) = (Running, step S (Exts ua24 ub24) m)"
  "exec1 S (ArmTestCc ua25 ub25) (Running, m) = (Running, step S (ArmTestCc ua25 ub25) m)"
  "exec1 S (ArmFreeCc ua26) (Running, m) = (Running, step S (ArmFreeCc ua26) m)"
  "exec1 S (Free64 ua27) (Running, m) = (Running, step S (Free64 ua27) m)"
  "exec1 S (Free32 ua28) (Running, m) = (Running, step S (Free32 ua28) m)"
  "exec1 S (ConstPtr ua29) (Running, m) = (Running, step S (ConstPtr ua29) m)"
  "exec1 S (FreePtr ua30) (Running, m) = (Running, step S (FreePtr ua30) m)"
  "exec1 S (GetCpReg ua31 ub31) (Running, m) = (Running, step S (GetCpReg ua31 ub31) m)"
  "exec1 S (SetCpReg ua32 ub32) (Running, m) = (Running, step S (SetCpReg ua32 ub32) m)"
  "exec1 S (Ld64 ua33 ub33) (Running, m) = (Running, step S (Ld64 ua33 ub33) m)"
  "exec1 S (St64 ua34 ub34) (Running, m) = (Running, step S (St64 ua34 ub34) m)"
  "exec1 S (Help1 ua35 ub35 uc35) (Running, m) = (Running, step S (Help1 ua35 ub35 uc35) m)"
  "exec1 S (Help1_32 ua36 ub36 uc36) (Running, m) = (Running, step S (Help1_32 ua36 ub36 uc36) m)"
  "exec1 S (Help2 ua37 ub37 uc37 ud37) (Running, m) = (Running, step S (Help2 ua37 ub37 uc37 ud37) m)"
  "exec1 S (HelpCrc ua38 ub38 uc38 ud38 ue38) (Running, m) = (Running, step S (HelpCrc ua38 ub38 uc38 ud38 ue38) m)"
  "exec1 S (Printer ua39 ub39 uc39) (Running, m) = (Running, step S (Printer ua39 ub39 uc39) m)"
  "exec1 S (SetLabel ua40) (Running, m) = (Running, step S (SetLabel ua40) m)"
  "exec1 S (GotoTb ua41) (Running, m) = (Running, step S (GotoTb ua41) m)"
  "exec1 S (InsnStart ua42) (Running, m) = (Running, step S (InsnStart ua42) m)"
  "exec1 S (QemuLd64 ua43 ub43 uc43 ud43) (Running, m) = (Running, step S (QemuLd64 ua43 ub43 uc43 ud43) m)"
  "exec1 S (QemuSt64 ua44 ub44 uc44 ud44) (Running, m) = (Running, step S (QemuSt64 ua44 ub44 uc44 ud44) m)"
  "exec1 S (LdEnv64 ua45 ub45 uc45) (Running, m) = (Running, step S (LdEnv64 ua45 ub45 uc45) m)"
  "exec1 S (StEnv64 ua46 ub46 uc46) (Running, m) = (Running, step S (StEnv64 ua46 ub46 uc46) m)"
  "exec1 S (LdEnv32 ua47 ub47 uc47) (Running, m) = (Running, step S (LdEnv32 ua47 ub47 uc47) m)"
  "exec1 S (StEnv32 ua48 ub48 uc48) (Running, m) = (Running, step S (StEnv32 ua48 ub48 uc48) m)"
  "exec1 S (SetInsnParam ua49 ub49 uc49) (Running, m) = (Running, step S (SetInsnParam ua49 ub49 uc49) m)"
  by (simp_all add: exec1_def stops_def is_jump_def)

lemma exec1_control [simp]:
  "exec1 S op (Stopped, m) = (Stopped, m)"
  "exec1 S (ExitTb n) (Running, m) = (Stopped, m)"
  "exec1 S (Env (ExceptionInternal e)) (Running, m) = (Stopped, m)"
  "exec1 S (Env (ExceptionWithSyndrome e e' e'')) (Running, m) = (Stopped, m)"
  "exec1 S (Env ClearPstateSs) (Running, m) = (Running, step S (Env ClearPstateSs) m)"
  "exec1 S (Brcondi64 c a v l) (Running, m) = (if cond64 S c (r64 m a) v then Skipping l else Running, m)"
  "exec1 S (ArmGenTestCc cc l) (Running, m) = (if arm_condition cc (flags m) then Skipping l else Running, m)"
  "exec1 S (Brcond64 c a b l) (Running, m) = (if cond64 S c (r64 m a) (r64 m b) then Skipping l else Running, m)"
  "exec1 S (Br l) (Running, m) = (Skipping l, m)"
  by (simp_all add: exec1_def stops_def is_jump_def jump_def)

lemma exec1_skipping [simp]:
  "exec1 S op (Skipping l, m) = (if op = SetLabel l then Running else Skipping l, m)"
  by (simp add: exec1_def)

text \<open>The code a generator emits from a context.\<close>

definition emitted :: "unit gen \<Rightarrow> disas_context \<Rightarrow> tcg_op list" where
  "emitted f s = code (snd (run_state f (s\<lparr>code := []\<rparr>)))"

section \<open>A calculus of generators\<close>

text \<open>
  \<open>wp S f Q s m\<close>: from the context \<open>s\<close>, the generator \<open>f\<close> appends code to the block which, run on
  the processor \<open>m\<close>, neither leaves nor jumps, and the result, the context and the processor
  satisfy \<open>Q\<close>. The rules are in continuation style, so that \<open>intro wp\<close> runs a generator
  symbolically.
\<close>

named_theorems wp "rules for running generators symbolically"

definition wp :: "tcg_sem \<Rightarrow> 'a gen \<Rightarrow> ('a \<Rightarrow> disas_context \<Rightarrow> cpu \<Rightarrow> bool) \<Rightarrow> disas_context \<Rightarrow> cpu \<Rightarrow> bool" where
  "wp S f Q s m = (\<exists>ops m'. code (snd (run_state f s)) = code s @ ops \<and>
     run_code S ops (Running, m) = (Running, m') \<and> Q (fst (run_state f s)) (snd (run_state f s)) m')"

text \<open>The changes of the context, named so that its terms stay small.\<close>

definition add_op :: "tcg_op \<Rightarrow> disas_context \<Rightarrow> disas_context" where
  "add_op op s = s\<lparr>code := code s @ [op]\<rparr>"

definition add_i64 :: "disas_context \<Rightarrow> disas_context" where
  "add_i64 s = s\<lparr>next_i64 := Suc (next_i64 s)\<rparr>"

definition add_i32 :: "disas_context \<Rightarrow> disas_context" where
  "add_i32 s = s\<lparr>next_i32 := Suc (next_i32 s)\<rparr>"

definition add_label :: "disas_context \<Rightarrow> disas_context" where
  "add_label s = s\<lparr>next_label := Suc (next_label s)\<rparr>"

definition add_assert :: "bool \<Rightarrow> disas_context \<Rightarrow> disas_context" where
  "add_assert b s = s\<lparr>aborted := aborted s \<or> \<not> b\<rparr>"

definition add_tmp :: "disas_context \<Rightarrow> disas_context" where
  "add_tmp s = s\<lparr>aborted := aborted s \<or> \<not> length (dc_tmp_a64 s) < TMP_A64_MAX,
     next_i64 := Suc (next_i64 s), dc_tmp_a64 := dc_tmp_a64 s @ [T (next_i64 s)]\<rparr>"

lemmas add_defs = add_op_def add_i64_def add_i32_def add_label_def add_assert_def add_tmp_def

lemma add_select [simp]:
  "dc_pc (add_op op s) = dc_pc s"
  "dc_is_jmp (add_op op s) = dc_is_jmp s"
  "dc_current_el (add_op op s) = dc_current_el s"
  "dc_ss_active (add_op op s) = dc_ss_active s"
  "dc_pstate_ss (add_op op s) = dc_pstate_ss s"
  "dc_ss_same_el (add_op op s) = dc_ss_same_el s"
  "dc_is_ldex (add_op op s) = dc_is_ldex s"
  "dc_singlestep_enabled (add_op op s) = dc_singlestep_enabled s"
  "dc_features (add_op op s) = dc_features s"
  "dc_be_data (add_op op s) = dc_be_data s"
  "dc_mmu_idx (add_op op s) = dc_mmu_idx s"
  "dc_fp_excp_el (add_op op s) = dc_fp_excp_el s"
  "dc_fp_access_checked (add_op op s) = dc_fp_access_checked s"
  "dc_insn_start_idx (add_op op s) = dc_insn_start_idx s"
  "host_words_bigendian (add_op op s) = host_words_bigendian s"
  "dc_cp_regs (add_op op s) = dc_cp_regs s"
  "dc_tmp_a64 (add_op op s) = dc_tmp_a64 s"
  "tb_pc (add_op op s) = tb_pc s"
  "tb_last_io (add_op op s) = tb_last_io s"
  "tb_use_icount (add_op op s) = tb_use_icount s"
  "user_only (add_op op s) = user_only s"
  "semihosting (add_op op s) = semihosting s"
  "has_andc_i32 (add_op op s) = has_andc_i32 s"
  "page_mask (add_op op s) = page_mask s"
  "next_i64 (add_op op s) = next_i64 s"
  "next_i32 (add_op op s) = next_i32 s"
  "next_ptr (add_op op s) = next_ptr s"
  "next_label (add_op op s) = next_label s"
  "next_cc (add_op op s) = next_cc s"
  "aborted (add_op op s) = aborted s"
  "code (add_op op s) = code s @ [op]"
  "dc_pc (add_i64 s) = dc_pc s"
  "dc_is_jmp (add_i64 s) = dc_is_jmp s"
  "dc_current_el (add_i64 s) = dc_current_el s"
  "dc_ss_active (add_i64 s) = dc_ss_active s"
  "dc_pstate_ss (add_i64 s) = dc_pstate_ss s"
  "dc_ss_same_el (add_i64 s) = dc_ss_same_el s"
  "dc_is_ldex (add_i64 s) = dc_is_ldex s"
  "dc_singlestep_enabled (add_i64 s) = dc_singlestep_enabled s"
  "dc_features (add_i64 s) = dc_features s"
  "dc_be_data (add_i64 s) = dc_be_data s"
  "dc_mmu_idx (add_i64 s) = dc_mmu_idx s"
  "dc_fp_excp_el (add_i64 s) = dc_fp_excp_el s"
  "dc_fp_access_checked (add_i64 s) = dc_fp_access_checked s"
  "dc_insn_start_idx (add_i64 s) = dc_insn_start_idx s"
  "host_words_bigendian (add_i64 s) = host_words_bigendian s"
  "dc_cp_regs (add_i64 s) = dc_cp_regs s"
  "dc_tmp_a64 (add_i64 s) = dc_tmp_a64 s"
  "tb_pc (add_i64 s) = tb_pc s"
  "tb_last_io (add_i64 s) = tb_last_io s"
  "tb_use_icount (add_i64 s) = tb_use_icount s"
  "user_only (add_i64 s) = user_only s"
  "semihosting (add_i64 s) = semihosting s"
  "has_andc_i32 (add_i64 s) = has_andc_i32 s"
  "page_mask (add_i64 s) = page_mask s"
  "next_i64 (add_i64 s) = Suc (next_i64 s)"
  "next_i32 (add_i64 s) = next_i32 s"
  "next_ptr (add_i64 s) = next_ptr s"
  "next_label (add_i64 s) = next_label s"
  "next_cc (add_i64 s) = next_cc s"
  "aborted (add_i64 s) = aborted s"
  "code (add_i64 s) = code s"
  "dc_pc (add_i32 s) = dc_pc s"
  "dc_is_jmp (add_i32 s) = dc_is_jmp s"
  "dc_current_el (add_i32 s) = dc_current_el s"
  "dc_ss_active (add_i32 s) = dc_ss_active s"
  "dc_pstate_ss (add_i32 s) = dc_pstate_ss s"
  "dc_ss_same_el (add_i32 s) = dc_ss_same_el s"
  "dc_is_ldex (add_i32 s) = dc_is_ldex s"
  "dc_singlestep_enabled (add_i32 s) = dc_singlestep_enabled s"
  "dc_features (add_i32 s) = dc_features s"
  "dc_be_data (add_i32 s) = dc_be_data s"
  "dc_mmu_idx (add_i32 s) = dc_mmu_idx s"
  "dc_fp_excp_el (add_i32 s) = dc_fp_excp_el s"
  "dc_fp_access_checked (add_i32 s) = dc_fp_access_checked s"
  "dc_insn_start_idx (add_i32 s) = dc_insn_start_idx s"
  "host_words_bigendian (add_i32 s) = host_words_bigendian s"
  "dc_cp_regs (add_i32 s) = dc_cp_regs s"
  "dc_tmp_a64 (add_i32 s) = dc_tmp_a64 s"
  "tb_pc (add_i32 s) = tb_pc s"
  "tb_last_io (add_i32 s) = tb_last_io s"
  "tb_use_icount (add_i32 s) = tb_use_icount s"
  "user_only (add_i32 s) = user_only s"
  "semihosting (add_i32 s) = semihosting s"
  "has_andc_i32 (add_i32 s) = has_andc_i32 s"
  "page_mask (add_i32 s) = page_mask s"
  "next_i64 (add_i32 s) = next_i64 s"
  "next_i32 (add_i32 s) = Suc (next_i32 s)"
  "next_ptr (add_i32 s) = next_ptr s"
  "next_label (add_i32 s) = next_label s"
  "next_cc (add_i32 s) = next_cc s"
  "aborted (add_i32 s) = aborted s"
  "code (add_i32 s) = code s"
  "dc_pc (add_label s) = dc_pc s"
  "dc_is_jmp (add_label s) = dc_is_jmp s"
  "dc_current_el (add_label s) = dc_current_el s"
  "dc_ss_active (add_label s) = dc_ss_active s"
  "dc_pstate_ss (add_label s) = dc_pstate_ss s"
  "dc_ss_same_el (add_label s) = dc_ss_same_el s"
  "dc_is_ldex (add_label s) = dc_is_ldex s"
  "dc_singlestep_enabled (add_label s) = dc_singlestep_enabled s"
  "dc_features (add_label s) = dc_features s"
  "dc_be_data (add_label s) = dc_be_data s"
  "dc_mmu_idx (add_label s) = dc_mmu_idx s"
  "dc_fp_excp_el (add_label s) = dc_fp_excp_el s"
  "dc_fp_access_checked (add_label s) = dc_fp_access_checked s"
  "dc_insn_start_idx (add_label s) = dc_insn_start_idx s"
  "host_words_bigendian (add_label s) = host_words_bigendian s"
  "dc_cp_regs (add_label s) = dc_cp_regs s"
  "dc_tmp_a64 (add_label s) = dc_tmp_a64 s"
  "tb_pc (add_label s) = tb_pc s"
  "tb_last_io (add_label s) = tb_last_io s"
  "tb_use_icount (add_label s) = tb_use_icount s"
  "user_only (add_label s) = user_only s"
  "semihosting (add_label s) = semihosting s"
  "has_andc_i32 (add_label s) = has_andc_i32 s"
  "page_mask (add_label s) = page_mask s"
  "next_i64 (add_label s) = next_i64 s"
  "next_i32 (add_label s) = next_i32 s"
  "next_ptr (add_label s) = next_ptr s"
  "next_label (add_label s) = Suc (next_label s)"
  "next_cc (add_label s) = next_cc s"
  "aborted (add_label s) = aborted s"
  "code (add_label s) = code s"
  "dc_pc (add_assert b s) = dc_pc s"
  "dc_is_jmp (add_assert b s) = dc_is_jmp s"
  "dc_current_el (add_assert b s) = dc_current_el s"
  "dc_ss_active (add_assert b s) = dc_ss_active s"
  "dc_pstate_ss (add_assert b s) = dc_pstate_ss s"
  "dc_ss_same_el (add_assert b s) = dc_ss_same_el s"
  "dc_is_ldex (add_assert b s) = dc_is_ldex s"
  "dc_singlestep_enabled (add_assert b s) = dc_singlestep_enabled s"
  "dc_features (add_assert b s) = dc_features s"
  "dc_be_data (add_assert b s) = dc_be_data s"
  "dc_mmu_idx (add_assert b s) = dc_mmu_idx s"
  "dc_fp_excp_el (add_assert b s) = dc_fp_excp_el s"
  "dc_fp_access_checked (add_assert b s) = dc_fp_access_checked s"
  "dc_insn_start_idx (add_assert b s) = dc_insn_start_idx s"
  "host_words_bigendian (add_assert b s) = host_words_bigendian s"
  "dc_cp_regs (add_assert b s) = dc_cp_regs s"
  "dc_tmp_a64 (add_assert b s) = dc_tmp_a64 s"
  "tb_pc (add_assert b s) = tb_pc s"
  "tb_last_io (add_assert b s) = tb_last_io s"
  "tb_use_icount (add_assert b s) = tb_use_icount s"
  "user_only (add_assert b s) = user_only s"
  "semihosting (add_assert b s) = semihosting s"
  "has_andc_i32 (add_assert b s) = has_andc_i32 s"
  "page_mask (add_assert b s) = page_mask s"
  "next_i64 (add_assert b s) = next_i64 s"
  "next_i32 (add_assert b s) = next_i32 s"
  "next_ptr (add_assert b s) = next_ptr s"
  "next_label (add_assert b s) = next_label s"
  "next_cc (add_assert b s) = next_cc s"
  "aborted (add_assert b s) = (aborted s \<or> \<not> b)"
  "code (add_assert b s) = code s"
  "dc_pc (add_tmp s) = dc_pc s"
  "dc_is_jmp (add_tmp s) = dc_is_jmp s"
  "dc_current_el (add_tmp s) = dc_current_el s"
  "dc_ss_active (add_tmp s) = dc_ss_active s"
  "dc_pstate_ss (add_tmp s) = dc_pstate_ss s"
  "dc_ss_same_el (add_tmp s) = dc_ss_same_el s"
  "dc_is_ldex (add_tmp s) = dc_is_ldex s"
  "dc_singlestep_enabled (add_tmp s) = dc_singlestep_enabled s"
  "dc_features (add_tmp s) = dc_features s"
  "dc_be_data (add_tmp s) = dc_be_data s"
  "dc_mmu_idx (add_tmp s) = dc_mmu_idx s"
  "dc_fp_excp_el (add_tmp s) = dc_fp_excp_el s"
  "dc_fp_access_checked (add_tmp s) = dc_fp_access_checked s"
  "dc_insn_start_idx (add_tmp s) = dc_insn_start_idx s"
  "host_words_bigendian (add_tmp s) = host_words_bigendian s"
  "dc_cp_regs (add_tmp s) = dc_cp_regs s"
  "dc_tmp_a64 (add_tmp s) = dc_tmp_a64 s @ [T (next_i64 s)]"
  "tb_pc (add_tmp s) = tb_pc s"
  "tb_last_io (add_tmp s) = tb_last_io s"
  "tb_use_icount (add_tmp s) = tb_use_icount s"
  "user_only (add_tmp s) = user_only s"
  "semihosting (add_tmp s) = semihosting s"
  "has_andc_i32 (add_tmp s) = has_andc_i32 s"
  "page_mask (add_tmp s) = page_mask s"
  "next_i64 (add_tmp s) = Suc (next_i64 s)"
  "next_i32 (add_tmp s) = next_i32 s"
  "next_ptr (add_tmp s) = next_ptr s"
  "next_label (add_tmp s) = next_label s"
  "next_cc (add_tmp s) = next_cc s"
  "aborted (add_tmp s) = (aborted s \<or> \<not> length (dc_tmp_a64 s) < TMP_A64_MAX)"
  "code (add_tmp s) = code s"
  by (simp_all add: add_defs)

lemma wp_bind [wp]:
  assumes "wp S f (\<lambda>r s' m'. wp S (g r) Q s' m') s m"
  shows "wp S (f \<bind> g) Q s m"
proof -
  obtain r s' where f: "run_state f s = (r, s')" by fastforce
  obtain r' s'' where g: "run_state (g r) s' = (r', s'')" by fastforce
  from assms f g obtain ops m1 ops' m2 where
    "code s' = code s @ ops" "run_code S ops (Running, m) = (Running, m1)"
    "code s'' = code s' @ ops'" "run_code S ops' (Running, m1) = (Running, m2)" "Q r' s'' m2"
    by (auto simp: wp_def)
  then show ?thesis
    unfolding wp_def by (intro exI [of _ "ops @ ops'"] exI [of _ m2]) (simp add: f g)
qed

lemma wp_primitives [wp]:
  "Qr x s m \<Longrightarrow> wp S (State_Monad.return x) Qr s m"
  "Qg (h s) s m \<Longrightarrow> wp S (get_dc h) Qg s m"
  "Q () s m \<Longrightarrow> wp S skip Q s m"
  "Q () (add_assert b s) m \<Longrightarrow> wp S (assert_that b) Q s m"
  "Qt (T (next_i64 s)) (add_i64 s) m \<Longrightarrow> wp S tcg_temp_new_i64 Qt s m"
  "Qv (T32 (next_i32 s)) (add_i32 s) m \<Longrightarrow> wp S tcg_temp_new_i32 Qv s m"
  "Ql (next_label s) (add_label s) m \<Longrightarrow> wp S gen_new_label Ql s m"
  by (simp_all add: wp_def add_defs)

lemma wp_new_tmp_a64 [wp]: "Q (T (next_i64 s)) (add_tmp s) m \<Longrightarrow> wp S new_tmp_a64 Q s m"
  by (simp add: wp_def add_defs new_tmp_a64_def)

lemma wp_set_dc [wp]: "code (g s) = code s \<Longrightarrow> Q () (g s) m \<Longrightarrow> wp S (set_dc g) Q s m"
  by (simp add: wp_def)

lemma wp_emit [wp]:
  "exec1 S op (Running, m) = (Running, step S op m) \<Longrightarrow>
   Q () (add_op op s) (step S op m) \<Longrightarrow> wp S (emit op) Q s m"
  by (simp add: wp_def add_defs)

lemma wp_if [wp]:
  "(b \<Longrightarrow> wp S f Q s m) \<Longrightarrow> (\<not> b \<Longrightarrow> wp S g Q s m) \<Longrightarrow> wp S (if b then f else g) Q s m"
  by simp

lemma wp_let [wp]: "wp S (f v) Q s m \<Longrightarrow> wp S (let x = v in f x) Q s m"
  by simp

lemma wp_mono:
  assumes "wp S f Q s m" and "\<And>r s' m'. Q r s' m' \<Longrightarrow> Q' r s' m'"
  shows "wp S f Q' s m"
  using assms by (auto simp: wp_def)

text \<open>A run of the whole code of a generator.\<close>

lemma wp_run:
  assumes "wp S f Q (s\<lparr>code := []\<rparr>) m"
  shows "\<exists>m'. run_code S (emitted f s) (Running, m) = (Running, m') \<and>
    Q (fst (run_state f (s\<lparr>code := []\<rparr>))) (snd (run_state f (s\<lparr>code := []\<rparr>))) m'"
  using assms by (auto simp: wp_def emitted_def)

section \<open>A processor that satisfies the laws\<close>

text \<open>Byte-exact host functions: leading zeros, redundant sign bits, reversed bits.\<close>

definition ref_host :: host_utils where
  "ref_host = \<lparr>clz64 = (\<lambda>x. length (takeWhile (\<lambda>n. \<not> bit x n) (rev [0..<64]))),
     clrsb64 = (\<lambda>x. length (takeWhile (\<lambda>n. bit x n = bit x 63) (rev [0..<63]))),
     clrsb32 = (\<lambda>x. length (takeWhile (\<lambda>n. bit x n = bit x 31) (rev [0..<31]))),
     clz32 = (\<lambda>x. length (takeWhile (\<lambda>n. \<not> bit x n) (rev [0..<32]))),
     revbit64 = (\<lambda>x. horner_sum of_bool 2 (map (\<lambda>n. bit x (63 - n)) [0..<64]))\<rparr>"

text \<open>\<open>arm_test_cc\<close> may answer with a value that is nonzero when the condition holds.\<close>

fun ref_cond :: "tcg_cond \<Rightarrow> 'a::len word \<Rightarrow> 'a word \<Rightarrow> bool" where
  "ref_cond TCG_COND_EQ x y = (x = y)"
| "ref_cond TCG_COND_NE x y = (x \<noteq> y)"
| "ref_cond TCG_COND_GEU x y = (y \<le> x)"
| "ref_cond (ArmCond cc) x y = (x \<noteq> y)"
| "ref_cond (InvertCond c) x y = (\<not> ref_cond c x y)"

definition ref_const :: "const32 \<Rightarrow> u32" where
  "ref_const k = (case k of Num w \<Rightarrow> w | _ \<Rightarrow> 0)"

definition ref_cc :: "nat \<Rightarrow> cpu \<Rightarrow> u32" where
  "ref_cc cc m = of_bool (arm_condition cc (flags m))"

definition ref_step :: "tcg_op \<Rightarrow> cpu \<Rightarrow> cpu" where
  "ref_step op m = (case op of
       Movi64 d v \<Rightarrow> set64 d v m
     | Un64 f d a \<Rightarrow> set64 d (fn1_64 f (r64 m a)) m
     | Bin64 g d a b \<Rightarrow> set64 d (fn2 g (r64 m a) (r64 m b)) m
     | Bini64 g d a v \<Rightarrow> set64 d (fn2 g (r64 m a) v) m
     | Deposit64 d a b p l \<Rightarrow> set64 d (deposit p l (r64 m a) (r64 m b)) m
     | Add2_64 rl rh al ah bl bh \<Rightarrow>
         set64 rh (r64 m ah + r64 m bh + carry_out (r64 m al) (r64 m bl)) (set64 rl (r64 m al + r64 m bl) m)
     | Mulu2_64 rl rh a b \<Rightarrow>
         set64 rh (word_of_int (uint (r64 m a) * uint (r64 m b) div 2 ^ 64)) (set64 rl (r64 m a * r64 m b) m)
     | Muls2_64 rl rh a b \<Rightarrow>
         set64 rh (word_of_int (sint (r64 m a) * sint (r64 m b) div 2 ^ 64)) (set64 rl (r64 m a * r64 m b) m)
     | Setcond64 c d a b \<Rightarrow> set64 d (of_bool (ref_cond c (r64 m a) (r64 m b))) m
     | Movcond64 c d a' b' a b \<Rightarrow> set64 d (if ref_cond c (r64 m a') (r64 m b') then r64 m a else r64 m b) m
     | Concat32 d a b \<Rightarrow> set64 d (deposit 32 32 (r64 m a) (r64 m b)) m
     | Movi32 e k \<Rightarrow> set32 e (ref_const k) m
     | Un32 f e x \<Rightarrow> set32 e (if f = FNeg then - r32 m x else r32 m x) m
     | Bin32 g e x y \<Rightarrow> set32 e (fn2 g (r32 m x) (r32 m y)) m
     | Bini32 g e x w \<Rightarrow> set32 e (fn2 g (r32 m x) w) m
     | Deposit32 e x y p l \<Rightarrow> set32 e (deposit p l (r32 m x) (r32 m y)) m
     | Add2_32 rl rh xl xh yl yh \<Rightarrow>
         set32 rh (r32 m xh + r32 m yh + carry_out (r32 m xl) (r32 m yl)) (set32 rl (r32 m xl + r32 m yl) m)
     | Setcond32 c e x y \<Rightarrow> set32 e (of_bool (ref_cond c (r32 m x) (r32 m y))) m
     | Setcondi32 c e x w \<Rightarrow> set32 e (of_bool (ref_cond c (r32 m x) w)) m
     | Extrl e a \<Rightarrow> set32 e (ucast (r64 m a)) m
     | Extrh e a \<Rightarrow> set32 e (ucast (drop_bit 32 (r64 m a))) m
     | Extr e e' a \<Rightarrow> set32 e' (ucast (drop_bit 32 (r64 m a))) (set32 e (ucast (r64 m a)) m)
     | Extu d x \<Rightarrow> set64 d (ucast (r32 m x)) m
     | Exts d x \<Rightarrow> set64 d (scast (r32 m x)) m
     | ArmTestCc cc k \<Rightarrow> set32 (CcValue k) (ref_cc cc m) m
     | Printer a b d \<Rightarrow> m\<lparr>printed := printed m @ [(r64 m a, r64 m b, r64 m d)]\<rparr>
     | Help2 h d a b \<Rightarrow>
         set64 d (if h = HUdiv64 then helper_udiv64 (r64 m a) (r64 m b) else helper_sdiv64 (r64 m a) (r64 m b)) m
     | Help1 h d a \<Rightarrow> set64 d (case h of HClz64 \<Rightarrow> helper_clz64 ref_host (r64 m a)
         | HCls64 \<Rightarrow> helper_cls64 ref_host (r64 m a) | HRbit64 \<Rightarrow> helper_rbit64 ref_host (r64 m a)) m
     | QemuLd64 d a i memop \<Rightarrow>
         set64 d (memop_extend memop (mem_read (memop_swaps memop) (memop_bytes memop) (r64 m a) (mem m))) m
     | QemuSt64 v a i memop \<Rightarrow>
         m\<lparr>mem := mem_write (memop_swaps memop) (memop_bytes memop) (r64 m a) (r64 m v) (mem m)\<rparr>
     | LdEnv64 memop d off \<Rightarrow> set64 d (memop_extend memop (env_read (memop_bytes memop) off (vfp m))) m
     | StEnv64 memop v off \<Rightarrow> m\<lparr>vfp := env_write (memop_bytes memop) off (r64 m v) (vfp m)\<rparr>
     | _ \<Rightarrow> m)"

definition ref_sem :: tcg_sem where
  "ref_sem = \<lparr>step = ref_step, cond64 = ref_cond, cond32 = ref_cond, cc_value = ref_cc,
     const_value = ref_const, host = ref_host\<rparr>"

interpretation ref: tcg_semantics ref_sem
  by unfold_locales (auto simp: ref_sem_def ref_step_def ref_const_def ref_cc_def)

end
