(* ===== verification/A64Flags.thy ===== *)
theory A64Flags
  imports A64Sem
begin

text \<open>
  The flag generators compute the result and the flags of the architecture's \<open>AddWithCarry\<close>, for
  additions, subtractions and additions with carry in both widths, and the flags of the logical
  operations.
\<close>

section \<open>Addition with carry\<close>

definition add_with_carry :: "'a::len word \<Rightarrow> 'a word \<Rightarrow> bool \<Rightarrow> 'a word \<times> nzcv" where
  "add_with_carry x y c =
     (let r = x + y + of_bool c
      in (r, \<lparr>flag_n = sint r < 0, flag_z = (r = 0),
              flag_c = (2 ^ LENGTH('a) \<le> unat x + unat y + of_bool c),
              flag_v = (sint r \<noteq> sint x + sint y + of_bool c)\<rparr>))"

lemma sint_sum:
  fixes x y :: "'a::len word" and c :: bool
  defines "k \<equiv> sint x + sint y + of_bool c" and "H \<equiv> 2 ^ (LENGTH('a) - 1) :: int"
  shows "sint (x + y + of_bool c) = (if k < - H then k + 2 * H else if H \<le> k then k - 2 * H else k)"
    and "- H \<le> sint x \<and> sint x < H"
proof -
  have b: "- H \<le> sint w \<and> sint w < H" for w :: "'a word"
    using sint_range_size [of w] by (simp add: H_def word_size)
  show "- H \<le> sint x \<and> sint x < H" by (rule b)
  have r: "x + y + of_bool c = word_of_int k"
    by (simp add: k_def)
  have two: "(2 :: int) ^ LENGTH('a) = 2 * H"
    by (cases "LENGTH('a)") (simp_all add: H_def)
  have sr: "sint (x + y + of_bool c) = signed_take_bit (LENGTH('a) - 1) k"
    unfolding r sint_sbintrunc' ..
  have st: "signed_take_bit (LENGTH('a) - 1) k = (k + H) mod (2 * H) - H"
    by (simp add: signed_take_bit_eq_take_bit_shift take_bit_eq_mod H_def two [unfolded H_def])
  have Hpos: "0 < H" by (simp add: H_def)
  have kb: "- 2 * H \<le> k" "k < 2 * H"
    using b [of x] b [of y] by (simp_all add: k_def)
  show "sint (x + y + of_bool c) = (if k < - H then k + 2 * H else if H \<le> k then k - 2 * H else k)"
  proof -
    consider "k < - H" | "- H \<le> k" "k < H" | "H \<le> k" by linarith
    then show ?thesis
    proof cases
      case 1
      have "(k + H) mod (2 * H) = (k + H + 2 * H) mod (2 * H)" by (simp only: mod_add_self2)
      also have "\<dots> = k + H + 2 * H" using 1 kb Hpos by (intro mod_pos_pos_trivial) linarith+
      finally show ?thesis using 1 sr st by simp
    next
      case 2
      then have "(k + H) mod (2 * H) = k + H" by (intro mod_pos_pos_trivial) linarith+
      then show ?thesis using 2 sr st by simp
    next
      case 3
      have "(k + H) mod (2 * H) = (k + H - 2 * H) mod (2 * H)"
        by (metis minus_mod_self2)
      also have "\<dots> = k + H - 2 * H" using 3 kb Hpos by (intro mod_pos_pos_trivial) linarith+
      finally show ?thesis using 3 sr st Hpos by simp
    qed
  qed
qed

lemma bit_msb: "bit (w :: 'a::len word) (LENGTH('a) - 1) \<longleftrightarrow> sint w < 0"
  by (simp add: bit_last_iff)

lemma overflow_bit:
  fixes x y :: "'a::len word"
  assumes "r = x + y + of_bool c"
  shows "bit ((r XOR x) AND NOT (x XOR y)) (LENGTH('a) - 1) \<longleftrightarrow> sint r \<noteq> sint x + sint y + of_bool c"
proof -
  have "0 < (2 :: int) ^ (LENGTH('a) - 1)" by simp
  then have "((sint r < 0) \<noteq> (sint x < 0) \<and> (sint x < 0) = (sint y < 0)) \<longleftrightarrow> sint r \<noteq> sint x + sint y + of_bool c"
    using sint_sum(1) [of x y c] sint_sum(2) [of x] sint_sum(2) [of y] unfolding assms
    by (cases c) (auto split: if_splits)
  moreover have "bit ((r XOR x) AND NOT (x XOR y)) (LENGTH('a) - 1) \<longleftrightarrow>
      bit r (LENGTH('a) - 1) \<noteq> bit x (LENGTH('a) - 1) \<and> bit x (LENGTH('a) - 1) = bit y (LENGTH('a) - 1)"
    by (auto simp: bit_simps)
  ultimately show ?thesis by (simp only: bit_msb)
qed

section \<open>Flags as the processor keeps them\<close>

text \<open>C is 0 or 1.\<close>

definition flags_ok :: "cpu \<Rightarrow> bool" where
  "flags_ok m \<longleftrightarrow> r32 m CF \<le> 1"

lemma half_words:
  fixes v :: u64
  shows "bit (ucast (drop_bit 32 v) :: u32) 31 = bit v 63"
    and "(ucast v :: u32) OR ucast (drop_bit 32 v) = 0 \<longleftrightarrow> v = 0"
proof -
  show "bit (ucast (drop_bit 32 v) :: u32) 31 = bit v 63" by (simp add: bit_simps)
  have "v = 0" if "(ucast v :: u32) OR ucast (drop_bit 32 v) = 0"
  proof (rule bit_word_eqI)
    fix n assume n: "n < LENGTH(64)"
    from that have z: "\<not> bit ((ucast v :: u32) OR ucast (drop_bit 32 v)) k" for k by simp
    show "bit v n = bit 0 n"
      using z [of n] z [of "n - 32"] n by (cases "n < 32") (simp_all add: bit_simps)
  qed
  then show "(ucast v :: u32) OR ucast (drop_bit 32 v) = 0 \<longleftrightarrow> v = 0" by auto
qed

lemma carry_out_bool: "carry_out x y = of_bool b \<longleftrightarrow> (2 ^ LENGTH('a) \<le> unat x + unat y) = b" for x y :: "'a::len word"
  by (cases b) (auto simp: carry_out_def)

lemma sint_negative: "sint (w :: u64) < 0 \<longleftrightarrow> bit w 63" "sint (w' :: u32) < 0 \<longleftrightarrow> bit w' 31"
  using bit_msb [of w] bit_msb [of w'] by simp_all

lemma add_with_carry_bits:
  fixes x y :: "'a::len word"
  assumes "n = LENGTH('a) - 1" and "r = x + y + of_bool c"
  shows "add_with_carry x y c = (r, \<lparr>flag_n = bit r n, flag_z = (r = 0),
    flag_c = (2 ^ LENGTH('a) \<le> unat x + unat y + of_bool c),
    flag_v = (bit r n \<noteq> bit x n \<and> bit x n = bit y n)\<rparr>)"
proof -
  have "bit ((r XOR x) AND NOT (x XOR y)) n \<longleftrightarrow> bit r n \<noteq> bit x n \<and> bit x n = bit y n"
    using assms(1) by (auto simp: bit_simps)
  then show ?thesis
    using overflow_bit [OF assms(2)] bit_msb [of r] unfolding assms(1)
    by (simp add: add_with_carry_def Let_def flip: assms(2))
qed

lemmas add_with_carry64 = add_with_carry_bits [where 'a = 64 and n = 63, simplified, OF refl]
lemmas add_with_carry32 = add_with_carry_bits [where 'a = 32 and n = 31, simplified, OF refl]

lemma carry_add: "carry_out x y = (0 :: 'a::len word) \<longleftrightarrow> \<not> 2 ^ LENGTH('a) \<le> unat x + unat y"
  "carry_out x y \<le> (1 :: 'a::len word)"
  by (simp_all add: carry_out_def)

section \<open>What the generators leave alone\<close>

definition old64 :: "disas_context \<Rightarrow> tv64 \<Rightarrow> bool" where
  "old64 s x \<longleftrightarrow> (\<forall>k. x = T k \<longrightarrow> k < next_i64 s)"

definition frame :: "tv64 set \<Rightarrow> disas_context \<Rightarrow> disas_context \<Rightarrow> cpu \<Rightarrow> cpu \<Rightarrow> bool" where
  "frame D s s' m m' \<longleftrightarrow> next_i64 s \<le> next_i64 s' \<and> next_i32 s \<le> next_i32 s' \<and>
     s' = s\<lparr>code := code s', next_i64 := next_i64 s', next_i32 := next_i32 s',
       dc_tmp_a64 := dc_tmp_a64 s', aborted := aborted s'\<rparr> \<and>
     (\<forall>x. old64 s x \<longrightarrow> x \<notin> D \<longrightarrow> r64 m' x = r64 m x) \<and>
     (\<forall>k < next_i32 s. r32 m' (T32 k) = r32 m (T32 k)) \<and> beyond m' = beyond m"

lemma old64_simps [simp]: "old64 s (X n)" "old64 s PC" "old64 s (T k) \<longleftrightarrow> k < next_i64 s"
  by (simp_all add: old64_def)

lemma old64_fresh:
  assumes "old64 s x"
  shows "x \<noteq> T (next_i64 s)" "x \<noteq> T (Suc (next_i64 s))" "x \<noteq> T (Suc (Suc (next_i64 s)))"
    "x \<noteq> T (Suc (Suc (Suc (next_i64 s))))"
  using assms by (auto simp: old64_def)

lemma word_le_one: "(w :: u32) \<le> 1 \<longleftrightarrow> w = 0 \<or> w = 1"
  by (auto simp: word_le_nat_alt word_unat_eq_iff)

lemma unat_Suc64: "unat ((x :: u64) + 1) = (if 2 ^ 64 - 1 \<le> unat x then 0 else unat x + 1)"
proof (cases "2 ^ 64 - 1 \<le> unat x")
  case True
  with unsigned_less [of x, where 'a = nat] have "unat x + 1 = 2 ^ 64" by simp
  then show ?thesis using True by (simp add: unat_word_ariths)
next
  case False
  then show ?thesis by (simp add: unat_word_ariths)
qed

lemma unat_Suc32: "unat ((x :: u32) + 1) = (if 2 ^ 32 - 1 \<le> unat x then 0 else unat x + 1)"
proof (cases "2 ^ 32 - 1 \<le> unat x")
  case True
  with unsigned_less [of x, where 'a = nat] have "unat x + 1 = 2 ^ 32" by simp
  then show ?thesis using True by (simp add: unat_word_ariths)
next
  case False
  then show ?thesis by (simp add: unat_word_ariths)
qed

lemma add_one_last: "x + 1 + y = x + y + (1 :: 'a::len word)"
  by (simp add: ac_simps)

lemma not_minus: "x + NOT y + 1 = (x :: 'a::len word) - y"
  by (simp add: not_eq_complement)

lemma borrow: "2 ^ LENGTH('a) \<le> Suc (unat x + unat (NOT y)) \<longleftrightarrow> y \<le> (x :: 'a::len word)"
proof -
  have "uint (NOT y) = (- uint y - 1) mod 2 ^ LENGTH('a)"
    by (simp only: unsigned_not_eq take_bit_eq_mod) (simp only: not_eq_complement)
  also have "\<dots> = (2 ^ LENGTH('a) + (- uint y - 1)) mod 2 ^ LENGTH('a)"
    by (simp only: mod_add_self1)
  also have "\<dots> = 2 ^ LENGTH('a) - 1 - uint y"
    using unsigned_less [of y, where 'a = int] unsigned_greater_eq [of y, where 'a = int]
    by (subst mod_pos_pos_trivial) linarith+
  finally have "int (unat (NOT y)) = 2 ^ LENGTH('a) - 1 - int (unat y)" by simp
  then have "2 ^ LENGTH('a) = Suc (unat (NOT y) + unat y)" by (simp flip: of_nat_eq_iff [where 'a = int])
  with unsigned_less [of y, where 'a = nat] show ?thesis by (auto simp: word_le_nat_alt)
qed

lemmas flag_simps = flags_ok_def flags_def add_with_carry64 add_with_carry32 half_words bit_simps carry_out_def

lemma low_add: "(ucast (x + y :: u64) :: u32) = ucast x + ucast y"
proof transfer
  fix x y :: int
  have "take_bit 32 (take_bit 64 x + take_bit 64 y) = take_bit 32 (take_bit 32 (take_bit 64 x) + take_bit 32 (take_bit 64 y))"
    by (rule take_bit_add [symmetric])
  also have "\<dots> = take_bit 32 (take_bit 32 x + take_bit 32 y)" by simp
  also have "\<dots> = take_bit 32 (x + y)" by (rule take_bit_add)
  finally show "take_bit LENGTH(32) (take_bit LENGTH(64) (x + y)) =
      take_bit LENGTH(32) (take_bit LENGTH(64) x + take_bit LENGTH(64) y)" by simp
qed

lemma low_one: "(ucast (1 :: u64) :: u32) = 1"
  by simp

lemma old64_mono: "old64 s x \<Longrightarrow> next_i64 s \<le> next_i64 s' \<Longrightarrow> old64 s' x"
  by (auto simp: old64_def)

lemma frame_trans:
  assumes "frame D s s1 m m1" and "frame E s1 s2 m1 m2"
  shows "frame (D \<union> E) s s2 m m2"
proof -
  from assms have n: "next_i64 s \<le> next_i64 s1" "next_i64 s1 \<le> next_i64 s2"
    "next_i32 s \<le> next_i32 s1" "next_i32 s1 \<le> next_i32 s2" by (simp_all add: frame_def)
  have "s1 = s\<lparr>code := code s1, next_i64 := next_i64 s1, next_i32 := next_i32 s1,
       dc_tmp_a64 := dc_tmp_a64 s1, aborted := aborted s1\<rparr>"
    "s2 = s1\<lparr>code := code s2, next_i64 := next_i64 s2, next_i32 := next_i32 s2,
       dc_tmp_a64 := dc_tmp_a64 s2, aborted := aborted s2\<rparr>"
    using assms by (simp_all add: frame_def)
  then have "s2 = s\<lparr>code := code s2, next_i64 := next_i64 s2, next_i32 := next_i32 s2,
       dc_tmp_a64 := dc_tmp_a64 s2, aborted := aborted s2\<rparr>"
    by (cases s; cases s1; cases s2) simp
  with n assms show ?thesis
    unfolding frame_def by (auto intro: old64_mono)
qed

text \<open>The sum in either width; 32-bit results are zero extended.\<close>

definition arith :: "bool \<Rightarrow> u64 \<Rightarrow> u64 \<Rightarrow> bool \<Rightarrow> u64 \<times> nzcv" where
  "arith sf x y c = (if sf then add_with_carry x y c
     else case add_with_carry (ucast x :: u32) (ucast y) c of (v, f) \<Rightarrow> (ucast v, f))"

context tcg_semantics
begin

text \<open>Each generator: result, flags and frame.\<close>

lemma wp_add_CC64:
  assumes a: "old64 s a" and b: "old64 s b"
    and Q: "\<And>s' m'. frame {d} s s' m m' \<Longrightarrow> flags_ok m' \<Longrightarrow>
      (r64 m' d, flags m') = add_with_carry (r64 m a) (r64 m b) False \<Longrightarrow> Q () s' m'"
  shows "wp S (gen_add_CC64 d a b) Q s m"
  unfolding gen_add_CC64_def gen_set_NZ64_def
  by (intro wp exec1_running; rule Q; simp add: ops old64_fresh [OF a] old64_fresh [OF b] frame_def flag_simps)

lemma wp_add_CC32:
  assumes Q: "\<And>s' m'. frame {d} s s' m m' \<Longrightarrow> flags_ok m' \<Longrightarrow>
      (r64 m' d, flags m') = (case add_with_carry (ucast (r64 m a) :: u32) (ucast (r64 m b)) False of
         (v, f) \<Rightarrow> (ucast v, f)) \<Longrightarrow> Q () s' m'"
  shows "wp S (gen_add_CC32 d a b) Q s m"
  unfolding gen_add_CC32_def
  by (intro wp exec1_running; rule Q; simp add: ops frame_def flag_simps)

lemma wp_sub_CC64:
  assumes a: "old64 s a" and b: "old64 s b"
    and Q: "\<And>s' m'. frame {d} s s' m m' \<Longrightarrow> flags_ok m' \<Longrightarrow>
      (r64 m' d, flags m') = add_with_carry (r64 m a) (NOT (r64 m b)) True \<Longrightarrow> Q () s' m'"
  shows "wp S (gen_sub_CC64 d a b) Q s m"
  unfolding gen_sub_CC64_def gen_set_NZ64_def
  by (intro wp exec1_running; rule Q; simp add: ops conds old64_fresh [OF a] old64_fresh [OF b] frame_def flag_simps not_minus borrow [where 'a = 64, simplified])

lemma wp_sub_CC32:
  assumes Q: "\<And>s' m'. frame {d} s s' m m' \<Longrightarrow> flags_ok m' \<Longrightarrow>
      (r64 m' d, flags m') = (case add_with_carry (ucast (r64 m a) :: u32) (NOT (ucast (r64 m b))) True of
         (v, f) \<Rightarrow> (ucast v, f)) \<Longrightarrow> Q () s' m'"
  shows "wp S (gen_sub_CC32 d a b) Q s m"
  unfolding gen_sub_CC32_def
  by (intro wp exec1_running; rule Q; simp add: ops conds frame_def flag_simps not_minus borrow [where 'a = 32, simplified])


lemma wp_adc_CC64:
  assumes a: "old64 s a" and b: "old64 s b" and ok: "flags_ok m"
    and Q: "\<And>s' m'. frame {d} s s' m m' \<Longrightarrow> flags_ok m' \<Longrightarrow>
      (r64 m' d, flags m') = add_with_carry (r64 m a) (r64 m b) (flag_c (flags m)) \<Longrightarrow> Q () s' m'"
  shows "wp S (gen_adc_CC64 d a b) Q s m"
proof -
  from ok consider "r32 m CF = 0" | "r32 m CF = 1"
    by (auto simp: flags_ok_def word_le_one)
  then show ?thesis
  proof cases
    case 1
    show ?thesis
      unfolding gen_adc_CC64_def gen_set_NZ64_def tcg_const_i64_def
      apply (intro wp exec1_running)
      apply (rule Q)
        apply (simp_all add: ops old64_fresh [OF a] old64_fresh [OF b] frame_def 1)
       apply (use unsigned_less [of "r64 m a", where 'a = nat] in \<open>simp_all add: flag_simps 1\<close>)
      done
  next
    case 2
    show ?thesis
      unfolding gen_adc_CC64_def gen_set_NZ64_def tcg_const_i64_def
      apply (intro wp exec1_running)
      apply (rule Q)
        apply (simp_all add: ops old64_fresh [OF a] old64_fresh [OF b] frame_def 2)
       apply (use unsigned_less [of "r64 m a", where 'a = nat] unsigned_less [of "r64 m b", where 'a = nat] in
          \<open>auto simp: flag_simps 2 unat_Suc64 add_one_last\<close>)
      done
  qed
qed

lemma wp_logic_CC:
  assumes Q: "\<And>s' m'. frame {} s s' m m' \<Longrightarrow> flags_ok m' \<Longrightarrow>
      flags m' = \<lparr>flag_n = bit (r64 m a) (if sf then 63 else 31),
        flag_z = (if sf then r64 m a = 0 else (ucast (r64 m a) :: u32) = 0), flag_c = False, flag_v = False\<rparr> \<Longrightarrow> Q () s' m'"
  shows "wp S (gen_logic_CC sf a) Q s m"
  unfolding gen_logic_CC_def gen_set_NZ64_def
  by (intro wp exec1_running; rule Q; simp add: ops frame_def flag_simps)

lemma wp_adc_CC32:
  assumes ok: "flags_ok m"
    and Q: "\<And>s' m'. frame {d} s s' m m' \<Longrightarrow> flags_ok m' \<Longrightarrow>
      (r64 m' d, flags m') = (case add_with_carry (ucast (r64 m a) :: u32) (ucast (r64 m b)) (flag_c (flags m)) of
         (v, f) \<Rightarrow> (ucast v, f)) \<Longrightarrow> Q () s' m'"
  shows "wp S (gen_adc_CC32 d a b) Q s m"
proof -
  let ?a = "ucast (r64 m a) :: u32" and ?b = "ucast (r64 m b) :: u32"
  from ok consider "r32 m CF = 0" | "r32 m CF = 1"
    by (auto simp: flags_ok_def word_le_one)
  then show ?thesis
  proof cases
    case 1
    show ?thesis
      unfolding gen_adc_CC32_def tcg_const_i32_def
      apply (intro wp exec1_running)
      apply (rule Q)
        apply (simp_all add: ops frame_def 1)
       apply (use unsigned_less [of ?a, where 'a = nat] in \<open>simp_all add: flag_simps 1\<close>)
      done
  next
    case 2
    show ?thesis
      unfolding gen_adc_CC32_def tcg_const_i32_def
      apply (intro wp exec1_running)
      apply (rule Q)
        apply (simp_all add: ops frame_def 2)
       apply (use unsigned_less [of ?a, where 'a = nat] unsigned_less [of ?b, where 'a = nat] in
          \<open>auto simp: flag_simps 2 unat_Suc32 add_one_last\<close>)
      done
  qed
qed

text \<open>Without flags, the low half is the sum of the low halves.\<close>

lemma wp_adc:
  assumes a: "old64 s a" and b: "old64 s b" and d: "old64 s d" and ok: "flags_ok m"
    and Q: "\<And>s' m'. frame {d} s s' m m' \<Longrightarrow> flags_ok m' \<Longrightarrow> flags m' = flags m \<Longrightarrow>
      r64 m' d = (if sf then r64 m a + r64 m b + of_bool (flag_c (flags m))
        else ucast ((ucast (r64 m a) :: u32) + ucast (r64 m b) + of_bool (flag_c (flags m)))) \<Longrightarrow> Q () s' m'"
  shows "wp S (gen_adc sf d a b) Q s m"
proof -
  have c: "(ucast (r32 m CF) :: u64) = of_bool (flag_c (flags m))"
    using ok by (auto simp: flags_ok_def word_le_one flags_def)
  have sum: "(ucast (x + y + of_bool k :: u64) :: u32) = ucast x + ucast y + of_bool k" for x y k
    by (cases k) (simp_all add: low_add)
  note fresh = old64_fresh [OF a] old64_fresh [OF b] old64_fresh [OF d] old64_fresh [OF d, THEN not_sym]
  show ?thesis
    unfolding gen_adc_def
    by (intro wp exec1_running; rule Q; use ok in \<open>simp add: ops fresh frame_def c flag_simps low_add\<close>)
qed

lemma low_not: "(ucast (NOT y :: u64) :: u32) = NOT (ucast y)"
  by (rule bit_word_eqI) (auto simp: bit_simps)

lemma wp_add_CC:
  assumes "old64 s a" and "old64 s b"
    and "\<And>s' m'. frame {d} s s' m m' \<Longrightarrow> flags_ok m' \<Longrightarrow>
      (r64 m' d, flags m') = arith sf (r64 m a) (r64 m b) False \<Longrightarrow> Q () s' m'"
  shows "wp S (gen_add_CC sf d a b) Q s m"
  using assms by (auto simp: gen_add_CC_def arith_def intro!: wp_add_CC64 wp_add_CC32)

lemma wp_sub_CC:
  assumes "old64 s a" and "old64 s b"
    and "\<And>s' m'. frame {d} s s' m m' \<Longrightarrow> flags_ok m' \<Longrightarrow>
      (r64 m' d, flags m') = arith sf (r64 m a) (NOT (r64 m b)) True \<Longrightarrow> Q () s' m'"
  shows "wp S (gen_sub_CC sf d a b) Q s m"
  using assms by (auto simp: gen_sub_CC_def arith_def low_not intro!: wp_sub_CC64 wp_sub_CC32)

lemma wp_adc_CC:
  assumes "old64 s a" and "old64 s b" and "flags_ok m"
    and "\<And>s' m'. frame {d} s s' m m' \<Longrightarrow> flags_ok m' \<Longrightarrow>
      (r64 m' d, flags m') = arith sf (r64 m a) (r64 m b) (flag_c (flags m)) \<Longrightarrow> Q () s' m'"
  shows "wp S (gen_adc_CC sf d a b) Q s m"
  using assms by (auto simp: gen_adc_CC_def arith_def intro!: wp_adc_CC64 wp_adc_CC32)

end

end
