(* ===== verification/A64BranchProps.thy ===== *)
theory A64BranchProps
  imports A64Insn A64Flags
begin

text \<open>
  What running the code of a direct branch does, under the laws of \<open>tcg_semantics\<close>: the printer is
  called once, and the block is left for the address that was logged.
\<close>

text \<open>A register operand: number 31 reads as zero.\<close>

definition zreg :: "cpu \<Rightarrow> nat \<Rightarrow> u64" where
  "zreg m n = (if n = 31 then 0 else r64 m (X n))"

lemmas goto_defs = gen_goto_tb_def gen_a64_set_pc_im_def gen_step_complete_exception_def gen_ss_advance_def
  gen_exception_def gen_exception_internal_def tcg_const_i32_def tcg_const_i64_def set_is_jmp_def call_printer_def

text \<open>The block left for \<open>dest\<close> after the call \<open>e\<close> of the printer.\<close>

definition leaves :: "cpu \<Rightarrow> u64 \<Rightarrow> (u64 \<times> u64 \<times> u64) list \<Rightarrow> status \<times> cpu \<Rightarrow> bool" where
  "leaves m dest es z \<longleftrightarrow> fst z = Stopped \<and> r64 (snd z) PC = dest \<and>
     printed (snd z) = printed m @ es \<and> (\<forall>n. r64 (snd z) (X n) = r64 m (X n))"

definition two_way :: "u64 \<Rightarrow> u64 \<Rightarrow> nat \<Rightarrow> unit gen" where
  "two_way pc addr l = do {
     call_printer pc addr 0;
     gen_goto_tb 0 pc;
     emit (SetLabel l);
     call_printer pc addr 1;
     gen_goto_tb 1 addr }"

text \<open>The value a compare-and-branch instruction tests.\<close>

definition compared :: "cpu \<Rightarrow> nat \<Rightarrow> bool \<Rightarrow> u64" where
  "compared m n sf = (if sf then zreg m n else ucast (ucast (zreg m n) :: u32))"

context tcg_semantics
begin

lemma goto_run:
  "\<exists>ops. code (snd (run_state (gen_goto_tb n dest) s)) = code s @ ops \<and>
    leaves m dest [] (run_code S ops (Running, m)) \<and>
    run_code S ops (Skipping l, m) = (Skipping l, m)"
  by (simp add: goto_defs leaves_def) (intro conjI impI; simp add: ops clear_ss)

lemma printer_run:
  "\<exists>ops m'. code (snd (run_state (call_printer pc addr t) s)) = code s @ ops \<and>
    run_code S ops (Running, m) = (Running, m') \<and>
    run_code S ops (Skipping l, m) = (Skipping l, m) \<and> printed m' = printed m @ [(pc, addr, t)] \<and>
    (\<forall>n. r64 m' (X n) = r64 m (X n))"
  by (simp add: goto_defs ops printer)

lemma print_and_leave:
  "\<exists>ops. code (snd (run_state (do { call_printer pc addr t; gen_goto_tb n dest }) s)) = code s @ ops \<and>
    leaves m dest [(pc, addr, t)] (run_code S ops (Running, m)) \<and>
    run_code S ops (Skipping l, m) = (Skipping l, m)"
proof -
  obtain s1 where s1: "run_state (call_printer pc addr t) s = ((), s1)" by (metis old.unit.exhaust surj_pair)
  obtain ops m1 where p: "code s1 = code s @ ops" "run_code S ops (Running, m) = (Running, m1)"
    "run_code S ops (Skipping l, m) = (Skipping l, m)" "printed m1 = printed m @ [(pc, addr, t)]"
    "\<forall>n. r64 m1 (X n) = r64 m (X n)"
    using printer_run [of pc addr t s m l] s1 by auto
  obtain ops' where g: "code (snd (run_state (gen_goto_tb n dest) s1)) = code s1 @ ops'"
    "leaves m1 dest [] (run_code S ops' (Running, m1))" 
    using goto_run [of n dest s1 m1 l] by auto
  obtain ops'' where g': "code (snd (run_state (gen_goto_tb n dest) s1)) = code s1 @ ops''"
    "run_code S ops'' (Skipping l, m) = (Skipping l, m)" 
    using goto_run [of n dest s1 m l] by auto
  from g g' have "ops'' = ops'" by simp
  with p g g' s1 show ?thesis
    by (intro exI [of _ "ops @ ops'"]) (simp add: leaves_def)
qed

text \<open>The tail of a conditional branch, entered at its start or at its label.\<close>

lemma two_way_run:
  "\<exists>ops. code (snd (run_state (two_way pc addr l) s)) = code s @ ops \<and>
    leaves m pc [(pc, addr, 0)] (run_code S ops (Running, m)) \<and>
    leaves m addr [(pc, addr, 1)] (run_code S ops (Skipping l, m))"
proof -
  obtain s1 where s1: "run_state (do { call_printer pc addr 0; gen_goto_tb 0 pc }) s = ((), s1)" by (metis old.unit.exhaust surj_pair)
  obtain ops where f: "code s1 = code s @ ops" "leaves m pc [(pc, addr, 0)] (run_code S ops (Running, m))"
    "run_code S ops (Skipping l, m) = (Skipping l, m)"
    using print_and_leave [of pc addr 0 0 pc s m l] s1 by auto
  let ?s = "s1\<lparr>code := code s1 @ [SetLabel l]\<rparr>"
  obtain ops' where t: "code (snd (run_state (do { call_printer pc addr 1; gen_goto_tb 1 addr }) ?s)) = code ?s @ ops'"
    "leaves m addr [(pc, addr, 1)] (run_code S ops' (Running, m))"
    using print_and_leave [of pc addr 1 1 addr ?s m l] by auto
  obtain st m1 where st: "run_code S ops (Running, m) = (st, m1)" by fastforce
  with f(2) have "st = Stopped" by (simp add: leaves_def)
  with st f s1 t show ?thesis
    by (intro exI [of _ "ops @ SetLabel l # ops'"]) (auto simp: split_beta two_way_def)
qed

end

context tcg_semantics
begin

lemma two_way_after:
  assumes "run_code S (code (snd (run_state prefix (s\<lparr>code := []\<rparr>)))) (Running, m) =
      (if taken then Skipping (fst (run_state prefix (s\<lparr>code := []\<rparr>))) else Running, mb)"
    and "printed mb = printed m" and "\<And>n. r64 mb (X n) = r64 m (X n)"
  shows "leaves m (if taken then branch_target (dc_pc s) insn a b else dc_pc s)
     [(dc_pc s, branch_target (dc_pc s) insn a b, of_bool taken)]
     (run_code S (emitted (do { pc \<leftarrow> get_dc dc_pc; l \<leftarrow> prefix; two_way pc (branch_target pc insn a b) l }) s)
       (Running, m))"
proof -
  obtain l s1 where p: "run_state prefix (s\<lparr>code := []\<rparr>) = (l, s1)" by fastforce
  let ?b = "branch_target (dc_pc s) insn a b"
  obtain ops where "code (snd (run_state (two_way (dc_pc s) ?b l) s1)) = code s1 @ ops"
    "leaves mb (dc_pc s) [(dc_pc s, ?b, 0)] (run_code S ops (Running, mb))"
    "leaves mb ?b [(dc_pc s, ?b, 1)] (run_code S ops (Skipping l, mb))"
    using two_way_run [of "dc_pc s" ?b l s1 mb] by blast
  then show ?thesis using assms p by (cases taken) (simp_all add: leaves_def emitted_def)
qed

lemma comp_b_prefix:
  "disas_comp_b_imm insn = do {
     pc \<leftarrow> get_dc dc_pc;
     l \<leftarrow> do {
       tcg_cmp \<leftarrow> read_cpu_reg (extract32 insn 0 5) (extract32 insn 31 1 = 1);
       label_match \<leftarrow> gen_new_label;
       emit (Brcondi64 (if extract32 insn 24 1 = 1 then TCG_COND_NE else TCG_COND_EQ) tcg_cmp 0 label_match);
       State_Monad.return label_match };
     two_way pc (branch_target pc insn 5 19) l }"
  by (simp only: disas_comp_b_imm_def two_way_def Let_def State_Monad.bind_assoc State_Monad.bind_left_identity)

lemma comp_b_run:
  "leaves m (if taken then branch_target (dc_pc s) insn 5 19 else dc_pc s)
     [(dc_pc s, branch_target (dc_pc s) insn 5 19, of_bool taken)]
     (run_code S (emitted (disas_comp_b_imm insn) s) (Running, m))"
  if "taken \<longleftrightarrow> (compared m (extract32 insn 0 5) (extract32 insn 31 1 = 1) = 0) = (extract32 insn 24 1 \<noteq> 1)"
  unfolding comp_b_prefix
  by (rule two_way_after [where mb = "set64 (T (next_i64 s))
      (compared m (extract32 insn 0 5) (extract32 insn 31 1 = 1)) m"])
    (auto simp: that read_cpu_reg_def new_tmp_a64_def ops conds compared_def zreg_def)


lemma test_b_prefix:
  "disas_test_b_imm insn = do {
     pc \<leftarrow> get_dc dc_pc;
     l \<leftarrow> do {
       tcg_cmp \<leftarrow> tcg_temp_new_i64;
       tcg_rt \<leftarrow> cpu_reg (extract32 insn 0 5);
       emit (Bini64 FAnd tcg_cmp tcg_rt (2 ^ (32 * extract32 insn 31 1 + extract32 insn 19 5)));
       label_match \<leftarrow> gen_new_label;
       emit (Brcondi64 (if extract32 insn 24 1 = 1 then TCG_COND_NE else TCG_COND_EQ) tcg_cmp 0 label_match);
       emit (Free64 tcg_cmp);
       State_Monad.return label_match };
     two_way pc (branch_target pc insn 5 14) l }"
  by (simp only: disas_test_b_imm_def two_way_def Let_def State_Monad.bind_assoc State_Monad.bind_left_identity)

lemma and_power_zero: "(w :: u64) AND 2 ^ n = 0 \<longleftrightarrow> \<not> bit w n"
  by (rule and_exp_eq_0_iff_not_bit)

lemma test_b_run:
  "leaves m (if taken then branch_target (dc_pc s) insn 5 14 else dc_pc s)
     [(dc_pc s, branch_target (dc_pc s) insn 5 14, of_bool taken)]
     (run_code S (emitted (disas_test_b_imm insn) s) (Running, m))"
  if "taken \<longleftrightarrow> bit (zreg m (extract32 insn 0 5)) (32 * extract32 insn 31 1 + extract32 insn 19 5) =
       (extract32 insn 24 1 = 1)"
proof -
  let ?rt = "extract32 insn 0 5" and ?n = "32 * extract32 insn 31 1 + extract32 insn 19 5"
  let ?m = "if ?rt = 31 then set64 (T (Suc (next_i64 s))) 0 m else m"
  show ?thesis
    unfolding test_b_prefix
    by (rule two_way_after [where mb = "set64 (T (next_i64 s)) (zreg m ?rt AND 2 ^ ?n) ?m"])
      (auto simp: that cpu_reg_def new_tmp_a64_zero_def new_tmp_a64_def ops conds zreg_def and_power_zero)
qed

lemma cond_b_prefix:
  "disas_cond_b_imm insn = do {
     pc \<leftarrow> get_dc dc_pc;
     l \<leftarrow> do {
       label_match \<leftarrow> gen_new_label;
       emit (ArmGenTestCc (extract32 insn 0 4) label_match);
       State_Monad.return label_match };
     two_way pc (branch_target pc insn 5 19) l }"
  if "\<not> bit insn 4" "\<not> bit insn 24" "extract32 insn 0 4 < 14"
  using that
  by (simp only: disas_cond_b_imm_def two_way_def Let_def State_Monad.bind_assoc State_Monad.bind_left_identity
      simp_thms if_False if_True)

lemma cond_b_run:
  assumes "\<not> bit insn 4" "\<not> bit insn 24"
    and t: "taken \<longleftrightarrow> arm_condition (extract32 insn 0 4) (flags m)"
  shows "leaves m (if taken then branch_target (dc_pc s) insn 5 19 else dc_pc s)
     [(dc_pc s, branch_target (dc_pc s) insn 5 19, of_bool taken)]
     (run_code S (emitted (disas_cond_b_imm insn) s) (Running, m))"
proof (cases "extract32 insn 0 4 < 14")
  case True
  show ?thesis
    unfolding cond_b_prefix [OF assms(1,2) True]
    by (rule two_way_after [where mb = m]) (auto simp: t)
next
  case False
  with extract32_less [of insn 0 4] have "extract32 insn 0 4 = 14 \<or> extract32 insn 0 4 = 15" by simp linarith
  with t have taken by (auto simp: arm_condition_def Let_def)
  let ?s = "s\<lparr>code := []\<rparr>"
  obtain ops where "code (snd (run_state (do { call_printer (dc_pc s) (branch_target (dc_pc s) insn 5 19) 1;
        gen_goto_tb 0 (branch_target (dc_pc s) insn 5 19) }) ?s)) = code ?s @ ops"
    "leaves m (branch_target (dc_pc s) insn 5 19) [(dc_pc s, branch_target (dc_pc s) insn 5 19, 1)] (run_code S ops (Running, m))"
    using print_and_leave by metis
  with False assms(1,2) \<open>taken\<close> show ?thesis
    by (simp add: disas_cond_b_imm_def emitted_def Let_def)
qed

lemma uncond_b_run:
  "leaves (if bit insn 31 then set64 (X 30) (dc_pc s) m else m) (branch_target (dc_pc s) insn 0 26)
     [(dc_pc s, branch_target (dc_pc s) insn 0 26, 1)]
     (run_code S (emitted (disas_uncond_b_imm insn) s) (Running, m))"
proof -
  let ?b = "branch_target (dc_pc s) insn 0 26"
  let ?m = "if bit insn 31 then set64 (X 30) (dc_pc s) m else m"
  let ?s = "if bit insn 31 then s\<lparr>code := [Movi64 (X 30) (dc_pc s)]\<rparr> else s\<lparr>code := []\<rparr>"
  obtain ops where "code (snd (run_state (do { call_printer (dc_pc s) ?b 1; gen_goto_tb 0 ?b }) ?s)) = code ?s @ ops"
    "leaves ?m ?b [(dc_pc s, ?b, 1)] (run_code S ops (Running, ?m))"
    using print_and_leave by metis
  then show ?thesis
    by (cases "bit insn 31") (simp_all add: disas_uncond_b_imm_def emitted_def cpu_reg_def ops Let_def)
qed

end

section \<open>The properties\<close>

definition cpu0 :: cpu where
  "cpu0 = \<lparr>r64 = \<lambda>_. 0, r32 = \<lambda>_. 0, printed = [], mem = \<lambda>_. 0, vfp = \<lambda>_. 0\<rparr>"

definition dc0 :: disas_context where
  "dc0 = \<lparr>dc_pc = 0x1004, dc_is_jmp = DISAS_NEXT, dc_current_el = 1, dc_ss_active = False, dc_pstate_ss = False,
     dc_ss_same_el = False, dc_is_ldex = False, dc_singlestep_enabled = False, dc_features = \<lambda>_. True,
     dc_be_data = 0, dc_mmu_idx = S12NSE1, dc_fp_excp_el = 0, dc_fp_access_checked = False, dc_insn_start_idx = 1,
     host_words_bigendian = False,
     dc_cp_regs = \<lambda>_. None, dc_tmp_a64 = [], tb_pc = 0x1000, tb_last_io = False, tb_use_icount = False,
     user_only = False, semihosting = False, has_andc_i32 = True, page_mask = 0xfffffffffffff000,
     next_i64 = 0, next_i32 = 0, next_ptr = 0, next_label = 0, next_cc = 0, aborted = False, code = []\<rparr>"

text \<open>C5: 
  \<open>CBZ\<close>, \<open>CBNZ\<close>, \<open>TBZ\<close> and \<open>TBNZ\<close>: running the code of the instruction calls the printer exactly
  once, with the address after the instruction, the target and whether the branch is taken; the
  block is left for the target or for the next instruction accordingly, and no register changes.
  This holds with direct block linking, across pages, and under both kinds of single stepping.
\<close>

theorem compare_branches_log_once:
  assumes "tcg_semantics S"
  shows "(let target = branch_target (dc_pc s) insn 5 19;
              taken = ((compared m (extract32 insn 0 5) (extract32 insn 31 1 = 1) = 0) = (extract32 insn 24 1 \<noteq> 1))
          in leaves m (if taken then target else dc_pc s) [(dc_pc s, target, of_bool taken)]
               (run_code S (emitted (disas_comp_b_imm insn) s) (Running, m))) \<and>
         (let target = branch_target (dc_pc s) insn 5 14;
              taken = (bit (zreg m (extract32 insn 0 5)) (32 * extract32 insn 31 1 + extract32 insn 19 5) =
                       (extract32 insn 24 1 = 1))
          in leaves m (if taken then target else dc_pc s) [(dc_pc s, target, of_bool taken)]
               (run_code S (emitted (disas_test_b_imm insn) s) (Running, m)))"
  unfolding Let_def
  by (intro conjI tcg_semantics.comp_b_run [OF assms] tcg_semantics.test_b_run [OF assms] refl)

theorem compare_branches_log_once_witness:
  "(let target = branch_target (dc_pc dc0) 0xb4000041 5 19;
        taken = ((compared cpu0 (extract32 0xb4000041 0 5) (extract32 0xb4000041 31 1 = 1) = 0) =
                 (extract32 0xb4000041 24 1 \<noteq> 1))
    in leaves cpu0 (if taken then target else dc_pc dc0) [(dc_pc dc0, target, of_bool taken)]
         (run_code ref_sem (emitted (disas_comp_b_imm 0xb4000041) dc0) (Running, cpu0)))"
  using compare_branches_log_once [OF ref.tcg_semantics_axioms, of dc0 "0xb4000041" cpu0] by (rule conjunct1)

text \<open>C4: 
  \<open>B.cond\<close>: the same, taken when the flags satisfy the condition; the conditions 14 and 15 always
  do.
\<close>

theorem conditional_branch_logs_once:
  assumes "tcg_semantics S" and "\<not> bit insn 4" and "\<not> bit insn 24"
  shows "let target = branch_target (dc_pc s) insn 5 19; taken = arm_condition (extract32 insn 0 4) (flags m)
    in leaves m (if taken then target else dc_pc s) [(dc_pc s, target, of_bool taken)]
         (run_code S (emitted (disas_cond_b_imm insn) s) (Running, m))"
  unfolding Let_def using assms by (intro tcg_semantics.cond_b_run refl)

theorem conditional_branch_logs_once_witness:
  "let target = branch_target (dc_pc dc0) 0x54000041 5 19; taken = arm_condition (extract32 0x54000041 0 4) (flags cpu0)
    in leaves cpu0 (if taken then target else dc_pc dc0) [(dc_pc dc0, target, of_bool taken)]
         (run_code ref_sem (emitted (disas_cond_b_imm 0x54000041) dc0) (Running, cpu0))"
  by (rule conditional_branch_logs_once [OF ref.tcg_semantics_axioms]) simp_all

text \<open>C23: 
  \<open>B\<close> and \<open>BL\<close>: one call of the printer, the branch counted as taken; \<open>BL\<close> puts the address of
  the next instruction into the link register.
\<close>

theorem unconditional_branch_logs_once:
  assumes "tcg_semantics S"
  shows "let target = branch_target (dc_pc s) insn 0 26
    in leaves (if bit insn 31 then set64 (X 30) (dc_pc s) m else m) target [(dc_pc s, target, 1)]
         (run_code S (emitted (disas_uncond_b_imm insn) s) (Running, m))"
  unfolding Let_def using assms by (rule tcg_semantics.uncond_b_run)

theorem unconditional_branch_logs_once_witness:
  "let target = branch_target (dc_pc dc0) 0x94000002 0 26
    in leaves (if bit (0x94000002 :: u32) 31 then set64 (X 30) (dc_pc dc0) cpu0 else cpu0) target [(dc_pc dc0, target, 1)]
         (run_code ref_sem (emitted (disas_uncond_b_imm 0x94000002) dc0) (Running, cpu0))"
  by (rule unconditional_branch_logs_once [OF ref.tcg_semantics_axioms])

end
