(* ===== verification/A64WMask.thy ===== *)
theory A64WMask
  imports A64Imm
begin

text \<open>
  The decoder of logical immediates against the architecture's description of them: an element of
  \<open>e\<close> bits with \<open>s + 1\<close> ones, rotated right by \<open>r\<close> and repeated over the word, so that bit \<open>k\<close> is
  set exactly when \<open>(k + r) mod e \<le> s\<close>.
\<close>

text \<open>The size of the element, read off the fields as the architecture does; 0 when there is none.\<close>

definition element_size :: "nat \<Rightarrow> nat \<Rightarrow> nat" where
  "element_size immn imms =
     (if immn = 1 then 64 else if imms < 32 then 32 else if imms < 48 then 16 else if imms < 56 then 8
      else if imms < 60 then 4 else if imms < 62 then 2 else 0)"

lemma bitmask64_bit: "0 < len \<Longrightarrow> len \<le> 64 \<Longrightarrow> bitmask64 len = Some (mask len)"
proof -
  assume len: "0 < len" "len \<le> 64"
  have "drop_bit (64 - len) (-1 :: u64) = mask len"
    using len by (intro bit_word_eqI) (auto simp: bit_simps)
  with len show ?thesis by (simp add: bitmask64_def)
qed

lemma replicate_loop_bits:
  assumes "e = 2 ^ j" and "j \<le> 6" and "\<And>k. e \<le> k \<Longrightarrow> \<not> bit m k" and "k < 64"
  shows "bit (replicate_loop m e) k = bit m (k mod e)"
  using assms
proof (induction m e arbitrary: j rule: replicate_loop.induct)
  case (1 m e)
  show ?case
  proof (cases "e < 64")
    case False
    with 1 have "e = 64" using power_increasing [of j 6 "2 :: nat"] by simp
    then show ?thesis using 1(5) by (simp add: replicate_loop.simps [of m 64])
  next
    case True
    then have j: "j < 6" using 1 power_increasing [of 6 j "2 :: nat"] by (cases "j < 6") auto
    have e: "0 < e" using 1 by simp
    let ?m = "m OR push_bit e m"
    have "\<not> bit ?m i" if "e * 2 \<le> i" for i
      using 1(4) [of i] 1(4) [of "i - e"] that by (auto simp: bit_simps)
    moreover have "e * 2 = 2 ^ Suc j" using 1 by simp
    ultimately have ih: "bit (replicate_loop ?m (e * 2)) k = bit ?m (k mod (e * 2))"
      using 1(5) e True j by (intro "1.IH" [of "Suc j"]) auto
    have "k mod (e * 2) = e * (k div e mod 2) + k mod e" by (rule mod_mult2_eq)
    moreover have "k mod (e * 2) < 64" using 1(5) by (meson mod_less_eq_dividend order_le_less_trans)
    moreover have "k mod e < e" using e by simp
    ultimately have "bit ?m (k mod (e * 2)) = bit m (k mod e)"
      using 1(4) [of "k mod (e * 2)"] by (cases "k div e mod 2 = 0") (auto simp: bit_simps mod2_eq_if split: if_splits)
    with ih e True show ?thesis by (simp add: replicate_loop.simps [of m e])
  qed
qed

text \<open>One element after the rotation.\<close>

lemma rotated_element:
  fixes m :: u64
  assumes "s < e" and "r < e" and "e \<le> 64" and "k < e"
    and m: "m = (if r \<noteq> 0 then (drop_bit r (mask (s + 1)) OR push_bit (e - r) (mask (s + 1))) AND mask e
                 else mask (s + 1))"
  shows "bit m k = ((k + r) mod e \<le> s)"
proof -
  have "(k + r) mod e = (if e \<le> k + r then k + r - e else k + r)"
    using assms by (simp add: mod_if)
  with assms show ?thesis by (cases "r = 0") (auto simp: bit_simps)
qed

lemma rotated_element_bound:
  fixes m :: u64
  assumes "s < e" and "e \<le> k"
    and m: "m = (if r \<noteq> 0 then (drop_bit r (mask (s + 1)) OR push_bit (e - r) (mask (s + 1))) AND mask e
                 else mask (s + 1))"
  shows "\<not> bit m k"
  using assms by (auto simp: bit_simps)

text \<open>The highest bit the source looks for is the size of the element.\<close>

lemma top_bit_eq:
  assumes "2 ^ k \<le> n" and "n < 2 ^ Suc k" and "k < 32"
  shows "top_bit n = int k"
proof -
  have "n div 2 ^ k = 1" using assms by (intro div_nat_eqI) simp_all
  then have k: "bit n k" by (simp add: bit_iff_odd)
  have "\<not> bit n i" if "k < i" for i
  proof -
    have "n < 2 ^ i" using assms(2) power_increasing [of "Suc k" i "2 :: nat"] that by simp
    then show ?thesis by (simp add: bit_iff_odd)
  qed
  then have "Max (set (filter (bit n) [0..<32])) = k"
    using k assms(3) by (intro Max_eqI) (auto simp: not_less [symmetric])
  moreover have "n \<noteq> 0" using assms(1) by (intro notI) simp
  ultimately show ?thesis by (simp add: top_bit_def)
qed

lemma top_bit_element:
  assumes "immn < 2" and "imms < 64"
  obtains (element) l where "top_bit (64 * immn + (63 - imms)) = int l" and "1 \<le> l" and "l \<le> 6"
      and "element_size immn imms = 2 ^ l"
    | (none) "top_bit (64 * immn + (63 - imms)) < 1" and "element_size immn imms = 0"
proof -
  let ?n = "64 * immn + (63 - imms)"
  have top: thesis if "2 ^ l \<le> ?n" "?n < 2 ^ Suc l" "1 \<le> l" "l \<le> 6" "element_size immn imms = 2 ^ l" for l
    using element [of l] top_bit_eq [of l ?n] that by simp
  consider "immn = 1" | "immn = 0" "imms < 32" | "immn = 0" "32 \<le> imms" "imms < 48" | "immn = 0" "48 \<le> imms" "imms < 56"
    | "immn = 0" "56 \<le> imms" "imms < 60" | "immn = 0" "60 \<le> imms" "imms < 62"
    | "immn = 0" "imms = 62" | "immn = 0" "imms = 63"
    using assms by (cases "immn = 1"; force)
  then show thesis
  proof cases
    case 1 then show thesis using assms by (intro top [of 6]) (auto simp: element_size_def)
  next
    case 2 then show thesis by (intro top [of 5]) (auto simp: element_size_def)
  next
    case 3 then show thesis by (intro top [of 4]) (auto simp: element_size_def)
  next
    case 4 then show thesis by (intro top [of 3]) (auto simp: element_size_def)
  next
    case 5 then show thesis by (intro top [of 2]) (auto simp: element_size_def)
  next
    case 6 then show thesis by (intro top [of 1]) (auto simp: element_size_def)
  next
    case 7 then show thesis using top_bit_eq [of 0 1] by (intro none) (auto simp: element_size_def)
  next
    case 8 then show thesis by (intro none) (auto simp: element_size_def top_bit_def)
  qed
qed

lemma decode_wmask:
  assumes "immn < 2" and "imms < 64" and "immr < 64" and e: "e = element_size immn imms"
  shows "e = 0 \<or> imms mod e = e - 1 \<Longrightarrow> logic_imm_decode_wmask immn imms immr = Reserved"
    and "0 < e \<Longrightarrow> imms mod e \<noteq> e - 1 \<Longrightarrow> \<exists>w. logic_imm_decode_wmask immn imms immr = Wmask w \<and>
      (\<forall>k < 64. bit w k = ((k + immr mod e) mod e \<le> imms mod e))"
proof -
  have unfolded: "logic_imm_decode_wmask immn imms immr =
     (if e = 0 \<or> imms mod e = e - 1 then Reserved
      else let m = (if immr mod e \<noteq> 0 then (drop_bit (immr mod e) (mask (imms mod e + 1)) OR
                push_bit (e - immr mod e) (mask (imms mod e + 1))) AND mask e else mask (imms mod e + 1))
           in Wmask (replicate_loop m e))"
    using assms(1,2)
  proof (cases rule: top_bit_element)
    case (element l)
    have pos: "0 < e" using element e by simp
    then have "imms mod e < e" by simp
    moreover have e64: "e \<le> 64" using element e power_increasing [of l 6 "2 :: nat"] by simp
    ultimately have "imms mod e + 1 \<le> 64" by linarith
    then have masks: "bitmask64 (imms mod e + 1) = Some (mask (imms mod e + 1))" "bitmask64 e = Some (mask e)"
      "bitfield_replicate w e = Some (replicate_loop w e)" for w
      using pos e64 bitmask64_bit [of "imms mod e + 1"] by (simp_all add: bitmask64_bit bitfield_replicate_def)
    have len: "2 ^ nat (int l) = e" "\<not> int l < 1" using element e by simp_all
    show ?thesis
      unfolding logic_imm_decode_wmask_def Let_def element(1) len(1) masks using pos len(2) assms(1-3) by simp
  next
    case none
    then show ?thesis using assms(1-3) e unfolding logic_imm_decode_wmask_def Let_def by simp
  qed
  show "e = 0 \<or> imms mod e = e - 1 \<Longrightarrow> logic_imm_decode_wmask immn imms immr = Reserved"
    unfolding unfolded by simp
  assume pos: "0 < e" and s: "imms mod e \<noteq> e - 1"
  from assms(1,2) obtain l where e2: "e = 2 ^ l" and j: "l \<le> 6"
    by (cases rule: top_bit_element) (use pos e in auto)
  have e64: "e \<le> 64" unfolding e2 using power_increasing [OF j, of "2 :: nat"] by simp
  have lt: "imms mod e < e" "immr mod e < e" using pos by simp_all
  let ?m = "if immr mod e \<noteq> 0 then (drop_bit (immr mod e) (mask (imms mod e + 1)) OR
      push_bit (e - immr mod e) (mask (imms mod e + 1))) AND mask e else mask (imms mod e + 1) :: u64"
  have "bit (replicate_loop ?m e) k = ((k + immr mod e) mod e \<le> imms mod e)" if k: "k < 64" for k
  proof -
    have "bit (replicate_loop ?m e) k = bit ?m (k mod e)"
      by (rule replicate_loop_bits [OF e2 j _ k]) (rule rotated_element_bound [OF lt(1) _ refl])
    also have "\<dots> = ((k mod e + immr mod e) mod e \<le> imms mod e)"
      by (rule rotated_element [OF lt e64 _ refl]) (use pos in simp)
    finally show ?thesis by (simp only: mod_add_left_eq)
  qed
  then show "\<exists>w. logic_imm_decode_wmask immn imms immr = Wmask w \<and>
      (\<forall>k < 64. bit w k = ((k + immr mod e) mod e \<le> imms mod e))"
    unfolding unfolded Let_def using pos s by auto
qed

lemma decode_wmask_no_assertion:
  assumes "immn < 2" and "imms < 64" and "immr < 64"
  shows "logic_imm_decode_wmask immn imms immr \<noteq> AssertionFailed"
proof (cases "element_size immn imms = 0 \<or> imms mod element_size immn imms = element_size immn imms - 1")
  case True
  then show ?thesis using decode_wmask(1) [OF assms refl] by simp
next
  case False
  then show ?thesis using decode_wmask(2) [OF assms refl] by auto
qed

end
