(* ===== verification/A64Tidy.thy ===== *)
theory A64Tidy
  imports A64BranchProps A64WMask
begin

text \<open>
  What every decoder of the A64 translator keeps: the judgement \<open>tidy L k a b f\<close> says that the
  generator \<open>f\<close> only appends operations whose kinds are in \<open>L\<close>, takes at most \<open>k\<close> of the sixteen
  per-instruction temporaries and fails no assertion while they last, changes the number of other
  64-bit and 32-bit temporaries in use by \<open>a\<close> and \<open>b\<close>, and keeps the fields the loop over the block
  reads. One rule per construct and one lemma per generator carry it through the decoders. The check
  of the access to the floating-point registers and the syndrome of a data abort are allowed once in
  an instruction; having used one counts as nine temporaries, so that a second use is beyond the sixteen.
\<close>

section \<open>The judgement\<close>

datatype op_kind = Plain | Control | Trace

definition op_kind :: "tcg_op \<Rightarrow> op_kind" where
  "op_kind op = (case op of Printer _ _ _ \<Rightarrow> Trace
     | Brcondi64 _ _ _ _ \<Rightarrow> Control | ArmGenTestCc _ _ \<Rightarrow> Control | SetLabel _ \<Rightarrow> Control
     | GotoTb _ \<Rightarrow> Control | ExitTb _ \<Rightarrow> Control | Env _ \<Rightarrow> Control
     | Brcond64 _ _ _ _ \<Rightarrow> Control | Br _ \<Rightarrow> Control
     | _ \<Rightarrow> Plain)"

definition frees64 :: "tcg_op \<Rightarrow> int" where
  "frees64 op = (case op of Free64 _ \<Rightarrow> 1 | _ \<Rightarrow> 0)"

definition frees32 :: "tcg_op \<Rightarrow> int" where
  "frees32 op = (case op of Free32 _ \<Rightarrow> 1 | _ \<Rightarrow> 0)"

text \<open>The temporaries in use that are not in the array of the instruction.\<close>

definition loose64 :: "disas_context \<Rightarrow> int" where
  "loose64 s = int (next_i64 s) - int (length (dc_tmp_a64 s)) - (\<Sum>op\<leftarrow>code s. frees64 op)"

definition loose32 :: "disas_context \<Rightarrow> int" where
  "loose32 s = int (next_i32 s) - (\<Sum>op\<leftarrow>code s. frees32 op)"

text \<open>A direct jump ends the block only when the block is not single stepped.\<close>

definition jmp_ok :: "disas_context \<Rightarrow> bool" where
  "jmp_ok s \<longleftrightarrow> (dc_is_jmp s = DISAS_TB_JUMP \<longrightarrow> \<not> dc_singlestep_enabled s \<and> \<not> dc_ss_active s)"

text \<open>The data of the guest are little-endian as seen from the host, and the regime is not that of the
  second stage, which no exception level runs in.\<close>

definition sane :: "disas_context \<Rightarrow> bool" where
  "sane s \<longleftrightarrow> dc_be_data s = 0 \<and> dc_mmu_idx s \<noteq> S2NS"

definition weight :: "disas_context \<Rightarrow> nat" where
  "weight s = length (dc_tmp_a64 s) + (if dc_fp_access_checked s \<or> dc_insn_start_idx s = 0 then 9 else 0)"

text \<open>What a generator keeps: the counts, and the fields the loop over the block reads.\<close>

definition kept :: "int \<Rightarrow> int \<Rightarrow> disas_context \<Rightarrow> disas_context \<Rightarrow> bool" where
  "kept a b s s' \<longleftrightarrow> loose64 s' = loose64 s + a \<and> loose32 s' = loose32 s + b \<and>
     dc_pc s' = dc_pc s \<and> dc_singlestep_enabled s' = dc_singlestep_enabled s \<and>
     dc_ss_active s' = dc_ss_active s \<and> dc_be_data s' = dc_be_data s \<and> dc_mmu_idx s' = dc_mmu_idx s \<and>
     (jmp_ok s \<longrightarrow> jmp_ok s')"

text \<open>The operations, the temporaries and the assertions.\<close>

definition tidy_step :: "op_kind set \<Rightarrow> nat \<Rightarrow> int \<Rightarrow> int \<Rightarrow> disas_context \<Rightarrow> disas_context \<Rightarrow> bool" where
  "tidy_step L k a b s s' \<longleftrightarrow>
     (\<exists>ops. code s' = code s @ ops \<and> op_kind ` set ops \<subseteq> L) \<and>
     (sane s \<longrightarrow> weight s' \<le> weight s + k \<and> length (dc_tmp_a64 s') \<le> length (dc_tmp_a64 s) + k \<and>
       (weight s + k \<le> TMP_A64_MAX \<longrightarrow> aborted s' = aborted s)) \<and> kept a b s s'"

definition tidy :: "op_kind set \<Rightarrow> nat \<Rightarrow> int \<Rightarrow> int \<Rightarrow> 'a gen \<Rightarrow> bool" where
  "tidy L k a b f \<longleftrightarrow> (\<forall>s. tidy_step L k a b s (snd (run_state f s)))"

named_theorems tidy_rules \<open>rules for the judgement\<close>

lemma tidy_step_trans:
  assumes "tidy_step L k a b s s1" and "tidy_step L' k' a' b' s1 s2"
  shows "tidy_step (L \<union> L') (k + k') (a + a') (b + b') s s2"
proof -
  from assms obtain ops ops' where "code s1 = code s @ ops" "op_kind ` set ops \<subseteq> L"
    "code s2 = code s1 @ ops'" "op_kind ` set ops' \<subseteq> L'"
    by (auto simp: tidy_step_def)
  then have "\<exists>ops. code s2 = code s @ ops \<and> op_kind ` set ops \<subseteq> L \<union> L'"
    by (intro exI [of _ "ops @ ops'"]) auto
  moreover have sane: "sane s1 = sane s" using assms by (simp add: tidy_step_def kept_def sane_def)
  moreover have "sane s \<longrightarrow> weight s2 \<le> weight s + (k + k') \<and>
    length (dc_tmp_a64 s2) \<le> length (dc_tmp_a64 s) + (k + k') \<and>
    (weight s + (k + k') \<le> TMP_A64_MAX \<longrightarrow> aborted s2 = aborted s)"
  proof
    assume s: "sane s"
    with assms(1) have 1: "weight s1 \<le> weight s + k" "length (dc_tmp_a64 s1) \<le> length (dc_tmp_a64 s) + k"
      "weight s + k \<le> TMP_A64_MAX \<Longrightarrow> aborted s1 = aborted s"
      by (simp_all add: tidy_step_def)
    from assms(2) s sane have "weight s2 \<le> weight s1 + k'" "length (dc_tmp_a64 s2) \<le> length (dc_tmp_a64 s1) + k'"
      "weight s1 + k' \<le> TMP_A64_MAX \<Longrightarrow> aborted s2 = aborted s1"
      by (simp_all add: tidy_step_def)
    with 1 show "weight s2 \<le> weight s + (k + k') \<and> length (dc_tmp_a64 s2) \<le> length (dc_tmp_a64 s) + (k + k') \<and>
      (weight s + (k + k') \<le> TMP_A64_MAX \<longrightarrow> aborted s2 = aborted s)" by simp
  qed
  moreover have "kept (a + a') (b + b') s s2"
  proof -
    have "kept a b s s1" "kept a' b' s1 s2" using assms by (simp_all only: tidy_step_def)
    then show ?thesis by (simp add: kept_def)
  qed
  ultimately show ?thesis by (simp only: tidy_step_def simp_thms)
qed

lemma tidy_bind [tidy_rules]:
  assumes "tidy L k a b f" and "\<And>x. tidy L' k' a' b' (g x)"
  shows "tidy (L \<union> L') (k + k') (a + a') (b + b') (f \<bind> g)"
  using assms unfolding tidy_def by (auto simp: split_beta intro: tidy_step_trans)

lemma tidy_weaken:
  assumes "tidy L' k' a' b' f" and "L' \<subseteq> L" and "k' \<le> k" and "a' = a" and "b' = b"
  shows "tidy L k a b f"
  using assms unfolding tidy_def tidy_step_def by (smt (verit) add_le_cancel_left order_trans)

lemma tidy_max:
  assumes "tidy L k a b f"
  shows "tidy (L \<union> L') (max k k') a b f" and "tidy (L' \<union> L) (max k' k) a b f"
  using assms by (auto elim: tidy_weaken)

lemma tidy_if [tidy_rules]:
  assumes "c \<Longrightarrow> tidy L k a b f" and "\<not> c \<Longrightarrow> tidy L' k' a' b' g" and "a' = a" and "b' = b"
  shows "tidy (L \<union> L') (max k k') a b (if c then f else g)"
  using assms by (auto intro: tidy_max)

lemma tidy_let [tidy_rules]: "tidy L k a b (f v) \<Longrightarrow> tidy L k a b (let x = v in f x)"
  by simp

lemma tidy_prod [tidy_rules]: "(\<And>x y. tidy L k a b (f x y)) \<Longrightarrow> tidy L k a b (case p of (x, y) \<Rightarrow> f x y)"
  by (cases p) simp

lemma tidy_primitives [tidy_rules]:
  "tidy {} 0 0 0 (State_Monad.return x)"
  "tidy {} 0 0 0 (get_dc h)"
  "tidy {} 0 0 0 skip"
  "c \<Longrightarrow> tidy {} 0 0 0 (assert_that c)"
  "tidy {} 0 1 0 tcg_temp_new_i64"
  "tidy {} 0 0 1 tcg_temp_new_i32"
  "tidy {} 0 0 0 gen_new_label"
  by (simp_all add: tidy_def tidy_step_def kept_def weight_def loose64_def loose32_def jmp_ok_def)

lemmas kind_simps = op_kind_def frees64_def frees32_def

lemma tidy_emit:
  "op_kind op = c \<Longrightarrow> - frees64 op = a \<Longrightarrow> - frees32 op = b \<Longrightarrow> tidy {c} 0 a b (emit op)"
  by (auto simp: tidy_def tidy_step_def kept_def loose64_def weight_def loose32_def jmp_ok_def)

text \<open>Operation by operation, so that the rules apply by matching alone.\<close>

lemma tidy_ops [tidy_rules]:
  "tidy {Plain} 0 0 0 (emit (Movi64 p0x q0x))"
  "tidy {Plain} 0 0 0 (emit (Un64 p1x q1x r1x))"
  "tidy {Plain} 0 0 0 (emit (Bin64 p2x q2x r2x t2x))"
  "tidy {Plain} 0 0 0 (emit (Bini64 p3x q3x r3x t3x))"
  "tidy {Plain} 0 0 0 (emit (Deposit64 p4x q4x r4x t4x u4x))"
  "tidy {Plain} 0 0 0 (emit (Add2_64 p5x q5x r5x t5x u5x v5x))"
  "tidy {Plain} 0 0 0 (emit (Mulu2_64 p6x q6x r6x t6x))"
  "tidy {Plain} 0 0 0 (emit (Muls2_64 p7x q7x r7x t7x))"
  "tidy {Plain} 0 0 0 (emit (Setcond64 p8x q8x r8x t8x))"
  "tidy {Plain} 0 0 0 (emit (Movcond64 p9x q9x r9x t9x u9x v9x))"
  "tidy {Plain} 0 0 0 (emit (Concat32 p10x q10x r10x))"
  "tidy {Plain} 0 0 0 (emit (Movi32 p11x q11x))"
  "tidy {Plain} 0 0 0 (emit (Un32 p12x q12x r12x))"
  "tidy {Plain} 0 0 0 (emit (Bin32 p13x q13x r13x t13x))"
  "tidy {Plain} 0 0 0 (emit (Bini32 p14x q14x r14x t14x))"
  "tidy {Plain} 0 0 0 (emit (Deposit32 p15x q15x r15x t15x u15x))"
  "tidy {Plain} 0 0 0 (emit (Add2_32 p16x q16x r16x t16x u16x v16x))"
  "tidy {Plain} 0 0 0 (emit (Setcond32 p17x q17x r17x t17x))"
  "tidy {Plain} 0 0 0 (emit (Setcondi32 p18x q18x r18x t18x))"
  "tidy {Plain} 0 0 0 (emit (Extrl p19x q19x))"
  "tidy {Plain} 0 0 0 (emit (Extrh p20x q20x))"
  "tidy {Plain} 0 0 0 (emit (Extr p21x q21x r21x))"
  "tidy {Plain} 0 0 0 (emit (Extu p22x q22x))"
  "tidy {Plain} 0 0 0 (emit (Exts p23x q23x))"
  "tidy {Plain} 0 0 0 (emit (ArmTestCc p24x q24x))"
  "tidy {Plain} 0 0 0 (emit (ArmFreeCc p25x))"
  "tidy {Plain} 0 0 0 (emit (ConstPtr p26x))"
  "tidy {Plain} 0 0 0 (emit (FreePtr p27x))"
  "tidy {Plain} 0 0 0 (emit (GetCpReg p28x q28x))"
  "tidy {Plain} 0 0 0 (emit (SetCpReg p29x q29x))"
  "tidy {Plain} 0 0 0 (emit (Ld64 p30x q30x))"
  "tidy {Plain} 0 0 0 (emit (St64 p31x q31x))"
  "tidy {Plain} 0 0 0 (emit (Help1 p32x q32x r32x))"
  "tidy {Plain} 0 0 0 (emit (Help1_32 p33x q33x r33x))"
  "tidy {Plain} 0 0 0 (emit (Help2 p34x q34x r34x t34x))"
  "tidy {Plain} 0 0 0 (emit (HelpCrc p35x q35x r35x t35x u35x))"
  "tidy {Plain} 0 0 0 (emit (InsnStart p36x))"
  "tidy {Plain} 0 0 0 (emit (QemuLd64 p37x q37x r37x t37x))"
  "tidy {Plain} 0 0 0 (emit (QemuSt64 p38x q38x r38x t38x))"
  "tidy {Plain} 0 0 0 (emit (LdEnv64 p39x q39x r39x))"
  "tidy {Plain} 0 0 0 (emit (StEnv64 p40x q40x r40x))"
  "tidy {Plain} 0 0 0 (emit (LdEnv32 p41x q41x r41x))"
  "tidy {Plain} 0 0 0 (emit (StEnv32 p42x q42x r42x))"
  "tidy {Plain} 0 0 0 (emit (SetInsnParam p43x q43x r43x))"
  "tidy {Plain} 0 0 0 (emit (FpStatusPtr p44x))"
  "tidy {Plain} 0 0 0 (emit (Call p45x q45x))"
  "tidy {Plain} 0 0 0 (emit (Movcond32 p46x q46x r46x t46x u46x v46x))"
  "tidy {Control} 0 0 0 (emit (Env p0c))"
  "tidy {Control} 0 0 0 (emit (Brcondi64 p1c q1c r1c t1c))"
  "tidy {Control} 0 0 0 (emit (ArmGenTestCc p2c q2c))"
  "tidy {Control} 0 0 0 (emit (SetLabel p3c))"
  "tidy {Control} 0 0 0 (emit (GotoTb p4c))"
  "tidy {Control} 0 0 0 (emit (ExitTb p5c))"
  "tidy {Control} 0 0 0 (emit (Brcond64 p6c q6c r6c t6c))"
  "tidy {Control} 0 0 0 (emit (Br p7c))"
  "tidy {Plain} 0 (-1) 0 (emit (Free64 d))"
  "tidy {Plain} 0 0 (-1) (emit (Free32 e))"
  "tidy {Trace} 0 0 0 (emit (Printer x y z))"
  by (rule tidy_emit; simp add: kind_simps)+

lemma tidy_new_tmp_a64 [tidy_rules]: "tidy {} 1 0 0 new_tmp_a64"
  by (simp add: new_tmp_a64_def tidy_def tidy_step_def kept_def loose64_def weight_def loose32_def jmp_ok_def)

lemma tidy_set_is_jmp [tidy_rules]: "j \<noteq> DISAS_TB_JUMP \<Longrightarrow> tidy {} 0 0 0 (set_is_jmp j)"
  by (simp add: set_is_jmp_def tidy_def tidy_step_def kept_def loose64_def weight_def loose32_def jmp_ok_def)

section \<open>The shared generators\<close>

lemma tidy_const_i64 [tidy_rules]: "tidy {Plain} 0 1 0 (tcg_const_i64 v)"
  unfolding tcg_const_i64_def
  by (rule tidy_weaken, (rule tidy_rules | (simp; fail) | blast)+)

lemma tidy_const_i32 [tidy_rules]: "tidy {Plain} 0 0 1 (tcg_const_i32 w)"
  unfolding tcg_const_i32_def
  by (rule tidy_weaken, (rule tidy_rules | (simp; fail) | blast)+)

lemma tidy_ptr [tidy_rules]: "tidy {Plain} 0 0 0 tcg_const_ptr"
  by (simp add: tcg_const_ptr_def tidy_def tidy_step_def kept_def loose64_def weight_def loose32_def jmp_ok_def kind_simps)

lemma tidy_arm_test_cc [tidy_rules]: "tidy {Plain} 0 0 0 (arm_test_cc cc)"
  by (simp add: arm_test_cc_def tidy_def tidy_step_def kept_def loose64_def weight_def loose32_def jmp_ok_def kind_simps)

lemma tidy_exception_internal [tidy_rules]:
  "e \<in> {EXCP_DEBUG, EXCP_SEMIHOST, EXCP_STREX} \<Longrightarrow> tidy {Plain, Control} 0 0 0 (gen_exception_internal e)"
  unfolding gen_exception_internal_def
  by (rule tidy_weaken, (rule tidy_rules | (simp; fail) | blast)+)

lemma tidy_exception [tidy_rules]:
  "tidy {Plain, Control} 0 0 0 (gen_exception e syndrome target_el)"
  unfolding gen_exception_def
  by (rule tidy_weaken, (rule tidy_rules | (simp; fail) | blast)+)

lemma tidy_set_pc [tidy_rules]:
  "tidy {Plain} 0 0 0 (gen_a64_set_pc_im val)"
  unfolding gen_a64_set_pc_im_def
  by (rule tidy_weaken, (rule tidy_rules | (simp; fail) | blast)+)

lemma tidy_exception_internal_insn [tidy_rules]:
  "e \<in> {EXCP_DEBUG, EXCP_SEMIHOST, EXCP_STREX} \<Longrightarrow> tidy {Plain, Control} 0 0 0 (gen_exception_internal_insn n e)"
  unfolding gen_exception_internal_insn_def
  by (rule tidy_weaken, (rule tidy_rules | (simp; fail) | blast)+)

lemma tidy_exception_insn [tidy_rules]:
  "tidy {Plain, Control} 0 0 0 (gen_exception_insn n e syndrome target_el)"
  unfolding gen_exception_insn_def
  by (rule tidy_weaken, (rule tidy_rules | (simp; fail) | blast)+)

lemma tidy_unallocated [tidy_rules]:
  "tidy {Plain, Control} 0 0 0 unallocated_encoding"
  unfolding unallocated_encoding_def
  by (rule tidy_weaken, (rule tidy_rules | (simp; fail) | blast)+)

lemma tidy_unsupported [tidy_rules]:
  "tidy {Plain, Control} 0 0 0 unsupported_encoding"
  unfolding unsupported_encoding_def
  by (rule tidy_weaken, (rule tidy_rules | (simp; fail) | blast)+)

lemma tidy_pstate_ss [tidy_rules]: "tidy {} 0 0 0 (set_dc (\<lambda>s. s\<lparr>dc_pstate_ss := v\<rparr>))"
  by (simp add: tidy_def tidy_step_def kept_def loose64_def weight_def loose32_def jmp_ok_def)

lemma tidy_ss_advance [tidy_rules]:
  "tidy {Control} 0 0 0 gen_ss_advance"
  unfolding gen_ss_advance_def
  by (rule tidy_weaken, (rule tidy_rules | (simp; fail) | blast)+)

lemma tidy_step_complete [tidy_rules]:
  "tidy {Plain, Control} 0 0 0 gen_step_complete_exception"
  unfolding gen_step_complete_exception_def
  by (rule tidy_weaken, (rule tidy_rules | (simp; fail) | blast)+)

lemma tidy_test_cc [tidy_rules]:
  "tidy {Plain} 0 1 0 (a64_test_cc cc)"
  unfolding a64_test_cc_def
  by (rule tidy_weaken, (rule tidy_rules | (simp; fail) | blast)+)

lemma tidy_free_cc [tidy_rules]:
  "tidy {Plain} 0 (-1) 0 (a64_free_cc cc)"
  unfolding a64_free_cc_def
  by (rule tidy_weaken, (rule tidy_rules | (simp; fail) | blast)+)

lemma tidy_cpu_reg [tidy_rules]:
  "tidy {Plain} 1 0 0 (cpu_reg n)"
  unfolding cpu_reg_def new_tmp_a64_zero_def
  by (rule tidy_weaken, (rule tidy_rules | (simp; fail) | blast)+)

lemma tidy_cpu_reg_sp [tidy_rules]:
  "tidy {} 0 0 0 (cpu_reg_sp n)"
  unfolding cpu_reg_sp_def
  by (rule tidy_weaken, (rule tidy_rules | (simp; fail) | blast)+)

lemma tidy_read_cpu_reg [tidy_rules]:
  "tidy {Plain} 1 0 0 (read_cpu_reg n sf)"
  unfolding read_cpu_reg_def
  by (rule tidy_weaken, (rule tidy_rules | (simp; fail) | blast)+)

lemma tidy_read_cpu_reg_sp [tidy_rules]:
  "tidy {Plain} 1 0 0 (read_cpu_reg_sp n sf)"
  unfolding read_cpu_reg_sp_def
  by (rule tidy_weaken, (rule tidy_rules | (simp; fail) | blast)+)

text \<open>The direct jump is the one generator that ends the block by \<open>DISAS_TB_JUMP\<close>.\<close>

lemma tidy_step_jump:
  "tidy_step L k a b s s' \<Longrightarrow> \<not> dc_singlestep_enabled s \<Longrightarrow> \<not> dc_ss_active s \<Longrightarrow>
   tidy_step L k a b s (s'\<lparr>dc_is_jmp := j\<rparr>)"
  by (simp add: tidy_step_def kept_def jmp_ok_def loose64_def weight_def loose32_def)

lemma tidy_goto_tb [tidy_rules]: "tidy {Plain, Control} 0 0 0 (gen_goto_tb n dest)"
proof -
  have step: "tidy {Plain, Control} 0 0 0 gen_step_complete_exception"
    and debug: "tidy {Plain, Control} 0 0 0 (gen_exception_internal EXCP_DEBUG)"
    by (rule tidy_rules, simp?)+
  have "tidy_step {Plain, Control} 0 0 0 s (snd (run_state (gen_goto_tb n dest) s))" for s
  proof (cases "use_goto_tb s dest")
    case True
    then show ?thesis
      by (simp add: gen_goto_tb_def gen_a64_set_pc_im_def set_is_jmp_def tidy_step_def kept_def loose64_def weight_def
          loose32_def kind_simps jmp_ok_def use_goto_tb_def split: if_splits)
  next
    case False
    let ?s = "s\<lparr>code := code s @ [Movi64 PC dest]\<rparr>"
    have s: "tidy_step {Plain, Control} 0 0 0 s ?s"
      by (simp add: tidy_step_def kept_def loose64_def weight_def loose32_def kind_simps jmp_ok_def)
    note tr = tidy_step_trans [OF s, of "{Plain, Control}" 0 0 0, simplified]
    from False show ?thesis
      using tr [OF step [unfolded tidy_def, rule_format, of ?s]] tr [OF debug [unfolded tidy_def, rule_format, of ?s]]
      by (simp add: gen_goto_tb_def gen_a64_set_pc_im_def set_is_jmp_def)
        (simp add: tidy_step_def kept_def loose64_def weight_def loose32_def kind_simps jmp_ok_def)
  qed
  then show ?thesis by (simp add: tidy_def)
qed

lemma tidy_set_NZ64 [tidy_rules]:
  "tidy {Plain} 0 0 0 (gen_set_NZ64 r)"
  unfolding gen_set_NZ64_def
  by (rule tidy_weaken, (rule tidy_rules | (simp; fail) | blast)+)

lemma tidy_logic_CC [tidy_rules]:
  "tidy {Plain} 0 0 0 (gen_logic_CC sf r)"
  unfolding gen_logic_CC_def
  by (rule tidy_weaken, (rule tidy_rules | (simp; fail) | blast)+)

lemma tidy_add_CC [tidy_rules]:
  "tidy {Plain} 0 0 0 (gen_add_CC sf d x y)"
  unfolding gen_add_CC_def gen_add_CC64_def gen_add_CC32_def
  by (rule tidy_weaken, (rule tidy_rules | (simp; fail) | blast)+)

lemma tidy_sub_CC [tidy_rules]:
  "tidy {Plain} 0 0 0 (gen_sub_CC sf d x y)"
  unfolding gen_sub_CC_def gen_sub_CC64_def gen_sub_CC32_def
  by (rule tidy_weaken, (rule tidy_rules | (simp; fail) | blast)+)

lemma tidy_adc [tidy_rules]:
  "tidy {Plain} 0 0 0 (gen_adc sf d x y)"
  unfolding gen_adc_def
  by (rule tidy_weaken, (rule tidy_rules | (simp; fail) | blast)+)

lemma tidy_adc_CC [tidy_rules]:
  "tidy {Plain} 0 0 0 (gen_adc_CC sf d x y)"
  unfolding gen_adc_CC_def gen_adc_CC64_def gen_adc_CC32_def
  by (rule tidy_weaken, (rule tidy_rules | (simp; fail) | blast)+)

lemma tidy_ext_and_shift [tidy_rules]:
  "tidy {Plain} 0 0 0 (ext_and_shift_reg d x n k)"
  unfolding ext_and_shift_reg_def
  by (rule tidy_weaken, (rule tidy_rules | (simp; fail) | blast)+)

lemma tidy_shift_case [tidy_rules]:
  assumes "tidy L k a b f1" and "tidy L2 k2 a2 b2 f2" and "tidy L3 k3 a3 b3 f3" and "tidy L4 k4 a4 b4 f4"
    and "a2 = a" and "a3 = a" and "a4 = a" and "b2 = b" and "b3 = b" and "b4 = b"
  shows "tidy (L \<union> L2 \<union> L3 \<union> L4) (k + k2 + k3 + k4) a b (case t of A64_SHIFT_TYPE_LSL \<Rightarrow> f1
     | A64_SHIFT_TYPE_LSR \<Rightarrow> f2 | A64_SHIFT_TYPE_ASR \<Rightarrow> f3 | A64_SHIFT_TYPE_ROR \<Rightarrow> f4)"
  using assms by (cases t) (auto elim: tidy_weaken)

lemma tidy_shift_reg [tidy_rules]:
  "tidy {Plain} 0 0 0 (shift_reg d x sf t y)"
  unfolding shift_reg_def
  by (rule tidy_weaken, (rule tidy_rules | (simp; fail) | blast)+)

lemma tidy_shift_reg_imm [tidy_rules]:
  "n < (if sf then 64 else 32) \<Longrightarrow> tidy {Plain} 0 0 0 (shift_reg_imm d x sf t n)"
  unfolding shift_reg_imm_def
  by (rule tidy_weaken, (rule tidy_rules | (simp; fail) | blast)+)

section \<open>Branches, exceptions, system instructions\<close>

lemma tidy_printer [tidy_rules]:
  "tidy {Plain, Trace} 0 0 0 (call_printer pc addr t)"
  unfolding call_printer_def
  by (rule tidy_weaken, (rule tidy_rules | (simp; fail) | blast)+)

lemma tidy_uncond_b_imm [tidy_rules]:
  "tidy {Plain, Control, Trace} 1 0 0 (disas_uncond_b_imm insn)"
  unfolding disas_uncond_b_imm_def
  by (rule tidy_weaken, (rule tidy_rules | (simp; fail) | blast)+)

lemma tidy_comp_b_imm [tidy_rules]:
  "tidy {Plain, Control, Trace} 1 0 0 (disas_comp_b_imm insn)"
  unfolding disas_comp_b_imm_def
  by (rule tidy_weaken, (rule tidy_rules | (simp; fail) | blast)+)

lemma tidy_test_b_imm [tidy_rules]:
  "tidy {Plain, Control, Trace} 1 0 0 (disas_test_b_imm insn)"
  unfolding disas_test_b_imm_def
  by (rule tidy_weaken, (rule tidy_rules | (simp; fail) | blast)+)

lemma tidy_cond_b_imm [tidy_rules]:
  "tidy {Plain, Control, Trace} 0 0 0 (disas_cond_b_imm insn)"
  unfolding disas_cond_b_imm_def
  by (rule tidy_weaken, (rule tidy_rules | (simp; fail) | blast)+)

lemma tidy_hint [tidy_rules]:
  "tidy {Plain, Control} 0 0 0 (handle_hint op1 op2 crm)"
  unfolding handle_hint_def
  by (rule tidy_weaken, (rule tidy_rules | (simp; fail) | blast)+)

lemma tidy_sync [tidy_rules]:
  "tidy {Plain, Control} 0 0 0 (handle_sync op1 op2 crm)"
  unfolding handle_sync_def gen_clrex_def
  by (rule tidy_weaken, (rule tidy_rules | (simp; fail) | blast)+)

lemma tidy_msr_i [tidy_rules]:
  "tidy {Plain, Control} 0 0 0 (handle_msr_i op1 op2 crm)"
  unfolding handle_msr_i_def
  by (rule tidy_weaken, (rule tidy_rules | (simp; fail) | blast)+)

lemma tidy_get_nzcv [tidy_rules]:
  "tidy {Plain} 0 0 0 (gen_get_nzcv rt)"
  unfolding gen_get_nzcv_def
  by (rule tidy_weaken, (rule tidy_rules | (simp; fail) | blast)+)

lemma tidy_set_nzcv [tidy_rules]:
  "tidy {Plain} 0 0 0 (gen_set_nzcv rt)"
  unfolding gen_set_nzcv_def
  by (rule tidy_weaken, (rule tidy_rules | (simp; fail) | blast)+)

lemma tidy_sys_access [tidy_rules]:
  "tidy {Plain, Control} 0 0 0 (sys_access_check isread op0 op1 op2 crn crm rt)"
  unfolding sys_access_check_def
  by (rule tidy_weaken, (rule tidy_rules | (simp; fail) | blast)+)

lemma tidy_sys_read [tidy_rules]:
  "tidy {Plain} 0 0 0 (sys_read ri rt)"
  unfolding sys_read_def
  by (rule tidy_weaken, (rule tidy_rules | (simp; fail) | blast)+)

lemma tidy_sys_write [tidy_rules]:
  "tidy {Plain} 0 0 0 (sys_write ri rt)"
  unfolding sys_write_def
  by (rule tidy_weaken, (rule tidy_rules | (simp; fail) | blast)+)

lemma tidy_sys_end_tb [tidy_rules]:
  "tidy {Plain, Control} 0 0 0 (sys_end_tb ri isread)"
  unfolding sys_end_tb_def
  by (rule tidy_weaken, (rule tidy_rules | (simp; fail) | blast)+)

lemma tidy_sys_regular [tidy_rules]:
  "tidy {Plain, Control} 1 0 0 (sys_regular ri isread rt)"
  unfolding sys_regular_def
  by (rule tidy_weaken, (rule tidy_rules | (simp; fail) | blast)+)

lemma tidy_special_case [tidy_rules]:
  assumes "tidy L k a b f1" and "tidy L2 k2 a2 b2 f2" and "tidy L3 k3 a3 b3 f3" and "tidy L4 k4 a4 b4 f4"
    and "tidy L5 k5 a5 b5 f5"
    and "a2 = a" and "a3 = a" and "a4 = a" and "a5 = a" and "b2 = b" and "b3 = b" and "b4 = b" and "b5 = b"
  shows "tidy (L \<union> L2 \<union> L3 \<union> L4 \<union> L5) (max k (max k2 (max k3 (max k4 k5)))) a b (case t of CP_NOP \<Rightarrow> f1
     | CP_NZCV \<Rightarrow> f2 | CP_CURRENTEL \<Rightarrow> f3 | CP_DC_ZVA \<Rightarrow> f4 | CP_REGULAR \<Rightarrow> f5)"
  using assms by (cases t) (auto elim: tidy_weaken)

lemma tidy_option [tidy_rules]:
  assumes "v = None \<Longrightarrow> tidy L k a b f" and "\<And>x. v = Some x \<Longrightarrow> tidy L' k' a' b' (g x)" and "a' = a" and "b' = b"
  shows "tidy (L \<union> L') (max k k') a b (case v of None \<Rightarrow> f | Some x \<Rightarrow> g x)"
  using assms by (cases v) (auto intro: tidy_max)

lemma tidy_sys [tidy_rules]:
  "tidy {Plain, Control} 1 0 0 (handle_sys isread op0 op1 op2 crn crm rt)"
  unfolding handle_sys_def
  by (rule tidy_weaken, (rule tidy_rules | (simp; fail) | blast)+)

lemma tidy_system [tidy_rules]:
  "tidy {Plain, Control} 1 0 0 (disas_system insn)"
  unfolding disas_system_def
  by (rule tidy_weaken, (rule tidy_rules | (simp; fail) | blast)+)

lemma tidy_exc [tidy_rules]:
  "tidy {Plain, Control} 0 0 0 (disas_exc insn)"
  unfolding disas_exc_def exc_svc_def exc_hvc_def exc_smc_def exc_hlt_def
  by (rule tidy_weaken, (rule tidy_rules | (simp; fail) | blast)+)

lemma tidy_uncond_b_reg [tidy_rules]:
  "tidy {Plain, Control} 2 0 0 (disas_uncond_b_reg insn)"
  unfolding disas_uncond_b_reg_def
  by (rule tidy_weaken, (rule tidy_rules | (simp; fail) | blast)+)

lemma tidy_b_exc_sys [tidy_rules]:
  "tidy {Plain, Control, Trace} 2 0 0 (disas_b_exc_sys insn)"
  unfolding disas_b_exc_sys_def
  by (rule tidy_weaken, (rule tidy_rules | (simp; fail) | blast)+)

section \<open>Data processing\<close>

lemma extract32_6_less: "extract32 insn i 6 < 64"
  using extract32_less [of insn i 6] by simp

lemma below_bit5: "n < 64 \<Longrightarrow> \<not> bit n 5 \<Longrightarrow> (n :: nat) < 32"
proof -
  assume n: "n < 64" and "\<not> bit n 5"
  then have "even (n div 32)" by (simp add: bit_iff_odd)
  moreover from n have "n div 32 < 2" by simp
  ultimately have "n div 32 = 0" by (cases "n div 32 = 1") auto
  then show ?thesis by simp
qed

lemma logic_op_code: "extract32 insn i 2 + 4 * extract32 insn j 1 < 8"
  using extract32_less [of insn i 2] extract32_less [of insn j 1] by simp

lemmas fields = extract32_6_less below_bit5

lemma tidy_add_sub_result [tidy_rules]:
  "tidy {Plain} 0 0 0 (add_sub_result sf setflags sub_op r x y)"
  unfolding add_sub_result_def
  by (rule tidy_weaken, (rule tidy_rules logic_op_code | (simp add: fields; fail) | blast | (fastforce simp: fields split: if_splits))+)

lemma tidy_pc_rel_adr [tidy_rules]:
  "tidy {Plain, Control} 1 0 0 (disas_pc_rel_adr insn)"
  unfolding disas_pc_rel_adr_def
  by (rule tidy_weaken, (rule tidy_rules logic_op_code | (simp add: fields; fail) | blast | (fastforce simp: fields split: if_splits))+)

lemma tidy_add_sub_imm [tidy_rules]:
  "tidy {Plain, Control} 1 0 0 (disas_add_sub_imm insn)"
  unfolding disas_add_sub_imm_def
  by (rule tidy_weaken, (rule tidy_rules logic_op_code | (simp add: fields; fail) | blast | (fastforce simp: fields split: if_splits))+)

lemma tidy_movw_imm [tidy_rules]:
  "tidy {Plain, Control} 1 0 0 (disas_movw_imm insn)"
  unfolding disas_movw_imm_def
  by (rule tidy_weaken, (rule tidy_rules logic_op_code | (simp add: fields; fail) | blast | (fastforce simp: fields split: if_splits))+)

lemma tidy_extract [tidy_rules]:
  "tidy {Plain, Control} 3 0 0 (disas_extract insn)"
  unfolding disas_extract_def
  by (rule tidy_weaken, (rule tidy_rules logic_op_code | (simp add: fields; fail) | blast | (fastforce simp: fields split: if_splits))+)

lemma tidy_add_sub_ext_reg [tidy_rules]:
  "tidy {Plain, Control} 3 0 0 (disas_add_sub_ext_reg insn)"
  unfolding disas_add_sub_ext_reg_def
  by (rule tidy_weaken, (rule tidy_rules logic_op_code | (simp add: fields; fail) | blast | (fastforce simp: fields split: if_splits))+)

lemma tidy_add_sub_reg [tidy_rules]:
  "tidy {Plain, Control} 3 0 0 (disas_add_sub_reg insn)"
  unfolding disas_add_sub_reg_def
  by (rule tidy_weaken, (rule tidy_rules logic_op_code | (simp add: fields; fail) | blast | (fastforce simp: fields split: if_splits))+)

lemma tidy_data_proc_3src [tidy_rules]:
  "tidy {Plain, Control} 7 0 0 (disas_data_proc_3src insn)"
  unfolding disas_data_proc_3src_def mul_high_def
  by (rule tidy_weaken, (rule tidy_rules logic_op_code | (simp add: fields; fail) | blast | (fastforce simp: fields split: if_splits))+)

lemma tidy_adc_sbc [tidy_rules]:
  "tidy {Plain, Control} 4 0 0 (disas_adc_sbc insn)"
  unfolding disas_adc_sbc_def
  by (rule tidy_weaken, (rule tidy_rules logic_op_code | (simp add: fields; fail) | blast | (fastforce simp: fields split: if_splits))+)

lemma tidy_cc [tidy_rules]:
  "tidy {Plain, Control} 2 0 0 (disas_cc insn)"
  unfolding disas_cc_def force_flags_def clear_flag_def
  by (rule tidy_weaken, (rule tidy_rules logic_op_code | (simp add: fields; fail) | blast | (fastforce simp: fields split: if_splits))+)

lemma tidy_cond_select [tidy_rules]:
  "tidy {Plain, Control} 3 0 0 (disas_cond_select insn)"
  unfolding disas_cond_select_def
  by (rule tidy_weaken, (rule tidy_rules logic_op_code | (simp add: fields; fail) | blast | (fastforce simp: fields split: if_splits))+)

text \<open>The operators of the logical instructions cover the values of their field.\<close>

lemma tidy_logic_op [tidy_rules]: "k < 8 \<Longrightarrow> tidy {Plain} 0 0 0 (logic_op k rd rn rm)"
  unfolding logic_op_def
  by (rule tidy_weaken, (rule tidy_rules logic_op_code | (simp add: fields; fail) | blast | (fastforce simp: fields split: if_splits))+)

lemma tidy_logic_reg [tidy_rules]:
  "tidy {Plain, Control} 3 0 0 (disas_logic_reg insn)"
  unfolding disas_logic_reg_def
  by (rule tidy_weaken, (rule tidy_rules logic_op_code | (simp add: fields; fail) | blast | (fastforce simp: fields split: if_splits))+)

lemma tidy_help1 [tidy_rules]:
  "tidy {Plain} 2 0 0 (handle_help1 h64 h32 sf rn rd)"
  unfolding handle_help1_def
  by (rule tidy_weaken, (rule tidy_rules logic_op_code | (simp add: fields; fail) | blast | (fastforce simp: fields split: if_splits))+)

lemma tidy_rev64 [tidy_rules]:
  "tidy {Plain, Control} 2 0 0 (handle_rev64 sf rn rd)"
  unfolding handle_rev64_def
  by (rule tidy_weaken, (rule tidy_rules logic_op_code | (simp add: fields; fail) | blast | (fastforce simp: fields split: if_splits))+)

lemma tidy_rev32 [tidy_rules]:
  "tidy {Plain, Control} 2 0 0 (handle_rev32 sf rn rd)"
  unfolding handle_rev32_def
  by (rule tidy_weaken, (rule tidy_rules logic_op_code | (simp add: fields; fail) | blast | (fastforce simp: fields split: if_splits))+)

lemma tidy_rev16 [tidy_rules]:
  "tidy {Plain, Control} 2 0 0 (handle_rev16 sf rn rd)"
  unfolding handle_rev16_def
  by (rule tidy_weaken, (rule tidy_rules logic_op_code | (simp add: fields; fail) | blast | (fastforce simp: fields split: if_splits))+)

lemma tidy_1src [tidy_rules]:
  "tidy {Plain, Control} 2 0 0 (disas_data_proc_1src insn)"
  unfolding disas_data_proc_1src_def handle_clz_def handle_cls_def handle_rbit_def
  by (rule tidy_weaken, (rule tidy_rules logic_op_code | (simp add: fields; fail) | blast | (fastforce simp: fields split: if_splits))+)

lemma tidy_div [tidy_rules]:
  "tidy {Plain, Control} 5 0 0 (handle_div is_signed sf rm rn rd)"
  unfolding handle_div_def
  by (rule tidy_weaken, (rule tidy_rules logic_op_code | (simp add: fields; fail) | blast | (fastforce simp: fields split: if_splits))+)

lemma tidy_shift_reg_insn [tidy_rules]:
  "tidy {Plain, Control} 3 0 0 (handle_shift_reg t sf rm rn rd)"
  unfolding handle_shift_reg_def
  by (rule tidy_weaken, (rule tidy_rules logic_op_code | (simp add: fields; fail) | blast | (fastforce simp: fields split: if_splits))+)

lemma tidy_crc32 [tidy_rules]:
  "tidy {Plain, Control} 4 0 0 (handle_crc32 sf sz crc32c rm rn rd)"
  unfolding handle_crc32_def
  by (rule tidy_weaken, (rule tidy_rules logic_op_code | (simp add: fields; fail) | blast | (fastforce simp: fields split: if_splits))+)

lemma tidy_2src [tidy_rules]:
  "tidy {Plain, Control} 5 0 0 (disas_data_proc_2src insn)"
  unfolding disas_data_proc_2src_def
  by (rule tidy_weaken, (rule tidy_rules logic_op_code | (simp add: fields; fail) | blast | (fastforce simp: fields split: if_splits))+)

lemma tidy_data_proc_reg [tidy_rules]:
  "tidy {Plain, Control} 7 0 0 (disas_data_proc_reg insn)"
  unfolding disas_data_proc_reg_def
  by (rule tidy_weaken, (rule tidy_rules logic_op_code | (simp add: fields; fail) | blast | (fastforce simp: fields split: if_splits))+)

lemma tidy_bitfield_move [tidy_rules]:
  "tidy {Plain} 0 0 0 (bitfield_move sf opc ri si rd tmp)"
  unfolding bitfield_move_def bitfield_done_def
  by (rule tidy_weaken, (rule tidy_rules logic_op_code | (simp add: fields; fail) | blast | (fastforce simp: fields split: if_splits))+)

lemma tidy_bitfield_sbfm [tidy_rules]:
  "tidy {Plain} 0 0 0 (bitfield_sbfm sf ri si rd tmp)"
  unfolding bitfield_sbfm_def bitfield_done_def
  by (rule tidy_weaken, (rule tidy_rules logic_op_code | (simp add: fields; fail) | blast | (fastforce simp: fields split: if_splits))+)

lemma tidy_bitfield_ubfm [tidy_rules]:
  "si < 64 \<Longrightarrow> tidy {Plain} 0 0 0 (bitfield_ubfm sf ri si rd tmp)"
  unfolding bitfield_ubfm_def bitfield_done_def bitmask64_def
  by (rule tidy_weaken, (rule tidy_rules logic_op_code | (simp add: fields; fail) | blast | (fastforce simp: fields split: if_splits))+)

lemma tidy_bitfield [tidy_rules]:
  "tidy {Plain, Control} 2 0 0 (disas_bitfield insn)"
  unfolding disas_bitfield_def
  by (rule tidy_weaken, (rule tidy_rules logic_op_code | (simp add: fields; fail) | blast | (fastforce simp: fields split: if_splits))+)

lemma tidy_wmask [tidy_rules]:
  assumes "immn < 2" and "imms < 64" and "immr < 64"
    and "tidy L k a b f" and "\<And>w. tidy L' k' a' b' (g w)" and "a' = a" and "b' = b"
  shows "tidy (L \<union> L') (max k k') a b (case logic_imm_decode_wmask immn imms immr of
     Reserved \<Rightarrow> f | Wmask w \<Rightarrow> g w | AssertionFailed \<Rightarrow> h)"
  using assms decode_wmask_no_assertion [of immn imms immr]
  by (cases "logic_imm_decode_wmask immn imms immr") (auto intro: tidy_max)

lemma extract32_1_less: "extract32 insn i 1 < 2"
  using extract32_less [of insn i 1] by simp

lemma tidy_logic_imm [tidy_rules]:
  "tidy {Plain, Control} 2 0 0 (disas_logic_imm insn)"
  unfolding disas_logic_imm_def
  by (rule tidy_weaken, (rule tidy_rules logic_op_code extract32_1_less | (simp add: fields; fail) | blast | (fastforce simp: fields split: if_splits))+)

lemma tidy_data_proc_imm [tidy_rules]:
  "tidy {Plain, Control} 3 0 0 (disas_data_proc_imm insn)"
  unfolding disas_data_proc_imm_def
  by (rule tidy_weaken, (rule tidy_rules logic_op_code extract32_1_less | (simp add: fields; fail) | blast | (fastforce simp: fields split: if_splits))+)

end
