(* ===== verification/A64LdstTidy.thy ===== *)
theory A64LdstTidy
  imports A64Tidy A64Ldst
begin

text \<open>
  The decoders of the loads and stores keep what \<open>A64Tidy\<close> states of the others, for a guest whose data
  are little-endian as seen from the host.
\<close>

section \<open>Checks and loops\<close>

lemma tidy_user_mem_index [tidy_rules]: "tidy {} 0 0 0 get_a64_user_mem_index"
  by (simp add: get_a64_user_mem_index_def tidy_def tidy_step_def kept_def sane_def loose64_def weight_def loose32_def
      jmp_ok_def split: ARMMMUIdx.split)

lemma tidy_syndrome [tidy_rules]: "tidy {Plain} 9 0 0 (disas_set_insn_syndrome syn)"
  by (simp add: disas_set_insn_syndrome_def tidy_def tidy_step_def kept_def loose64_def weight_def loose32_def
      jmp_ok_def kind_simps TMP_A64_MAX_def)

lemma tidy_fp_checked: "tidy {} 9 0 0 (do { checked \<leftarrow> get_dc dc_fp_access_checked; assert_that (\<not> checked);
    set_dc (\<lambda>s. s\<lparr>dc_fp_access_checked := True\<rparr>) })"
  by (simp add: tidy_def tidy_step_def kept_def loose64_def weight_def loose32_def jmp_ok_def TMP_A64_MAX_def)

lemma fp_access_check_split: "fp_access_check = do {
    do { checked \<leftarrow> get_dc dc_fp_access_checked; assert_that (\<not> checked);
      set_dc (\<lambda>s. s\<lparr>dc_fp_access_checked := True\<rparr>) };
    el \<leftarrow> get_dc dc_fp_excp_el;
    if el = 0 then State_Monad.return True
    else do {
      gen_exception_insn 4 EXCP_UDEF (SynFpAccessTrap 1 0xe False) (ExceptionEl el);
      State_Monad.return False } }"
  by (simp add: fp_access_check_def)

lemma tidy_fp_access_check [tidy_rules]: "tidy {Plain, Control} 9 0 0 fp_access_check"
  unfolding fp_access_check_split
  by (rule tidy_weaken, (rule tidy_fp_checked tidy_rules | (simp; fail) | blast)+)

text \<open>An assertion that may fail is beyond the temporaries of an instruction.\<close>

lemma tidy_assert: "tidy {} 17 0 0 (assert_that c)"
  by (simp add: tidy_def tidy_step_def kept_def loose64_def weight_def loose32_def jmp_ok_def TMP_A64_MAX_def)

lemma tidy_be_data:
  assumes "tidy L k a b (g 0)" and "\<And>x. tidy L k' a b (g x)"
  shows "tidy L k a b (get_dc dc_be_data \<bind> g)"
  using assms by (auto simp: tidy_def tidy_step_def sane_def)

lemma tidy_for [tidy_rules]:
  assumes "\<And>i. tidy L k a b (f i)" and "k = 0" and "a = 0" and "b = 0"
  shows "tidy L 0 0 0 (for_gen n f)"
proof (induction n)
  case 0
  show ?case by (simp, rule tidy_weaken, rule tidy_primitives) simp_all
next
  case (Suc n)
  have "tidy (L \<union> L) (0 + k) (0 + a) (0 + b) (for_gen n f \<bind> (\<lambda>_. f n))" by (rule tidy_bind [OF Suc assms(1)])
  then show ?case using assms(2-) by simp
qed

section \<open>Accesses\<close>

lemma tidy_gpr_st_iss [tidy_rules]:
  "sz \<le> 3 \<Longrightarrow> tidy {Plain} 9 0 0 (do_gpr_st_memidx d t sz i True r sf ar)"
  unfolding do_gpr_st_memidx_def if_True
  by (rule tidy_weaken, (rule tidy_rules | (simp; fail) | blast)+)

lemma tidy_gpr_st_quiet [tidy_rules]:
  "sz \<le> 3 \<Longrightarrow> tidy {Plain} 0 0 0 (do_gpr_st_memidx d t sz i False r sf ar)"
  unfolding do_gpr_st_memidx_def if_False
  by (rule tidy_weaken, (rule tidy_rules | (simp; fail) | blast)+)

lemma tidy_gpr_ld_iss [tidy_rules]:
  "sz \<le> 3 \<Longrightarrow> (ext \<Longrightarrow> sg \<Longrightarrow> sz < 3) \<Longrightarrow> tidy {Plain} 9 0 0 (do_gpr_ld_memidx d t sz sg ext i True r sf ar)"
  unfolding do_gpr_ld_memidx_def if_True
  by (rule tidy_weaken, (rule tidy_rules | (simp; fail) | blast)+)

lemma tidy_gpr_ld_quiet [tidy_rules]:
  "sz \<le> 3 \<Longrightarrow> (ext \<Longrightarrow> sg \<Longrightarrow> sz < 3) \<Longrightarrow> tidy {Plain} 0 0 0 (do_gpr_ld_memidx d t sz sg ext i False r sf ar)"
  unfolding do_gpr_ld_memidx_def if_False
  by (rule tidy_weaken, (rule tidy_rules | (simp; fail) | blast)+)

lemma tidy_gpr_store_iss [tidy_rules]:
  "sz \<le> 3 \<Longrightarrow> tidy {Plain} 9 0 0 (do_gpr_st d t sz True r sf ar)"
  unfolding do_gpr_st_def get_mem_index_def
  by (rule tidy_weaken, (rule tidy_rules | (simp; fail) | blast)+)

lemma tidy_gpr_load_iss [tidy_rules]:
  "sz \<le> 3 \<Longrightarrow> (ext \<Longrightarrow> sg \<Longrightarrow> sz < 3) \<Longrightarrow> tidy {Plain} 9 0 0 (do_gpr_ld d t sz sg ext True r sf ar)"
  unfolding do_gpr_ld_def get_mem_index_def
  by (rule tidy_weaken, (rule tidy_rules | (simp; fail) | blast)+)

lemma tidy_gpr_store_quiet [tidy_rules]:
  "sz \<le> 3 \<Longrightarrow> tidy {Plain} 0 0 0 (do_gpr_st d t sz False r sf ar)"
  unfolding do_gpr_st_def get_mem_index_def
  by (rule tidy_weaken, (rule tidy_rules | (simp; fail) | blast)+)

lemma tidy_gpr_load_quiet [tidy_rules]:
  "sz \<le> 3 \<Longrightarrow> (ext \<Longrightarrow> sg \<Longrightarrow> sz < 3) \<Longrightarrow> tidy {Plain} 0 0 0 (do_gpr_ld d t sz sg ext False r sf ar)"
  unfolding do_gpr_ld_def get_mem_index_def
  by (rule tidy_weaken, (rule tidy_rules | (simp; fail) | blast)+)

lemma tidy_fp_st [tidy_rules]:
  "tidy {Plain} 0 0 0 (do_fp_st r t sz)"
  unfolding do_fp_st_def get_mem_index_def
  by (rule tidy_weaken, (rule tidy_rules | (simp; fail) | blast)+)

lemma tidy_fp_ld [tidy_rules]:
  "tidy {Plain} 0 0 0 (do_fp_ld r t sz)"
  unfolding do_fp_ld_def get_mem_index_def
  by (rule tidy_weaken, (rule tidy_rules | (simp; fail) | blast)+)

lemma tidy_read_vec [tidy_rules]:
  "sz \<le> 3 \<Longrightarrow> tidy {Plain} 0 0 0 (read_vec_element d r e sz)"
  unfolding read_vec_element_def
  by (rule tidy_weaken, (rule tidy_rules | (simp; fail) | blast)+)

lemma tidy_write_vec [tidy_rules]:
  "sz \<le> 3 \<Longrightarrow> tidy {Plain} 0 0 0 (write_vec_element d r e sz)"
  unfolding write_vec_element_def
  by (rule tidy_weaken, (rule tidy_rules | (simp; fail) | blast)+)

lemma tidy_clear_high [tidy_rules]:
  "tidy {Plain} 0 0 0 (clear_vec_high r)"
  unfolding clear_vec_high_def
  by (rule tidy_weaken, (rule tidy_rules | (simp; fail) | blast)+)

lemma tidy_vec_st [tidy_rules]:
  "sz \<le> 3 \<Longrightarrow> tidy {Plain} 0 0 0 (do_vec_st r e t sz)"
  unfolding do_vec_st_def get_mem_index_def
  by (rule tidy_weaken, (rule tidy_rules | (simp; fail) | blast)+)

lemma tidy_vec_ld [tidy_rules]:
  "sz \<le> 3 \<Longrightarrow> tidy {Plain} 0 0 0 (do_vec_ld r e t sz)"
  unfolding do_vec_ld_def get_mem_index_def
  by (rule tidy_weaken, (rule tidy_rules | (simp; fail) | blast)+)

section \<open>The decoders\<close>

lemma tidy_ldst_sp_check [tidy_rules]:
  "tidy {} 0 0 0 (gen_check_sp_alignment)"
  unfolding gen_check_sp_alignment_def
  by (rule tidy_weaken, (rule tidy_rules | (simp; fail) | blast)+)

lemma tidy_load_exclusive [tidy_rules]:
  "sz \<le> 3 \<Longrightarrow> (is_pair \<Longrightarrow> 2 \<le> sz) \<Longrightarrow> tidy {Plain} 2 0 0 (gen_load_exclusive rt rt2 t sz is_pair)"
  unfolding gen_load_exclusive_def get_mem_index_def
  by (rule tidy_weaken, (rule tidy_rules | (simp; fail) | blast)+)

lemma tidy_store_exclusive_user [tidy_rules]:
  "tidy {Plain, Control} 0 0 0 (gen_store_exclusive_user rd rt rt2 t sz p)"
  unfolding gen_store_exclusive_user_def
  by (rule tidy_weaken, (rule tidy_rules | (simp; fail) | blast)+)

lemma tidy_store_exclusive_system [tidy_rules]:
  "tidy {Plain, Control} 4 0 0 (gen_store_exclusive_system rd rt rt2 t sz p)"
  unfolding gen_store_exclusive_system_def get_mem_index_def
  by (rule tidy_weaken, (rule tidy_rules | (simp; fail) | blast)+)

lemma tidy_is_ldex [tidy_rules]: "tidy {} 0 0 0 (set_dc (\<lambda>s. s\<lparr>dc_is_ldex := v\<rparr>))"
  by (simp add: tidy_def tidy_step_def kept_def loose64_def weight_def loose32_def jmp_ok_def sane_def)

lemma extract32_2_le: "extract32 insn i 2 \<le> 3"
  using extract32_less [of insn i 2] by simp

lemmas sizes = extract32_2_le

lemma tidy_ldst_excl [tidy_rules]:
  "tidy {Plain, Control} 11 0 0 (disas_ldst_excl insn)"
  unfolding disas_ldst_excl_def
  by (rule tidy_weaken, (rule tidy_rules | (simp add: sizes; fail) | blast | (fastforce simp: sizes split: if_splits))+)

text \<open>The floating-point registers are checked only for the accesses that use them.\<close>

lemma tidy_access:
  assumes "c \<Longrightarrow> (\<And>x. tidy L k a b (g x))" and "\<not> c \<Longrightarrow> tidy L' k' a b (g True)"
  shows "tidy ({Plain, Control} \<union> L \<union> L') (max (9 + k) k') a b ((if c then fp_access_check else State_Monad.return True) \<bind> g)"
proof (cases c)
  case True
  have "tidy ({Plain, Control} \<union> L) (9 + k) (0 + a) (0 + b) (fp_access_check \<bind> g)"
    by (intro tidy_bind tidy_fp_access_check assms(1) True)
  with True show ?thesis by (auto elim: tidy_weaken)
next
  case False
  then show ?thesis using assms(2) by (auto elim: tidy_weaken)
qed

lemma tidy_if_known:
  "c \<Longrightarrow> tidy L k a b f \<Longrightarrow> tidy L k a b (if c then f else g)"
  "\<not> c \<Longrightarrow> tidy L k a b g \<Longrightarrow> tidy L k a b (if c then f else g)"
  by simp_all

lemma tidy_ld_lit [tidy_rules]:
  "tidy {Plain, Control} 10 0 0 (disas_ld_lit insn)"
  unfolding disas_ld_lit_def
  by (rule tidy_weaken, (rule tidy_access | (rule tidy_if_known, assumption) | rule tidy_rules | (simp add: sizes; fail) | blast | (fastforce simp: sizes split: if_splits))+)

lemma tidy_pair_one [tidy_rules]:
  "(\<not> is_vector \<Longrightarrow> sz \<le> 3) \<Longrightarrow> tidy {Plain} 1 0 0 (ldst_pair_one is_vector is_load rt t sz sg)"
  unfolding ldst_pair_one_def
  by (rule tidy_weaken, (rule tidy_access | (rule tidy_if_known, assumption) | rule tidy_rules | (simp add: sizes; fail) | blast | (fastforce simp: sizes split: if_splits))+)

lemma tidy_ldst_pair [tidy_rules]:
  "tidy {Plain, Control} 12 0 0 (disas_ldst_pair insn)"
  unfolding disas_ldst_pair_def
  by (rule tidy_weaken, (rule tidy_access | (rule tidy_if_known, assumption) | rule tidy_rules | (simp add: sizes; fail) | blast | (fastforce simp: sizes split: if_splits))+)

lemma tidy_ldst_imm9 [tidy_rules]:
  "sz \<le> 3 \<Longrightarrow> tidy {Plain, Control} 12 0 0 (disas_ldst_reg_imm9 insn opc sz rt is_vector)"
  unfolding disas_ldst_reg_imm9_def get_mem_index_def
  by (rule tidy_weaken, (rule tidy_access | (rule tidy_if_known, assumption) | rule tidy_rules | (simp add: sizes; fail) | blast | (fastforce simp: sizes split: if_splits))+)

lemma tidy_transfer_vector [tidy_rules]: "tidy {Plain} 0 0 0 (ldst_reg_transfer True opc sz rt t)"
  unfolding ldst_reg_transfer_def if_True
  by (rule tidy_weaken, (rule tidy_access | (rule tidy_if_known, assumption) | rule tidy_rules | (simp add: sizes; fail) | blast | (fastforce simp: sizes split: if_splits))+)

lemma tidy_transfer_gpr [tidy_rules]: "sz \<le> 3 \<Longrightarrow> tidy {Plain} 10 0 0 (ldst_reg_transfer False opc sz rt t)"
  unfolding ldst_reg_transfer_def if_False
  by (rule tidy_weaken, (rule tidy_access | (rule tidy_if_known, assumption) | rule tidy_rules | (simp add: sizes; fail) | blast | (fastforce simp: sizes split: if_splits))+)

lemma tidy_transfer [tidy_rules]:
  "is_vector \<Longrightarrow> tidy {Plain} 0 0 0 (ldst_reg_transfer is_vector opc sz rt t)"
  "\<not> is_vector \<Longrightarrow> sz \<le> 3 \<Longrightarrow> tidy {Plain} 10 0 0 (ldst_reg_transfer is_vector opc sz rt t)"
  by (simp_all add: tidy_transfer_vector tidy_transfer_gpr)

lemma tidy_ldst_roffset [tidy_rules]:
  "sz \<le> 3 \<Longrightarrow> tidy {Plain, Control} 12 0 0 (disas_ldst_reg_roffset insn opc sz rt is_vector)"
  unfolding disas_ldst_reg_roffset_def
  by (rule tidy_weaken, (rule tidy_access | (rule tidy_if_known tidy_transfer, assumption) | rule tidy_rules | (simp add: sizes; fail) | blast | (fastforce simp: sizes split: if_splits))+)

lemma tidy_ldst_unsigned [tidy_rules]:
  "sz \<le> 3 \<Longrightarrow> tidy {Plain, Control} 12 0 0 (disas_ldst_reg_unsigned_imm insn opc sz rt is_vector)"
  unfolding disas_ldst_reg_unsigned_imm_def
  by (rule tidy_weaken, (rule tidy_access | (rule tidy_if_known tidy_transfer, assumption) | rule tidy_rules | (simp add: sizes; fail) | blast | (fastforce simp: sizes split: if_splits))+)

lemma tidy_ldst_reg [tidy_rules]:
  "tidy {Plain, Control} 12 0 0 (disas_ldst_reg insn)"
  unfolding disas_ldst_reg_def
  by (rule tidy_weaken, (rule tidy_access | (rule tidy_if_known, assumption) | rule tidy_rules | (simp add: sizes; fail) | blast | (fastforce simp: sizes split: if_splits))+)

lemma tidy_struct_writeback [tidy_rules]:
  "tidy {Plain} 1 (-1) 0 (struct_writeback insn r t)"
  unfolding struct_writeback_def
  by (rule tidy_weaken, (rule tidy_access | (rule tidy_if_known, assumption) | rule tidy_rules | (simp add: sizes; fail) | blast | (fastforce simp: sizes split: if_splits))+)

lemma tidy_multiple_struct [tidy_rules]:
  "tidy {Plain, Control} 10 0 0 (disas_ldst_multiple_struct insn)"
  unfolding disas_ldst_multiple_struct_def
  by (rule tidy_weaken, (rule tidy_access | (rule tidy_if_known, assumption) | rule tidy_rules | (simp add: sizes; fail) | blast | (fastforce simp: sizes split: if_splits))+)

lemma tidy_replicate [tidy_rules]:
  "tidy {Plain} 0 0 0 (replicate_element r t sc q)"
  unfolding replicate_element_def get_mem_index_def
  by (rule tidy_weaken, (rule tidy_access | (rule tidy_if_known, assumption) | rule tidy_rules | (simp add: sizes; fail) | blast | (fastforce simp: sizes split: if_splits))+)

lemma single_struct_scale:
  "single_struct_layout c sz S q l = Some (scale, repl, index) \<Longrightarrow> sz \<le> 3 \<Longrightarrow> scale \<le> 3"
  by (auto simp: single_struct_layout_def Let_def split: if_splits)

text \<open>The number of an element's size is checked only where the data are little-endian.\<close>

lemma tidy_for_any:
  assumes "\<And>i. tidy L k 0 0 (f i)"
  shows "tidy L (n * k) 0 0 (for_gen n f)"
proof (induction n)
  case 0
  show ?case by (simp, rule tidy_weaken, rule tidy_primitives) simp_all
next
  case (Suc n)
  show ?case by (simp, rule tidy_weaken, rule tidy_bind [OF Suc assms]) simp_all
qed

lemma tidy_vec_any:
  "tidy {Plain} 17 0 0 (do_vec_st r e t sz)"
  "tidy {Plain} 17 0 0 (do_vec_ld r e t sz)"
  unfolding do_vec_st_def do_vec_ld_def get_mem_index_def read_vec_element_def write_vec_element_def
  by (rule tidy_weaken, (rule tidy_assert | rule tidy_rules | (simp; fail) | blast)+)+

lemma tidy_single_loop:
  assumes "scale \<le> 3"
  shows "tidy {Plain} 1 (-1) 0 (do {
           be_data \<leftarrow> get_dc dc_be_data;
           for_gen selem (\<lambda>xs. do {
             let tt = (rt + xs) mod 32;
             (if repl then replicate_element tt t scale q
              else if is_load then do_vec_ld tt index t (be_data + scale)
              else do_vec_st tt index t (be_data + scale));
             emit (Bini64 FAdd t t ebytes) });
           struct_writeback insn r t })"
proof (rule tidy_be_data [where k' = "selem * 17 + 1"], goal_cases)
  case 1
  show ?case
    by (rule tidy_weaken, (rule tidy_rules | (simp add: assms; fail) | blast)+)
next
  case (2 x)
  have "tidy {Plain} 17 0 0 (do {
      let tt = (rt + i) mod 32;
      (if repl then replicate_element tt t scale q
       else if is_load then do_vec_ld tt index t (x + scale)
       else do_vec_st tt index t (x + scale));
      emit (Bini64 FAdd t t ebytes) })" for i
    by (rule tidy_weaken, (rule tidy_vec_any | rule tidy_rules | (simp; fail) | blast)+)
  then show ?case
    by (rule tidy_weaken [OF tidy_bind [OF tidy_for_any tidy_struct_writeback]]) simp_all
qed

lemma tidy_prod_known:
  "(\<And>x y. p = (x, y) \<Longrightarrow> tidy L k a b (f x y)) \<Longrightarrow> tidy L k a b (case p of (x, y) \<Rightarrow> f x y)"
  by (cases p) simp

lemma tidy_single_struct [tidy_rules]:
  "tidy {Plain, Control} 10 0 0 (disas_ldst_single_struct insn)"
  unfolding disas_ldst_single_struct_def Let_def [of "2 ^ _"]
  by (rule tidy_weaken, (rule tidy_prod_known tidy_single_loop | rule tidy_rules
    | (rule single_struct_scale, simp, simp add: sizes; fail) | (simp; fail) | blast)+)

lemma tidy_ldst [tidy_rules]:
  "tidy {Plain, Control} 12 0 0 (disas_ldst insn)"
  unfolding disas_ldst_def
  by (rule tidy_weaken, (rule tidy_access | (rule tidy_if_known, assumption) | rule tidy_rules | (simp add: sizes; fail) | blast | (fastforce simp: sizes split: if_splits))+)

section \<open>Big-endian data\<close>

lemma for_gen_last:
  assumes "\<And>i s. aborted (snd (run_state (f i) s))"
  shows "aborted (snd (run_state (for_gen (Suc n) f) s))"
  using assms by (simp add: split_beta)

lemma big_element_aborts:
  assumes "scale \<le> 3"
  shows "aborted (snd (run_state (do_vec_ld r e t (8 + scale)) s))" "aborted (snd (run_state (do_vec_st r e t (8 + scale)) s))"
  using assms by (auto simp: do_vec_ld_def do_vec_st_def write_vec_element_def read_vec_element_def get_mem_index_def split_beta Let_def)

lemma writeback_keeps_aborted: "aborted s \<Longrightarrow> aborted (snd (run_state (struct_writeback insn r t) s))"
  by (simp add: struct_writeback_def cpu_reg_def new_tmp_a64_zero_def new_tmp_a64_def split_beta Let_def)

lemma get_dc_bind: "run_state (get_dc h \<bind> g) s = run_state (g (h s)) s"
  by simp

lemma writeback_bind:
  "aborted (snd (run_state f s)) \<Longrightarrow> aborted (snd (run_state (f \<bind> (\<lambda>_. struct_writeback insn r t)) s))"
  by (simp add: split_beta writeback_keeps_aborted)

lemma big_bind:
  assumes "dc_be_data s = 8" and "tidy L k a b f" and "\<And>x s'. dc_be_data s' = 8 \<Longrightarrow> aborted (snd (run_state (g x) s'))"
  shows "aborted (snd (run_state (f \<bind> g) s))"
proof -
  have "dc_be_data (snd (run_state f s)) = 8"
    using assms(1,2) by (simp add: tidy_def tidy_step_def kept_def)
  then show ?thesis using assms(3) by (simp add: split_beta)
qed

lemma big_single_loop:
  assumes "dc_be_data s = 8" and "scale \<le> 3"
  shows "aborted (snd (run_state (do {
           be_data \<leftarrow> get_dc dc_be_data;
           for_gen (Suc n) (\<lambda>xs. do {
             (if is_load then do_vec_ld (tt xs) index t (be_data + scale)
              else do_vec_st (tt xs) index t (be_data + scale));
             emit (Bini64 FAdd t t ebytes) });
           struct_writeback insn r t }) s))"
proof -
  have "aborted (snd (run_state (for_gen (Suc n) (\<lambda>xs. do {
             (if is_load then do_vec_ld (tt xs) index t (8 + scale) else do_vec_st (tt xs) index t (8 + scale));
             emit (Bini64 FAdd t t ebytes) })) s))"
    by (rule for_gen_last) (simp add: split_beta big_element_aborts [OF assms(2)])
  then show ?thesis unfolding get_dc_bind assms(1) by (rule writeback_bind)
qed

lemma disas_ldst_single: "extract32 insn 24 6 = 0x0d \<Longrightarrow> disas_ldst insn = disas_ldst_single_struct insn"
  by (simp add: disas_ldst_def Let_def)

text \<open>C40: C5:
  The loads and stores of a single structure (\<open>LD1\<close> to \<open>LD4\<close> and \<open>ST1\<close> to \<open>ST4\<close> of one lane) pass the
  size with the byte order added where the size alone is meant: with big-endian data on a little-endian
  host the translator runs into the assertion on the size of an element and stops.
\<close>

theorem single_structure_big_endian_aborts:
  assumes "extract32 insn 24 6 = 0x0d" and "dc_be_data s = 8" and "dc_fp_excp_el s = 0"
    and "single_struct_layout (extract32 insn 13 3 div 2) (extract32 insn 10 2) (extract32 insn 12 1) (extract32 insn 30 1)
      (extract32 insn 22 1 = 1) = Some (scale, False, index)"
  shows "aborted (snd (run_state (disas_ldst insn) s))"
proof -
  have scale: "scale \<le> 3" by (rule single_struct_scale [OF assms(4) extract32_2_le])
  obtain s1 where s1: "run_state fp_access_check s = (True, s1)" "dc_be_data s1 = 8"
    using assms(2,3) by (simp add: fp_access_check_def)
  have check: "run_state (fp_access_check \<bind> g) s = run_state (g True) s1" for g :: "bool \<Rightarrow> unit gen"
    using s1(1) by simp
  show ?thesis
    unfolding disas_ldst_single [OF assms(1)] disas_ldst_single_struct_def Let_def assms(4) option.case prod.case
      Suc_eq_plus1 [symmetric] check not_True_eq_False if_False
    by (intro big_bind [OF s1(2)] big_bind big_single_loop scale; (assumption | rule tidy_rules refl)+)
qed

theorem single_structure_big_endian_aborts_witness:
  "aborted (snd (run_state (disas_ldst 0x0d408020) (dc0\<lparr>dc_be_data := 8\<rparr>)))"
proof -
  have "extract32 0x0d408020 24 6 = 0x0d" "single_struct_layout (extract32 0x0d408020 13 3 div 2) (extract32 0x0d408020 10 2)
    (extract32 0x0d408020 12 1) (extract32 0x0d408020 30 1) (extract32 0x0d408020 22 1 = 1) = Some (2, False, 0)" by code_simp+
  then show ?thesis by (intro single_structure_big_endian_aborts) (simp_all add: dc0_def)
qed

end
