(* ===== verification/A64FpTidy.thy ===== *)
theory A64FpTidy
  imports A64LdstTidy A64Fp
begin

text \<open>
  The decoders of the scalar floating-point instructions keep what \<open>A64Tidy\<close> states of the others. In
  particular none of their calls of \<open>abort\<close> is reached.
\<close>

section \<open>Handlers\<close>

lemma tidy_fp_registers [tidy_rules]:
  "tidy {Plain} 0 1 0 (read_fp_dreg r)"
  "tidy {Plain} 0 0 1 (read_fp_sreg r)"
  "tidy {Plain} 0 0 0 (write_fp_dreg r v)"
  unfolding read_fp_dreg_def read_fp_sreg_def write_fp_dreg_def
  by (rule tidy_weaken, (rule tidy_rules | (simp; fail) | blast)+)+

lemma tidy_write_fp_sreg [tidy_rules]: "tidy {Plain} 0 0 0 (write_fp_sreg r v)"
  unfolding write_fp_sreg_def
  by (rule tidy_weaken, (rule tidy_rules | (simp; fail) | blast)+)

lemma tidy_fpstatus [tidy_rules]: "tidy {Plain} 0 0 0 get_fpstatus_ptr"
  by (simp add: get_fpstatus_ptr_def tidy_def tidy_step_def kept_def loose64_def weight_def loose32_def
      jmp_ok_def sane_def kind_simps)

lemma tidy_fp_compare [tidy_rules]: "tidy {Plain} 0 0 0 (handle_fp_compare d rn rm z n)"
  unfolding handle_fp_compare_def
  by (rule tidy_weaken, (rule tidy_rules | (simp; fail) | blast)+)

lemma tidy_1src_single [tidy_rules]:
  "opcode \<in> {0, 1, 2, 3} \<or> opcode \<in> {8, 9, 10, 11, 12} \<or> opcode \<in> {14, 15} \<Longrightarrow>
   tidy {Plain} 0 0 0 (handle_fp_1src_single opcode rd rn)"
  unfolding handle_fp_1src_single_def
  by (rule tidy_weaken, (rule tidy_rules | (simp; fail) | blast)+)

lemma tidy_1src_double [tidy_rules]:
  "opcode \<in> {0, 1, 2, 3} \<or> opcode \<in> {8, 9, 10, 11, 12} \<or> opcode \<in> {14, 15} \<Longrightarrow>
   tidy {Plain} 0 0 0 (handle_fp_1src_double opcode rd rn)"
  unfolding handle_fp_1src_double_def
  by (rule tidy_weaken, (rule tidy_rules | (simp; fail) | blast)+)

lemma tidy_fcvt [tidy_rules]:
  "ntype \<le> 3 \<Longrightarrow> ntype \<noteq> 2 \<Longrightarrow> tidy {Plain} 0 0 0 (handle_fp_fcvt opcode rd rn dtype ntype)"
  unfolding handle_fp_fcvt_def
  by (rule tidy_weaken, (rule tidy_rules | (simp; fail) | blast | linarith)+)

lemma tidy_fp_2src_handlers [tidy_rules]:
  "tidy {Plain} 0 0 0 (handle_fp_2src_single opcode rd rn rm)"
  "tidy {Plain} 0 0 0 (handle_fp_2src_double opcode rd rn rm)"
  unfolding handle_fp_2src_single_def handle_fp_2src_double_def
  by (rule tidy_weaken, (rule tidy_rules | (simp; fail) | blast)+)+

lemma tidy_fp_3src_handlers [tidy_rules]:
  "tidy {Plain} 0 0 0 (handle_fp_3src_single o0 o1 rd rn rm ra)"
  "tidy {Plain} 0 0 0 (handle_fp_3src_double o0 o1 rd rn rm ra)"
  unfolding handle_fp_3src_single_def handle_fp_3src_double_def
  by (rule tidy_weaken, (rule tidy_rules | (simp; fail) | blast)+)+

lemma tidy_fpcvt [tidy_rules]:
  "tidy {Plain} 2 0 0 (fpcvt_from_int is_signed is_double sf rd rn t p)"
  "tidy {Plain} 1 0 0 (fpcvt_to_int opcode is_signed is_double sf rmode rd rn t p)"
  unfolding fpcvt_from_int_def fpcvt_to_int_def
  by (rule tidy_weaken, (rule tidy_rules | (simp; fail) | blast)+)+

lemma tidy_fpfpcvt [tidy_rules]: "tidy {Plain} 2 0 0 (handle_fpfpcvt rd rn opcode itof rmode scale sf type)"
  unfolding handle_fpfpcvt_def
  by (rule tidy_weaken, (rule tidy_rules | (simp; fail) | blast)+)

lemma tidy_fmov [tidy_rules]: "tidy {Plain} 1 0 0 (handle_fmov rd rn type itof)"
  unfolding handle_fmov_def
  by (rule tidy_weaken, (rule tidy_rules | (simp; fail) | blast)+)

section \<open>Decoders\<close>

lemma tidy_disas_fp_compare [tidy_rules]: "tidy {Plain, Control} 9 0 0 (disas_fp_compare insn)"
  unfolding disas_fp_compare_def
  by (rule tidy_weaken, (rule tidy_rules | (simp; fail) | blast)+)

lemma tidy_fp_ccomp [tidy_rules]: "tidy {Plain, Control} 9 0 0 (disas_fp_ccomp insn)"
  unfolding disas_fp_ccomp_def
  by (rule tidy_weaken, (rule tidy_rules | (simp; fail) | blast)+)

lemma tidy_fp_csel [tidy_rules]: "tidy {Plain, Control} 9 0 0 (disas_fp_csel insn)"
  unfolding disas_fp_csel_def
  by (rule tidy_weaken, (rule tidy_rules | (simp; fail) | blast)+)

lemma tidy_fp_1src [tidy_rules]: "tidy {Plain, Control} 9 0 0 (disas_fp_1src insn)"
  unfolding disas_fp_1src_def
  by (rule tidy_weaken, (rule tidy_rules | (simp add: sizes; fail) | blast)+)

lemma tidy_fp_2src [tidy_rules]: "tidy {Plain, Control} 9 0 0 (disas_fp_2src insn)"
  unfolding disas_fp_2src_def
  by (rule tidy_weaken, (rule tidy_rules | (simp; fail) | blast)+)

lemma tidy_fp_3src [tidy_rules]: "tidy {Plain, Control} 9 0 0 (disas_fp_3src insn)"
  unfolding disas_fp_3src_def
  by (rule tidy_weaken, (rule tidy_rules | (simp; fail) | blast)+)

lemma tidy_fp_imm [tidy_rules]: "tidy {Plain, Control} 9 0 0 (disas_fp_imm insn)"
  unfolding disas_fp_imm_def
  by (rule tidy_weaken, (rule tidy_rules | (simp; fail) | blast)+)

lemma tidy_fp_fixed_conv [tidy_rules]: "tidy {Plain, Control} 11 0 0 (disas_fp_fixed_conv insn)"
  unfolding disas_fp_fixed_conv_def
  by (rule tidy_weaken, (rule tidy_rules | (simp; fail) | blast)+)

lemma tidy_fp_int_conv [tidy_rules]: "tidy {Plain, Control} 11 0 0 (disas_fp_int_conv insn)"
  unfolding disas_fp_int_conv_def
  by (rule tidy_weaken, (rule tidy_rules | (simp; fail) | blast)+)

lemma tidy_data_proc_fp: "tidy {Plain, Control} 11 0 0 (disas_data_proc_fp insn)"
  unfolding disas_data_proc_fp_def
  by (rule tidy_weaken, (rule tidy_rules | (simp; fail) | blast)+)

end
