(* ===== verification/A64Block.thy ===== *)
theory A64Block
  imports A64FpTidy A64Insn
begin

text \<open>
  Instructions and translation blocks: which instructions log, that no assertion of the translator
  fails and no temporary leaks, and the size of a block. The decoder of the SIMD instructions is a
  parameter of the model, so the results are for code without them.
\<close>

section \<open>One instruction\<close>













section \<open>The block\<close>











section \<open>The properties\<close>












end
