(* ===== verification/A64Exec.thy ===== *)
theory A64Exec
  imports A64Flags A64BranchProps
begin

text \<open>
  Rules for running whole instructions: what each register access and each shared generator leaves,
  stated by what is old, what is fresh and what is written, so that the code of an instruction runs
  by \<open>intro\<close> and one simplification at the end.
\<close>

section \<open>Old and fresh variables\<close>

text \<open>How the block accesses the memory of the guest.\<close>

definition data_access :: "disas_context \<Rightarrow> nat \<times> ARMMMUIdx" where
  "data_access s = (dc_be_data s, dc_mmu_idx s)"

lemma data_access_add [simp]:
  "data_access (add_op op s) = data_access s" "data_access (add_i64 s) = data_access s"
  "data_access (add_i32 s) = data_access s" "data_access (add_label s) = data_access s"
  "data_access (add_assert b s) = data_access s" "data_access (add_tmp s) = data_access s"
  by (simp_all add: data_access_def)

definition later :: "tv64 set \<Rightarrow> disas_context \<Rightarrow> disas_context \<Rightarrow> cpu \<Rightarrow> cpu \<Rightarrow> bool" where
  "later D s s' m m' \<longleftrightarrow> (\<forall>x. old64 s x \<longrightarrow> old64 s' x \<and> (x \<notin> D \<longrightarrow> r64 m' x = r64 m x)) \<and>
     (\<forall>n. X n \<notin> D \<longrightarrow> zreg m' n = zreg m n) \<and>
     (\<forall>k. k < next_i32 s \<longrightarrow> k < next_i32 s' \<and> r32 m' (T32 k) = r32 m (T32 k)) \<and> beyond m' = beyond m \<and> dc_pc s' = dc_pc s \<and>
     data_access s' = data_access s"

definition same_flags :: "cpu \<Rightarrow> cpu \<Rightarrow> bool" where
  "same_flags m m' \<longleftrightarrow> flags m' = flags m \<and> flags_ok m' = flags_ok m"

definition fresh :: "disas_context \<Rightarrow> disas_context \<Rightarrow> tv64 \<Rightarrow> bool" where
  "fresh s s' t \<longleftrightarrow> old64 s' t \<and> (\<forall>x. old64 s x \<longrightarrow> (x = t) = False \<and> (t = x) = False)"

text \<open>The variable handed out for a register: the register, or a new variable for number 31.\<close>

definition names :: "nat \<Rightarrow> tv64 \<Rightarrow> bool" where
  "names n t \<longleftrightarrow> (\<forall>k. (X k = t) = (n \<noteq> 31 \<and> k = n)) \<and> PC \<noteq> t"

definition operand :: "disas_context \<Rightarrow> disas_context \<Rightarrow> nat \<Rightarrow> tv64 \<Rightarrow> bool" where
  "operand s s' n t \<longleftrightarrow> old64 s' t \<and>
     (\<forall>x. old64 s x \<longrightarrow> (x = t) = (n \<noteq> 31 \<and> x = X n) \<and> (t = x) = (n \<noteq> 31 \<and> x = X n))"

lemma old64_add [simp]:
  "old64 (add_op op s) x = old64 s x" "old64 (add_i32 s) x = old64 s x" "old64 (add_label s) x = old64 s x"
  "old64 (add_assert b s) x = old64 s x"
  by (simp_all add: old64_def)

lemma old64_new [simp]:
  "old64 s x \<Longrightarrow> old64 (add_i64 s) x" "old64 s x \<Longrightarrow> old64 (add_tmp s) x"
  "old64 (add_i64 s) (T (next_i64 s))" "old64 (add_tmp s) (T (next_i64 s))"
  by (auto simp: old64_def)

lemma old64_distinct [simp]:
  "old64 s x \<Longrightarrow> (x = T (next_i64 s)) = False" "old64 s x \<Longrightarrow> (T (next_i64 s) = x) = False"
  by (auto simp: old64_def)

lemma flags_set64 [simp]: "flags (set64 d v m) = flags m" "flags_ok (set64 d v m) = flags_ok m"
  by (simp_all add: flags_def flags_ok_def)

lemma flags_set32_T32 [simp]: "flags (set32 (T32 k) v m) = flags m" "flags_ok (set32 (T32 k) v m) = flags_ok m"
  by (simp_all add: flags_def flags_ok_def)

lemma select_pc:
  "dc_pc (s\<lparr>code := c, next_i64 := i, next_i32 := j, dc_tmp_a64 := ts, aborted := b\<rparr>) = dc_pc s"
  "data_access (s\<lparr>code := c, next_i64 := i, next_i32 := j, dc_tmp_a64 := ts, aborted := b\<rparr>) = data_access s"
  by (simp_all add: data_access_def)

lemma frame_later:
  assumes "frame D s s' m m'"
  shows "later D s s' m m'"
proof -
  have "s' = s\<lparr>code := code s', next_i64 := next_i64 s', next_i32 := next_i32 s',
      dc_tmp_a64 := dc_tmp_a64 s', aborted := aborted s'\<rparr>"
    using assms unfolding frame_def by (elim conjE)
  then have "dc_pc s' = dc_pc s" "data_access s' = data_access s" by (metis (no_types) select_pc)+
  moreover have "zreg m' n = zreg m n" if "X n \<notin> D" for n
    using assms that by (simp add: frame_def zreg_def)
  ultimately show ?thesis using assms unfolding frame_def later_def by (blast intro: old64_mono order_less_le_trans)
qed

lemmas run_defs = later_def same_flags_def fresh_def operand_def

definition low_word :: "bool \<Rightarrow> u64 \<Rightarrow> u64" where
  "low_word sf v = (if sf then v else ucast (ucast v :: u32))"

section \<open>Register access\<close>

context tcg_semantics
begin

lemma wp_new_tmp:
  assumes "\<And>t s' m'. later {} s s' m m' \<Longrightarrow> same_flags m m' \<Longrightarrow> fresh s s' t \<Longrightarrow> Q t s' m'"
  shows "wp S new_tmp_a64 Q s m"
  by (intro wp; rule assms; simp add: run_defs zreg_def)

lemma wp_temp64:
  assumes "\<And>t s'. \<forall>x. old64 s x \<longrightarrow> old64 s' x \<Longrightarrow> dc_pc s' = dc_pc s \<Longrightarrow> data_access s' = data_access s \<Longrightarrow>
    next_i32 s' = next_i32 s \<Longrightarrow> fresh s s' t \<Longrightarrow> Q t s' m"
  shows "wp S tcg_temp_new_i64 Q s m"
  by (intro wp; rule assms; simp add: run_defs zreg_def)

lemma wp_free:
  assumes "\<And>s'. \<forall>x. old64 s x \<longrightarrow> old64 s' x \<Longrightarrow> dc_pc s' = dc_pc s \<Longrightarrow> data_access s' = data_access s \<Longrightarrow>
    next_i32 s' = next_i32 s \<Longrightarrow> Q () s' m"
  shows "wp S (emit (Free64 d)) Q s m" and "wp S (emit (Free32 e)) Q s m" and "wp S (emit (ArmFreeCc k)) Q s m"
  by (intro wp exec1_running; simp only: frees; rule assms; simp)+

lemma wp_const64:
  assumes "\<And>t s' m'. later {} s s' m m' \<Longrightarrow> same_flags m m' \<Longrightarrow> fresh s s' t \<Longrightarrow> r64 m' t = v \<Longrightarrow> Q t s' m'"
  shows "wp S (tcg_const_i64 v) Q s m"
  unfolding tcg_const_i64_def by (intro wp exec1_running; rule assms; simp add: run_defs ops zreg_def)

lemma wp_cpu_reg:
  assumes "\<And>t s' m'. later {} s s' m m' \<Longrightarrow> same_flags m m' \<Longrightarrow> operand s s' n t \<Longrightarrow> names n t \<Longrightarrow>
    r64 m' t = zreg m n \<Longrightarrow> Q t s' m'"
  shows "wp S (cpu_reg n) Q s m"
  unfolding cpu_reg_def new_tmp_a64_zero_def
  by (intro wp exec1_running; rule assms; simp add: run_defs ops zreg_def names_def; auto)

lemma wp_cpu_reg_sp:
  assumes "Q (X n) s m"
  shows "wp S (cpu_reg_sp n) Q s m"
  unfolding cpu_reg_sp_def by (intro wp assms)

lemma wp_read_cpu_reg:
  assumes "\<And>t s' m'. later {} s s' m m' \<Longrightarrow> same_flags m m' \<Longrightarrow> fresh s s' t \<Longrightarrow>
    r64 m' t = low_word sf (zreg m n) \<Longrightarrow> Q t s' m'"
  shows "wp S (read_cpu_reg n sf) Q s m"
  unfolding read_cpu_reg_def
  by (intro wp exec1_running; rule assms; simp add: run_defs ops zreg_def low_word_def)

lemma wp_read_cpu_reg_sp:
  assumes "\<And>t s' m'. later {} s s' m m' \<Longrightarrow> same_flags m m' \<Longrightarrow> fresh s s' t \<Longrightarrow>
    r64 m' t = low_word sf (r64 m (X n)) \<Longrightarrow> Q t s' m'"
  shows "wp S (read_cpu_reg_sp n sf) Q s m"
  unfolding read_cpu_reg_sp_def
  by (intro wp exec1_running; rule assms; simp add: run_defs ops zreg_def low_word_def)

end

section \<open>Shifts and extensions\<close>

fun shift_word :: "a64_shift_type \<Rightarrow> nat \<Rightarrow> 'a::len word \<Rightarrow> 'a word" where
  "shift_word A64_SHIFT_TYPE_LSL n w = push_bit n w"
| "shift_word A64_SHIFT_TYPE_LSR n w = drop_bit n w"
| "shift_word A64_SHIFT_TYPE_ASR n w = signed_drop_bit n w"
| "shift_word A64_SHIFT_TYPE_ROR n w = word_rotr n w"

definition shifted :: "bool \<Rightarrow> a64_shift_type \<Rightarrow> nat \<Rightarrow> u64 \<Rightarrow> u64" where
  "shifted sf t n v = (if sf then shift_word t n v else ucast (shift_word t n (ucast v :: u32)))"

lemma shift_word_0 [simp]: "shift_word t 0 w = w"
  by (cases t) (auto intro: bit_word_eqI simp: bit_word_rotr_iff)

lemma low_shifts:
  fixes x :: u64
  shows "(ucast (ucast (push_bit n x) :: u32) :: u64) = ucast (push_bit n (ucast x :: u32))"
    and "ucast (ucast x :: u32) = x \<Longrightarrow> (ucast (ucast (drop_bit n x) :: u32) :: u64) = ucast (drop_bit n (ucast x :: u32))"
    and "n < 32 \<Longrightarrow> (ucast (ucast (signed_drop_bit n (scast (ucast x :: u32) :: u64)) :: u32) :: u64) =
      ucast (signed_drop_bit n (ucast x :: u32))"
proof -
  show "(ucast (ucast (push_bit n x) :: u32) :: u64) = ucast (push_bit n (ucast x :: u32))"
    by (rule bit_word_eqI) (auto simp: bit_simps)
  show "(ucast (ucast (drop_bit n x) :: u32) :: u64) = ucast (drop_bit n (ucast x :: u32))" if "ucast (ucast x :: u32) = x"
  proof (rule bit_word_eqI)
    fix k assume "k < LENGTH(64)"
    have "bit x (n + k) = bit (ucast (ucast x :: u32) :: u64) (n + k)" using that by simp
    then show "bit (ucast (ucast (drop_bit n x) :: u32) :: u64) k = bit (ucast (drop_bit n (ucast x :: u32)) :: u64) k"
      by (auto simp: bit_simps)
  qed
  show "(ucast (ucast (signed_drop_bit n (scast (ucast x :: u32) :: u64)) :: u32) :: u64) =
      ucast (signed_drop_bit n (ucast x :: u32))" if "n < 32"
    using that by (intro bit_word_eqI) (auto simp: bit_simps)
qed

lemma unat_small_words: "n < 64 \<Longrightarrow> unat (of_nat n :: u64) = n" "n < 64 \<Longrightarrow> unat (of_nat n :: u32) = n"
  by (simp_all add: unat_of_nat)

lemma low_twice [simp]: "(ucast (ucast (w :: u32) :: u64) :: u32) = w"
  by (rule bit_word_eqI) (auto simp: bit_simps)

lemma low_of_nat: "(ucast (of_nat n :: u64) :: u32) = of_nat n"
  by (rule bit_word_eqI) (auto simp: bit_simps)

context tcg_semantics
begin

lemma wp_shift_reg:
  assumes amount: "r64 m y = of_nat n" "n < (if sf then 64 else 32)" and "low_word sf (r64 m x) = r64 m x"
    and "(y = d) = False" and "(d = y) = False"
    and Q: "\<And>s' m'. later {d} s s' m m' \<Longrightarrow> same_flags m m' \<Longrightarrow> r64 m' d = shifted sf t n (r64 m x) \<Longrightarrow> Q () s' m'"
  shows "wp S (shift_reg d x sf t y) Q s m"
proof (cases t)
  case A64_SHIFT_TYPE_LSL
  with assms show ?thesis
    unfolding shift_reg_def a64_shift_type.case A64_SHIFT_TYPE_LSL
    by (intro wp exec1_running; intro Q;
        simp add: A64_SHIFT_TYPE_LSL ops run_defs zreg_def fn2_defined_def shifted_def low_word_def unat_small_words low_shifts split: if_splits)
next
  case A64_SHIFT_TYPE_LSR
  with assms show ?thesis
    unfolding shift_reg_def a64_shift_type.case A64_SHIFT_TYPE_LSR
    by (intro wp exec1_running; intro Q;
        simp add: A64_SHIFT_TYPE_LSR ops run_defs zreg_def fn2_defined_def shifted_def low_word_def unat_small_words low_shifts split: if_splits)
next
  case A64_SHIFT_TYPE_ASR
  with assms show ?thesis
    unfolding shift_reg_def a64_shift_type.case A64_SHIFT_TYPE_ASR
    by (intro wp exec1_running; intro Q;
        simp add: A64_SHIFT_TYPE_ASR ops run_defs zreg_def fn2_defined_def shifted_def low_word_def unat_small_words low_shifts split: if_splits)
next
  case A64_SHIFT_TYPE_ROR
  with assms show ?thesis
    unfolding shift_reg_def a64_shift_type.case A64_SHIFT_TYPE_ROR
    by (intro wp exec1_running; intro Q;
        simp add: A64_SHIFT_TYPE_ROR ops run_defs zreg_def fn2_defined_def shifted_def low_word_def unat_small_words low_shifts low_of_nat split: if_splits)
qed

lemma wp_shift_reg_imm:
  assumes n: "n < (if sf then 64 else 32)" and x: "old64 s x" "low_word sf (r64 m x) = r64 m x" and "old64 s d"
    and Q: "\<And>s' m'. later {d} s s' m m' \<Longrightarrow> same_flags m m' \<Longrightarrow> r64 m' d = shifted sf t n (r64 m x) \<Longrightarrow> Q () s' m'"
  shows "wp S (shift_reg_imm d x sf t n) Q s m"
proof (cases "n = 0")
  case True
  then show ?thesis
    using n x unfolding shift_reg_imm_def
    by (simp only: True if_True) (intro wp exec1_running; intro Q; simp add: True ops run_defs zreg_def shifted_def low_word_def split: if_splits)
next
  case False
  then show ?thesis
    using n x \<open>old64 s d\<close> unfolding shift_reg_imm_def tcg_const_i64_def
    by (simp only: False if_False) (intro wp exec1_running wp_shift_reg [where n = n]; (intro Q)?; simp add: ops run_defs zreg_def)
qed

end

text \<open>The extended register operand: the low byte, half word, word or all of the register, zero or
  sign extended, shifted left.\<close>

definition extension :: "nat \<Rightarrow> tcg_fn1" where
  "extension option = [FExt8u, FExt16u, FExt32u, FMov, FExt8s, FExt16s, FExt32s, FMov] ! option"

definition extended :: "nat \<Rightarrow> nat \<Rightarrow> u64 \<Rightarrow> u64" where
  "extended option n v = push_bit n (fn1_64 (extension option) v)"

lemma ext_and_shift_reg_eq:
  assumes "option < 8"
  shows "ext_and_shift_reg d x option n = do {
    emit (Un64 (extension option) d x);
    if n \<noteq> 0 then emit (Bini64 FShl d d (of_nat n)) else skip }"
proof -
  have "option \<in> {0, 1, 2, 3, 4, 5, 6, 7}" using assms by auto
  then show ?thesis
    by (elim insertE emptyE; simp add: ext_and_shift_reg_def extract32_def extension_def Let_def)
qed

lemma extension_defined: "option < 8 \<Longrightarrow> fn1_defined (extension option) v"
proof -
  assume "option < 8"
  then have "option \<in> {0, 1, 2, 3, 4, 5, 6, 7}" by auto
  then show ?thesis by (elim insertE emptyE; simp add: extension_def)
qed

lemma fst_add_with_carry: "fst (add_with_carry x y c) = x + y + of_bool c"
  by (simp add: add_with_carry_def Let_def)

lemma arith_values:
  "fst (arith True x y False) = x + y" "fst (arith True x (NOT y) True) = x - y"
  "fst (arith False x y False) = ucast (ucast (x + y) :: u32)"
  "fst (arith False x (NOT y) True) = ucast (ucast (x - y) :: u32)"
proof -
  have "fst (arith False x z c) = ucast (ucast (x + z + of_bool c) :: u32)" for z c
    by (cases c) (simp_all add: arith_def split_beta fst_add_with_carry low_add)
  from this [of y False] this [of "NOT y" True]
  show "fst (arith False x y False) = ucast (ucast (x + y) :: u32)"
    "fst (arith False x (NOT y) True) = ucast (ucast (x - y) :: u32)"
    by (simp_all add: not_minus)
qed (simp_all add: arith_def fst_add_with_carry not_minus)

context tcg_semantics
begin

lemma wp_ext_and_shift_reg:
  assumes "option < 8" and n: "n < 64" and "old64 s d"
    and Q: "\<And>s' m'. later {d} s s' m m' \<Longrightarrow> same_flags m m' \<Longrightarrow> r64 m' d = extended option n (r64 m x) \<Longrightarrow> Q () s' m'"
  shows "wp S (ext_and_shift_reg d x option n) Q s m"
  using n \<open>old64 s d\<close> extension_defined [OF assms(1)] unfolding ext_and_shift_reg_eq [OF assms(1)]
  by (intro wp exec1_running; intro Q; simp add: ops run_defs zreg_def fn2_defined_def unat_small_words extended_def)

lemma wp_add_CC_later:
  assumes "old64 s a" and "old64 s b"
    and "\<And>s' m'. later {d} s s' m m' \<Longrightarrow> flags_ok m' \<Longrightarrow> r64 m' d = fst (arith sf (r64 m a) (r64 m b) False) \<Longrightarrow>
      flags m' = snd (arith sf (r64 m a) (r64 m b) False) \<Longrightarrow> Q () s' m'"
  shows "wp S (gen_add_CC sf d a b) Q s m"
  using assms(1,2) by (rule wp_add_CC) (rule assms(3), auto simp: prod_eq_iff intro: frame_later)

lemma wp_sub_CC_later:
  assumes "old64 s a" and "old64 s b"
    and "\<And>s' m'. later {d} s s' m m' \<Longrightarrow> flags_ok m' \<Longrightarrow> r64 m' d = fst (arith sf (r64 m a) (NOT (r64 m b)) True) \<Longrightarrow>
      flags m' = snd (arith sf (r64 m a) (NOT (r64 m b)) True) \<Longrightarrow> Q () s' m'"
  shows "wp S (gen_sub_CC sf d a b) Q s m"
  using assms(1,2) by (rule wp_sub_CC) (rule assms(3), auto simp: prod_eq_iff intro: frame_later)

lemma wp_adc_CC_later:
  assumes "old64 s a" and "old64 s b" and "flags_ok m"
    and "\<And>s' m'. later {d} s s' m m' \<Longrightarrow> flags_ok m' \<Longrightarrow> r64 m' d = fst (arith sf (r64 m a) (r64 m b) (flag_c (flags m))) \<Longrightarrow>
      flags m' = snd (arith sf (r64 m a) (r64 m b) (flag_c (flags m))) \<Longrightarrow> Q () s' m'"
  shows "wp S (gen_adc_CC sf d a b) Q s m"
  using assms(1-3) by (rule wp_adc_CC) (rule assms(4), auto simp: prod_eq_iff intro: frame_later)

text \<open>The addition or subtraction of the instructions with or without flags; the low half of the
  variable is the result in 32 bits.\<close>

lemma wp_add_sub_result:
  assumes "old64 s a" and "old64 s b" and "old64 s d"
    and Q: "\<And>s' m'. later {d} s s' m m' \<Longrightarrow> (flags_ok m \<or> setflags \<Longrightarrow> flags_ok m') \<Longrightarrow>
      low_word sf (r64 m' d) = fst (arith sf (r64 m a) (if sub then NOT (r64 m b) else r64 m b) sub) \<Longrightarrow>
      flags m' = (if setflags then snd (arith sf (r64 m a) (if sub then NOT (r64 m b) else r64 m b) sub) else flags m) \<Longrightarrow> Q () s' m'"
  shows "wp S (add_sub_result sf setflags sub d a b) Q s m"
  unfolding add_sub_result_def
  by (intro wp exec1_running wp_add_CC_later wp_sub_CC_later assms(1,2); intro Q)
    (use assms(3) in \<open>simp_all add: ops run_defs zreg_def arith_values low_word_def\<close>)

end

section \<open>Outcome of an instruction\<close>

text \<open>\<open>v\<close> is written to register \<open>n\<close>; number 31 is the stack pointer or is discarded.\<close>

definition wrote :: "cpu \<Rightarrow> bool \<Rightarrow> nat \<Rightarrow> u64 \<Rightarrow> cpu \<Rightarrow> bool" where
  "wrote m sp n v m' \<longleftrightarrow> (\<forall>k. r64 m' (X k) = (if k = n \<and> (sp \<or> n \<noteq> 31) then v else r64 m (X k))) \<and>
     r64 m' PC = r64 m PC \<and> beyond m' = beyond m"

lemma wrote_names:
  assumes "names n t" and "\<not> sp" and "\<And>k. X k \<noteq> t \<Longrightarrow> r64 m' (X k) = r64 m (X k)" and "r64 m' t = v"
    and "r64 m' PC = r64 m PC" and "beyond m' = beyond m"
  shows "wrote m sp n v m'"
  using assms by (auto simp: wrote_def names_def split: if_split) metis+

lemma wrote_sp:
  assumes "sp" and "\<And>k. k \<noteq> n \<Longrightarrow> r64 m' (X k) = r64 m (X k)" and "r64 m' (X n) = v"
    and "r64 m' PC = r64 m PC" and "beyond m' = beyond m"
  shows "wrote m sp n v m'"
  using assms by (auto simp: wrote_def split: if_split)

lemma low_word_shifted: "shifted sf t n (low_word sf v) = shifted sf t n v"
  by (simp add: shifted_def low_word_def)

lemma low_word_True: "low_word True v = v"
  by (simp add: low_word_def)

lemma low_word_twice: "low_word sf (low_word sf v) = low_word sf v"
  by (simp add: low_word_def)

lemma low_complement: "(ucast (NOT y :: u64) :: u32) = NOT (ucast y)"
  by (rule bit_word_eqI) (auto simp: bit_simps)

lemma arith_low:
  "arith sf (low_word sf x) y c = arith sf x y c" "arith sf x (low_word sf y) c = arith sf x y c"
  "arith sf x (NOT (low_word sf y)) c = arith sf x (NOT y) c"
  by (simp_all add: arith_def low_word_def low_complement)

lemma extract32_6: "extract32 insn i 6 < 64"
  using extract32_less [of insn i 6] by simp

context tcg_semantics
begin

text \<open>The two ways the decoders keep a 32-bit result zero extended.\<close>

lemma wp_mov_low:
  assumes "old64 s d"
    and "\<And>s' m'. later {d} s s' m m' \<Longrightarrow> same_flags m m' \<Longrightarrow> r64 m' d = low_word sf (r64 m a) \<Longrightarrow> Q () s' m'"
  shows "wp S (if sf then tcg_gen_mov_i64 d a else tcg_gen_ext32u_i64 d a) Q s m"
  using assms(1) by (intro wp exec1_running; intro assms(2); simp add: run_defs zreg_def ops low_word_def)

lemma wp_ext_low:
  assumes "old64 s d"
    and "\<And>s' m'. later {d} s s' m m' \<Longrightarrow> same_flags m m' \<Longrightarrow> r64 m' d = low_word sf (r64 m d) \<Longrightarrow> Q () s' m'"
  shows "wp S (if \<not> sf then tcg_gen_ext32u_i64 d d else skip) Q s m"
  using assms(1) by (intro wp exec1_running; intro assms(2); simp add: run_defs zreg_def ops low_word_def)

text \<open>What \<open>intro\<close> runs an instruction with, the more specific rules first, and what simplifies the
  outcome.\<close>

lemmas run_rules = wp_mov_low wp_ext_low wp_temp64 wp_const64 wp_free wp exec1_running wp_cpu_reg wp_cpu_reg_sp
  wp_read_cpu_reg wp_read_cpu_reg_sp wp_new_tmp wp_add_CC_later wp_sub_CC_later wp_adc_CC_later

end

lemma arith_result:
  "fst (arith sf x y False) = low_word sf (x + y)" "fst (arith sf x (NOT y) True) = low_word sf (x - y)"
  by (cases sf; simp add: arith_values low_word_def)+

lemmas run_simps = arith_result low_word_True low_word_twice arith_low low_word_shifted unat_small_words fn2_defined_def

text \<open>The code of \<open>f\<close> runs to its end, neither leaving the block nor jumping, and leaves \<open>Q\<close>.\<close>

definition runs_to :: "tcg_sem \<Rightarrow> unit gen \<Rightarrow> disas_context \<Rightarrow> cpu \<Rightarrow> (cpu \<Rightarrow> bool) \<Rightarrow> bool" where
  "runs_to S f s m Q \<longleftrightarrow> (\<exists>m'. run_code S (emitted f s) (Running, m) = (Running, m') \<and> Q m')"

lemma wp_runs_to: "wp S f (\<lambda>_ s' m'. Q m') (s\<lparr>code := []\<rparr>) m \<Longrightarrow> runs_to S f s m Q"
  unfolding runs_to_def by (drule wp_run) blast

end
