(* ===== verification/A64AddSub.thy ===== *)
theory A64AddSub
  imports A64Exec
begin

text \<open>
  Additions and subtractions against the architecture: the value of the destination, the flags, and
  nothing else changed. The proofs run an instruction by \<open>intro\<close> and simplify what it leaves with
  its conditions unsplit.
\<close>

declare One_nat_def [simp del] if_split [split del] if_cong [cong]

text \<open>The result of the addition or subtraction \<open>insn\<close> asks for, on the operands \<open>x\<close> and \<open>y\<close>.\<close>

definition add_sub_outcome :: "cpu \<Rightarrow> u32 \<Rightarrow> bool \<Rightarrow> u64 \<Rightarrow> u64 \<Rightarrow> cpu \<Rightarrow> bool" where
  "add_sub_outcome m insn sp x y m' \<longleftrightarrow>
     (let sub = (extract32 insn 30 1 = 1);
          setflags = (extract32 insn 29 1 = 1);
          r = arith (extract32 insn 31 1 = 1) x (if sub then NOT y else y) sub
      in wrote m sp (extract32 insn 0 5) (fst r) m' \<and> flags m' = (if setflags then snd r else flags m) \<and>
         (flags_ok m \<longrightarrow> flags_ok m'))"

context tcg_semantics
begin

lemma add_sub_reg_run:
  fixes insn s m
  defines "sf \<equiv> extract32 insn 31 1 = 1" and "imm6 \<equiv> extract32 insn 10 6" and "ty \<equiv> extract32 insn 22 2"
  assumes "\<not> (ty = 3 \<or> \<not> sf \<and> 31 < imm6)"
  shows "wp S (disas_add_sub_reg insn) (\<lambda>_ s' m'. add_sub_outcome m insn False (zreg m (extract32 insn 5 5))
    (shifted sf (shift_type_of ty) imm6 (zreg m (extract32 insn 16 5))) m') s m"
proof -
  have imm6: "imm6 < (if sf then 64 else 32)"
    using assms(4) extract32_6 [of insn 10] unfolding imm6_def by (auto split: if_split)
  show ?thesis
    using assms(4) unfolding disas_add_sub_reg_def Let_def
    by (fold assms(1-3), simp only: if_False, intro run_rules wp_shift_reg_imm wp_add_sub_result imm6, unfold run_defs add_sub_outcome_def Let_def sf_def)
      ((erule notE, assumption) | (intro conjI, ((rule wrote_names, assumption) | rule wrote_sp))?;
        simp (no_asm_simp) add: ops run_simps)+
qed

lemma add_sub_ext_run:
  fixes insn s m
  defines "sf \<equiv> extract32 insn 31 1 = 1" and "setflags \<equiv> extract32 insn 29 1 = 1"
  assumes "\<not> 4 < extract32 insn 10 3"
  shows "wp S (disas_add_sub_ext_reg insn) (\<lambda>_ s' m'. add_sub_outcome m insn (\<not> setflags) (r64 m (X (extract32 insn 5 5)))
    (extended (extract32 insn 13 3) (extract32 insn 10 3) (low_word sf (zreg m (extract32 insn 16 5)))) m') s m"
proof -
  have opt: "extract32 insn 13 3 < 8" using extract32_less [of insn 13 3] by simp
  have "extract32 insn 10 3 < 64" using extract32_less [of insn 10 3] by simp
  then show ?thesis
    using assms(3) opt unfolding disas_add_sub_ext_reg_def Let_def
    by (simp only: if_False, intro run_rules wp_ext_and_shift_reg wp_add_sub_result, unfold run_defs add_sub_outcome_def Let_def sf_def setflags_def)
      ((erule notE, assumption) | (intro conjI, ((rule wrote_names, assumption) | rule wrote_sp))?;
        simp (no_asm_simp) add: ops run_simps)+
qed

lemma add_sub_imm_run:
  fixes insn s m
  defines "setflags \<equiv> extract32 insn 29 1 = 1" and "shift \<equiv> extract32 insn 22 2"
  assumes "\<not> 1 < shift"
  shows "wp S (disas_add_sub_imm insn) (\<lambda>_ s' m'. add_sub_outcome m insn (\<not> setflags) (r64 m (X (extract32 insn 5 5)))
    (if shift = 1 then push_bit 12 (of_nat (extract32 insn 10 12)) else of_nat (extract32 insn 10 12)) m') s m"
  using assms(3) unfolding disas_add_sub_imm_def Let_def
    by (fold assms(1,2), simp only: if_False, intro run_rules, unfold run_defs add_sub_outcome_def Let_def setflags_def)
      ((erule notE, assumption) | (intro conjI, ((rule wrote_names, assumption) | rule wrote_sp))?;
        simp (no_asm_simp) add: ops run_simps)+

lemma wp_adc_later:
  assumes "old64 s a" and "old64 s b" and "old64 s d" and "flags_ok m"
    and "\<And>s' m'. later {d} s s' m m' \<Longrightarrow> same_flags m m' \<Longrightarrow>
      r64 m' d = fst (arith sf (r64 m a) (r64 m b) (flag_c (flags m))) \<Longrightarrow> Q () s' m'"
  shows "wp S (gen_adc sf d a b) Q s m"
  using assms(1-4)
  by (rule wp_adc) (rule assms(5), use assms(4) in
    \<open>auto simp: arith_def split_beta fst_add_with_carry same_flags_def intro: frame_later split: if_split\<close>)

lemma adc_sbc_run:
  fixes insn s m
  defines "sf \<equiv> extract32 insn 31 1 = 1" and "setflags \<equiv> extract32 insn 29 1 = 1"
  assumes "\<not> extract32 insn 10 6 \<noteq> 0" and ok: "flags_ok m"
  defines "r \<equiv> arith sf (zreg m (extract32 insn 5 5))
    (if extract32 insn 30 1 = 1 then NOT (zreg m (extract32 insn 16 5)) else zreg m (extract32 insn 16 5)) (flag_c (flags m))"
  shows "wp S (disas_adc_sbc insn) (\<lambda>_ s' m'. wrote m False (extract32 insn 0 5) (fst r) m' \<and>
    flags m' = (if setflags then snd r else flags m) \<and> flags_ok m') s m"
  using assms(3) ok unfolding disas_adc_sbc_def Let_def
  by (simp only: if_False, intro run_rules wp_adc_later, unfold run_defs Let_def sf_def setflags_def r_def)
      ((erule notE, assumption) | (intro conjI, ((rule wrote_names, assumption) | rule wrote_sp))?;
        simp (no_asm_simp) add: ops run_simps)+

end

declare One_nat_def [simp] if_split [split] if_weak_cong [cong]

section \<open>The properties\<close>

text \<open>C7: 
  \<open>ADD\<close>, \<open>ADDS\<close>, \<open>SUB\<close> and \<open>SUBS\<close> in their three forms follow the architecture's
  \<open>AddWithCarry\<close>: running the code of the instruction writes the sum with the second operand (shifted,
  extended or immediate; complemented, with carry in, for a subtraction) to the destination, zero
  extended in the 32-bit forms, sets the flags of the sum when asked to and keeps them otherwise, and
  changes no other register.
\<close>

theorem add_sub_architecture:
  assumes "tcg_semantics S"
    and reg: "extract32 reg 22 2 \<noteq> 3" "extract32 reg 31 1 = 1 \<or> extract32 reg 10 6 < 32"
    and ext: "extract32 ext 10 3 \<le> 4" and imm: "extract32 imm 22 2 \<le> 1"
  shows "runs_to S (disas_add_sub_reg reg) s m (add_sub_outcome m reg False (zreg m (extract32 reg 5 5))
      (shifted (extract32 reg 31 1 = 1) (shift_type_of (extract32 reg 22 2)) (extract32 reg 10 6) (zreg m (extract32 reg 16 5)))) \<and>
    runs_to S (disas_add_sub_ext_reg ext) s m (add_sub_outcome m ext (extract32 ext 29 1 \<noteq> 1) (r64 m (X (extract32 ext 5 5)))
      (extended (extract32 ext 13 3) (extract32 ext 10 3) (low_word (extract32 ext 31 1 = 1) (zreg m (extract32 ext 16 5))))) \<and>
    runs_to S (disas_add_sub_imm imm) s m (add_sub_outcome m imm (extract32 imm 29 1 \<noteq> 1) (r64 m (X (extract32 imm 5 5)))
      (if extract32 imm 22 2 = 1 then push_bit 12 (of_nat (extract32 imm 10 12)) else of_nat (extract32 imm 10 12)))"
  by (intro conjI wp_runs_to tcg_semantics.add_sub_reg_run [OF assms(1)] tcg_semantics.add_sub_ext_run [OF assms(1)]
      tcg_semantics.add_sub_imm_run [OF assms(1)]) (use reg ext imm in auto)

theorem add_sub_architecture_witness:
  "runs_to ref_sem (disas_add_sub_reg 0xeb02003f) dc0 cpu0 (add_sub_outcome cpu0 0xeb02003f False (zreg cpu0 (extract32 0xeb02003f 5 5))
      (shifted (extract32 0xeb02003f 31 1 = 1) (shift_type_of (extract32 0xeb02003f 22 2)) (extract32 0xeb02003f 10 6)
        (zreg cpu0 (extract32 0xeb02003f 16 5))))"
  by (rule conjunct1 [OF add_sub_architecture [OF ref.tcg_semantics_axioms, of "0xeb02003f" "0x8b22c3e1" "0x91000421"]])
    (simp_all add: extract32_def)

text \<open>C37: 
  \<open>ADC\<close>, \<open>ADCS\<close>, \<open>SBC\<close> and \<open>SBCS\<close> likewise, with the carry flag as carry in. The carry flag stays
  0 or 1, which the next addition with carry relies on.
\<close>

theorem adc_sbc_architecture:
  assumes "tcg_semantics S" and "extract32 insn 10 6 = 0" and "flags_ok m"
  shows "let r = arith (extract32 insn 31 1 = 1) (zreg m (extract32 insn 5 5))
      (if extract32 insn 30 1 = 1 then NOT (zreg m (extract32 insn 16 5)) else zreg m (extract32 insn 16 5)) (flag_c (flags m))
    in runs_to S (disas_adc_sbc insn) s m (\<lambda>m'. wrote m False (extract32 insn 0 5) (fst r) m' \<and>
      flags m' = (if extract32 insn 29 1 = 1 then snd r else flags m) \<and> flags_ok m')"
  unfolding Let_def using assms(2,3)
  by (intro wp_runs_to tcg_semantics.adc_sbc_run [OF assms(1)]) auto

theorem adc_sbc_architecture_witness:
  "let r = arith (extract32 0xfa030041 31 1 = 1) (zreg cpu0 (extract32 0xfa030041 5 5))
      (if extract32 0xfa030041 30 1 = 1 then NOT (zreg cpu0 (extract32 0xfa030041 16 5)) else zreg cpu0 (extract32 0xfa030041 16 5))
      (flag_c (flags cpu0))
    in runs_to ref_sem (disas_adc_sbc 0xfa030041) dc0 cpu0 (\<lambda>m'. wrote cpu0 False (extract32 0xfa030041 0 5) (fst r) m' \<and>
      flags m' = (if extract32 0xfa030041 29 1 = 1 then snd r else flags cpu0) \<and> flags_ok m')"
  by (rule adc_sbc_architecture [OF ref.tcg_semantics_axioms]) (simp_all add: extract32_def flags_ok_def cpu0_def)

end
