(* ===== verification/A64Logic.thy ===== *)
theory A64Logic
  imports A64AddSub A64Tidy
begin

text \<open>
  Logical instructions, conditional select and compare, and wide moves against the architecture.
\<close>

declare One_nat_def [simp del] if_split [split del] if_cong [cong]

section \<open>Logical operations\<close>

definition logic_value :: "nat \<Rightarrow> u64 \<Rightarrow> u64 \<Rightarrow> u64" where
  "logic_value opc x y = (if opc = 1 then x OR y else if opc = 2 then x XOR y else x AND y)"

definition logic_flags :: "bool \<Rightarrow> u64 \<Rightarrow> nzcv" where
  "logic_flags sf v = \<lparr>flag_n = bit v (if sf then 63 else 31), flag_z = (v = 0), flag_c = False, flag_v = False\<rparr>"

lemma low_logic:
  "low_word sf (x AND low_word sf y) = low_word sf (x AND y)"
  "low_word sf (x OR low_word sf y) = low_word sf (x OR y)"
  "low_word sf (x XOR low_word sf y) = low_word sf (x XOR y)"
  "low_word sf (NOT (low_word sf y)) = low_word sf (NOT y)"
  "low_word sf (x AND NOT (low_word sf y)) = low_word sf (x AND NOT y)"
  "low_word sf (x OR NOT (low_word sf y)) = low_word sf (x OR NOT y)"
  "low_word sf (NOT (x XOR low_word sf y)) = low_word sf (NOT (x XOR y))"
  by (cases sf; auto simp: low_word_def bit_simps intro!: bit_word_eqI)+

lemma low_zero: "low_word sf 0 = 0"
  by (simp add: low_word_def split: if_split)

lemma low_word_flags: "logic_flags sf (low_word sf v) =
  \<lparr>flag_n = bit v (if sf then 63 else 31), flag_z = (if sf then v = 0 else (ucast v :: u32) = 0), flag_c = False, flag_v = False\<rparr>"
proof -
  have "(ucast (ucast v :: u32) :: u64) = 0 \<longleftrightarrow> (ucast v :: u32) = 0"
    by (metis low_twice unsigned_0)
  then show ?thesis by (cases sf; simp add: logic_flags_def low_word_def bit_simps)
qed

lemma shifted_zero: "shifted sf t 0 v = low_word sf v"
  by (simp add: shifted_def low_word_def)

lemma logic_value_low:
  "low_word sf (logic_value opc x (low_word sf y)) = low_word sf (logic_value opc x y)"
  "low_word sf (logic_value opc x (NOT (low_word sf y))) = low_word sf (logic_value opc x (NOT y))"
  "logic_value 1 0 y = y"
  by (simp_all add: logic_value_def low_logic split: if_split)

lemma low_mask: "(if sf then w else w AND 0xffffffff) = low_word sf w"
proof -
  have "(0xffffffff :: u64) = mask 32" by (simp add: mask_eq_exp_minus_1)
  then have "w AND 0xffffffff = take_bit 32 w" by (simp only: take_bit_eq_mask)
  also have "take_bit 32 w = ucast (ucast w :: u32)" by (rule bit_word_eqI) (auto simp: bit_simps)
  finally show ?thesis by (simp add: low_word_def split: if_split)
qed

lemma and_low: "x AND low_word sf y = low_word sf (x AND y)"
  by (cases sf; auto simp: low_word_def bit_simps intro!: bit_word_eqI)

lemma zreg_31 [simp]: "zreg m 31 = 0"
  by (simp add: zreg_def)

lemmas logic_simps = and_low logic_value_low low_logic shifted_zero low_zero

context tcg_semantics
begin

lemma wp_logic_CC_later:
  assumes "\<And>s' m'. later {} s s' m m' \<Longrightarrow> flags_ok m' \<Longrightarrow> flags m' = logic_flags sf (low_word sf (r64 m a)) \<Longrightarrow> Q () s' m'"
  shows "wp S (gen_logic_CC sf a) Q s m"
  unfolding low_word_flags by (rule wp_logic_CC) (rule assms, auto simp: low_word_flags intro: frame_later)

lemma wp_logic_op:
  assumes "opc < 4" and "neg < 2" and "old64 s d"
    and Q: "\<And>s' m'. later {d} s s' m m' \<Longrightarrow> same_flags m m' \<Longrightarrow>
      r64 m' d = logic_value opc (r64 m a) (if neg = 1 then NOT (r64 m b) else r64 m b) \<Longrightarrow> Q () s' m'"
  shows "wp S (logic_op (opc + 4 * neg) d a b) Q s m"
proof -
  have "opc \<in> {0, 1, 2, 3}" "neg \<in> {0, 1}" using assms by auto
  then show ?thesis
    using assms(3)
    by (elim insertE emptyE; simp add: logic_op_def; intro wp exec1_running; intro Q;
        simp add: run_defs zreg_def ops logic_value_def)
qed

lemma wp_opt_shift:
  assumes "n < (if sf then 64 else 32)" and "old64 s d" and "low_word sf (r64 m d) = r64 m d"
    and "\<And>s' m'. later {d} s s' m m' \<Longrightarrow> same_flags m m' \<Longrightarrow> r64 m' d = shifted sf t n (r64 m d) \<Longrightarrow> Q () s' m'"
  shows "wp S (if n \<noteq> 0 then shift_reg_imm d d sf t n else skip) Q s m"
  using assms(1-3)
  by (cases "n = 0"; simp only: if_True if_False simp_thms; intro wp wp_shift_reg_imm assms(4))
    (simp_all add: run_defs shifted_zero)

lemma logic_reg_run:
  fixes insn s m
  defines "sf \<equiv> extract32 insn 31 1 = 1" and "opc \<equiv> extract32 insn 29 2" and "amount \<equiv> extract32 insn 10 6"
    and "neg \<equiv> extract32 insn 21 1"
  assumes "\<not> (\<not> sf \<and> bit amount 5)"
  defines "y \<equiv> shifted sf (shift_type_of (extract32 insn 22 2)) amount (zreg m (extract32 insn 16 5))"
  defines "v \<equiv> low_word sf (logic_value opc (zreg m (extract32 insn 5 5)) (if neg = 1 then NOT y else y))"
  shows "wp S (disas_logic_reg insn) (\<lambda>_ s' m'. wrote m False (extract32 insn 0 5) v m' \<and>
    flags m' = (if opc = 3 then logic_flags sf v else flags m) \<and> (flags_ok m \<longrightarrow> flags_ok m')) s m"
proof -
  have amount: "amount < (if sf then 64 else 32)"
    using assms(5) extract32_6 [of insn 10] below_bit5 [of amount] unfolding amount_def by (auto split: if_split)
  have less: "opc < 4" "neg < 2"
    using extract32_less [of insn 29 2] extract32_less [of insn 21 1] unfolding opc_def neg_def by simp_all
  show ?thesis
    using assms(5) amount less unfolding disas_logic_reg_def Let_def
    by (fold assms(1-4), simp only: if_False, intro wp_opt_shift run_rules wp_logic_op wp_logic_CC_later amount less,
        unfold run_defs v_def y_def)
      ((erule notE, assumption) | (intro conjI, ((rule wrote_names, assumption) | rule wrote_sp))?;
        simp (no_asm_simp) add: ops run_simps logic_simps)+
qed

lemma logic_imm_run:
  fixes insn s m
  defines "sf \<equiv> extract32 insn 31 1 = 1" and "opc \<equiv> extract32 insn 29 2"
  assumes "\<not> (\<not> sf \<and> extract32 insn 22 1 = 1)"
    and w: "logic_imm_decode_wmask (extract32 insn 22 1) (extract32 insn 10 6) (extract32 insn 16 6) = Wmask w"
  defines "v \<equiv> low_word sf (logic_value opc (zreg m (extract32 insn 5 5)) w)"
  shows "wp S (disas_logic_imm insn) (\<lambda>_ s' m'. wrote m (opc \<noteq> 3) (extract32 insn 0 5) v m' \<and>
    flags m' = (if opc = 3 then logic_flags sf v else flags m) \<and> (flags_ok m \<longrightarrow> flags_ok m')) s m"
proof -
  have "opc \<in> {0, 1, 2, 3}" using extract32_less [of insn 29 2] unfolding opc_def by auto
  then show ?thesis
    using assms(3) unfolding disas_logic_imm_def Let_def w wmask_result.case low_mask
    by (fold assms(1-2), simp only: if_False, elim insertE emptyE; simp add: logic_value_def v_def;
        intro run_rules wp_logic_CC_later; unfold run_defs)
      ((erule notE, assumption) | (intro conjI, ((rule wrote_names, assumption) | rule wrote_sp))?;
        simp (no_asm_simp) add: ops run_simps logic_simps)+
qed

end

declare One_nat_def [simp] if_split [split] if_weak_cong [cong]

end
