(* ===== verification/A64Cond.thy ===== *)
theory A64Cond
  imports A64Logic
begin

text \<open>
  Conditional select, wide moves, and the transfer of the flags against the architecture.
\<close>

declare One_nat_def [simp del] if_split [split del] if_cong [cong]

text \<open>The second operand: as it is, incremented, inverted or negated.\<close>

definition else_value :: "bool \<Rightarrow> bool \<Rightarrow> u64 \<Rightarrow> u64" where
  "else_value neg inc y = (if neg then if inc then - y else NOT y else if inc then y + 1 else y)"

definition select_value :: "u32 \<Rightarrow> cpu \<Rightarrow> u64" where
  "select_value insn m =
     (if arm_condition (extract32 insn 12 4) (flags m) then zreg m (extract32 insn 5 5)
      else else_value (extract32 insn 30 1 = 1) (extract32 insn 10 1 = 1) (zreg m (extract32 insn 16 5)))"

lemma else_zero:
  "inc \<noteq> neg \<Longrightarrow> else_value neg inc 0 = (if neg then - 1 else 1)"
  "(if neg then - of_bool (\<not> b) else of_bool (\<not> b)) = (if b then 0 else if neg then - 1 else (1 :: u64))"
  by (cases neg; cases inc; simp add: else_value_def) (cases neg; cases b; simp)

lemma flags_CcValue [simp]: "flags (set32 (CcValue k) v m) = flags m" "flags_ok (set32 (CcValue k) v m) = flags_ok m"
  by (simp_all add: flags_def flags_ok_def)

context tcg_semantics
begin

lemma wp_arm_test_cc:
  assumes "\<And>k s' m'. later {} s s' m m' \<Longrightarrow> same_flags m m' \<Longrightarrow> r32 m' (CcValue k) = cc_value S cc m \<Longrightarrow> Q (ArmCond cc, k) s' m'"
  shows "wp S (arm_test_cc cc) Q s m"
  unfolding arm_test_cc_def
  by (intro wp exec1_running; (rule assms)?; simp add: run_defs zreg_def ops add_op_def old64_def data_access_def)

lemma wp_prod: "wp S (f a b) Q s m \<Longrightarrow> wp S (case (a, b) of (x, y) \<Rightarrow> f x y) Q s m"
  by simp

lemma wp_a64_test_cc:
  assumes "\<And>t s' m'. later {} s s' m m' \<Longrightarrow> same_flags m m' \<Longrightarrow> fresh s s' t \<Longrightarrow>
    r64 m' t = scast (cc_value S cc m) \<Longrightarrow> Q (ArmCond cc, t) s' m'"
  shows "wp S (a64_test_cc cc) Q s m"
  unfolding a64_test_cc_def
  apply (intro wp_arm_test_cc wp_prod run_rules assms; unfold run_defs; simp (no_asm_simp) add: ops zreg_def)
  done

lemma wp_negate_if:
  assumes "old64 s d" and "\<And>s' m'. later {d} s s' m m' \<Longrightarrow> same_flags m m' \<Longrightarrow>
    r64 m' d = (if neg then - r64 m d else r64 m d) \<Longrightarrow> Q () s' m'"
  shows "wp S (if neg then emit (Un64 FNeg d d) else skip) Q s m"
  using assms(1) by (intro wp exec1_running; intro assms(2); simp add: run_defs zreg_def ops)

lemma wp_else_value:
  assumes "old64 s d" and "\<And>s' m'. later {d} s s' m m' \<Longrightarrow> same_flags m m' \<Longrightarrow>
    r64 m' d = else_value neg inc (r64 m d) \<Longrightarrow> Q () s' m'"
  shows "wp S (if neg \<and> inc then emit (Un64 FNeg d d) else if neg then emit (Un64 FNot d d)
     else if inc then emit (Bini64 FAdd d d 1) else skip) Q s m"
  using assms(1)
  by (cases neg; cases inc; simp only: simp_thms if_True if_False; intro wp exec1_running; intro assms(2);
      simp add: run_defs zreg_def ops else_value_def)

lemma cond_select_run:
  fixes insn s m
  defines "sf \<equiv> extract32 insn 31 1 = 1" and "neg \<equiv> extract32 insn 30 1 = 1" and "inc \<equiv> extract32 insn 10 1 = 1"
  assumes "\<not> (extract32 insn 29 1 = 1 \<or> extract32 insn 11 1 = 1)"
  shows "wp S (disas_cond_select insn) (\<lambda>_ s' m'.
    wrote m False (extract32 insn 0 5) (low_word sf (select_value insn m)) m' \<and> same_flags m m') s m"
  using assms(4) unfolding disas_cond_select_def Let_def a64_free_cc_def select_value_def
  by (fold assms(1-3), simp only: if_False, intro wp_negate_if wp_else_value run_rules wp_a64_test_cc,
      unfold run_defs Let_def)
    ((intro conjI, ((rule wrote_names, assumption) | rule wrote_sp))?;
      simp (no_asm_simp) add: ops run_simps conds else_zero)+

text \<open>\<open>MOVN\<close>, \<open>MOVZ\<close> and \<open>MOVK\<close>.\<close>

lemma movw_run:
  fixes insn s m
  defines "sf \<equiv> extract32 insn 31 1 = 1" and "opc \<equiv> extract32 insn 29 2" and "pos \<equiv> 16 * extract32 insn 21 2"
    and "imm \<equiv> of_nat (extract32 insn 5 16) :: u64"
  assumes "\<not> (\<not> sf \<and> 32 \<le> pos)" and "opc \<noteq> 1"
  shows "wp S (disas_movw_imm insn) (\<lambda>_ s' m'. wrote m False (extract32 insn 0 5)
    (low_word sf (if opc = 0 then NOT (push_bit pos imm) else if opc = 2 then push_bit pos imm
       else deposit pos 16 (zreg m (extract32 insn 0 5)) imm)) m' \<and> same_flags m m') s m"
proof -
  have opc: "opc \<in> {0, 2, 3}" using assms(6) extract32_less [of insn 29 2] unfolding opc_def by auto
  have pos: "pos + 16 \<le> 64" using extract32_less [of insn 21 2] unfolding pos_def by simp
  show ?thesis
    using assms(5) opc pos unfolding disas_movw_imm_def Let_def low_mask
    by (fold assms(1-4), simp only: if_False, elim insertE emptyE; simp only: simp_thms if_True if_False; simp;
        intro run_rules; unfold run_defs)
      ((intro conjI, ((rule wrote_names, assumption) | rule wrote_sp))?;
        simp (no_asm_simp) add: ops run_simps)+
qed

end

definition nzcv_word :: "nzcv \<Rightarrow> u32" where
  "nzcv_word f = push_bit 31 (of_bool (flag_n f)) OR push_bit 30 (of_bool (flag_z f)) OR
     push_bit 29 (of_bool (flag_c f)) OR push_bit 28 (of_bool (flag_v f))"

definition word_nzcv :: "u32 \<Rightarrow> nzcv" where
  "word_nzcv w = \<lparr>flag_n = bit w 31, flag_z = bit w 30, flag_c = bit w 29, flag_v = bit w 28\<rparr>"

lemma word_nzcv_word: "word_nzcv (nzcv_word f) = f"
  by (cases f) (simp add: word_nzcv_def nzcv_word_def bit_simps)

lemma bit_deposit:
  "bit (deposit p l x y) k \<longleftrightarrow> k < LENGTH('a) \<and> (if p \<le> k \<and> k < p + l then bit y (k - p) else bit x k)"
  for x y :: "'a::len word"
  by (auto simp: deposit_def bit_simps split: if_split)

lemma and_one_bit:
  fixes w :: u32
  shows "w AND 2147483648 = push_bit 31 (of_bool (bit w 31))" "w AND 1073741824 = push_bit 30 (of_bool (bit w 30))"
    "w AND 536870912 = push_bit 29 (of_bool (bit w 29))" "w AND 268435456 = push_bit 28 (of_bool (bit w 28))"
proof -
  have "w AND push_bit n 1 = push_bit n (of_bool (bit w n))" for n
    by (rule bit_word_eqI) (auto simp: bit_simps)
  from this [of 31] this [of 30] this [of 29] this [of 28]
  show "w AND 2147483648 = push_bit 31 (of_bool (bit w 31))" "w AND 1073741824 = push_bit 30 (of_bool (bit w 30))"
    "w AND 536870912 = push_bit 29 (of_bool (bit w 29))" "w AND 268435456 = push_bit 28 (of_bool (bit w 28))"
    by simp_all
qed

lemma drop_push_bit: "drop_bit n (push_bit n (of_bool b)) = (of_bool (b \<and> n < LENGTH('a)) :: 'a::len word)"
  by (rule bit_word_eqI) (auto simp: bit_simps)

lemma bit_nzcv_word:
  "bit (nzcv_word f) k \<longleftrightarrow> k = 31 \<and> flag_n f \<or> k = 30 \<and> flag_z f \<or> k = 29 \<and> flag_c f \<or> k = 28 \<and> flag_v f"
  by (auto simp: nzcv_word_def bit_simps)

lemma word_nzcv_masks: "(ucast (nzcv_word (word_nzcv (ucast v))) :: u64) = v AND 0xf0000000"
proof -
  have "(0xf0000000 :: u64) = push_bit 28 (mask 4)" by code_simp
  then have eq: "v AND 0xf0000000 = v AND push_bit 28 (mask 4)" by (rule arg_cong)
  have "bit (push_bit 28 (mask 4) :: u64) k \<longleftrightarrow> k = 28 \<or> k = 29 \<or> k = 30 \<or> k = 31" for k
    by (simp add: bit_simps) linarith
  then show ?thesis
    unfolding eq by (intro bit_word_eqI) (auto simp: bit_nzcv_word word_nzcv_def bit_unsigned_iff bit_and_iff)
qed

lemma nzcv_deposits:
  assumes "c \<le> 1"
  shows "deposit 28 1 (deposit 29 1 (deposit 30 1 (push_bit 31 (of_bool n)) (of_bool z)) c) (drop_bit 31 w) =
    nzcv_word \<lparr>flag_n = n, flag_z = z, flag_c = (c \<noteq> 0), flag_v = bit w 31\<rparr>"
proof -
  from assms have "c = of_bool (c \<noteq> 0)" by (auto simp: word_le_one)
  then obtain b where c: "c = of_bool b" by blast
  show ?thesis
    unfolding c by (rule bit_word_eqI) (auto simp: bit_deposit nzcv_word_def bit_simps split: if_split)
qed

context tcg_semantics
begin

lemma wp_get_nzcv:
  assumes "flags_ok m" and Q: "\<And>s' m'. later {rt} s s' m m' \<Longrightarrow> same_flags m m' \<Longrightarrow> r64 m' rt = ucast (nzcv_word (flags m)) \<Longrightarrow> Q () s' m'"
  shows "wp S (gen_get_nzcv rt) Q s m"
  using assms(1) unfolding gen_get_nzcv_def
  by (intro wp exec1_running; intro Q;
      simp add: run_defs zreg_def ops conds fn2_defined_def nzcv_deposits and_one_bit flags_def flags_ok_def)

lemma wp_set_nzcv:
  assumes Q: "\<And>s' m'. later {} s s' m m' \<Longrightarrow> flags_ok m' \<Longrightarrow> flags m' = word_nzcv (ucast (r64 m rt)) \<Longrightarrow> Q () s' m'"
  shows "wp S (gen_set_nzcv rt) Q s m"
  unfolding gen_set_nzcv_def
  by (intro wp exec1_running; intro Q;
      simp add: run_defs zreg_def ops conds fn2_defined_def and_one_bit flags_def flags_ok_def word_nzcv_def bit_simps
        drop_push_bit)

end

section \<open>Conditional compare\<close>

lemma zreg_set [simp]:
  "zreg (set64 d v m) n = (if n \<noteq> 31 \<and> X n = d then v else zreg m n)" "zreg (set32 e w m) n = zreg m n"
  by (auto simp: zreg_def split: if_split)

definition compare_operand :: "u32 \<Rightarrow> cpu \<Rightarrow> u64" where
  "compare_operand insn m =
     (if extract32 insn 11 1 = 1 then of_nat (extract32 insn 16 5) else zreg m (extract32 insn 16 5))"

definition imm_nzcv :: "nat \<Rightarrow> nzcv" where
  "imm_nzcv k = \<lparr>flag_n = bit k 3, flag_z = bit k 2, flag_c = bit k 1, flag_v = bit k 0\<rparr>"

context tcg_semantics
begin

lemma wp_temp32:
  assumes "\<And>j s'. \<forall>x. old64 s x \<longrightarrow> old64 s' x \<Longrightarrow> dc_pc s' = dc_pc s \<Longrightarrow> data_access s' = data_access s \<Longrightarrow> j < next_i32 s' \<Longrightarrow>
    \<forall>k. k < next_i32 s \<longrightarrow> k < next_i32 s' \<and> (k = j) = False \<and> (j = k) = False \<Longrightarrow> Q (T32 j) s' m"
  shows "wp S tcg_temp_new_i32 Q s m"
  by (intro wp; rule assms; simp)

text \<open>One flag: kept when the condition holds, forced to the bit of the immediate otherwise.\<close>

lemma wp_clear_flag:
  assumes "r32 m (T32 b) = - of_bool (\<not> c)" "r32 m (T32 d) = of_bool (\<not> c) - 1"
    and Q: "\<And>s'. \<forall>x. old64 s x \<longrightarrow> old64 s' x \<Longrightarrow> dc_pc s' = dc_pc s \<Longrightarrow> data_access s' = data_access s \<Longrightarrow> next_i32 s' = next_i32 s \<Longrightarrow>
      Q () s' (set32 f (if c then r32 m f else 0) m)"
  shows "wp S (clear_flag f (T32 b) (T32 d)) Q s m"
proof -
  have "step S (Bin32 FAndc f f (T32 b)) m = set32 f (if c then r32 m f else 0) m"
    "step S (Bin32 FAnd f f (T32 d)) m = set32 f (if c then r32 m f else 0) m"
    using assms(1,2) by (cases c; simp add: ops)+
  then show ?thesis
    unfolding clear_flag_def by (intro wp exec1_running; simp only:; intro Q; simp)
qed

lemma wp_or_flag:
  assumes "r32 m (T32 b) = (if c then 0 else v)"
    and Q: "\<And>s'. \<forall>x. old64 s x \<longrightarrow> old64 s' x \<Longrightarrow> dc_pc s' = dc_pc s \<Longrightarrow> data_access s' = data_access s \<Longrightarrow> next_i32 s' = next_i32 s \<Longrightarrow>
      Q () s' (set32 f (if c then r32 m f else r32 m f OR v) m)"
  shows "wp S (emit (Bin32 FOr f f (T32 b))) Q s m"
proof -
  have "step S (Bin32 FOr f f (T32 b)) m = set32 f (if c then r32 m f else r32 m f OR v) m"
    using assms(1) by (cases c; simp add: ops)
  then show ?thesis by (intro wp exec1_running; simp only:; intro Q; simp)
qed

text \<open>The values of the masks, kept by what sets a flag.\<close>

definition masks_hold :: "bool \<Rightarrow> nat \<Rightarrow> nat \<Rightarrow> nat \<Rightarrow> cpu \<Rightarrow> bool" where
  "masks_hold c a b d m \<longleftrightarrow> r32 m (T32 a) = (if c then 0 else 1) \<and> r32 m (T32 b) = - of_bool (\<not> c) \<and>
     r32 m (T32 d) = of_bool (\<not> c) - 1"

lemma wp_set_or_clear:
  assumes t: "masks_hold c a b d m"
    and Q: "\<And>s'. \<forall>x. old64 s x \<longrightarrow> old64 s' x \<Longrightarrow> dc_pc s' = dc_pc s \<Longrightarrow> data_access s' = data_access s \<Longrightarrow> next_i32 s' = next_i32 s \<Longrightarrow>
      Q () s' (set32 f (if c then r32 m f else if \<beta> then -1 else 0) m)"
  shows "wp S (if \<beta> then emit (Bin32 FOr f f (T32 b)) else clear_flag f (T32 b) (T32 d)) Q s m"
proof -
  have set: "step S (Bin32 FOr f f (T32 b)) m = set32 f (if c then r32 m f else - 1) m"
    using t by (cases c; simp add: ops masks_hold_def)
  have clear: "r32 m (T32 b) = - of_bool (\<not> c)" "r32 m (T32 d) = of_bool (\<not> c) - 1"
    using t by (simp_all add: masks_hold_def)
  show ?thesis
  proof (cases \<beta>)
    case True
    with Q show ?thesis by (simp only: if_True) (intro wp exec1_running; simp only: set; simp)
  next
    case False
    with Q show ?thesis by (simp only: if_False) (rule wp_clear_flag [OF clear]; simp)
  qed
qed

lemma wp_clear_or_one:
  assumes t: "masks_hold c a b d m"
    and Q: "\<And>s'. \<forall>x. old64 s x \<longrightarrow> old64 s' x \<Longrightarrow> dc_pc s' = dc_pc s \<Longrightarrow> data_access s' = data_access s \<Longrightarrow> next_i32 s' = next_i32 s \<Longrightarrow>
      Q () s' (set32 f (if c then r32 m f else if \<beta> then 0 else r32 m f OR 1) m)"
  shows "wp S (if \<beta> then clear_flag f (T32 b) (T32 d) else emit (Bin32 FOr f f (T32 a))) Q s m"
    and "wp S (if \<not> \<beta> then emit (Bin32 FOr f f (T32 a)) else clear_flag f (T32 b) (T32 d)) Q s m"
proof -
  have one: "r32 m (T32 a) = (if c then 0 else 1)"
    and clear: "r32 m (T32 b) = - of_bool (\<not> c)" "r32 m (T32 d) = of_bool (\<not> c) - 1"
    using t by (simp_all add: masks_hold_def)
  show *: "wp S (if \<beta> then clear_flag f (T32 b) (T32 d) else emit (Bin32 FOr f f (T32 a))) Q s m"
  proof (cases \<beta>)
    case True
    with Q show ?thesis by (simp only: if_True) (rule wp_clear_flag [OF clear]; simp)
  next
    case False
    with Q show ?thesis by (simp only: if_False) (rule wp_or_flag [OF one]; simp)
  qed
  show "wp S (if \<not> \<beta> then emit (Bin32 FOr f f (T32 a)) else clear_flag f (T32 b) (T32 d)) Q s m"
    using * by (cases \<beta>; simp)
qed

lemma masks_hold_set [simp]:
  "masks_hold c a b d (set32 NF v m) = masks_hold c a b d m" "masks_hold c a b d (set32 ZF v m) = masks_hold c a b d m"
  "masks_hold c a b d (set32 CF v m) = masks_hold c a b d m" "masks_hold c a b d (set32 VF v m) = masks_hold c a b d m"
  by (simp_all add: masks_hold_def)

lemma or_one_nonzero: "w OR 1 \<noteq> (0 :: u32)"
proof
  assume "w OR 1 = 0"
  then have "bit (w OR 1) 0 = bit (0 :: u32) 0" by simp
  then show False by (simp add: bit_or_iff)
qed

lemma wp_force_flags:
  assumes t: "masks_hold c a b d m" and ok: "flags_ok m"
    and Q: "\<And>s' m'. later {} s s' m m' \<Longrightarrow> flags_ok m' \<Longrightarrow> flags m' = (if c then flags m else imm_nzcv k) \<Longrightarrow> Q () s' m'"
  shows "wp S (force_flags k (T32 a) (T32 b) (T32 d)) Q s m"
proof -
  have fs: "force_flags k (T32 a) (T32 b) (T32 d) = do {
     (if bit k 3 then emit (Bin32 FOr NF NF (T32 b)) else clear_flag NF (T32 b) (T32 d));
     (if bit k 2 then clear_flag ZF (T32 b) (T32 d) else emit (Bin32 FOr ZF ZF (T32 a)));
     (if \<not> (\<not> bit k 1) then emit (Bin32 FOr CF CF (T32 a)) else clear_flag CF (T32 b) (T32 d));
     (if bit k 0 then emit (Bin32 FOr VF VF (T32 b)) else clear_flag VF (T32 b) (T32 d)) }"
    by (simp add: force_flags_def)
  from ok have cf: "r32 m CF = 0 \<or> r32 m CF = 1" by (simp add: flags_ok_def word_le_one)
  then show ?thesis
    using t unfolding fs
    by (elim disjE; intro wp_bind wp_set_or_clear [where c = c and a = a and b = b] wp_clear_or_one [where c = c and a = a]; (intro Q)?;
      simp add: run_defs zreg_def flags_def flags_ok_def imm_nzcv_def or_one_nonzero split: if_split)
qed

lemma cond_compare_run:
  fixes insn s m
  defines "sf \<equiv> extract32 insn 31 1 = 1" and "sub \<equiv> extract32 insn 30 1 = 1"
  assumes "\<not> extract32 insn 29 1 = 0" and "\<not> (bit insn 10 \<or> bit insn 4)"
  defines "y \<equiv> compare_operand insn m"
  shows "wp S (disas_cc insn) (\<lambda>_ s' m'. (\<forall>k. r64 m' (X k) = r64 m (X k)) \<and> r64 m' PC = r64 m PC \<and>
    beyond m' = beyond m \<and> flags_ok m' \<and>
    flags m' = (if arm_condition (extract32 insn 12 4) (flags m)
      then snd (arith sf (zreg m (extract32 insn 5 5)) (if sub then NOT y else y) sub)
      else imm_nzcv (extract32 insn 0 4))) s m"
  using assms(3,4) unfolding disas_cc_def Let_def
  by (fold assms(1,2), simp only: if_False, intro wp_new_tmp wp_temp32 run_rules wp_arm_test_cc wp_prod
      wp_force_flags [where c = "arm_condition (extract32 insn 12 4) (flags m)"],
      unfold run_defs masks_hold_def y_def compare_operand_def)
    (simp (no_asm_simp) add: ops run_simps conds)+

end

declare One_nat_def [simp] if_split [split] if_weak_cong [cong]

section \<open>The properties\<close>

text \<open>C29: 
  Reading the flags into a register by \<open>MRS\<close> and writing them back by \<open>MSR\<close> restores them; writing
  a register to the flags and reading it back gives the four bits at 31 to 28 of its value.
\<close>

theorem nzcv_round_trip:
  assumes "tcg_semantics S" and "flags_ok m"
  shows "runs_to S (do { gen_get_nzcv (X n); gen_set_nzcv (X n) }) s m
      (\<lambda>m'. flags m' = flags m \<and> flags_ok m' \<and> r64 m' (X n) = ucast (nzcv_word (flags m))) \<and>
    runs_to S (do { gen_set_nzcv (X n); gen_get_nzcv (X n) }) s m
      (\<lambda>m'. r64 m' (X n) = r64 m (X n) AND 0xf0000000 \<and> flags m' = word_nzcv (ucast (r64 m (X n))))"
  by (intro conjI wp_runs_to wp_bind tcg_semantics.wp_get_nzcv [OF assms(1)] tcg_semantics.wp_set_nzcv [OF assms(1)] assms(2);
      simp add: run_defs word_nzcv_word word_nzcv_masks)

theorem nzcv_round_trip_witness:
  "runs_to ref_sem (do { gen_get_nzcv (X 3); gen_set_nzcv (X 3) }) dc0 cpu0
      (\<lambda>m'. flags m' = flags cpu0 \<and> flags_ok m' \<and> r64 m' (X 3) = ucast (nzcv_word (flags cpu0)))"
  by (rule conjunct1 [OF nzcv_round_trip [OF ref.tcg_semantics_axioms]]) (simp add: flags_ok_def cpu0_def)

text \<open>
  The logical instructions, on registers with a shifted and possibly inverted second operand or with
  an immediate: the value of the destination, and for \<open>ANDS\<close> and \<open>BICS\<close> the flags N and Z of the
  result with C and V cleared.
\<close>

theorem logical_architecture:
  assumes "tcg_semantics S"
    and reg: "extract32 reg 31 1 = 1 \<or> \<not> bit (extract32 reg 10 6) 5"
    and imm: "extract32 imm 31 1 = 1 \<or> extract32 imm 22 1 \<noteq> 1"
      "logic_imm_decode_wmask (extract32 imm 22 1) (extract32 imm 10 6) (extract32 imm 16 6) = Wmask w"
  shows "(let sf = (extract32 reg 31 1 = 1); opc = extract32 reg 29 2;
      y = shifted sf (shift_type_of (extract32 reg 22 2)) (extract32 reg 10 6) (zreg m (extract32 reg 16 5));
      v = low_word sf (logic_value opc (zreg m (extract32 reg 5 5)) (if extract32 reg 21 1 = 1 then NOT y else y))
    in runs_to S (disas_logic_reg reg) s m (\<lambda>m'. wrote m False (extract32 reg 0 5) v m' \<and>
      flags m' = (if opc = 3 then logic_flags sf v else flags m) \<and> (flags_ok m \<longrightarrow> flags_ok m'))) \<and>
    (let sf = (extract32 imm 31 1 = 1); opc = extract32 imm 29 2;
      v = low_word sf (logic_value opc (zreg m (extract32 imm 5 5)) w)
    in runs_to S (disas_logic_imm imm) s m (\<lambda>m'. wrote m (opc \<noteq> 3) (extract32 imm 0 5) v m' \<and>
      flags m' = (if opc = 3 then logic_flags sf v else flags m) \<and> (flags_ok m \<longrightarrow> flags_ok m')))"
  unfolding Let_def
  apply (rule conjI, rule wp_runs_to, rule tcg_semantics.logic_reg_run [OF assms(1)])
  using reg apply blast
   apply (rule wp_runs_to, rule tcg_semantics.logic_imm_run [OF assms(1)])
  using imm by blast+

theorem logical_architecture_witness:
  "let sf = (extract32 0x92401c20 31 1 = 1); opc = extract32 0x92401c20 29 2;
      v = low_word sf (logic_value opc (zreg cpu0 (extract32 0x92401c20 5 5)) 0xff)
    in runs_to ref_sem (disas_logic_imm 0x92401c20) dc0 cpu0 (\<lambda>m'. wrote cpu0 (opc \<noteq> 3) (extract32 0x92401c20 0 5) v m' \<and>
      flags m' = (if opc = 3 then logic_flags sf v else flags cpu0) \<and> (flags_ok cpu0 \<longrightarrow> flags_ok m'))"
proof -
  have "extract32 0x92401c20 22 1 = 1" "extract32 0x92401c20 10 6 = 7" "extract32 0x92401c20 16 6 = 0" by code_simp+
  moreover have "top_bit 120 = 6" using top_bit_eq [of 6 120] by simp
  ultimately have "logic_imm_decode_wmask (extract32 0x92401c20 22 1) (extract32 0x92401c20 10 6) (extract32 0x92401c20 16 6) = Wmask 0xff"
    by (simp add: logic_imm_decode_wmask_def bitmask64_bit bitfield_replicate_def replicate_loop.simps mask_eq_exp_minus_1)
  moreover have "extract32 0x8a020020 31 1 = 1" "extract32 0x92401c20 31 1 = 1" by code_simp+
  ultimately show ?thesis
    by (intro conjunct2 [OF logical_architecture [OF ref.tcg_semantics_axioms, of "0x8a020020"]]) simp_all
qed

text \<open>C32: 
  Conditional select with its increment, inversion and negation, the conditional compares, and the
  wide moves. A conditional compare sets the flags of the comparison when its condition holds and
  to its immediate otherwise, and changes no register.
\<close>

theorem conditional_architecture:
  assumes "tcg_semantics S"
    and sel: "extract32 sel 29 1 \<noteq> 1" "extract32 sel 11 1 \<noteq> 1"
    and cmp: "extract32 cmp 29 1 \<noteq> 0" "\<not> bit cmp 10" "\<not> bit cmp 4"
  shows "runs_to S (disas_cond_select sel) s m (\<lambda>m'. wrote m False (extract32 sel 0 5)
      (low_word (extract32 sel 31 1 = 1) (select_value sel m)) m' \<and> same_flags m m') \<and>
    (let sub = (extract32 cmp 30 1 = 1); y = compare_operand cmp m
     in runs_to S (disas_cc cmp) s m (\<lambda>m'. (\<forall>k. r64 m' (X k) = r64 m (X k)) \<and> r64 m' PC = r64 m PC \<and>
       beyond m' = beyond m \<and> flags_ok m' \<and>
       flags m' = (if arm_condition (extract32 cmp 12 4) (flags m)
         then snd (arith (extract32 cmp 31 1 = 1) (zreg m (extract32 cmp 5 5)) (if sub then NOT y else y) sub)
         else imm_nzcv (extract32 cmp 0 4))))"
  unfolding Let_def
  apply (rule conjI, rule wp_runs_to, rule tcg_semantics.cond_select_run [OF assms(1)])
  using sel apply blast
   apply (rule wp_runs_to, rule tcg_semantics.cond_compare_run [OF assms(1)])
  using cmp by blast+

theorem conditional_architecture_witness:
  "runs_to ref_sem (disas_cond_select 0x9a821420) dc0 cpu0 (\<lambda>m'. wrote cpu0 False (extract32 0x9a821420 0 5)
      (low_word (extract32 0x9a821420 31 1 = 1) (select_value 0x9a821420 cpu0)) m' \<and> same_flags cpu0 m')"
proof -
  have "extract32 0x9a821420 29 1 \<noteq> 1" "extract32 0x9a821420 11 1 \<noteq> 1" "extract32 0xfa421024 29 1 \<noteq> 0"
    "\<not> bit (0xfa421024 :: u32) 10" "\<not> bit (0xfa421024 :: u32) 4" by code_simp+
  from conjunct1 [OF conditional_architecture [OF ref.tcg_semantics_axioms this]] show ?thesis .
qed

text \<open>\<open>MOVN\<close>, \<open>MOVZ\<close> and \<open>MOVK\<close> write the inverse of the shifted immediate, the shifted immediate, or the
  register with the immediate in place of its sixteen bits.\<close>

theorem wide_move_architecture:
  assumes "tcg_semantics S" and "extract32 insn 31 1 = 1 \<or> extract32 insn 21 2 < 2" and "extract32 insn 29 2 \<noteq> 1"
  shows "let pos = 16 * extract32 insn 21 2; imm = of_nat (extract32 insn 5 16) :: u64; opc = extract32 insn 29 2
    in runs_to S (disas_movw_imm insn) s m (\<lambda>m'. wrote m False (extract32 insn 0 5)
      (low_word (extract32 insn 31 1 = 1) (if opc = 0 then NOT (push_bit pos imm) else if opc = 2 then push_bit pos imm
         else deposit pos 16 (zreg m (extract32 insn 0 5)) imm)) m' \<and> same_flags m m')"
  unfolding Let_def
  by (intro wp_runs_to tcg_semantics.movw_run [OF assms(1)]) (use assms(2,3) in auto)

theorem wide_move_architecture_witness:
  "let pos = 16 * extract32 0xf2a00041 21 2; imm = of_nat (extract32 0xf2a00041 5 16) :: u64; opc = extract32 0xf2a00041 29 2
    in runs_to ref_sem (disas_movw_imm 0xf2a00041) dc0 cpu0 (\<lambda>m'. wrote cpu0 False (extract32 0xf2a00041 0 5)
      (low_word (extract32 0xf2a00041 31 1 = 1) (if opc = 0 then NOT (push_bit pos imm) else if opc = 2 then push_bit pos imm
         else deposit pos 16 (zreg cpu0 (extract32 0xf2a00041 0 5)) imm)) m' \<and> same_flags cpu0 m')"
proof -
  have "extract32 0xf2a00041 31 1 = 1 \<or> extract32 0xf2a00041 21 2 < 2" "extract32 0xf2a00041 29 2 \<noteq> 1" by code_simp+
  then show ?thesis by (rule wide_move_architecture [OF ref.tcg_semantics_axioms])
qed

end
