(* ===== verification/A64Bits.thy ===== *)
theory A64Bits
  imports A64Cond
begin

text \<open>
  Bit field moves, extracts, reversals, multiplications, divisions and variable shifts against the
  architecture.
\<close>

section \<open>Bit fields\<close>

text \<open>Bit \<open>k\<close> of the result of \<open>SBFM\<close> (0), \<open>BFM\<close> (1) or \<open>UBFM\<close> (2): the field of the source from bit \<open>r\<close>
  or bit 0 up to bit \<open>s\<close>, placed at bit 0 or at \<open>N - r\<close>; around it the old value, zeros, or copies of
  bit \<open>s\<close> above.\<close>

definition field_bit :: "bool \<Rightarrow> nat \<Rightarrow> nat \<Rightarrow> nat \<Rightarrow> u64 \<Rightarrow> u64 \<Rightarrow> nat \<Rightarrow> bool" where
  "field_bit sf opc r s old v k =
     (let size' = (if sf then 64 else 32);
          pos = (if r \<le> s then 0 else size' - r);
          start = (if r \<le> s then r else 0);
          len = s - start + 1
      in k < size' \<and>
         (if pos \<le> k \<and> k < pos + len then bit v (k - pos + start)
          else if opc = 1 then bit old k
          else opc = 0 \<and> pos + len \<le> k \<and> bit v s))"

definition field_value :: "bool \<Rightarrow> nat \<Rightarrow> nat \<Rightarrow> nat \<Rightarrow> u64 \<Rightarrow> u64 \<Rightarrow> u64" where
  "field_value sf opc r s old v = horner_sum of_bool 2 (map (field_bit sf opc r s old v) [0..<64])"

lemma bit_field_value: "bit (field_value sf opc r s old v) k = (k < 64 \<and> field_bit sf opc r s old v k)"
  by (auto simp: field_value_def bit_horner_sum_bit_word_iff)

lemma field_valueI:
  assumes "\<And>k. k < 64 \<Longrightarrow> bit (w :: u64) k = field_bit sf opc r s old v k"
  shows "w = field_value sf opc r s old v"
  by (rule bit_word_eqI) (simp add: bit_field_value assms)

lemma bit_low_word: "bit (low_word sf w) k \<longleftrightarrow> (sf \<or> k < 32) \<and> bit w k"
  by (auto simp: low_word_def bit_simps split: if_split)

lemma sign_extend_bits:
  fixes d :: u64
  assumes "0 < p" and "p \<le> 64" and "k < 64"
  shows "bit (signed_drop_bit (64 - p) (push_bit (64 - p) d)) k = bit d (if p \<le> k then p - 1 else k)"
  using assms by (auto simp: bit_signed_drop_bit_iff bit_push_bit_iff split: if_split)

lemma move_value:
  fixes old v :: u64 and ri si opc :: nat
  assumes "ri < (if sf then 64 else 32)" and "si < (if sf then 64 else 32)" and "opc \<le> 2"
  defines "pos \<equiv> if ri \<le> si then 0 else (if sf then 64 else 32) - ri" and "len \<equiv> if ri \<le> si then si - ri + 1 else si + 1"
  defines "d \<equiv> deposit pos len (if opc = 1 then old else 0) (if ri \<le> si then drop_bit ri v else v)"
  shows "low_word sf (if opc = 0 then signed_drop_bit (64 - (pos + len)) (push_bit (64 - (pos + len)) d) else d) =
    field_value sf opc ri si old v"
proof (rule field_valueI)
  fix k :: nat assume k: "k < 64"
  let ?start = "if ri \<le> si then ri else 0"
  have d: "bit d k = (if pos \<le> k \<and> k < pos + len then bit v (k - pos + ?start) else opc = 1 \<and> bit old k)" if "k < 64" for k
    using that unfolding d_def by (auto simp: bit_deposit bit_drop_bit_eq ac_simps split: if_split)
  have p: "0 < pos + len" "pos + len \<le> 64" and len: "len = si - ?start + 1"
    using assms(1,2) unfolding pos_def len_def by (auto split: if_splits)
  have top: "bit d (pos + len - 1) = bit v si"
    using d [of "pos + len - 1"] p len by (auto split: if_splits)
  have "bit (low_word sf (if opc = 0 then signed_drop_bit (64 - (pos + len)) (push_bit (64 - (pos + len)) d) else d)) k \<longleftrightarrow>
      (sf \<or> k < 32) \<and> (if opc = 0 \<and> pos + len \<le> k then bit v si else bit d k)"
    using sign_extend_bits [OF p k, of d] top by (auto simp: bit_low_word split: if_splits)
  also have "\<dots> = field_bit sf opc ri si old v k"
    using k unfolding d [OF k] field_bit_def Let_def by (auto simp: len simp flip: pos_def split: if_split)
  finally show "bit (low_word sf (if opc = 0 then signed_drop_bit (64 - (pos + len)) (push_bit (64 - (pos + len)) d) else d)) k =
      field_bit sf opc ri si old v k" .
qed

text \<open>The forms the decoder emits for the named cases.\<close>

lemma extend_bits:
  fixes v :: u64
  assumes "k < 64"
  shows "bit (scast (ucast v :: u8) :: u64) k = bit v (if 7 \<le> k then 7 else k)"
    and "bit (scast (ucast v :: u16) :: u64) k = bit v (if 15 \<le> k then 15 else k)"
    and "bit (scast (ucast v :: u32) :: u64) k = bit v (if 31 \<le> k then 31 else k)"
  using assms by (auto simp: bit_signed_iff bit_unsigned_iff min_def not_le split: if_split)

lemma asr_bits:
  fixes v :: u64
  assumes "k < 64" and "ri < 64"
  shows "bit (signed_drop_bit ri v) k = bit v (if 63 \<le> k + ri then 63 else k + ri)"
proof -
  have "bit (signed_drop_bit ri v) k = bit v (if 64 - ri \<le> k \<and> k < 64 then 63 else ri + k)"
    by (simp only: bit_signed_drop_bit_iff) simp
  moreover have "(if 64 - ri \<le> k \<and> k < 64 then 63 else ri + k) = (if 63 \<le> k + ri then 63 else k + ri)"
    using assms by (auto split: if_split)
  ultimately show ?thesis by simp
qed

lemma lsr_bits:
  fixes v :: u64
  shows "bit (drop_bit ri v) k \<longleftrightarrow> k + ri < 64 \<and> bit v (k + ri)"
    and "bit (drop_bit ri (ucast (ucast v :: u32) :: u64)) k \<longleftrightarrow> k + ri < 32 \<and> bit v (k + ri)"
  by (auto simp: bit_simps ac_simps dest: bit_imp_le_length)

lemma between_eq: "n \<le> k \<Longrightarrow> k < Suc n \<Longrightarrow> k = n"
  by simp

lemma extend_value:
  assumes "0 < p" and "p < 64" and "sf \<or> p < 32"
    and "\<And>k. k < 64 \<Longrightarrow> bit (w :: u64) k = bit v (if p \<le> k then p else k)"
  shows "low_word sf w = field_value sf 0 0 p old v"
proof (rule field_valueI)
  fix k :: nat assume k: "k < 64"
  consider "k < p" | "k = p" | "p < k" by linarith
  then show "bit (low_word sf w) k = field_bit sf 0 0 p old v k"
    using assms k by cases (auto simp: bit_low_word field_bit_def)
qed

lemma asr_value:
  assumes "ri \<le> p" and "p < 64" and "sf \<or> p < 32"
    and "\<And>k. k < 64 \<Longrightarrow> bit (w :: u64) k = bit v (if p \<le> k + ri then p else k + ri)"
  shows "low_word sf w = field_value sf 0 ri p old v"
proof (rule field_valueI)
  fix k :: nat assume k: "k < 64"
  consider "k + ri < p" | "k + ri = p" | "p < k + ri" by linarith
  then show "bit (low_word sf w) k = field_bit sf 0 ri p old v k"
    using assms k by cases (auto simp: bit_low_word field_bit_def)
qed

lemma extend_values:
  "low_word sf (scast (ucast v :: u8)) = field_value sf 0 0 7 old v"
  "low_word sf (scast (ucast v :: u16)) = field_value sf 0 0 15 old v"
  "low_word sf (scast (ucast v :: u32)) = field_value sf 0 0 31 old v"
  by (rule extend_value; simp add: extend_bits)+

lemma asr_values:
  "ri < 64 \<Longrightarrow> sf \<Longrightarrow> low_word sf (signed_drop_bit ri v) = field_value sf 0 ri 63 old v"
  "ri \<le> 31 \<Longrightarrow> low_word sf (signed_drop_bit ri (scast (ucast v :: u32))) = field_value sf 0 ri 31 old v"
  by (rule asr_value; auto simp: asr_bits extend_bits split: if_splits)+

lemmas bit_field_forms = extend_values asr_values extend_values [where sf = True, unfolded low_word_True]
  asr_values [where sf = True, unfolded low_word_True]

lemma lsr_values:
  "si < 64 \<Longrightarrow> sf \<or> si < 32 \<Longrightarrow> v AND mask (si + 1) = field_value sf 2 0 si old v"
  "ri < 64 \<Longrightarrow> sf \<Longrightarrow> drop_bit ri v = field_value sf 2 ri 63 old v"
  "ri \<le> 31 \<Longrightarrow> drop_bit ri (ucast (ucast v :: u32)) = field_value sf 2 ri 31 old v"
  by (rule field_valueI; auto simp: field_bit_def Let_def lsr_bits(2) bit_and_iff bit_mask_iff split: if_splits;
      auto simp: lsr_bits(1))+

lemma lsl_values:
  "si + 1 = ri \<Longrightarrow> ri < (if sf then 64 else 32) \<Longrightarrow>
   low_word sf (push_bit ((if sf then 64 else 32) - 1 - si) v) = field_value sf 2 ri si old v"
  by (rule field_valueI) (auto simp: bit_low_word field_bit_def Let_def bit_push_bit_iff split: if_splits)

section \<open>Extracts\<close>

text \<open>The word of the given width that starts at bit \<open>n\<close> of two words put together.\<close>

definition extract_bit :: "bool \<Rightarrow> nat \<Rightarrow> u64 \<Rightarrow> u64 \<Rightarrow> nat \<Rightarrow> bool" where
  "extract_bit sf n hi lo k =
     (let size' = (if sf then 64 else 32)
      in k < size' \<and> (if k + n < size' then bit lo (k + n) else bit hi (k + n - size')))"

definition extract_value :: "bool \<Rightarrow> nat \<Rightarrow> u64 \<Rightarrow> u64 \<Rightarrow> u64" where
  "extract_value sf n hi lo = horner_sum of_bool 2 (map (extract_bit sf n hi lo) [0..<64])"

lemma bit_extract_value: "bit (extract_value sf n hi lo) k = (k < 64 \<and> extract_bit sf n hi lo k)"
  by (auto simp: extract_value_def bit_horner_sum_bit_word_iff)

lemma extract_valueI:
  assumes "\<And>k. k < 64 \<Longrightarrow> bit (w :: u64) k = extract_bit sf n hi lo k"
  shows "w = extract_value sf n hi lo"
  by (rule bit_word_eqI) (simp add: bit_extract_value assms)

lemma extract_low: "low_word sf lo = extract_value sf 0 hi lo"
  by (rule extract_valueI) (auto simp: bit_low_word extract_bit_def Let_def)

lemma extract_rotated:
  assumes "n < (if sf then 64 else 32)"
  shows "sf \<Longrightarrow> word_rotr n lo = extract_value sf n lo lo"
    and "\<not> sf \<Longrightarrow> ucast (word_rotr n (ucast lo :: u32)) = extract_value sf n lo lo"
proof -
  have turn: "(k + n) mod N = (if k + n < N then k + n else k + n - N)" if "n < N" "k < N" for k N :: nat
    using that by (simp add: mod_if)
  show "word_rotr n lo = extract_value sf n lo lo" if sf
    using that assms turn [of 64] by (intro extract_valueI) (simp add: extract_bit_def bit_word_rotr_iff ac_simps)
  show "ucast (word_rotr n (ucast lo :: u32)) = extract_value sf n lo lo" if "\<not> sf"
    using that assms turn [of 32] by (intro extract_valueI) (auto simp: extract_bit_def bit_unsigned_iff bit_word_rotr_iff ac_simps)
qed

lemma extract_joined:
  assumes "n < (if sf then 64 else 32)" and "n \<noteq> 0"
  shows "low_word sf (drop_bit n (low_word sf lo) OR push_bit ((if sf then 64 else 32) - n) (low_word sf hi)) =
      extract_value sf n hi lo"
proof (rule extract_valueI)
  fix k :: nat assume k: "k < 64"
  have "bit (drop_bit n (low_word sf lo)) k = (k + n < (if sf then 64 else 32) \<and> bit lo (k + n))"
    by (auto simp: bit_drop_bit_eq bit_low_word add.commute [of n] dest: bit_imp_le_length split: if_splits)
  moreover have "bit (push_bit ((if sf then 64 else 32) - n) (low_word sf hi)) k =
      ((if sf then 64 else 32) \<le> k + n \<and> bit hi (k + n - (if sf then 64 else 32)))" if "k < (if sf then 64 else 32)"
    using that assms k by (auto simp: bit_push_bit_iff bit_low_word split: if_splits)
  ultimately show "bit (low_word sf (drop_bit n (low_word sf lo) OR push_bit ((if sf then 64 else 32) - n) (low_word sf hi))) k =
      extract_bit sf n hi lo k"
    using k by (auto simp: bit_low_word bit_or_iff extract_bit_def Let_def split: if_splits)
qed

declare One_nat_def [simp del] if_split [split del] if_cong [cong]

context tcg_semantics
begin

lemma wp_bitfield_done:
  assumes "old64 s d"
    and "\<And>s' m'. later {d} s s' m m' \<Longrightarrow> same_flags m m' \<Longrightarrow> r64 m' d = low_word sf (r64 m d) \<Longrightarrow> Q () s' m'"
  shows "wp S (bitfield_done sf d) Q s m"
  unfolding bitfield_done_def using assms by (rule wp_ext_low)

lemma wp_bitfield_move:
  assumes "ri < (if sf then 64 else 32)" and "si < (if sf then 64 else 32)" and "opc \<le> 2" and "old64 s d" and "old64 s t"
    and "(d = t) = False" and "(t = d) = False"
    and Q: "\<And>s' m'. later {d, t} s s' m m' \<Longrightarrow> same_flags m m' \<Longrightarrow>
      r64 m' d = field_value sf opc ri si (r64 m d) (r64 m t) \<Longrightarrow> Q () s' m'"
  shows "wp S (bitfield_move sf opc ri si d t) Q s m"
proof -
  obtain pos len where pl: "pos = (if ri \<le> si then 0 else (if sf then 64 else 32) - ri)"
      "len = (if ri \<le> si then si - ri + 1 else si + 1)"
    by blast
  then have bounds: "0 < len" "pos + len \<le> 64" "64 - (pos + len) < 64" "ri < 64"
    using assms(1,2) by (auto split: if_splits)
  obtain up where up: "up = 64 - (pos + len)" by blast
  have pair: "(if ri \<le> si then (0, si - ri + 1) else ((if sf then 64 else 32) - ri, si + 1)) = (pos, len)"
    unfolding pl by (simp split: if_split)
  note moved = move_value [OF assms(1-3), of "r64 m d" "r64 m t", folded pl, folded up, symmetric]
  show ?thesis
    using assms(4-7) bounds unfolding bitfield_move_def Let_def pair prod.case up [symmetric]
    by (intro wp_bitfield_done run_rules Q, unfold run_defs moved not_not)
      ((intro conjI)?; simp (no_asm_simp) add: ops run_simps zreg_def)+
qed

lemma wp_bitfield_sbfm:
  assumes "ri < (if sf then 64 else 32)" and "si < (if sf then 64 else 32)" and "old64 s d" and "old64 s t"
    and "(d = t) = False" and "(t = d) = False"
    and Q: "\<And>s' m'. later {d, t} s s' m m' \<Longrightarrow> same_flags m m' \<Longrightarrow>
      r64 m' d = field_value sf 0 ri si (r64 m d) (r64 m t) \<Longrightarrow> Q () s' m'"
  shows "wp S (bitfield_sbfm sf ri si d t) Q s m"
proof -
  have "sf \<or> si \<noteq> 63" and "ri < 64" using assms(1,2) by (auto split: if_splits)
  with assms(3-6) show ?thesis
    unfolding bitfield_sbfm_def
    by (intro wp_bitfield_done wp_bitfield_move assms(1,2) run_rules Q, unfold run_defs)
      (((elim disjE conjE, (hypsubst)?) | intro conjI)?; simp (no_asm_simp) add: ops run_simps zreg_def bit_field_forms)+
qed

lemma wp_bitfield_ubfm:
  assumes "ri < (if sf then 64 else 32)" and "si < (if sf then 64 else 32)" and "old64 s d" and "old64 s t"
    and "(d = t) = False" and "(t = d) = False"
    and Q: "\<And>s' m'. later {d, t} s s' m m' \<Longrightarrow> same_flags m m' \<Longrightarrow>
      r64 m' d = field_value sf 2 ri si (r64 m d) (r64 m t) \<Longrightarrow> Q () s' m'"
  shows "wp S (bitfield_ubfm sf ri si d t) Q s m"
proof -
  obtain up where up: "up = (if sf then 64 else 32) - 1 - si" by blast
  have lsl: "low_word sf (push_bit up v) = field_value sf 2 (si + 1) si old v" if "si \<noteq> (if sf then 64 else 32) - 1" for v old
    unfolding up using that assms(2) by (intro lsl_values) (auto split: if_splits)
  have "si = 63 \<longrightarrow> sf" and "(sf \<or> si < 32) = True" and "ri < 64" and "si < 64" and "up < 64" unfolding up using assms(1,2) by (auto split: if_splits)
  moreover have mask: "bitmask64 (si + 1) = Some (mask (si + 1))"
    using \<open>si < 64\<close> by (simp add: bitmask64_def One_nat_def)
  ultimately show ?thesis
    using assms(3-6) unfolding bitfield_ubfm_def mask option.case up [symmetric]
    by (intro wp_bitfield_done wp_bitfield_move assms(1,2) run_rules Q, unfold run_defs)
      (((elim disjE conjE, (hypsubst)?) | intro conjI)?; simp (no_asm_simp) add: ops run_simps zreg_def lsr_values lsl)+
qed

lemma disas_bitfield_run:
  fixes insn :: u32
  assumes "extract32 insn 31 1 = 1 \<longleftrightarrow> sf" and "extract32 insn 22 1 = 1 \<longleftrightarrow> sf"
    and "extract32 insn 29 2 = opc" "opc \<noteq> 3"
    and "extract32 insn 16 6 = ri" "ri < (if sf then 64 else 32)"
    and "extract32 insn 10 6 = si" "si < (if sf then 64 else 32)"
    and "extract32 insn 5 5 = rn" and "extract32 insn 0 5 = rd"
  shows "wp S (disas_bitfield insn) (\<lambda>_ s' m'.
    wrote m False rd (field_value sf opc ri si (zreg m rd) (zreg m rn)) m' \<and> same_flags m m') s m"
proof -
  have "opc < 4" using extract32_less [of insn 29 2] assms(3) by simp
  then have opc: "opc \<le> 2" "opc = 0 \<or> opc = 1 \<or> opc = 2" using assms(4) by linarith+
  have guard: "(sf \<noteq> sf \<or> (if sf then 64 else 32) \<le> ri \<or> (if sf then 64 else 32) \<le> si \<or> 2 < opc) = False"
    using assms(6,8) opc(1) by simp
  show ?thesis
    unfolding disas_bitfield_def Let_def
    by (simp only: assms(1-3,5,7,9,10) guard if_False,
        intro wp_bitfield_sbfm wp_bitfield_ubfm wp_bitfield_move assms(6,8) opc(1) run_rules, unfold run_defs)
      (((erule notE, assumption) | (intro conjI, ((rule wrote_names, assumption) | rule wrote_sp)))?;
        simp (no_asm_simp) add: ops run_simps)+
qed

lemma disas_extract_run:
  fixes insn :: u32
  assumes "extract32 insn 31 1 = 1 \<longleftrightarrow> sf" and "extract32 insn 22 1 = 1 \<longleftrightarrow> sf"
    and "extract32 insn 29 2 = 0" and "extract32 insn 21 1 = 0"
    and "extract32 insn 10 6 = n" "n < (if sf then 64 else 32)"
    and "extract32 insn 16 5 = rm" and "extract32 insn 5 5 = rn" and "extract32 insn 0 5 = rd"
  shows "wp S (disas_extract insn) (\<lambda>_ s' m'.
    wrote m False rd (extract_value sf n (zreg m rn) (zreg m rm)) m' \<and> same_flags m m') s m"
proof -
  have guard: "(sf \<noteq> sf \<or> (0::nat) \<noteq> 0 \<or> (0::nat) \<noteq> 0 \<or> (if sf then 64 else 32) \<le> n) = False"
    using assms(6) by simp
  have n: "n < 64" and n32: "\<not> sf \<longrightarrow> n < 32" using assms(6) by (auto split: if_splits)
  obtain up where up: "up = (if sf then 64 else 32) - n" by blast
  then have "n \<noteq> 0 \<longrightarrow> up < 64" by (auto split: if_splits)
  with n n32 show ?thesis
    unfolding disas_extract_def Let_def
    by (simp only: assms(1-5,7,8,9) guard if_False up [symmetric], intro run_rules, unfold run_defs)
      (((erule notE, assumption) | (intro conjI, ((rule wrote_names, assumption) | rule wrote_sp)))?;
        simp (no_asm_simp) add: ops run_simps extract_low extract_rotated [OF assms(6)] extract_joined [OF assms(6), folded up])+
qed

end

declare One_nat_def [simp] if_split [split] if_weak_cong [cong]

section \<open>The properties\<close>

text \<open>C26: the decoder of logical immediates.\<close>

theorem logical_immediates_decode:
  assumes "immn < 2" and "imms < 64" and "immr < 64"
  shows "let e = element_size immn imms in
    (case logic_imm_decode_wmask immn imms immr of
       Wmask w \<Rightarrow> 0 < e \<and> imms mod e \<noteq> e - 1 \<and> (\<forall>k < 64. bit w k = ((k + immr mod e) mod e \<le> imms mod e))
     | Reserved \<Rightarrow> e = 0 \<or> imms mod e = e - 1
     | AssertionFailed \<Rightarrow> False)"
proof (cases "element_size immn imms = 0 \<or> imms mod element_size immn imms = element_size immn imms - 1")
  case True
  then show ?thesis using decode_wmask(1) [OF assms refl] by (simp add: Let_def)
next
  case False
  then show ?thesis using decode_wmask(2) [OF assms refl] by (auto simp: Let_def)
qed

theorem logical_immediates_decode_witness:
  "let e = element_size 0 (39 :: nat) in
    (case logic_imm_decode_wmask 0 39 3 of
       Wmask w \<Rightarrow> 0 < e \<and> 39 mod e \<noteq> e - 1 \<and> (\<forall>k < 64. bit w k = ((k + 3 mod e) mod e \<le> 39 mod e))
     | Reserved \<Rightarrow> e = 0 \<or> 39 mod e = e - 1
     | AssertionFailed \<Rightarrow> False)"
  by (rule logical_immediates_decode) simp_all

text \<open>C36: \<open>SBFM\<close>, \<open>BFM\<close>, \<open>UBFM\<close> and \<open>EXTR\<close> write the bits the architecture gives for the
  four encodings.\<close>

theorem bit_field_architecture:
  assumes "tcg_semantics S"
    and field: "extract32 fld 31 1 = extract32 fld 22 1" "extract32 fld 29 2 \<noteq> 3"
      "extract32 fld 16 6 < (if extract32 fld 31 1 = 1 then 64 else 32)" "extract32 fld 10 6 < (if extract32 fld 31 1 = 1 then 64 else 32)"
    and ext: "extract32 ext 31 1 = extract32 ext 22 1" "extract32 ext 29 2 = 0" "extract32 ext 21 1 = 0"
      "extract32 ext 10 6 < (if extract32 ext 31 1 = 1 then 64 else 32)"
  shows "runs_to S (disas_bitfield fld) s m (\<lambda>m'. wrote m False (extract32 fld 0 5)
      (field_value (extract32 fld 31 1 = 1) (extract32 fld 29 2) (extract32 fld 16 6) (extract32 fld 10 6)
        (zreg m (extract32 fld 0 5)) (zreg m (extract32 fld 5 5))) m' \<and> same_flags m m') \<and>
    runs_to S (disas_extract ext) s m (\<lambda>m'. wrote m False (extract32 ext 0 5)
      (extract_value (extract32 ext 31 1 = 1) (extract32 ext 10 6)
        (zreg m (extract32 ext 5 5)) (zreg m (extract32 ext 16 5))) m' \<and> same_flags m m')"
  using field ext
  by (intro conjI wp_runs_to tcg_semantics.disas_bitfield_run [OF assms(1)] tcg_semantics.disas_extract_run [OF assms(1)]) simp_all

theorem bit_field_architecture_witness:
  "runs_to ref_sem (disas_bitfield 0x93451c20) dc0 cpu0 (\<lambda>m'. wrote cpu0 False (extract32 0x93451c20 0 5)
      (field_value (extract32 0x93451c20 31 1 = 1) (extract32 0x93451c20 29 2) (extract32 0x93451c20 16 6) (extract32 0x93451c20 10 6)
        (zreg cpu0 (extract32 0x93451c20 0 5)) (zreg cpu0 (extract32 0x93451c20 5 5))) m' \<and> same_flags cpu0 m')"
proof -
  have field: "extract32 0x93451c20 31 1 = extract32 0x93451c20 22 1" "extract32 0x93451c20 29 2 \<noteq> 3"
      "extract32 0x93451c20 16 6 < (if extract32 0x93451c20 31 1 = 1 then 64 else 32)"
      "extract32 0x93451c20 10 6 < (if extract32 0x93451c20 31 1 = 1 then 64 else 32)" by code_simp+
  have ext: "extract32 0x93c21420 31 1 = extract32 0x93c21420 22 1" "extract32 0x93c21420 29 2 = 0" "extract32 0x93c21420 21 1 = 0"
      "extract32 0x93c21420 10 6 < (if extract32 0x93c21420 31 1 = 1 then 64 else 32)" by code_simp+
  from conjunct1 [OF bit_field_architecture [OF ref.tcg_semantics_axioms field ext]] show ?thesis .
qed

end
