(* ===== verification/A64Arith.thy ===== *)
theory A64Arith
  imports A64Bits
begin

text \<open>
  Multiplications, divisions, variable shifts and byte reversals against the architecture.
\<close>

section \<open>What the architecture gives\<close>

text \<open>The int_quotient of the operands as signed or unsigned numbers of the given width, rounded towards
  zero; zero for a zero divisor, and the wrapped int_quotient for the one that does not fit.\<close>

definition number :: "bool \<Rightarrow> bool \<Rightarrow> u64 \<Rightarrow> int" where
  "number is_signed sf x =
     (if is_signed then if sf then sint x else sint (ucast x :: u32) else uint (low_word sf x))"

definition int_quotient :: "bool \<Rightarrow> bool \<Rightarrow> u64 \<Rightarrow> u64 \<Rightarrow> u64" where
  "int_quotient is_signed sf x y =
     (if number is_signed sf y = 0 then 0
      else low_word sf (word_of_int (number is_signed sf x sdiv number is_signed sf y)))"

text \<open>\<open>MADD\<close> (0), \<open>SMADDL\<close> (1), \<open>SMULH\<close> (2), \<open>UMADDL\<close> (5) and \<open>UMULH\<close> (6), and the subtractions.\<close>

definition factor :: "nat \<Rightarrow> u64 \<Rightarrow> u64" where
  "factor op31 x = (if op31 = 0 then x else if op31 = 1 then scast (ucast x :: u32) else ucast (ucast x :: u32))"

definition product :: "bool \<Rightarrow> nat \<Rightarrow> bool \<Rightarrow> u64 \<Rightarrow> u64 \<Rightarrow> u64 \<Rightarrow> u64" where
  "product sf op31 sub x y a =
     (if op31 = 2 then word_of_int (sint x * sint y div 2 ^ 64)
      else if op31 = 6 then word_of_int (uint x * uint y div 2 ^ 64)
      else low_word sf (if sub then a - factor op31 x * factor op31 y else a + factor op31 x * factor op31 y))"

text \<open>The bytes of every group of \<open>g\<close> in the opposite order.\<close>

definition reversed_bit :: "bool \<Rightarrow> nat \<Rightarrow> u64 \<Rightarrow> nat \<Rightarrow> bool" where
  "reversed_bit sf g x k \<longleftrightarrow> k < (if sf then 64 else 32) \<and>
     bit x (8 * (g * (k div 8 div g) + (g - 1 - k div 8 mod g)) + k mod 8)"

definition reversed :: "bool \<Rightarrow> nat \<Rightarrow> u64 \<Rightarrow> u64" where
  "reversed sf g x = horner_sum of_bool 2 (map (reversed_bit sf g x) [0..<64])"

lemma reversedI:
  assumes "\<And>k. k < 64 \<Longrightarrow> bit (w :: u64) k = reversed_bit sf g x k"
  shows "w = reversed sf g x"
  by (rule bit_word_eqI) (auto simp: reversed_def bit_horner_sum_bit_word_iff assms)

section \<open>Values\<close>

lemma udiv_value: "low_word sf (helper_udiv64 (low_word sf x) (low_word sf y)) = int_quotient False sf x y"
proof -
  have "word_of_int (a sdiv b) = (word_of_int (a div b) :: u64)" if "0 \<le> a" "0 \<le> b" for a b
    using that by (simp add: signed_divide_int_def sgn_if)
  then show ?thesis
    by (auto simp: int_quotient_def number_def helper_udiv64_def word_div_def uint_0_iff low_word_def)
qed

lemma low_word_False: "low_word False v = ucast (ucast v :: u32)"
  by (simp add: low_word_def)

lemma udiv_values:
  "helper_udiv64 x y = int_quotient False True x y"
  "low_word False (int_quotient False True (low_word False x) (low_word False y)) = int_quotient False False x y"
  using udiv_value [of True x y] udiv_value [of False x y] udiv_value [of True "low_word False x" "low_word False y"]
  by (simp_all add: low_word_True)

lemma sdiv_word: "helper_sdiv64 x y = (if sint y = 0 then 0 else word_of_int (sint x sdiv sint y))"
proof -
  have "y = 0 \<longleftrightarrow> sint y = 0" using signed_word_eqI [of y 0] by auto
  then show ?thesis by (simp add: helper_sdiv64_def LLONG_MIN_def)
qed

lemma sint_scast: "sint (scast (w :: u32) :: u64) = sint w"
  by (simp add: sint_up_scast is_up)

lemma sdiv_values:
  "helper_sdiv64 x y = int_quotient True True x y"
  "low_word False (int_quotient True True (scast (ucast x :: u32)) (scast (ucast y :: u32))) = int_quotient True False x y"
  by (simp_all add: sdiv_word int_quotient_def number_def sint_scast low_word_def)

lemmas div_values = udiv_values(1) sdiv_values(1) udiv_values(2) [unfolded low_word_False] sdiv_values(2) [unfolded low_word_False]

lemma bit_bytes:
  "bit (foldr (\<lambda>i acc. push_bit (8 * (n - 1 - i)) (take_bit 8 (drop_bit (8 * i) x)) OR acc) is 0) k \<longleftrightarrow>
    (\<exists>i \<in> set is. 8 * (n - 1 - i) \<le> k \<and> k < 64 \<and> k - 8 * (n - 1 - i) < 8 \<and> bit (x :: u64) (8 * i + (k - 8 * (n - 1 - i))))"
  by (induction "is") (auto simp: bit_simps)

lemma bit_swap_bytes:
  "bit (swap_bytes n x) k \<longleftrightarrow> k < 64 \<and> k div 8 < n \<and> bit x (8 * (n - 1 - k div 8) + k mod 8)"
proof -
  define q r where "q = k div 8" and "r = k mod 8"
  then have k: "k = 8 * q + r" "r < 8" by simp_all
  have byte: "8 * p \<le> 8 * q + r \<and> 8 * q + r - 8 * p < 8 \<longleftrightarrow> p = q" for p
    using k(2) by presburger
  have at: "(i < n \<and> 8 * (n - 1 - i) \<le> 8 * q + r \<and> 8 * q + r - 8 * (n - 1 - i) < 8) = (q < n \<and> i = n - 1 - q)" for i
    unfolding byte by auto
  have rest: "8 * q + r - 8 * (n - 1 - (n - 1 - q)) = r" if "q < n"
    using that by simp
  have "bit (swap_bytes n x) (8 * q + r) \<longleftrightarrow>
      (\<exists>i. (i < n \<and> 8 * (n - 1 - i) \<le> 8 * q + r \<and> 8 * q + r - 8 * (n - 1 - i) < 8) \<and> 8 * q + r < 64 \<and>
        bit x (8 * i + (8 * q + r - 8 * (n - 1 - i))))"
    unfolding swap_bytes_def bit_bytes Bex_def set_upt atLeastLessThan_iff by blast
  also have "\<dots> \<longleftrightarrow> 8 * q + r < 64 \<and> q < n \<and> bit x (8 * (n - 1 - q) + r)"
    unfolding at using rest by (auto simp del: diff_diff_left)
  finally show ?thesis unfolding q_def [symmetric] r_def [symmetric] k(1) [symmetric] .
qed


lemma below_8: "n < 8 \<Longrightarrow> n \<in> {0, 1, 2, 3, 4, 5, 6, 7 :: nat}"
  by auto

lemma reversed_bytesI:
  assumes "\<And>q r. q \<in> {0, 1, 2, 3, 4, 5, 6, 7} \<Longrightarrow> r < 8 \<Longrightarrow>
    bit (w :: u64) (8 * q + r) = ((sf \<or> q < 4) \<and> bit x (8 * (g * (q div g) + (g - 1 - q mod g)) + r))"
  shows "w = reversed sf g x"
proof (rule reversedI)
  fix k :: nat assume k: "k < 64"
  have "k div 8 \<in> {0, 1, 2, 3, 4, 5, 6, 7}" by (rule below_8) (use k in simp)
  then show "bit w k = reversed_bit sf g x k"
    using assms [of "k div 8" "k mod 8"] k by (auto simp: reversed_bit_def simp del: insert_iff)
qed

lemma byte_at:
  assumes "r < (8 :: nat)"
  shows "r div 8 = 0" "(8 + r) div 8 = 1" "(16 + r) div 8 = 2" "(24 + r) div 8 = 3" "(32 + r) div 8 = 4"
    "(40 + r) div 8 = 5" "(48 + r) div 8 = 6" "(56 + r) div 8 = 7"
    "r mod 8 = r" "(8 + r) mod 8 = r" "(16 + r) mod 8 = r" "(24 + r) mod 8 = r" "(32 + r) mod 8 = r"
    "(40 + r) mod 8 = r" "(48 + r) mod 8 = r" "(56 + r) mod 8 = r"
proof -
  have d: "c = 8 * q \<Longrightarrow> (c + r) div 8 = q" and m: "c = 8 * q \<Longrightarrow> (c + r) mod 8 = r" for c q
    using assms by presburger+
  show "r div 8 = 0" "r mod 8 = r" using assms by simp_all
  show "(8 + r) div 8 = 1" "(16 + r) div 8 = 2" "(24 + r) div 8 = 3" "(32 + r) div 8 = 4"
    "(40 + r) div 8 = 5" "(48 + r) div 8 = 6" "(56 + r) div 8 = 7" by (rule d, simp)+
  show "(8 + r) mod 8 = r" "(16 + r) mod 8 = r" "(24 + r) mod 8 = r" "(32 + r) mod 8 = r"
    "(40 + r) mod 8 = r" "(48 + r) mod 8 = r" "(56 + r) mod 8 = r"
    by (rule m [of _ 1] m [of _ 2] m [of _ 3] m [of _ 4] m [of _ 5] m [of _ 6] m [of _ 7], simp; fail)+
qed

lemma rev_values:
  "swap_bytes 8 x = reversed True 8 x"
  "swap_bytes 4 (ucast (ucast x :: u32)) = reversed False 4 x"
  "deposit 32 32 (reversed False 4 x) (swap_bytes 4 (drop_bit 32 x)) = reversed True 4 x"
proof -
  show "swap_bytes 8 x = reversed True 8 x"
    by (rule reversed_bytesI, elim insertE emptyE; simp add: bit_swap_bytes byte_at)
  show low: "swap_bytes 4 (ucast (ucast x :: u32)) = reversed False 4 x"
    by (rule reversed_bytesI, elim insertE emptyE; simp add: bit_swap_bytes byte_at bit_unsigned_iff)
  show "deposit 32 32 (reversed False 4 x) (swap_bytes 4 (drop_bit 32 x)) = reversed True 4 x" unfolding low [symmetric]
    by (rule reversed_bytesI, elim insertE emptyE; simp add: bit_deposit bit_swap_bytes byte_at bit_unsigned_iff bit_drop_bit_eq)
qed

lemma and_ffff: "(x :: u64) AND 0xffff = take_bit 16 x"
  by (simp add: take_bit_eq_mask mask_eq_exp_minus_1)

lemma swap_defined:
  "fn1_defined FBswap32 (ucast (v :: u32))" "fn1_defined FBswap32 (drop_bit 32 x)"
  "fn1_defined FBswap16 (x AND 0xffff)" "fn1_defined FBswap16 (drop_bit 48 x)"
proof -
  have "unat w < 2 ^ n" if "\<And>k. n \<le> k \<Longrightarrow> \<not> bit w k" for w :: u64 and n
  proof -
    have "take_bit n w = w" using that by (intro bit_word_eqI) (metis bit_take_bit_iff not_le)
    then show ?thesis by (metis take_bit_nat_less_exp unsigned_take_bit_eq)
  qed
  from this [of 32] this [of 16]
  have less: "(\<And>k. 32 \<le> k \<Longrightarrow> \<not> bit w k) \<Longrightarrow> w < 2 ^ 32" "(\<And>k. 16 \<le> k \<Longrightarrow> \<not> bit w k) \<Longrightarrow> w < 2 ^ 16" for w :: u64
    by (simp_all add: word_less_nat_alt)
  show "fn1_defined FBswap32 (ucast (v :: u32))" "fn1_defined FBswap32 (drop_bit 32 x)"
    "fn1_defined FBswap16 (x AND 0xffff)" "fn1_defined FBswap16 (drop_bit 48 x)"
    unfolding fn1_defined.simps and_ffff
    by (rule less; auto simp: bit_simps dest: bit_imp_le_length)+
qed

lemma rev16_values:
  "deposit 48 16 (deposit 32 16 (deposit 16 16 (swap_bytes 2 (x AND 0xffff)) (swap_bytes 2 (drop_bit 16 x AND 0xffff)))
      (swap_bytes 2 (drop_bit 32 x AND 0xffff))) (swap_bytes 2 (drop_bit 48 x)) = reversed True 2 x"
  "deposit 16 16 (swap_bytes 2 (ucast (ucast x :: u32) AND 0xffff)) (swap_bytes 2 (drop_bit 16 (ucast (ucast x :: u32)) AND 0xffff)) =
    reversed False 2 x"
  by (rule reversed_bytesI, elim insertE emptyE;
      simp add: and_ffff bit_deposit bit_swap_bytes byte_at bit_take_bit_iff bit_drop_bit_eq bit_unsigned_iff)+

definition shift_amount :: "bool \<Rightarrow> u64 \<Rightarrow> nat" where
  "shift_amount sf y = unat y mod (if sf then 64 else 32)"

lemma shift_amount: "shift_amount sf y < (if sf then 64 else 32)" "y AND (if sf then 63 else 31) = of_nat (shift_amount sf y)"
proof -
  have "y AND mask n = of_nat (unat y mod 2 ^ n)" for n
    by (simp flip: take_bit_eq_mod take_bit_eq_mask unsigned_take_bit_eq)
  from this [of 6] this [of 5] show "y AND (if sf then 63 else 31) = of_nat (shift_amount sf y)"
    by (simp add: shift_amount_def mask_eq_exp_minus_1 split: if_split)
qed (simp add: shift_amount_def)

text \<open>The code of the multiplications with addition or subtraction, \<open>f\<close> extending the factors.\<close>

definition mul_add :: "tcg_fn1 \<Rightarrow> bool \<Rightarrow> bool \<Rightarrow> nat \<Rightarrow> nat \<Rightarrow> nat \<Rightarrow> nat \<Rightarrow> unit gen" where
  "mul_add f is_sub sf rd rn rm ra = do {
       tcg_op1 \<leftarrow> tcg_temp_new_i64;
       tcg_op2 \<leftarrow> tcg_temp_new_i64;
       tcg_tmp \<leftarrow> tcg_temp_new_i64;
       tcg_rn \<leftarrow> cpu_reg rn;
       emit (Un64 f tcg_op1 tcg_rn);
       tcg_rm \<leftarrow> cpu_reg rm;
       emit (Un64 f tcg_op2 tcg_rm);
       (if ra = 31 \<and> \<not> is_sub then do {
          tcg_rd \<leftarrow> cpu_reg rd;
          emit (Bin64 FMul tcg_rd tcg_op1 tcg_op2) }
        else do {
          emit (Bin64 FMul tcg_tmp tcg_op1 tcg_op2);
          tcg_rd \<leftarrow> cpu_reg rd;
          tcg_ra \<leftarrow> cpu_reg ra;
          emit (Bin64 (if is_sub then FSub else FAdd) tcg_rd tcg_ra tcg_tmp) });
       (if \<not> sf then do {
          tcg_rd \<leftarrow> cpu_reg rd;
          tcg_rd' \<leftarrow> cpu_reg rd;
          tcg_gen_ext32u_i64 tcg_rd tcg_rd' }
        else skip);
       emit (Free64 tcg_op1);
       emit (Free64 tcg_op2);
       emit (Free64 tcg_tmp) }"

lemma data_proc_3src_eq:
  "disas_data_proc_3src insn =
     (let rd = extract32 insn 0 5; rn = extract32 insn 5 5; ra = extract32 insn 10 5; rm = extract32 insn 16 5;
          op_id = 16 * extract32 insn 29 3 + 2 * extract32 insn 21 3 + extract32 insn 15 1;
          sf = (extract32 insn 31 1 = 1); is_sub = bit op_id 0; is_signed = (op_id \<in> {0x42, 0x43, 0x44})
      in if op_id \<notin> {0x42, 0x43, 0x44, 0x0, 0x1, 0x40, 0x41, 0x4a, 0x4b, 0x4c} then unallocated_encoding
         else if bit op_id 2 then mul_high is_signed rd rn rm
         else mul_add (if op_id < 0x42 then FMov else if is_signed then FExt32s else FExt32u) is_sub sf rd rn rm ra)"
  unfolding disas_data_proc_3src_def mul_add_def Let_def by (rule refl)

declare One_nat_def [simp del] if_split [split del] if_cong [cong]

context tcg_semantics
begin

lemma handle_div_run:
  "wp S (handle_div is_signed sf rm rn rd) (\<lambda>_ s' m'.
    wrote m False rd (int_quotient is_signed sf (zreg m rn) (zreg m rm)) m' \<and> same_flags m m') s m"
  unfolding handle_div_def
  by (cases sf; cases is_signed; simp only: if_True if_False simp_thms; intro wp_prod wp_new_tmp run_rules; unfold run_defs)
    (((erule notE, assumption) | (intro conjI, ((rule wrote_names, assumption) | rule wrote_sp)))?;
      simp (no_asm_simp) add: ops run_simps low_word_False div_values)+

lemma handle_shift_reg_run:
  "wp S (handle_shift_reg t sf rm rn rd) (\<lambda>_ s' m'.
    wrote m False rd (shifted sf t (shift_amount sf (zreg m rm)) (zreg m rn)) m' \<and> same_flags m m') s m"
  unfolding handle_shift_reg_def
  by (intro wp_shift_reg [where n = "shift_amount sf (zreg m rm)"] run_rules, unfold run_defs)
    (((erule notE, assumption) | (intro conjI, ((rule wrote_names, assumption) | rule wrote_sp)))?;
      simp (no_asm_simp) add: ops run_simps shift_amount)+

lemma wp_cpu_reg_written:
  assumes "n \<noteq> 31" and "Q (X n) s m"
  shows "wp S (cpu_reg n) Q s m"
  using assms unfolding cpu_reg_def by (simp only: if_False) (intro wp)

lemma wrote_reg:
  assumes "n \<noteq> 31" and "\<And>k. k \<noteq> n \<Longrightarrow> r64 m' (X k) = r64 m (X k)" and "r64 m' (X n) = v"
    and "r64 m' PC = r64 m PC" and "beyond m' = beyond m"
  shows "wrote m False n v m'"
  using assms by (auto simp: wrote_def split: if_split)

lemma wrote_zero:
  assumes "\<And>k. r64 m' (X k) = r64 m (X k)" and "r64 m' PC = r64 m PC" and "beyond m' = beyond m"
  shows "wrote m False 31 v m'"
  using assms by (auto simp: wrote_def split: if_split)

lemma extract32_split: "extract32 v p (l + l') = extract32 v p l + 2 ^ l * extract32 v (p + l) l'"
  by (simp only: extract32_def unsigned_take_bit_eq unat_drop_bit_eq)
    (simp add: take_bit_eq_mod drop_bit_eq_div power_add mod_mult2_eq div_mult2_eq)

lemma mul_add_run:
  assumes f: "\<And>v. fn1_defined f v" and v: "v = low_word sf (if is_sub then zreg m ra - fn1_64 f (zreg m rn) * fn1_64 f (zreg m rm)
      else zreg m ra + fn1_64 f (zreg m rn) * fn1_64 f (zreg m rm))"
  shows "wp S (mul_add f is_sub sf rd rn rm ra)
    (\<lambda>_ s' m'. wrote m False rd v m' \<and> same_flags m m') s m"
proof (cases "rd = 31")
  case False
  then show ?thesis
    using f unfolding v mul_add_def
    by (cases is_sub; cases "ra = 31"; simp only: if_True if_False simp_thms;
      intro wp_cpu_reg_written [of rd] run_rules; (rule False)?; unfold run_defs not_not) 
      (((erule notE, assumption) | (intro conjI, rule wrote_reg))?;
        simp (no_asm_simp) add: ops run_simps low_word_False)+
next
  case True
  show ?thesis
    using f unfolding True mul_add_def
    by (cases is_sub; simp only: if_True if_False simp_thms; intro run_rules; unfold run_defs names_def)
      (((erule notE, assumption) | (intro conjI, rule wrote_zero))?; simp (no_asm_simp) add: ops run_simps)+
qed

lemma handle_rev64_run:
  "wp S (handle_rev64 True rn rd) (\<lambda>_ s' m'. wrote m False rd (reversed True 8 (zreg m rn)) m' \<and> same_flags m m') s m"
  unfolding handle_rev64_def
  by (simp only: not_True_eq_False if_False; intro run_rules; unfold run_defs)
    (((erule notE, assumption) | (intro conjI, rule wrote_names, assumption))?;
      simp (no_asm_simp) add: ops run_simps rev_values)+

lemma handle_rev32_run:
  "wp S (handle_rev32 sf rn rd) (\<lambda>_ s' m'. wrote m False rd (reversed sf 4 (zreg m rn)) m' \<and> same_flags m m') s m"
  unfolding handle_rev32_def
  by (cases sf; simp only: if_True if_False; intro run_rules; unfold run_defs not_not)
    (((erule notE, assumption) | (intro conjI, rule wrote_names, assumption))?;
      simp (no_asm_simp) add: ops run_simps swap_defined rev_values rev16_values low_word_False del: fn1_defined.simps(1,2))+

lemma handle_rev16_run:
  "wp S (handle_rev16 sf rn rd) (\<lambda>_ s' m'. wrote m False rd (reversed sf 2 (zreg m rn)) m' \<and> same_flags m m') s m"
  unfolding handle_rev16_def
  by (cases sf; simp only: if_True if_False; intro run_rules; unfold run_defs not_not)
    (((erule notE, assumption) | (intro conjI, rule wrote_names, assumption))?;
      simp (no_asm_simp) add: ops run_simps swap_defined rev_values rev16_values low_word_False del: fn1_defined.simps(1,2))+

lemma op_bits:
  "\<not> bit (32 :: nat) 1" "\<not> bit (33 :: nat) 1" "bit (34 :: nat) 1" "\<not> bit (37 :: nat) 1" "bit (38 :: nat) 1"
  by code_simp+

lemma mul_high_run:
  "wp S (mul_high is_signed rd rn rm) (\<lambda>_ s' m'. wrote m False rd (if is_signed then
      word_of_int (sint (zreg m rn) * sint (zreg m rm) div 2 ^ 64)
    else word_of_int (uint (zreg m rn) * uint (zreg m rm) div 2 ^ 64)) m' \<and> same_flags m m') s m"
  unfolding mul_high_def
  by (intro run_rules; unfold run_defs)
    (((erule notE, assumption) | (intro conjI, rule wrote_names, assumption))?; simp (no_asm_simp) add: ops run_simps)+

lemma data_proc_3src_run:
  fixes insn :: u32
  defines "op31 \<equiv> extract32 insn 21 3" and "sub \<equiv> extract32 insn 15 1 = 1" and "sf \<equiv> extract32 insn 31 1 = 1"
  assumes "extract32 insn 29 2 = 0" and "op31 = 0 \<or> sf \<and> (op31 = 1 \<or> op31 = 5 \<or> \<not> sub \<and> (op31 = 2 \<or> op31 = 6))"
  shows "wp S (disas_data_proc_3src insn) (\<lambda>_ s' m'. wrote m False (extract32 insn 0 5)
    (product sf op31 sub (zreg m (extract32 insn 5 5)) (zreg m (extract32 insn 16 5)) (zreg m (extract32 insn 10 5))) m' \<and>
    same_flags m m') s m"
proof -
  have "extract32 insn 29 3 = (if sf then 4 else 0)" 
    using extract32_split [of insn 29 2 1] extract32_1_less [of insn 31] assms(4) unfolding sf_def by (auto split: if_split)
  moreover have "extract32 insn 15 1 = (if sub then 1 else 0)"
    using extract32_1_less [of insn 15] unfolding sub_def by (auto split: if_split)
  ultimately show ?thesis
    using assms(5) unfolding data_proc_3src_eq Let_def
    by (fold op31_def sf_def) (elim disjE conjE; cases sub; cases sf; simp only: if_True if_False simp_thms; simp add: op_bits;
        rule wp_mono [OF mul_high_run] mul_add_run; simp add: product_def factor_def)
qed

lemma data_proc_2src_run:
  fixes insn :: u32
  assumes "extract32 insn 29 1 = 0" and "extract32 insn 10 6 \<in> {2, 3, 8, 9, 10, 11}"
  shows "let sf = (extract32 insn 31 1 = 1); x = zreg m (extract32 insn 5 5); y = zreg m (extract32 insn 16 5); opcode = extract32 insn 10 6
    in wp S (disas_data_proc_2src insn) (\<lambda>_ s' m'. wrote m False (extract32 insn 0 5)
      (if opcode < 4 then int_quotient (opcode = 3) sf x y
       else shifted sf (shift_type_of (opcode - 8)) (shift_amount sf y) x) m' \<and> same_flags m m') s m"
  using assms(2) unfolding disas_data_proc_2src_def Let_def
  by (elim insertE emptyE; simp add: assms(1) shift_type_of_def handle_div_run handle_shift_reg_run)

lemma data_proc_1src_run:
  fixes insn :: u32
  assumes "extract32 insn 29 1 = 0" and "extract32 insn 16 5 = 0"
    and "extract32 insn 10 6 = 1 \<or> extract32 insn 10 6 = 2 \<or> extract32 insn 10 6 = 3 \<and> extract32 insn 31 1 = 1"
  shows "wp S (disas_data_proc_1src insn) (\<lambda>_ s' m'. wrote m False (extract32 insn 0 5)
      (reversed (extract32 insn 31 1 = 1) (2 ^ extract32 insn 10 6) (zreg m (extract32 insn 5 5))) m' \<and> same_flags m m') s m"
  using assms(3) unfolding disas_data_proc_1src_def Let_def
  by (elim disjE conjE; simp add: assms(1,2) handle_rev64_run handle_rev32_run handle_rev16_run)

end

declare One_nat_def [simp] if_split [split] if_weak_cong [cong]

section \<open>The property\<close>

text \<open>C31: 
  The multiplications, divisions, variable shifts and byte reversals write the value of the
  architecture and leave the flags.
\<close>

theorem arithmetic_architecture:
  assumes "tcg_semantics S"
    and mul: "extract32 mul 29 2 = 0" "extract32 mul 21 3 = 0 \<or> extract32 mul 31 1 = 1 \<and>
      (extract32 mul 21 3 = 1 \<or> extract32 mul 21 3 = 5 \<or> extract32 mul 15 1 \<noteq> 1 \<and> (extract32 mul 21 3 = 2 \<or> extract32 mul 21 3 = 6))"
    and two: "extract32 two 29 1 = 0" "extract32 two 10 6 \<in> {2, 3, 8, 9, 10, 11}"
    and one: "extract32 one 29 1 = 0" "extract32 one 16 5 = 0" "extract32 one 10 6 = 1 \<or> extract32 one 10 6 = 2 \<or>
      extract32 one 10 6 = 3 \<and> extract32 one 31 1 = 1"
  shows "runs_to S (disas_data_proc_3src mul) s m (\<lambda>m'. wrote m False (extract32 mul 0 5)
      (product (extract32 mul 31 1 = 1) (extract32 mul 21 3) (extract32 mul 15 1 = 1)
        (zreg m (extract32 mul 5 5)) (zreg m (extract32 mul 16 5)) (zreg m (extract32 mul 10 5))) m' \<and> same_flags m m') \<and>
    (let sf = (extract32 two 31 1 = 1); x = zreg m (extract32 two 5 5); y = zreg m (extract32 two 16 5); opcode = extract32 two 10 6
     in runs_to S (disas_data_proc_2src two) s m (\<lambda>m'. wrote m False (extract32 two 0 5)
      (if opcode < 4 then int_quotient (opcode = 3) sf x y
       else shifted sf (shift_type_of (opcode - 8)) (shift_amount sf y) x) m' \<and> same_flags m m')) \<and>
    runs_to S (disas_data_proc_1src one) s m (\<lambda>m'. wrote m False (extract32 one 0 5)
      (reversed (extract32 one 31 1 = 1) (2 ^ extract32 one 10 6) (zreg m (extract32 one 5 5))) m' \<and> same_flags m m')"
  unfolding Let_def
  by (intro conjI wp_runs_to tcg_semantics.data_proc_3src_run [OF assms(1)] tcg_semantics.data_proc_1src_run [OF assms(1)]
      tcg_semantics.data_proc_2src_run [OF assms(1), unfolded Let_def]) (use mul two one in blast)+

theorem arithmetic_architecture_witness:
  "let sf = (extract32 0x9ac20c20 31 1 = 1); x = zreg cpu0 (extract32 0x9ac20c20 5 5); y = zreg cpu0 (extract32 0x9ac20c20 16 5);
       opcode = extract32 0x9ac20c20 10 6
     in runs_to ref_sem (disas_data_proc_2src 0x9ac20c20) dc0 cpu0 (\<lambda>m'. wrote cpu0 False (extract32 0x9ac20c20 0 5)
      (if opcode < 4 then int_quotient (opcode = 3) sf x y
       else shifted sf (shift_type_of (opcode - 8)) (shift_amount sf y) x) m' \<and> same_flags cpu0 m')"
proof -
  have mul: "extract32 0x9b020c20 29 2 = 0" "extract32 0x9b020c20 21 3 = 0 \<or> extract32 0x9b020c20 31 1 = 1 \<and>
      (extract32 0x9b020c20 21 3 = 1 \<or> extract32 0x9b020c20 21 3 = 5 \<or> extract32 0x9b020c20 15 1 \<noteq> 1 \<and>
       (extract32 0x9b020c20 21 3 = 2 \<or> extract32 0x9b020c20 21 3 = 6))" by code_simp+
  have two: "extract32 0x9ac20c20 29 1 = 0" "extract32 0x9ac20c20 10 6 \<in> {2, 3, 8, 9, 10, 11}" by code_simp+
  have one: "extract32 0xdac00c20 29 1 = 0" "extract32 0xdac00c20 16 5 = 0" "extract32 0xdac00c20 10 6 = 1 \<or>
      extract32 0xdac00c20 10 6 = 2 \<or> extract32 0xdac00c20 10 6 = 3 \<and> extract32 0xdac00c20 31 1 = 1" by code_simp+
  from conjunct1 [OF conjunct2 [OF arithmetic_architecture [OF ref.tcg_semantics_axioms mul two one]]] show ?thesis .
qed

end
