(* ===== verification/A64Mem.thy ===== *)
theory A64Mem
  imports A64Exec A64Ldst
begin

text \<open>
  Running loads and stores: what the operations on the memory of the guest and on the array of the
  floating-point registers do, on a little-endian host, for addresses that can be accessed, and the
  loads and stores of the general registers against the architecture.
\<close>

section \<open>Bytes and words\<close>

lemma bit_bytes_word:
  "bit (bytes_word bs) k \<longleftrightarrow> k < 64 \<and> k div 8 < length bs \<and> bit (bs ! (k div 8)) (k mod 8)"
proof (induction bs arbitrary: k)
  case Nil
  then show ?case by (simp add: bytes_word_def)
next
  case (Cons b bs)
  have step: "bytes_word (b # bs) = ucast b OR push_bit 8 (bytes_word bs)" by (simp add: bytes_word_def)
  show ?case
  proof (cases "k < 8")
    case True
    then show ?thesis by (auto simp: step bit_simps)
  next
    case False
    define j where "j = k - 8"
    then have k: "k = j + 8" using False by simp
    have "\<not> bit b k" using False by (auto dest: bit_imp_le_length)
    moreover have "(j + 8) div 8 = Suc (j div 8)" by simp
    ultimately show ?thesis using Cons [of j] by (auto simp: step bit_simps k simp del: div_add_self2)
  qed
qed

text \<open>What is written is read back, cut to the bytes written.\<close>

lemma mem_read_write:
  assumes "n \<le> 8"
  shows "mem_read big n a (mem_write big n a v M) = take_bit (8 * n) v"
proof (rule bit_word_eqI)
  fix k assume "k < LENGTH(64)"
  then have k: "k < 64" by simp
  have at: "mem_write big n a v M (a + of_nat j) = word_byte big n v j" if "j < n" for j
    using that assms by (simp add: mem_write_def unat_of_nat)
  have byte: "mem_write big n a v M (a + of_nat (if big then n - 1 - i else i)) = ucast (drop_bit (8 * i) v)" if "i < n" for i
    using that at [of i] at [of "n - 1 - i"] by (cases big) (simp_all add: word_byte_def del: of_nat_diff)
  have "bit (mem_read big n a (mem_write big n a v M)) k \<longleftrightarrow> k div 8 < n \<and> bit v (8 * (k div 8) + k mod 8) \<and> k mod 8 < 8"
    using k byte [of "k div 8"]
    by (cases "k div 8 < n"; cases big) (auto simp: mem_read_def bit_bytes_word bit_simps simp del: of_nat_diff)
  also have "\<dots> \<longleftrightarrow> bit (take_bit (8 * n) v) k"
    using k by (auto simp: bit_simps)
  finally show "bit (mem_read big n a (mem_write big n a v M)) k = bit (take_bit (8 * n) v) k" .
qed

lemma env_read_write:
  assumes "n \<le> 8"
  shows "env_read n off (env_write n off v V) = take_bit (8 * n) v"
proof (rule bit_word_eqI)
  fix k assume "k < LENGTH(64)"
  then show "bit (env_read n off (env_write n off v V)) k = bit (take_bit (8 * n) v) k"
    by (auto simp: env_read_def env_write_def word_byte_def bit_bytes_word bit_simps)
qed

section \<open>The interface\<close>

text \<open>
  \<open>ok i a n\<close> tells that the translation regime \<open>i\<close> lets the \<open>n\<close> bytes at \<open>a\<close> be accessed as memory;
  the model does not follow an access that faults. No two addresses stand for the same byte.
\<close>

locale tcg_memory = tcg_semantics +
  fixes ok :: "ARMMMUIdx \<Rightarrow> u64 \<Rightarrow> nat \<Rightarrow> bool"
  assumes qemu_ld64: "ok i (r64 m a) (memop_bytes memop) \<Longrightarrow> step S (QemuLd64 d a i memop) m =
      set64 d (memop_extend memop (mem_read (memop_swaps memop) (memop_bytes memop) (r64 m a) (mem m))) m"
    and qemu_st64: "ok i (r64 m a) (memop_bytes memop) \<Longrightarrow> step S (QemuSt64 v a i memop) m =
      m\<lparr>mem := mem_write (memop_swaps memop) (memop_bytes memop) (r64 m a) (r64 m v) (mem m)\<rparr>"
    and ld_env64: "step S (LdEnv64 memop d off) m = set64 d (memop_extend memop (env_read (memop_bytes memop) off (vfp m))) m"
    and st_env64: "step S (StEnv64 memop v off) m = m\<lparr>vfp := env_write (memop_bytes memop) off (r64 m v) (vfp m)\<rparr>"
    and insn_param: "step S (SetInsnParam idx n syn) m = m"

interpretation ref_memory: tcg_memory ref_sem "\<lambda>_ _ _. True"
  by unfold_locales (simp_all add: ref_sem_def ref_step_def)

section \<open>One access\<close>

text \<open>What a load of \<open>2 ^ sz\<close> bytes leaves in a register: zero extended, or sign extended to 64 bits or
  (\<open>ext\<close>) to 32.\<close>

definition loaded :: "nat \<Rightarrow> bool \<Rightarrow> bool \<Rightarrow> u64 \<Rightarrow> u64" where
  "loaded sz is_signed ext v = (if is_signed then low_word (\<not> ext) (signed_take_bit (8 * 2 ^ sz - 1) v) else v)"

text \<open>The byte order of the data accesses: little-endian or, with \<open>MO_BSWAP\<close>, big-endian.\<close>

definition byte_order :: "nat \<Rightarrow> bool \<Rightarrow> bool" where
  "byte_order be big \<longleftrightarrow> be = (if big then 8 else 0)"

lemma memop_fields:
  assumes "byte_order be big" and "sz \<le> 3"
  shows "memop_bytes (be + sz) = 2 ^ sz" "memop_bytes (be + sz + 4) = 2 ^ sz"
    "memop_swaps (be + sz) = big" "memop_swaps (be + sz + 4) = big"
    "\<not> bit (be + sz) 2" "bit (be + sz + 4) 2"
proof -
  from assms(2) have sz: "sz \<in> {0, 1, 2, 3}" by auto
  show "memop_bytes (be + sz) = 2 ^ sz" "memop_bytes (be + sz + 4) = 2 ^ sz"
    "memop_swaps (be + sz) = big" "memop_swaps (be + sz + 4) = big"
    "\<not> bit (be + sz) 2" "bit (be + sz + 4) 2"
    using sz assms(1) by (auto simp: byte_order_def memop_bytes_def memop_swaps_def bit_iff_odd split: if_splits)
qed

context tcg_memory
begin

lemma wp_syndrome:
  assumes "\<And>s'. \<forall>x. old64 s x \<longrightarrow> old64 s' x \<Longrightarrow> dc_pc s' = dc_pc s \<Longrightarrow> data_access s' = data_access s \<Longrightarrow>
    next_i32 s' = next_i32 s \<Longrightarrow> Q () s' m"
  shows "wp S (disas_set_insn_syndrome syn) Q s m"
  unfolding disas_set_insn_syndrome_def
  by (intro wp exec1_running; (simp only: insn_param)?; (rule assms)?; simp add: old64_def data_access_def)

lemma wp_gpr_ld:
  assumes "sz \<le> 3" and be: "data_access s = (be, i)" "byte_order be big" and ok: "ok j (r64 m a) (2 ^ sz)" and d: "old64 s d"
    and Q: "\<And>s' m'. later {d} s s' m m' \<Longrightarrow> same_flags m m' \<Longrightarrow>
      r64 m' d = loaded sz is_signed ext (mem_read big (2 ^ sz) (r64 m a) (mem m)) \<Longrightarrow> Q () s' m'"
  shows "wp S (do_gpr_ld_memidx d a sz is_signed ext j v r sf ar) Q s m"
proof -
  note fields = memop_fields [OF be(2) assms(1)]
  from be(1) have be1: "dc_be_data s = be" by (simp add: data_access_def)
  show ?thesis
    unfolding do_gpr_ld_memidx_def
    by (intro wp_syndrome wp exec1_running; intro Q)
      (use d ok in \<open>simp_all add: be1 qemu_ld64 ops run_defs zreg_def fields loaded_def memop_extend_def low_word_def\<close>)
qed

lemma wp_gpr_st:
  assumes "sz \<le> 3" and be: "data_access s = (be, i)" "byte_order be big" and ok: "ok j (r64 m a) (2 ^ sz)"
    and Q: "\<And>s'. \<forall>x. old64 s x \<longrightarrow> old64 s' x \<Longrightarrow> dc_pc s' = dc_pc s \<Longrightarrow> data_access s' = data_access s \<Longrightarrow>
      next_i32 s' = next_i32 s \<Longrightarrow> Q () s' (m\<lparr>mem := mem_write big (2 ^ sz) (r64 m a) (r64 m x) (mem m)\<rparr>)"
  shows "wp S (do_gpr_st_memidx x a sz j v r sf ar) Q s m"
proof -
  note fields = memop_fields [OF be(2) assms(1)]
  from be(1) have be1: "dc_be_data s = be" by (simp add: data_access_def)
  show ?thesis
    unfolding do_gpr_st_memidx_def
    by (intro wp_syndrome wp exec1_running; (intro Q)?)
      (use ok in \<open>simp_all add: be1 qemu_st64 fields Q\<close>)
qed

end

section \<open>Instructions\<close>

text \<open>
  A load (\<open>opc \<noteq> 0\<close>) or a store of \<open>2 ^ sz\<close> bytes between register \<open>rt\<close> (31 is zero) and the address
  \<open>addr\<close>, with \<open>base\<close> written back to register \<open>rn\<close>, the stack pointer for 31, in the forms that do.
\<close>

definition ldst_outcome :: "cpu \<Rightarrow> nat \<Rightarrow> nat \<Rightarrow> bool \<Rightarrow> u64 \<Rightarrow> nat \<Rightarrow> bool \<Rightarrow> nat \<Rightarrow> u64 \<Rightarrow> cpu \<Rightarrow> bool" where
  "ldst_outcome m sz opc big addr rt wback rn base m' \<longleftrightarrow>
     (\<forall>k. r64 m' (X k) = (if wback \<and> k = rn then base
        else if opc \<noteq> 0 \<and> k = rt \<and> rt \<noteq> 31 then
          loaded sz (bit opc 1) (sz < 3 \<and> odd opc) (mem_read big (2 ^ sz) addr (mem m))
        else r64 m (X k))) \<and>
     r64 m' PC = r64 m PC \<and> printed m' = printed m \<and> vfp m' = vfp m \<and>
     mem m' = (if opc = 0 then mem_write big (2 ^ sz) addr (zreg m rt) (mem m) else mem m)"

lemma load_outcome:
  assumes "names rt t" and "opc \<noteq> 0" and "\<And>k. X k \<noteq> t \<Longrightarrow> r64 m' (X k) = r64 m (X k)"
    and "r64 m' t = loaded sz (bit opc 1) (sz < 3 \<and> odd opc) (mem_read big (2 ^ sz) addr (mem m))"
    and "r64 m' PC = r64 m PC" and "beyond m' = beyond m"
  shows "ldst_outcome m sz opc big addr rt False rn base m'"
  using assms by (auto simp: ldst_outcome_def names_def beyond_def split: if_split) (metis (full_types))+

lemma load_outcome_wback:
  assumes "names rt t" and "opc \<noteq> 0" and "\<And>k. X k \<noteq> t \<Longrightarrow> k \<noteq> rn \<Longrightarrow> r64 m' (X k) = r64 m (X k)"
    and "r64 m' (X rn) = base"
    and "X rn \<noteq> t \<Longrightarrow> t \<noteq> X rn \<Longrightarrow>
      r64 m' t = loaded sz (bit opc 1) (sz < 3 \<and> odd opc) (mem_read big (2 ^ sz) addr (mem m))"
    and "r64 m' PC = r64 m PC" and "beyond m' = beyond m"
  shows "ldst_outcome m sz opc big addr rt True rn base m'"
  using assms by (auto simp: ldst_outcome_def names_def beyond_def split: if_split) (metis (full_types))+

lemma store_outcome:
  assumes "opc = 0" and "\<And>k. r64 m' (X k) = r64 m (X k)"
    and "r64 m' PC = r64 m PC" and "beyond m' = (printed m, mem_write big (2 ^ sz) addr (zreg m rt) (mem m), vfp m)"
  shows "ldst_outcome m sz opc big addr rt False rn base m'"
  using assms by (auto simp: ldst_outcome_def beyond_def split: if_split)

lemma store_outcome_wback:
  assumes "opc = 0" and "\<And>k. k \<noteq> rn \<Longrightarrow> r64 m' (X k) = r64 m (X k)" and "r64 m' (X rn) = base"
    and "r64 m' PC = r64 m PC" and "beyond m' = (printed m, mem_write big (2 ^ sz) addr (zreg m rt) (mem m), vfp m)"
  shows "ldst_outcome m sz opc big addr rt True rn base m'"
  using assms by (auto simp: ldst_outcome_def beyond_def split: if_split)

text \<open>A pair: the second register of a load wins, the second word of a store is written last.\<close>

definition pair_outcome ::
    "cpu \<Rightarrow> nat \<Rightarrow> bool \<Rightarrow> bool \<Rightarrow> bool \<Rightarrow> u64 \<Rightarrow> nat \<Rightarrow> nat \<Rightarrow> bool \<Rightarrow> nat \<Rightarrow> u64 \<Rightarrow> cpu \<Rightarrow> bool" where
  "pair_outcome m sz is_load is_signed big addr rt rt2 wback rn base m' \<longleftrightarrow>
     (\<forall>k. r64 m' (X k) = (if wback \<and> k = rn then base
        else if is_load \<and> k = rt2 \<and> rt2 \<noteq> 31 then
          loaded sz is_signed False (mem_read big (2 ^ sz) (addr + 2 ^ sz) (mem m))
        else if is_load \<and> k = rt \<and> rt \<noteq> 31 then
          loaded sz is_signed False (mem_read big (2 ^ sz) addr (mem m))
        else r64 m (X k))) \<and>
     r64 m' PC = r64 m PC \<and> printed m' = printed m \<and> vfp m' = vfp m \<and>
     mem m' = (if is_load then mem m
       else mem_write big (2 ^ sz) (addr + 2 ^ sz) (zreg m rt2) (mem_write big (2 ^ sz) addr (zreg m rt) (mem m)))"

lemma pair_load_outcome:
  assumes "names rt t" and "names rt2 t2" and "\<And>k. X k \<noteq> t \<Longrightarrow> X k \<noteq> t2 \<Longrightarrow> r64 m' (X k) = r64 m (X k)"
    and "r64 m' t2 = loaded sz is_signed False (mem_read big (2 ^ sz) (addr + 2 ^ sz) (mem m))"
    and "t \<noteq> t2 \<Longrightarrow> r64 m' t = loaded sz is_signed False (mem_read big (2 ^ sz) addr (mem m))"
    and "r64 m' PC = r64 m PC" and "beyond m' = beyond m"
  shows "pair_outcome m sz True is_signed big addr rt rt2 False rn base m'"
  using assms by (auto simp: pair_outcome_def names_def beyond_def split: if_split) (metis (full_types))+

lemma pair_load_outcome_wback:
  assumes "names rt t" and "names rt2 t2" and "\<And>k. X k \<noteq> t \<Longrightarrow> X k \<noteq> t2 \<Longrightarrow> k \<noteq> rn \<Longrightarrow> r64 m' (X k) = r64 m (X k)"
    and "r64 m' (X rn) = base"
    and "X rn \<noteq> t2 \<Longrightarrow> t2 \<noteq> X rn \<Longrightarrow> r64 m' t2 = loaded sz is_signed False (mem_read big (2 ^ sz) (addr + 2 ^ sz) (mem m))"
    and "X rn \<noteq> t \<Longrightarrow> t \<noteq> X rn \<Longrightarrow> t \<noteq> t2 \<Longrightarrow> r64 m' t = loaded sz is_signed False (mem_read big (2 ^ sz) addr (mem m))"
    and "r64 m' PC = r64 m PC" and "beyond m' = beyond m"
  shows "pair_outcome m sz True is_signed big addr rt rt2 True rn base m'"
  using assms by (auto simp: pair_outcome_def names_def beyond_def split: if_split) (metis (full_types))+

lemma pair_store_outcome:
  assumes "\<And>k. r64 m' (X k) = r64 m (X k)"
    and "r64 m' PC = r64 m PC" and "beyond m' = (printed m,
      mem_write big (2 ^ sz) (addr + 2 ^ sz) (zreg m rt2) (mem_write big (2 ^ sz) addr (zreg m rt) (mem m)), vfp m)"
  shows "pair_outcome m sz False is_signed big addr rt rt2 False rn base m'"
  using assms by (auto simp: pair_outcome_def beyond_def split: if_split)

lemma pair_store_outcome_wback:
  assumes "\<And>k. k \<noteq> rn \<Longrightarrow> r64 m' (X k) = r64 m (X k)" and "r64 m' (X rn) = base"
    and "r64 m' PC = r64 m PC" and "beyond m' = (printed m,
      mem_write big (2 ^ sz) (addr + 2 ^ sz) (zreg m rt2) (mem_write big (2 ^ sz) addr (zreg m rt) (mem m)), vfp m)"
  shows "pair_outcome m sz False is_signed big addr rt rt2 True rn base m'"
  using assms by (auto simp: pair_outcome_def beyond_def split: if_split)

lemma beyond_eq: "beyond m' = beyond m \<longleftrightarrow> printed m' = printed m \<and> mem m' = mem m \<and> vfp m' = vfp m"
  by (auto simp: beyond_def)

lemma zreg_set64: "zreg (set64 d v m) n = (if n \<noteq> 31 \<and> X n = d then v else zreg m n)"
  by (simp add: zreg_def)

lemma zreg_store: "zreg (m\<lparr>mem := M\<rparr>) n = zreg m n"
  by (simp add: zreg_def)

lemma beyond_store: "beyond (m\<lparr>mem := M\<rparr>) = (printed m, M, vfp m)"
  by (simp add: beyond_def)

lemmas memory_simps = beyond_eq beyond_store zreg_set64 zreg_store

definition user_index :: "ARMMMUIdx \<Rightarrow> ARMMMUIdx" where
  "user_index i = (case i of S12NSE1 \<Rightarrow> S12NSE0 | S1SE1 \<Rightarrow> S1SE0 | _ \<Rightarrow> i)"

declare One_nat_def [simp del] if_split [split del] if_cong [cong]

context tcg_memory
begin

lemma wp_mem_index:
  assumes "data_access s = (be, i)" and "Q i s m"
  shows "wp S get_mem_index Q s m"
  using assms unfolding get_mem_index_def by (intro wp) (simp add: data_access_def)

lemmas ldst_rules = wp_mem_index wp_gpr_ld wp_gpr_st

lemma ldst_unsigned_run:
  fixes insn s m sz
  defines "addr \<equiv> r64 m (X (extract32 insn 5 5)) + of_nat (extract32 insn 10 12 * 2 ^ sz)"
  assumes "sz \<le> 3" and "\<not> (sz = 3 \<and> opc = 2)" and "\<not> (opc = 3 \<and> sz > 1)"
    and be: "data_access s = (be, i)" "byte_order be big" and ok: "ok i addr (2 ^ sz)"
  shows "wp S (disas_ldst_reg_unsigned_imm insn opc sz rt False) (\<lambda>_ s' m'.
    ldst_outcome m sz opc big addr rt False rn base m') s m"
proof -
  obtain off :: u64 where off: "of_nat (extract32 insn 10 12 * 2 ^ sz) = off" by blast
  show ?thesis
    using assms(2-4) be ok unfolding disas_ldst_reg_unsigned_imm_def ldst_reg_transfer_def do_gpr_st_def do_gpr_ld_def
      gen_check_sp_alignment_def Let_def addr_def off
    by (simp only: if_False if_True simp_thms off if_cancel, intro ldst_rules [where be = be and i = i]
      ldst_rules(2-3) [where be = be and i = i and big = big] run_rules,
      unfold run_defs beyond_eq)
    (((erule notE, (assumption | rule TrueI)) | (rule store_outcome store_outcome_wback, assumption) |
      (rule load_outcome load_outcome_wback, assumption, assumption))?;
      simp (no_asm_simp) add: ops run_simps memory_simps)+
qed

lemma ldst_roffset_run:
  fixes insn s m sz
  defines "addr \<equiv> r64 m (X (extract32 insn 5 5)) +
    extended (extract32 insn 13 3) (if extract32 insn 12 1 = 1 then sz else 0) (zreg m (extract32 insn 16 5))"
  assumes "sz \<le> 3" and "\<not> (sz = 3 \<and> opc = 2)" and "\<not> (opc = 3 \<and> sz > 1)" and "bit (extract32 insn 13 3) 1"
    and be: "data_access s = (be, i)" "byte_order be big" and ok: "ok i addr (2 ^ sz)"
  shows "wp S (disas_ldst_reg_roffset insn opc sz rt False) (\<lambda>_ s' m'.
    ldst_outcome m sz opc big addr rt False rn base m') s m"
proof -
  obtain opt where opt: "extract32 insn 13 3 = opt" by blast
  obtain n where n: "(if extract32 insn 12 1 = 1 then sz else 0) = n" by blast
  have "opt < 8" using extract32_less [of insn 13 3] by (simp add: opt)
  moreover have "n < 64" using assms(2) n by (auto split: if_splits)
  ultimately show ?thesis
    using assms(2-5) be ok unfolding disas_ldst_reg_roffset_def ldst_reg_transfer_def do_gpr_st_def do_gpr_ld_def
      gen_check_sp_alignment_def Let_def addr_def opt
    by (simp only: if_False if_True simp_thms if_cancel n, intro ldst_rules [where be = be and i = i]
      ldst_rules(2-3) [where be = be and i = i and big = big] wp_ext_and_shift_reg run_rules,
      unfold run_defs beyond_eq)
    (((erule notE, (assumption | rule TrueI)) | (rule store_outcome store_outcome_wback, assumption) |
      (rule load_outcome load_outcome_wback, assumption, assumption))?;
      simp (no_asm_simp) add: ops run_simps memory_simps)+
qed

text \<open>The regime of the unprivileged accesses.\<close>

lemma wp_user_mem_index:
  assumes "data_access s = (be, i)" and "i \<noteq> S2NS" and "Q (user_index i) s m"
  shows "wp S get_a64_user_mem_index Q s m"
  using assms unfolding get_a64_user_mem_index_def
  by (cases i; intro wp; simp add: data_access_def user_index_def; intro wp; simp)

lemma ldst_imm9_run:
  fixes insn s m sz
  defines "base \<equiv> r64 m (X (extract32 insn 5 5))" and "imm \<equiv> word_of_int (sextract32 insn 12 9)"
    and "idx \<equiv> extract32 insn 10 2"
  assumes "sz \<le> 3" and "\<not> (sz = 3 \<and> opc = 2)" and "\<not> (opc = 3 \<and> sz > 1)" and i: "i \<noteq> S2NS"
    and be: "data_access s = (be, i)" "byte_order be big"
    and ok: "ok (if idx = 2 then user_index i else i) (if idx = 1 then base else base + imm) (2 ^ sz)"
  shows "wp S (disas_ldst_reg_imm9 insn opc sz rt False) (\<lambda>_ s' m'.
    ldst_outcome m sz opc big (if idx = 1 then base else base + imm) rt (idx = 1 \<or> idx = 3)
      (extract32 insn 5 5) (base + imm) m') s m"
proof -
  have "idx \<in> {0, 1, 2, 3}" using extract32_less [of insn 10 2] unfolding idx_def by auto
  then show ?thesis
    using assms(4-6) i be ok unfolding disas_ldst_reg_imm9_def gen_check_sp_alignment_def Let_def
    by (fold idx_def imm_def base_def, elim insertE emptyE; simp only: rel_simps zero_neq_one one_eq_numeral_iff
        zero_neq_numeral numeral_eq_iff numeral_eq_one_iff num.simps if_False if_True simp_thms if_cancel;
      intro wp_user_mem_index [where be = be and i = i] ldst_rules [where be = be and i = i]
      ldst_rules(2-3) [where be = be and i = i and big = big] run_rules;
      unfold run_defs beyond_eq base_def)
    (((erule notE, (assumption | rule TrueI)) | (rule store_outcome store_outcome_wback, assumption) |
      (rule load_outcome load_outcome_wback, assumption, assumption))?;
      simp (no_asm_simp) add: ops run_simps memory_simps)+
qed

lemma ldst_pair_run:
  fixes insn s m
  defines "base \<equiv> r64 m (X (extract32 insn 5 5))" and "opc \<equiv> extract32 insn 30 2" and "index \<equiv> extract32 insn 23 2"
    and "is_load \<equiv> extract32 insn 22 1 = 1"
  defines "sz \<equiv> 2 + (if bit opc 1 then 1 else 0)"
  defines "offset \<equiv> push_bit sz (word_of_int (sextract32 insn 15 7))"
  defines "addr \<equiv> if index = 1 then base else base + offset"
  assumes "extract32 insn 26 1 \<noteq> 1" and "opc \<noteq> 3" and "\<not> (\<not> is_load \<and> odd opc)" and "\<not> (index = 0 \<and> odd opc)"
    and be: "data_access s = (be, i)" "byte_order be big" and ok: "ok i addr (2 ^ sz)" "ok i (addr + 2 ^ sz) (2 ^ sz)"
  shows "wp S (disas_ldst_pair insn) (\<lambda>_ s' m'.
    pair_outcome m sz is_load (odd opc) big addr (extract32 insn 0 5) (extract32 insn 10 5) (index = 1 \<or> index = 3)
      (extract32 insn 5 5) (base + offset) m') s m"
proof -
  have "index \<in> {0, 1, 2, 3}" using extract32_less [of insn 23 2] unfolding index_def by auto
  moreover obtain rt where rt: "extract32 insn 0 5 = rt" by blast
  moreover obtain rt2 where rt2: "extract32 insn 10 5 = rt2" by blast
  moreover have sz: "sz \<le> 3" unfolding sz_def by (simp split: if_split)
  moreover obtain step :: u64 where step: "2 ^ sz = step" by blast
  ultimately show ?thesis
    using assms(8-11) be ok unfolding disas_ldst_pair_def ldst_pair_one_def do_gpr_st_def do_gpr_ld_def
      gen_check_sp_alignment_def Let_def rt rt2 addr_def step
    by (fold opc_def index_def is_load_def, cases is_load; elim insertE emptyE;
      simp only: rel_simps zero_neq_one one_eq_numeral_iff zero_neq_numeral numeral_eq_iff numeral_eq_one_iff num.simps
        if_False if_True simp_thms if_cancel HOL.not_not sz_def [symmetric] offset_def [symmetric] step;
      intro ldst_rules [where be = be and i = i] ldst_rules(2-3) [where be = be and i = i and big = big] run_rules;
      unfold run_defs beyond_eq base_def)
    (((erule notE, (assumption | rule TrueI)) | (rule pair_store_outcome pair_store_outcome_wback) |
      (rule pair_load_outcome pair_load_outcome_wback, assumption, assumption))?;
      simp (no_asm_simp) add: ops run_simps memory_simps step)+
qed

end

declare One_nat_def [simp] if_split [split] if_weak_cong [cong]

section \<open>The properties\<close>

text \<open>The address, whether the base register is written back and with what, and the translation regime.\<close>

definition address_mode :: "cpu \<Rightarrow> u32 \<Rightarrow> ARMMMUIdx \<Rightarrow> u64 \<times> bool \<times> u64 \<times> ARMMMUIdx" where
  "address_mode m insn i =
     (let base = r64 m (X (extract32 insn 5 5)); sz = extract32 insn 30 2; idx = extract32 insn 10 2;
          imm9 = word_of_int (sextract32 insn 12 9)
      in if extract32 insn 24 2 = 1 then (base + of_nat (extract32 insn 10 12 * 2 ^ sz), False, 0, i)
         else if extract32 insn 21 1 = 1 \<and> idx = 2 then
           (base + extended (extract32 insn 13 3) (if extract32 insn 12 1 = 1 then sz else 0) (zreg m (extract32 insn 16 5)),
            False, 0, i)
         else (if idx = 1 then base else base + imm9, idx = 1 \<or> idx = 3, base + imm9, if idx = 2 then user_index i else i))"

text \<open>The encodings of the loads and stores of a general register that are allocated and no prefetch.\<close>

definition ldst_allocated :: "u32 \<Rightarrow> bool" where
  "ldst_allocated insn =
     (let sz = extract32 insn 30 2; opc = extract32 insn 22 2
      in extract32 insn 26 1 \<noteq> 1 \<and> \<not> (sz = 3 \<and> opc = 2) \<and> \<not> (opc = 3 \<and> 1 < sz) \<and> extract32 insn 24 2 \<le> 1 \<and>
         (extract32 insn 24 2 = 0 \<and> extract32 insn 21 1 = 1 \<and> extract32 insn 10 2 = 2 \<longrightarrow> bit (extract32 insn 13 3) 1))"

context tcg_memory
begin

lemma ldst_reg_run:
  assumes alloc: "ldst_allocated insn" and i: "i \<noteq> S2NS" and be: "data_access s = (be, i)" "byte_order be big"
    and mode: "address_mode m insn i = (addr, wback, base, j)" and ok: "ok j addr (2 ^ extract32 insn 30 2)"
  shows "wp S (disas_ldst_reg insn) (\<lambda>_ s' m'. ldst_outcome m (extract32 insn 30 2) (extract32 insn 22 2) big addr
    (extract32 insn 0 5) wback (extract32 insn 5 5) base m') s m"
proof -
  have sz: "extract32 insn 30 2 \<le> 3" using extract32_less [of insn 30 2] by simp
  consider (unsigned) "extract32 insn 24 2 = 1"
    | (roffset) "extract32 insn 24 2 = 0" "extract32 insn 21 1 = 1" "extract32 insn 10 2 = 2"
    | (imm9) "extract32 insn 24 2 = 0" "\<not> (extract32 insn 21 1 = 1 \<and> extract32 insn 10 2 = 2)"
    using alloc unfolding ldst_allocated_def Let_def by linarith
  then show ?thesis
  proof cases
    case unsigned
    with mode alloc have "wback = False" "base = 0" "j = i"
      "addr = r64 m (X (extract32 insn 5 5)) + of_nat (extract32 insn 10 12 * 2 ^ extract32 insn 30 2)"
      by (simp_all add: address_mode_def Let_def)
    moreover have "disas_ldst_reg insn =
        disas_ldst_reg_unsigned_imm insn (extract32 insn 22 2) (extract32 insn 30 2) (extract32 insn 0 5) False"
      using unsigned alloc by (simp add: disas_ldst_reg_def ldst_allocated_def Let_def)
    ultimately show ?thesis
      using alloc ok ldst_unsigned_run [of "extract32 insn 30 2" "extract32 insn 22 2" s be i big m insn]
        sz be by (simp only: ldst_allocated_def Let_def simp_thms True_implies_equals)
  next
    case roffset
    with mode alloc have "wback = False" "base = 0" "j = i"
      "addr = r64 m (X (extract32 insn 5 5)) + extended (extract32 insn 13 3)
        (if extract32 insn 12 1 = 1 then extract32 insn 30 2 else 0) (zreg m (extract32 insn 16 5))"
      by (simp_all add: address_mode_def Let_def)
    moreover have "disas_ldst_reg insn =
        disas_ldst_reg_roffset insn (extract32 insn 22 2) (extract32 insn 30 2) (extract32 insn 0 5) False"
      using roffset alloc by (simp add: disas_ldst_reg_def ldst_allocated_def Let_def)
    ultimately show ?thesis
      using alloc roffset ok ldst_roffset_run [of "extract32 insn 30 2" "extract32 insn 22 2" insn s be i big m]
        sz be by (simp only: ldst_allocated_def Let_def simp_thms True_implies_equals)
  next
    case imm9
    let ?idx = "extract32 insn 10 2" and ?base = "r64 m (X (extract32 insn 5 5))" and ?imm = "word_of_int (sextract32 insn 12 9)"
    from imm9 mode alloc have "wback = (?idx = 1 \<or> ?idx = 3)" "base = ?base + ?imm" "j = (if ?idx = 2 then user_index i else i)"
      "addr = (if ?idx = 1 then ?base else ?base + ?imm)"
      by (auto simp: address_mode_def Let_def)
    moreover have "disas_ldst_reg insn = disas_ldst_reg_imm9 insn (extract32 insn 22 2) (extract32 insn 30 2) (extract32 insn 0 5) False"
      using imm9 alloc by (auto simp: disas_ldst_reg_def ldst_allocated_def Let_def)
    ultimately show ?thesis
      using alloc ok ldst_imm9_run [of "extract32 insn 30 2" "extract32 insn 22 2" i s be big insn m "extract32 insn 0 5"]
        sz be i by (simp only: ldst_allocated_def Let_def simp_thms True_implies_equals)
  qed
qed

end

lemma runs_to_mono: "runs_to S f s m Q \<Longrightarrow> (\<And>m'. Q m' \<Longrightarrow> Q' m') \<Longrightarrow> runs_to S f s m Q'"
  by (auto simp: runs_to_def)

text \<open>C8: C1:
  The loads and stores of a general register, of one to eight bytes, zero or sign extended, with an
  unsigned offset, a signed offset with or without write-back before or after the access, the
  unprivileged forms and the register offset, follow the architecture in either byte order: running
  the code writes the bytes of the register to memory at the address of the addressing mode, or the extended
  bytes from there to the register, writes the base back in the forms that do, and changes nothing else.
\<close>

theorem load_store_architecture:
  assumes "tcg_memory S ok" and "ldst_allocated insn" and "i \<noteq> S2NS" and "data_access s = (be, i)" and "byte_order be big"
    and "address_mode m insn i = (addr, wback, base, j)" and "ok j addr (2 ^ extract32 insn 30 2)"
  shows "runs_to S (disas_ldst_reg insn) s m (ldst_outcome m (extract32 insn 30 2) (extract32 insn 22 2) big addr
    (extract32 insn 0 5) wback (extract32 insn 5 5) base)"
  by (intro wp_runs_to tcg_memory.ldst_reg_run [OF assms(1,2,3) _ assms(5-7)]) (use assms(4) in \<open>simp add: data_access_def\<close>)

theorem load_store_architecture_witness:
  "runs_to ref_sem (disas_ldst_reg 0xb8404c20) dc0 cpu0 (ldst_outcome cpu0 2 1 False 4 0 True 1 4)"
proof -
  have "ldst_allocated 0xb8404c20" "address_mode cpu0 0xb8404c20 S12NSE1 = (4, True, 4, S12NSE1)"
    "extract32 0xb8404c20 30 2 = 2" "extract32 0xb8404c20 22 2 = 1" "extract32 0xb8404c20 0 5 = 0" "extract32 0xb8404c20 5 5 = 1"
    by code_simp+
  moreover have "data_access dc0 = (0, S12NSE1)" by (simp add: data_access_def dc0_def)
  moreover have "byte_order 0 False" by (simp add: byte_order_def)
  ultimately show ?thesis
    using load_store_architecture [OF ref_memory.tcg_memory_axioms, of "0xb8404c20" S12NSE1 dc0 0 False cpu0 4 True 4 S12NSE1] by simp
qed

text \<open>C30: C2:
  What a store writes, a load of the same size from the same address in the same byte order reads back:
  the register of the load receives the low bytes of the register of the store, zero extended.
\<close>

theorem store_load_roundtrip:
  assumes "tcg_memory S ok" and st: "ldst_allocated st" "extract32 st 22 2 = 0" and ld: "ldst_allocated ld" "extract32 ld 22 2 = 1"
    and sz: "extract32 ld 30 2 = extract32 st 30 2" and rt: "extract32 ld 0 5 \<noteq> 31" "extract32 ld 0 5 \<noteq> extract32 ld 5 5"
    and i: "i \<noteq> S2NS" and be: "data_access s = (be, i)" "data_access s' = (be, i)" "byte_order be big"
    and mode: "address_mode m st i = (addr, wback, base, j)" and ok: "ok j addr (2 ^ extract32 st 30 2)"
  shows "runs_to S (disas_ldst_reg st) s m (\<lambda>m'. \<forall>wback' base'. address_mode m' ld i = (addr, wback', base', j) \<longrightarrow>
    runs_to S (disas_ldst_reg ld) s' m' (\<lambda>m''.
      r64 m'' (X (extract32 ld 0 5)) = take_bit (8 * 2 ^ extract32 st 30 2) (zreg m (extract32 st 0 5))))"
proof -
  have be': "data_access (s\<lparr>code := []\<rparr>) = (be, i)" "data_access (s'\<lparr>code := []\<rparr>) = (be, i)"
    using be(1,2) by (simp_all add: data_access_def)
  note runs = wp_runs_to [OF tcg_memory.ldst_reg_run [OF assms(1) _ i]]
  have "extract32 st 30 2 \<in> {0, 1, 2, 3}" using extract32_less [of st 30 2] by auto
  then have small: "2 ^ extract32 st 30 2 \<le> (8 :: nat)" by auto
  have later: "runs_to S (disas_ldst_reg ld) s' m' (\<lambda>m''.
      r64 m'' (X (extract32 ld 0 5)) = take_bit (8 * 2 ^ extract32 st 30 2) (zreg m (extract32 st 0 5)))"
    if m': "ldst_outcome m (extract32 st 30 2) (extract32 st 22 2) big addr (extract32 st 0 5) wback (extract32 st 5 5) base m'"
      and mode': "address_mode m' ld i = (addr, wback', base', j)" for m' wback' base'
    using m' rt ok sz by (intro runs_to_mono [OF runs [OF ld(1) be'(2) be(3) mode']])
      (auto simp: ldst_outcome_def loaded_def st(2) ld(2) mem_read_write [OF small] bit_1_iff)
  show ?thesis
    using ok later by (intro runs_to_mono [OF runs [OF st(1) be'(1) be(3) mode]]) auto
qed

theorem store_load_roundtrip_witness:
  "runs_to ref_sem (disas_ldst_reg 0xb9000420) dc0 cpu0 (\<lambda>m'. \<forall>wback' base'.
    address_mode m' 0xb9400422 S12NSE1 = (4, wback', base', S12NSE1) \<longrightarrow>
    runs_to ref_sem (disas_ldst_reg 0xb9400422) dc0 m' (\<lambda>m''. r64 m'' (X 2) = take_bit 32 (zreg cpu0 0)))"
proof -
  have "ldst_allocated 0xb9000420" "extract32 0xb9000420 22 2 = 0" "ldst_allocated 0xb9400422" "extract32 0xb9400422 22 2 = 1"
    "extract32 0xb9400422 30 2 = 2" "extract32 0xb9000420 30 2 = 2" "extract32 0xb9400422 0 5 = 2" "extract32 0xb9400422 5 5 = 1"
    "extract32 0xb9000420 0 5 = 0" "address_mode cpu0 0xb9000420 S12NSE1 = (4, False, 0, S12NSE1)" by code_simp+
  moreover have "data_access dc0 = (0, S12NSE1)" by (simp add: data_access_def dc0_def)
  moreover have "byte_order 0 False" by (simp add: byte_order_def)
  ultimately show ?thesis
    using store_load_roundtrip [OF ref_memory.tcg_memory_axioms, of "0xb9000420" "0xb9400422" S12NSE1 dc0 0 dc0 False cpu0 4 False 0 S12NSE1]
    by simp
qed

text \<open>C3:
  The pairs likewise: two registers are stored at or loaded from adjacent words, sign extended by
  \<open>LDPSW\<close>, with the write-back of the base in the forms that do.
\<close>

theorem pair_architecture:
  assumes "tcg_memory S ok" and "extract32 insn 26 1 \<noteq> 1" and "opc = extract32 insn 30 2" and "index = extract32 insn 23 2"
    and "is_load \<longleftrightarrow> extract32 insn 22 1 = 1" and "opc \<noteq> 3" and "odd opc \<Longrightarrow> is_load \<and> index \<noteq> 0"
    and "data_access s = (be, i)" and "byte_order be big" and "sz = 2 + (if bit opc 1 then 1 else 0)"
    and "base = r64 m (X (extract32 insn 5 5))" and "offset = push_bit sz (word_of_int (sextract32 insn 15 7))"
    and "addr = (if index = 1 then base else base + offset)" and "ok i addr (2 ^ sz)" and "ok i (addr + 2 ^ sz) (2 ^ sz)"
  shows "runs_to S (disas_ldst_pair insn) s m (pair_outcome m sz is_load (odd opc) big addr (extract32 insn 0 5)
    (extract32 insn 10 5) (index = 1 \<or> index = 3) (extract32 insn 5 5) (base + offset))"
proof -
  have "data_access (s\<lparr>code := []\<rparr>) = (be, i)" using assms(8) by (simp add: data_access_def)
  moreover have load: "is_load = (extract32 insn 22 1 = 1)" using assms(5) by simp
  note eqs = assms(13,12,11,10) load assms(3,4)
  ultimately show ?thesis
    unfolding eqs using assms(2,6,7,9,14,15)
    by (intro wp_runs_to tcg_memory.ldst_pair_run [OF assms(1)]) (unfold eqs, (assumption | blast)+)
qed

theorem pair_architecture_witness:
  "runs_to ref_sem (disas_ldst_pair 0xa8c17bfd) dc0 cpu0 (pair_outcome cpu0 3 True False False 0 29 30 True 31 16)"
proof -
  have "extract32 0xa8c17bfd 26 1 \<noteq> 1" "extract32 0xa8c17bfd 30 2 = 2" "extract32 0xa8c17bfd 23 2 = 1" "extract32 0xa8c17bfd 22 1 = 1"
    "sextract32 0xa8c17bfd 15 7 = 2" "extract32 0xa8c17bfd 0 5 = 29" "extract32 0xa8c17bfd 10 5 = 30" "extract32 0xa8c17bfd 5 5 = 31"
    by code_simp+
  note word = this
  moreover have "data_access dc0 = (0, S12NSE1)" by (simp add: data_access_def dc0_def)
  moreover have "byte_order 0 False" by (simp add: byte_order_def)
  moreover have "bit (2 :: nat) 1" "push_bit 3 2 = (16 :: u64)" "r64 cpu0 (X 31) = 0" by code_simp+
  ultimately have "runs_to ref_sem (disas_ldst_pair 0xa8c17bfd) dc0 cpu0 (pair_outcome cpu0 3 True (odd (2 :: nat)) False 0
      (extract32 0xa8c17bfd 0 5) (extract32 0xa8c17bfd 10 5) ((1 :: nat) = 1 \<or> (1 :: nat) = 3) (extract32 0xa8c17bfd 5 5) (0 + 16))"
    by (intro pair_architecture [OF ref_memory.tcg_memory_axioms, where be = 0 and i = S12NSE1 and opc = 2 and index = 1]) simp_all
  then show ?thesis
    by (simp add: word)
qed

end
