(* ===== verification/A64Excl.thy ===== *)
theory A64Excl
  imports A64Mem
begin

text \<open>
  The exclusive loads and stores: the monitor of the processor is the address, the value and, for a
  pair, the second value of the last exclusive load; a store checks it and clears it.
\<close>

section \<open>Exclusive stores\<close>

text \<open>What decides a store: the address is the one marked and memory still holds the values loaded.\<close>

definition monitor_open :: "cpu \<Rightarrow> nat \<Rightarrow> bool \<Rightarrow> bool \<Rightarrow> u64 \<Rightarrow> bool" where
  "monitor_open m sz is_pair big addr \<longleftrightarrow> addr = r64 m EXCL \<and>
     mem_read big (2 ^ sz) addr (mem m) = r64 m EXCL_VAL \<and>
     (is_pair \<longrightarrow> mem_read big (2 ^ sz) (addr + 2 ^ sz) (mem m) = r64 m EXCL_HIGH)"

definition store_exclusive_outcome ::
    "cpu \<Rightarrow> nat \<Rightarrow> bool \<Rightarrow> bool \<Rightarrow> u64 \<Rightarrow> nat \<Rightarrow> nat \<Rightarrow> nat \<Rightarrow> cpu \<Rightarrow> bool" where
  "store_exclusive_outcome m sz is_pair big addr rs rt rt2 m' \<longleftrightarrow>
     (\<forall>k. r64 m' (X k) = (if k = rs \<and> rs \<noteq> 31 then of_bool (\<not> monitor_open m sz is_pair big addr) else r64 m (X k))) \<and>
     r64 m' PC = r64 m PC \<and> r64 m' EXCL = - 1 \<and> printed m' = printed m \<and> vfp m' = vfp m \<and>
     mem m' = (if \<not> monitor_open m sz is_pair big addr then mem m
       else if is_pair then mem_write big (2 ^ sz) (addr + 2 ^ sz) (zreg m rt2) (mem_write big (2 ^ sz) addr (zreg m rt) (mem m))
       else mem_write big (2 ^ sz) addr (zreg m rt) (mem m))"

section \<open>Exclusive loads\<close>

text \<open>The registers, the first one last; the monitor is open for the access.\<close>

definition load_exclusive_outcome :: "cpu \<Rightarrow> nat \<Rightarrow> bool \<Rightarrow> bool \<Rightarrow> u64 \<Rightarrow> nat \<Rightarrow> nat \<Rightarrow> cpu \<Rightarrow> bool" where
  "load_exclusive_outcome m sz is_pair big addr rt rt2 m' \<longleftrightarrow>
     (\<forall>k. r64 m' (X k) = (if k = rt \<and> rt \<noteq> 31 then mem_read big (2 ^ sz) addr (mem m)
        else if is_pair \<and> k = rt2 \<and> rt2 \<noteq> 31 then mem_read big (2 ^ sz) (addr + 2 ^ sz) (mem m)
        else r64 m (X k))) \<and>
     r64 m' PC = r64 m PC \<and> printed m' = printed m \<and> vfp m' = vfp m \<and> mem m' = mem m \<and>
     monitor_open m' sz is_pair big addr"

lemma skip_bind: "skip \<bind> (\<lambda>_. f) = f"
  by (rule state.expand) (simp add: fun_eq_iff)

context tcg_memory
begin

lemma store_exclusive_run:
  fixes insn :: u32 and m :: cpu
  defines "sz \<equiv> extract32 insn 30 2" and "is_pair \<equiv> extract32 insn 21 1 = 1" and "addr \<equiv> r64 m (X (extract32 insn 5 5))"
  assumes insn: "extract32 insn 22 1 = 0" "extract32 insn 23 1 = 0" "\<not> (is_pair \<and> sz < 2)" "\<not> user_only s"
    and be: "data_access s = (be, i)" "byte_order be big"
    and ok: "ok i addr (2 ^ sz)" "ok i (addr + 2 ^ sz) (2 ^ sz)"
  shows "runs_to S (disas_ldst_excl insn) s m
    (store_exclusive_outcome m sz is_pair big addr (extract32 insn 16 5) (extract32 insn 0 5) (extract32 insn 10 5))"
proof -
  obtain rt rt2 rs where r: "extract32 insn 0 5 = rt" "extract32 insn 10 5 = rt2" "extract32 insn 16 5 = rs" by blast
  have "sz \<le> 3" using extract32_less [of insn 30 2] unfolding sz_def by simp
  note fields = memop_fields [OF be(2) this]
  from be have ctx: "dc_be_data s = be" "dc_mmu_idx s = i" by (simp_all add: data_access_def)
  have decode: "disas_ldst_excl insn = do {
      tcg_addr \<leftarrow> read_cpu_reg_sp (extract32 insn 5 5) True;
      user \<leftarrow> get_dc user_only;
      if user then gen_store_exclusive_user rs rt rt2 tcg_addr sz (extract32 insn 21 1)
      else gen_store_exclusive_system rs rt rt2 tcg_addr sz is_pair }"
    using insn unfolding disas_ldst_excl_def Let_def r gen_check_sp_alignment_def is_pair_def sz_def
    by (cases "extract32 insn 21 1 = 1") (simp_all add: skip_bind)
  note run = runs_to_def gen_store_exclusive_system_def emitted_def get_mem_index_def cpu_reg_def new_tmp_a64_zero_def
    new_tmp_a64_def ops conds qemu_ld64 qemu_st64 fields memop_extend_def ctx insn(4) read_cpu_reg_sp_def r
  note outcome = store_exclusive_outcome_def monitor_open_def beyond_def zreg_def
  obtain a where a: "addr = a" "r64 m (X (extract32 insn 5 5)) = a" unfolding addr_def by blast
  with ok have ok': "ok i a (2 ^ sz)" "ok i (a + 2 ^ sz) (2 ^ sz)" by simp_all
  consider "r64 m EXCL \<noteq> a" "a \<noteq> r64 m EXCL"
    | "r64 m EXCL = a" "mem_read big (2 ^ sz) a (mem m) \<noteq> r64 m EXCL_VAL"
    | "r64 m EXCL = a" "mem_read big (2 ^ sz) a (mem m) = r64 m EXCL_VAL" by auto
  then show ?thesis
  proof cases
    case 1
    then show ?thesis
      apply (cases is_pair; cases "rt = 31"; cases "rt2 = 31"; cases "rs = 31"; simp add: decode run a ok'; simp add: outcome)
      done
  next
    case 2
    then show ?thesis
      by (cases is_pair; cases "rt = 31"; cases "rt2 = 31"; cases "rs = 31"; simp add: decode run a ok'; simp add: outcome)
  next
    case 3
    then show ?thesis
      by (cases is_pair; cases "mem_read big (2 ^ sz) (a + 2 ^ sz) (mem m) = r64 m EXCL_HIGH";
          cases "rt = 31"; cases "rt2 = 31"; cases "rs = 31"; simp add: decode run a ok'; simp add: outcome)
  qed
qed

lemma load_exclusive_run:
  fixes insn :: u32 and m :: cpu
  defines "sz \<equiv> extract32 insn 30 2" and "is_pair \<equiv> extract32 insn 21 1 = 1" and "addr \<equiv> r64 m (X (extract32 insn 5 5))"
  assumes insn: "extract32 insn 22 1 \<noteq> 0" "extract32 insn 23 1 = 0" "\<not> (is_pair \<and> sz < 2)"
    and be: "data_access s = (be, i)" "byte_order be big"
    and ok: "ok i addr (2 ^ sz)" "ok i (addr + 2 ^ sz) (2 ^ sz)"
  shows "runs_to S (disas_ldst_excl insn) s m
    (load_exclusive_outcome m sz is_pair big addr (extract32 insn 0 5) (extract32 insn 10 5))"
proof -
  obtain rt rt2 where r: "extract32 insn 0 5 = rt" "extract32 insn 10 5 = rt2" by blast
  have "sz \<le> 3" using extract32_less [of insn 30 2] unfolding sz_def by simp
  note fields = memop_fields [OF be(2) this]
  from be have ctx: "dc_be_data s = be" "dc_mmu_idx s = i" by (simp_all add: data_access_def)
  have decode: "disas_ldst_excl insn = do {
      tcg_addr \<leftarrow> read_cpu_reg_sp (extract32 insn 5 5) True;
      set_dc (\<lambda>s. s\<lparr>dc_is_ldex := True\<rparr>);
      gen_load_exclusive rt rt2 tcg_addr sz is_pair }"
    using insn unfolding disas_ldst_excl_def Let_def r gen_check_sp_alignment_def is_pair_def sz_def
    by (cases "extract32 insn 21 1 = 1") (simp_all add: skip_bind)
  note run = runs_to_def gen_load_exclusive_def emitted_def get_mem_index_def cpu_reg_def new_tmp_a64_zero_def
    new_tmp_a64_def ops qemu_ld64 fields memop_extend_def ctx read_cpu_reg_sp_def r Let_def
  obtain a where a: "addr = a" "r64 m (X (extract32 insn 5 5)) = a" unfolding addr_def by blast
  with ok have "ok i a (2 ^ sz)" "ok i (a + 2 ^ sz) (2 ^ sz)" by simp_all
  then show ?thesis
    by (cases is_pair; cases "rt = 31"; cases "rt2 = 31"; simp add: decode run a; simp add: load_exclusive_outcome_def monitor_open_def)
qed

end

section \<open>The property\<close>

text \<open>C24: C4:
  The exclusive accesses implement the monitor: a load exclusive leaves the monitor open for its address
  and the values it loaded; a store exclusive stores, and answers 0, exactly when the monitor is open for its
  address and memory still holds those values, answers 1 and stores nothing otherwise, and closes the
  monitor. A store to the address after a load with nothing in between therefore succeeds.
\<close>

theorem exclusive_monitor:
  assumes "tcg_memory S ok" and access: "data_access s = (be, i)" "byte_order be big"
    and ld: "extract32 ld 22 1 \<noteq> 0" "extract32 ld 23 1 = 0" "\<not> (extract32 ld 21 1 = 1 \<and> extract32 ld 30 2 < 2)"
      "ok i (r64 m (X (extract32 ld 5 5))) (2 ^ extract32 ld 30 2)"
      "ok i (r64 m (X (extract32 ld 5 5)) + 2 ^ extract32 ld 30 2) (2 ^ extract32 ld 30 2)"
    and st: "extract32 st 22 1 = 0" "extract32 st 23 1 = 0" "\<not> (extract32 st 21 1 = 1 \<and> extract32 st 30 2 < 2)" "\<not> user_only s"
      "ok i (r64 m (X (extract32 st 5 5))) (2 ^ extract32 st 30 2)"
      "ok i (r64 m (X (extract32 st 5 5)) + 2 ^ extract32 st 30 2) (2 ^ extract32 st 30 2)"
  shows "runs_to S (disas_ldst_excl ld) s m (load_exclusive_outcome m (extract32 ld 30 2) (extract32 ld 21 1 = 1) big
      (r64 m (X (extract32 ld 5 5))) (extract32 ld 0 5) (extract32 ld 10 5)) \<and>
    runs_to S (disas_ldst_excl st) s m (store_exclusive_outcome m (extract32 st 30 2) (extract32 st 21 1 = 1) big
      (r64 m (X (extract32 st 5 5))) (extract32 st 16 5) (extract32 st 0 5) (extract32 st 10 5))"
  by (rule conjI [OF tcg_memory.load_exclusive_run [OF assms(1) ld(1-3) access ld(4,5)]
    tcg_memory.store_exclusive_run [OF assms(1) st(1-4) access st(5,6)]])

theorem exclusive_monitor_witness:
  "runs_to ref_sem (disas_ldst_excl 0xc85f7c20) dc0 cpu0 (load_exclusive_outcome cpu0 3 False False 0 0 31) \<and>
   runs_to ref_sem (disas_ldst_excl 0xc8027c20) dc0 cpu0 (store_exclusive_outcome cpu0 3 False False 0 2 0 31)"
proof -
  have ld: "extract32 0xc85f7c20 22 1 \<noteq> 0" "extract32 0xc85f7c20 23 1 = 0" "extract32 0xc85f7c20 21 1 = 0"
    "extract32 0xc85f7c20 30 2 = 3" "extract32 0xc85f7c20 5 5 = 1" "extract32 0xc85f7c20 0 5 = 0" "extract32 0xc85f7c20 10 5 = 31"
    and st: "extract32 0xc8027c20 22 1 = 0" "extract32 0xc8027c20 23 1 = 0" "extract32 0xc8027c20 21 1 = 0"
    "extract32 0xc8027c20 30 2 = 3" "extract32 0xc8027c20 5 5 = 1" "extract32 0xc8027c20 0 5 = 0" "extract32 0xc8027c20 10 5 = 31"
    "extract32 0xc8027c20 16 5 = 2" and x: "r64 cpu0 (X 1) = 0"
    by code_simp+
  have "data_access dc0 = (0, S12NSE1)" "byte_order 0 False" "\<not> user_only dc0"
    by (simp_all add: data_access_def dc0_def byte_order_def)
  then show ?thesis
    using exclusive_monitor [OF ref_memory.tcg_memory_axioms, where s = dc0 and be = 0 and i = S12NSE1 and big = False
        and ld = "0xc85f7c20" and m = cpu0 and st = "0xc8027c20"]
    by (simp add: ld st x del: One_nat_def)
qed

end
