(* ===== verification/A64FpMove.thy ===== *)
theory A64FpMove
  imports A64FpTidy A64Mem A64Cond
begin

text \<open>
  Running the floating-point instructions that move values without computing with them, against the
  architecture: the immediates, the moves between general and vector registers, and the conditional
  select, on a little-endian host.
\<close>

section \<open>Vector registers\<close>

text \<open>The two halves of register \<open>r\<close> in the array of the vector registers.\<close>

definition vreg :: "cpu \<Rightarrow> nat \<Rightarrow> u64 \<times> u64" where
  "vreg m r = (env_read 8 (16 * r) (vfp m), env_read 8 (16 * r + 8) (vfp m))"

text \<open>Nothing but vector register \<open>rd\<close> has changed, which now holds \<open>v\<close>.\<close>

definition vwrote :: "cpu \<Rightarrow> nat \<Rightarrow> u64 \<times> u64 \<Rightarrow> cpu \<Rightarrow> bool" where
  "vwrote m rd v m' \<longleftrightarrow> vreg m' rd = v \<and> (\<forall>r. r \<noteq> rd \<longrightarrow> vreg m' r = vreg m r) \<and>
     (\<forall>k. r64 m' (X k) = r64 m (X k)) \<and> r64 m' PC = r64 m PC \<and> flags m' = flags m \<and> mem m' = mem m \<and>
     printed m' = printed m"

lemma env_read_other:
  assumes "off + n \<le> off' \<or> off' + n' \<le> off"
  shows "env_read n off (env_write n' off' v V) = env_read n off V"
  using assms by (auto simp: env_read_def env_write_def intro!: arg_cong [where f = bytes_word])

lemma env_read_8: "env_read 8 off (env_write 8 off v V) = v"
  using env_read_write [of 8 off v V] by (simp add: take_bit_word_eq_self)

lemma env_read_low: "n \<le> l \<Longrightarrow> env_read n off V = take_bit (8 * n) (env_read l off V)"
  by (rule bit_word_eqI) (auto simp: env_read_def bit_bytes_word bit_simps)

lemma vreg_write:
  "vreg (m\<lparr>vfp := env_write 8 (16 * rd + 8) h (env_write 8 (16 * rd) l (vfp m))\<rparr>) r = (if r = rd then (l, h) else vreg m r)"
  "vreg (m\<lparr>vfp := env_write 8 (16 * rd + 8) h (vfp m)\<rparr>) r = (if r = rd then (fst (vreg m rd), h) else vreg m r)"
proof -
  have "r < rd \<or> r = rd \<or> rd < r" by auto
  then show "vreg (m\<lparr>vfp := env_write 8 (16 * rd + 8) h (env_write 8 (16 * rd) l (vfp m))\<rparr>) r = (if r = rd then (l, h) else vreg m r)"
    "vreg (m\<lparr>vfp := env_write 8 (16 * rd + 8) h (vfp m)\<rparr>) r = (if r = rd then (fst (vreg m rd), h) else vreg m r)"
    by (auto simp: vreg_def env_read_other env_read_8)
qed

lemma vreg_set64 [simp]: "vreg (set64 d v m) r = vreg m r" "vreg (set32 e w m) r = vreg m r"
  by (simp_all add: vreg_def)

text \<open>What a pair of stores to the halves leaves, up to temporaries.\<close>

lemma vwroteI:
  assumes "vfp m' = env_write 8 (16 * rd + 8) h (env_write 8 (16 * rd) l (vfp m))"
    and "\<And>k. r64 m' (X k) = r64 m (X k)" and "r64 m' PC = r64 m PC" and "flags m' = flags m" and "mem m' = mem m"
    and "printed m' = printed m"
  shows "vwrote m rd (l, h) m'"
proof -
  have "vreg m' r = vreg (m\<lparr>vfp := vfp m'\<rparr>) r" for r by (simp add: vreg_def)
  then show ?thesis unfolding vwrote_def using assms by (simp add: vreg_write)
qed

lemma vwrote_highI:
  assumes "vfp m' = env_write 8 (16 * rd + 8) h (vfp m)" and "l = fst (vreg m rd)"
    and "\<And>k. r64 m' (X k) = r64 m (X k)" and "r64 m' PC = r64 m PC" and "flags m' = flags m" and "mem m' = mem m"
    and "printed m' = printed m"
  shows "vwrote m rd (l, h) m'"
proof -
  have "vreg m' r = vreg (m\<lparr>vfp := vfp m'\<rparr>) r" for r by (simp add: vreg_def)
  then show ?thesis unfolding vwrote_def using assms by (simp add: vreg_write)
qed

section \<open>Immediates\<close>

text \<open>
  \<open>VFPExpandImm\<close> of the architecture, as the list of bits from the lowest: the fraction with its zeros,
  the exponent, the sign.
\<close>

definition vfp_expand_imm :: "bool \<Rightarrow> nat \<Rightarrow> u64" where
  "vfp_expand_imm is_double imm8 =
     (let E = (if is_double then 11 else 8); F = (if is_double then 52 else 23)
      in horner_sum of_bool 2 (replicate (F - 4) False @ map (bit imm8) [0..<6] @ replicate (E - 3) (bit imm8 6) @
        [\<not> bit imm8 6, bit imm8 7]))"

lemma fp_imm_bits:
  "extract32 (of_nat i) 7 1 \<noteq> 0 \<longleftrightarrow> bit i 7" "extract32 (of_nat i) 6 1 \<noteq> 0 \<longleftrightarrow> bit i 6"
  "bit (of_nat (extract32 (of_nat i) 0 6) :: u64) k \<longleftrightarrow> k < 6 \<and> bit i k"
proof -
  have "extract32 v k 1 \<noteq> 0 \<longleftrightarrow> bit v k" for v k
    by (simp add: extract32_def unat_eq_zero take_bit_Suc bit_iff_odd_drop_bit mod_2_eq_odd)
  then show "extract32 (of_nat i) 7 1 \<noteq> 0 \<longleftrightarrow> bit i 7" "extract32 (of_nat i) 6 1 \<noteq> 0 \<longleftrightarrow> bit i 6"
    by (simp_all add: bit_of_nat_iff)
  show "bit (of_nat (extract32 (of_nat i) 0 6) :: u64) k \<longleftrightarrow> k < 6 \<and> bit i k"
    by (auto simp: extract32_def bit_simps)
qed

lemma fp_imm_constants:
  "bit (0x8000 :: int) k \<longleftrightarrow> k = 15" "bit (0x4000 :: int) k \<longleftrightarrow> k = 14" "bit (0x3fc0 :: int) k \<longleftrightarrow> 6 \<le> k \<and> k < 14"
  "bit (0x3e00 :: int) k \<longleftrightarrow> 9 \<le> k \<and> k < 14"
proof -
  have "(0x8000 :: int) = push_bit 15 1" "(0x4000 :: int) = push_bit 14 1" "(0x3fc0 :: int) = push_bit 6 (mask 8)"
    "(0x3e00 :: int) = push_bit 9 (mask 5)" by (simp_all add: push_bit_eq_mult mask_eq_exp_minus_1)
  note c = this
  show "bit (0x8000 :: int) k \<longleftrightarrow> k = 15" unfolding c(1) bit_push_bit_iff bit_1_iff by auto
  show "bit (0x4000 :: int) k \<longleftrightarrow> k = 14" unfolding c(2) bit_push_bit_iff bit_1_iff by auto
  show "bit (0x3fc0 :: int) k \<longleftrightarrow> 6 \<le> k \<and> k < 14" unfolding c(3) bit_push_bit_iff bit_mask_iff by auto
  show "bit (0x3e00 :: int) k \<longleftrightarrow> 9 \<le> k \<and> k < 14" unfolding c(4) bit_push_bit_iff bit_mask_iff by auto
qed

lemma fp_imm_value_expands: "fp_imm_value is_double (of_nat i) = vfp_expand_imm is_double i"
proof (rule bit_word_eqI)
  fix k assume "k < LENGTH(64)"
  then have k: "k < 64" by simp
  obtain e :: u64 where e: "of_nat (extract32 (of_nat i) 0 6) = e" by blast
  have e_bit: "bit e k \<longleftrightarrow> k < 6 \<and> bit i k" for k using fp_imm_bits(3) [of i k] by (simp only: e)
  note defs = fp_imm_value_def vfp_expand_imm_def Let_def fp_imm_bits(1,2) e if_True if_False
  note bits = bit_push_bit_iff bit_or_iff possible_bit_word e_bit fp_imm_constants bit_horner_sum_bit_word_iff nth_append
  show "bit (fp_imm_value is_double (of_nat i)) k = bit (vfp_expand_imm is_double i) k"
  proof (cases is_double)
    case True
    have "k < 48 \<or> (\<exists>j<6. k = 48 + j) \<or> (\<exists>j<8. k = 54 + j) \<or> k = 62 \<or> k = 63" using k by presburger
    with True show ?thesis unfolding defs by (elim disjE exE conjE) (simp_all add: bits)
  next
    case False
    have "k < 19 \<or> (\<exists>j<6. k = 19 + j) \<or> (\<exists>j<5. k = 25 + j) \<or> k = 30 \<or> k = 31 \<or> 32 \<le> k" by presburger
    with False k show ?thesis unfolding defs by (elim disjE exE conjE; simp add: bits) auto
  qed
qed

section \<open>Running\<close>

text \<open>The valid forms of \<open>FMOV\<close> between general and vector registers, and what they leave.\<close>

definition fmov_valid :: "u32 \<Rightarrow> bool" where
  "fmov_valid insn \<longleftrightarrow> extract32 insn 29 1 = 0 \<and> extract32 insn 16 3 \<in> {6, 7} \<and>
     (extract32 insn 31 1, extract32 insn 22 2, extract32 insn 19 2) \<in> {(0, 0, 0), (1, 1, 0), (1, 2, 1)}"

definition fmov_outcome :: "u32 \<Rightarrow> cpu \<Rightarrow> cpu \<Rightarrow> bool" where
  "fmov_outcome insn m m' =
     (let type = extract32 insn 22 2; rn = extract32 insn 5 5; rd = extract32 insn 0 5
      in if extract32 insn 16 3 = 7 then
           vwrote m rd (if type = 0 then (take_bit 32 (zreg m rn), 0) else if type = 1 then (zreg m rn, 0)
             else (fst (vreg m rd), zreg m rn)) m'
         else
           wrote m False rd (if type = 0 then take_bit 32 (fst (vreg m rn)) else if type = 1 then fst (vreg m rn)
             else snd (vreg m rn)) m' \<and> same_flags m m')"

lemma fp_offsets: "fp_reg_offset s r 3 = 16 * r" "\<not> host_words_bigendian s \<Longrightarrow> fp_reg_offset s r sz = 16 * r"
  "fp_reg_hi_offset r = 16 * r + 8"
  by (simp_all add: fp_reg_offset_def fp_reg_hi_offset_def)

lemma memop_plain: "memop_bytes 3 = 8" "memop_bytes 2 = 4" "memop_extend 3 v = v" "memop_extend 2 v = v"
  by (simp_all add: memop_bytes_def memop_extend_def bit_iff_odd)

lemma flags_vfp [simp]: "flags (m\<lparr>vfp := V\<rparr>) = flags m" "flags_ok (m\<lparr>vfp := V\<rparr>) = flags_ok m"
  by (simp_all add: flags_def flags_ok_def)

lemma low_bits: "ucast (ucast (v :: u64) :: u32) = take_bit 32 v"
  by (rule bit_word_eqI) (auto simp: bit_simps)

context tcg_memory
begin

lemmas fp_move_simps = ops st_env64 ld_env64 memop_plain fp_offsets low_bits zreg_def

lemma wp_fp_access_check:
  assumes "dc_fp_excp_el s = 0" and "Q True ((add_assert (\<not> dc_fp_access_checked s) s)\<lparr>dc_fp_access_checked := True\<rparr>) m"
  shows "wp S fp_access_check Q s m"
  using assms by (simp add: wp_def fp_access_check_def add_defs)

lemma fp_imm_run:
  assumes "extract32 insn 22 2 \<le> 1" and "dc_fp_excp_el s = 0"
  shows "wp S (disas_fp_imm insn) (\<lambda>_ s' m'.
    vwrote m (extract32 insn 0 5) (vfp_expand_imm (extract32 insn 22 2 \<noteq> 0) (extract32 insn 13 8), 0) m') s m"
  using assms unfolding disas_fp_imm_def Let_def write_fp_dreg_def tcg_const_i64_def
  by (intro wp_fp_access_check wp exec1_running) (simp_all add: fp_move_simps fp_imm_value_expands vwroteI)

lemma fmov_to_vreg_run:
  assumes "type < 3"
  shows "wp S (handle_fmov rd rn type True) (\<lambda>_ s' m'.
    vwrote m rd (if type = 0 then (take_bit 32 (zreg m rn), 0) else if type = 1 then (zreg m rn, 0)
      else (fst (vreg m rd), zreg m rn)) m') s m"
  using assms unfolding handle_fmov_def cpu_reg_def new_tmp_a64_zero_def tcg_const_i64_def
  by (intro wp exec1_running) (simp_all add: fp_move_simps vwroteI vwrote_highI)

lemma fmov_from_vreg_run:
  assumes "type < 3" and "\<not> host_words_bigendian s"
  shows "wp S (handle_fmov rd rn type False) (\<lambda>_ s' m'.
    wrote m False rd (if type = 0 then take_bit 32 (fst (vreg m rn)) else if type = 1 then fst (vreg m rn) else snd (vreg m rn)) m' \<and>
    same_flags m m') s m"
  using assms unfolding handle_fmov_def cpu_reg_def new_tmp_a64_zero_def
  by (intro wp exec1_running)
    (simp_all add: fp_move_simps wrote_def same_flags_def vreg_def beyond_def env_read_low [of 4 8])

lemma fmov_run:
  assumes "fmov_valid insn" and "dc_fp_excp_el s = 0" and "\<not> host_words_bigendian s"
  shows "wp S (disas_fp_int_conv insn) (\<lambda>_ s' m'. fmov_outcome insn m m') s m"
  using assms unfolding disas_fp_int_conv_def Let_def
  by (intro wp_fp_access_check wp)
    (auto simp: fmov_valid_def fmov_outcome_def,
      (rule wp_mono, rule fmov_from_vreg_run fmov_to_vreg_run; simp)+)

lemma wp_read_vec_element:
  assumes "sz = 2 \<or> sz = 3" and "\<not> host_words_bigendian s"
    and "Q () (add_op (LdEnv64 sz d (16 * r)) s) (set64 d (env_read (2 ^ sz) (16 * r) (vfp m)) m)"
  shows "wp S (read_vec_element d r 0 sz) Q s m"
  using assms unfolding read_vec_element_def Let_def
  by (intro wp exec1_running; elim disjE) (simp_all add: vec_reg_offset_def fp_move_simps)

lemma fp_csel_run:
  assumes "extract32 insn 29 3 = 0" and "extract32 insn 22 2 \<le> 1" and "dc_fp_excp_el s = 0" and "\<not> host_words_bigendian s"
  shows "wp S (disas_fp_csel insn) (\<lambda>_ s' m'.
    let r = (if arm_condition (extract32 insn 12 4) (flags m) then extract32 insn 5 5 else extract32 insn 16 5)
    in vwrote m (extract32 insn 0 5) (if extract32 insn 22 2 = 1 then fst (vreg m r) else take_bit 32 (fst (vreg m r)), 0) m') s m"
proof -
  obtain sz where sz: "(if extract32 insn 22 2 \<noteq> 0 then MO_64 else 2) = sz" by blast
  then have cases: "sz = 2 \<or> sz = 3" and size: "sz = 3 \<longleftrightarrow> extract32 insn 22 2 = 1" using assms(2) by (auto split: if_splits)
  show ?thesis
    using assms cases
    by (cases "arm_condition (extract32 insn 12 4) (flags m)"; elim disjE; unfold disas_fp_csel_def Let_def write_fp_dreg_def
        tcg_const_i64_def a64_test_cc_def arm_test_cc_def a64_free_cc_def sz size [symmetric];
      intro wp_fp_access_check wp_read_vec_element wp wp_prod exec1_running;
      simp add: fp_move_simps conds vwroteI vreg_def env_read_low [of 4 8])
qed

end

section \<open>Properties\<close>

text \<open>C101:
  \<open>FMOV\<close> with an immediate writes the constant of the architecture's \<open>VFPExpandImm\<close> to the low half of the
  vector register, zero to the high half, and changes nothing else.
\<close>

theorem fp_imm_architecture:
  assumes "tcg_memory S ok" and "extract32 insn 22 2 \<le> 1" and "dc_fp_excp_el s = 0"
  shows "runs_to S (disas_fp_imm insn) s m
    (vwrote m (extract32 insn 0 5) (vfp_expand_imm (extract32 insn 22 2 \<noteq> 0) (extract32 insn 13 8), 0))"
  by (rule wp_runs_to, rule tcg_memory.fp_imm_run [OF assms(1,2)]) (simp add: assms(3))

theorem fp_imm_architecture_witness:
  "runs_to ref_sem (disas_fp_imm 0x1e6e1000) dc0 cpu0 (vwrote cpu0 0 (0x3ff0000000000000, 0))"
proof -
  have "extract32 0x1e6e1000 22 2 = 1" "extract32 0x1e6e1000 0 5 = 0" "extract32 0x1e6e1000 13 8 = 0x70"
    "vfp_expand_imm True 0x70 = 0x3ff0000000000000" by code_simp+
  then show ?thesis
    using fp_imm_architecture [OF ref_memory.tcg_memory_axioms, of "0x1e6e1000" dc0 cpu0] by (simp add: dc0_def)
qed

text \<open>C39: C102:
  The six forms of \<open>FMOV\<close> between a general and a vector register move the bits unchanged: to the low half with
  the rest of the register cleared (32 bits or 64), to the high half with the low half kept, and back, zero extended.
\<close>

theorem fmov_architecture:
  assumes "tcg_memory S ok" and "fmov_valid insn" and "dc_fp_excp_el s = 0" and "\<not> host_words_bigendian s"
  shows "runs_to S (disas_fp_int_conv insn) s m (fmov_outcome insn m)"
  by (rule wp_runs_to, rule tcg_memory.fmov_run [OF assms(1,2)]) (simp_all add: assms(3,4))

theorem fmov_architecture_witness:
  "runs_to ref_sem (disas_fp_int_conv 0x9eae0020) dc0 cpu0 (fmov_outcome 0x9eae0020 cpu0)"
proof -
  have "fmov_valid 0x9eae0020" by code_simp
  then show ?thesis
    by (rule fmov_architecture [OF ref_memory.tcg_memory_axioms]) (simp_all add: dc0_def)
qed

text \<open>C103:
  \<open>FCSEL\<close> writes the low 32 or 64 bits of its first or second source, as the condition says of the flags, to the
  destination, and clears the rest of it.
\<close>

theorem fcsel_architecture:
  assumes "tcg_memory S ok" and "extract32 insn 29 3 = 0" and "extract32 insn 22 2 \<le> 1" and "dc_fp_excp_el s = 0"
    and "\<not> host_words_bigendian s"
  shows "runs_to S (disas_fp_csel insn) s m (\<lambda>m'.
    let r = (if arm_condition (extract32 insn 12 4) (flags m) then extract32 insn 5 5 else extract32 insn 16 5)
    in vwrote m (extract32 insn 0 5) (if extract32 insn 22 2 = 1 then fst (vreg m r) else take_bit 32 (fst (vreg m r)), 0) m')"
  by (rule wp_runs_to, rule tcg_memory.fp_csel_run [OF assms(1-3)]) (simp_all add: assms(4,5))

theorem fcsel_architecture_witness:
  "runs_to ref_sem (disas_fp_csel 0x1e621c20) dc0 cpu0 (\<lambda>m'.
    let r = (if arm_condition 1 (flags cpu0) then 1 else 2) in vwrote cpu0 0 (fst (vreg cpu0 r), 0) m')"
proof -
  have "extract32 0x1e621c20 29 3 = 0" "extract32 0x1e621c20 22 2 = 1" "extract32 0x1e621c20 0 5 = 0"
    "extract32 0x1e621c20 5 5 = 1" "extract32 0x1e621c20 16 5 = 2" "extract32 0x1e621c20 12 4 = 1" by code_simp+
  note word = this
  have "dc_fp_excp_el dc0 = 0" "\<not> host_words_bigendian dc0" by (simp_all add: dc0_def)
  with fcsel_architecture [OF ref_memory.tcg_memory_axioms, of "0x1e621c20" dc0 cpu0, unfolded word] show ?thesis
    by simp
qed

end
