(* ===== verification/Spec2Isabelle.thy ===== *)
theory Spec2Isabelle
  imports TageDriver Bimodal ShmEmulation CoreMain Dhrystone A64Block A64Arith A64Excl A64FpMove
begin

text \<open>
  A verification library for the branch prediction laboratory: an instrumented QEMU logs the direct
  branches of a guest program, an L-TAGE or a bimodal predictor replays the log, from a file or
  through shared memory, and CoreMark or Dhrystone is the guest. The theories follow that path from the guest
  instruction to the reported accuracy. File names are below \<open>src/src_and_configurations\<close> unless they
  start with \<open>other_files\<close>.

  \<^bold>\<open>From the instruction to the log\<close> (\<open>Src_for_shm_tage/qemu_src_shm/translate-a64.c\<close>).
  \<^item> \<open>A64Tcg\<close>: the state \<open>disas_context\<close> (the fields of \<open>DisasContext\<close> the decoders use, the emitted
    operations and the counters of temporaries and labels), the operations \<open>tcg_op\<close> that the
    \<open>tcg_gen_*\<close> and \<open>gen_helper_*\<close> calls append, and the register access functions. A generator is a
    computation of the state monad over that context; \<open>unallocated_encoding\<close> and the failing
    assertions are effects of it.
  \<^item> \<open>A64Gen\<close>: the generators of flags, extensions and shifts. \<open>A64Branch\<close>, \<open>A64Imm\<close>, \<open>A64Reg\<close>: one
    definition per \<open>disas_*\<close> and \<open>handle_*\<close> function of branches, exceptions and system
    instructions, of data processing with immediates and on registers. The calls of the printer
    helper stand in \<open>call_printer\<close>. \<open>A64Ldst\<close>: the loads and stores, exclusive ones included, and
    the access to the floating-point registers. \<open>A64Fp\<close>: scalar floating point. \<open>A64Insn\<close>: \<open>disas_a64_insn\<close> and the loop of
    \<open>gen_intermediate_code_a64\<close>. \<open>A64Helper\<close>: the helpers of \<open>helper-a64.c\<close>.
  \<^item> \<open>A64Sem\<close>: what emitted operations do. TCG is not part of the repository, so the effect of an
    operation is a parameter; the locale \<open>tcg_semantics\<close> states the documented laws, interpreted by
    \<open>ref\<close>. The calculus \<open>wp\<close> runs a generator and its code together.
  \<^item> \<open>A64Flags\<close>, \<open>A64Exec\<close>, \<open>A64AddSub\<close>, \<open>A64Logic\<close>, \<open>A64Cond\<close>, \<open>A64WMask\<close>, \<open>A64Bits\<close>, \<open>A64Arith\<close>:
    for every input the code of an instruction leaves the register, the flags and nothing else as the Arm
    architecture says (\<open>add_with_carry\<close>, \<open>shifted\<close>, \<open>extended\<close>, \<open>field_value\<close>, \<open>product\<close>,
    \<open>int_quotient\<close>). \<open>A64Mem\<close>, \<open>A64Excl\<close>: the same for memory, with the laws of its operations in the
    locale \<open>tcg_memory\<close>, interpreted by \<open>ref_memory\<close>: addressing modes, write-back, pairs, either byte
    order, and the exclusive monitor. \<open>A64FpMove\<close>: the moves and constants of the vector registers.
  \<^item> \<open>A64BranchProps\<close>: a direct branch calls the printer once, with the target and outcome it then
    takes. \<open>A64Tidy\<close>, \<open>A64LdstTidy\<close>, \<open>A64FpTidy\<close>, \<open>A64Block\<close>: no other instruction logs, no assertion fails, no temporary leaks,
    and the size of a block is bounded.

  \<^bold>\<open>The exchange of records.\<close>
  \<^item> \<open>ShmProtocol\<close>, \<open>ShmProps\<close>: \<open>HELPER(printer)\<close> and the loop of \<open>server.c\<close> as an \<open>inductive\<close> step
    relation of two processes over two sectors, three semaphores and a status word, one step per
    access; ghost fields record what was accepted and what was seen. The theorems are about
    reachable states: order and integrity of the records, mutual exclusion, refinement of a queue,
    absence of deadlock, and what is lost. \<open>ShmEmulation\<close>: \<open>other_files/client-server_SHM/client.c\<close>
    over the same server.
  \<^item> \<open>TraceFile\<close>: the writer of \<open>Src_qemu_tofile/helper-a64.c\<close>, the reader \<open>acquire\<close> and the listing
    program.

  \<^bold>\<open>The predictors\<close> (\<open>Src_for_shm_tage/src_predictor_shm\<close>, \<open>BP_read_from_file\<close>).
  \<^item> \<open>TageState\<close>, \<open>TagePredict\<close>, \<open>TageHistory\<close>, \<open>TageUpdate\<close>, \<open>TageProps\<close>: \<open>common_var.h\<close>,
    \<open>tage_predictor.h\<close>, \<open>get_prediction.h\<close>, \<open>update_predictor.h\<close>. The record \<open>predictor\<close> has the fields of
    the C structure at their widths; an operation is a function of it. The theorems give the
    invariant of the predictor, the prediction, the training, the allocation, the ageing of the
    useful counters, and what the shift of the history register makes of the histories.
  \<^item> \<open>Bimodal\<close>: \<open>branch.c\<close>, the hash table as a map from buckets to chains.
  \<^item> \<open>TraceLoop\<close>: the measurement loop over any predictor, the locale \<open>trace_predictor\<close>, interpreted by
    \<open>bimodal\<close> and by \<open>tage\<close>; \<open>TageDriver\<close>: \<open>predictor.c\<close> and the loop of \<open>server.c\<close>.

  \<^bold>\<open>CoreMark\<close> (\<open>Coremark\<close>). \<open>CoreUtil\<close>, \<open>CoreState\<close>, \<open>CoreMatrix\<close>, \<open>CoreListOps\<close>, \<open>CoreListSort\<close>,
  \<open>CoreListBench\<close>, \<open>CoreMain\<close>: one theory per file (three for \<open>core_list_join.c\<close>). The lists live in
  a store of headers and data items addressed by index; the locale \<open>comparator\<close> is the contract
  between the merge sort and its comparison function, interpreted on both functions of the code.

  \<^bold>\<open>Dhrystone\<close> (\<open>Dhrystone\<close>): \<open>dhry_1.c\<close> and \<open>dhry_2.c\<close>, the records behind pointers as a map. The
  theorem is the benchmark's own check: every loop ends and the variables hold the values it announces.

  \<open>Prelude\<close> holds the integer types, the C loop \<open>for_loop\<close> and the lemmas they share.

  \<^bold>\<open>Bounds and fuel.\<close> Loops of the code are \<open>fold\<close>s or structural recursions where their count is
  known. The scan of a token and the passes of the merge sort are \<open>function\<close>s with a measure; the
  loops that may not end (the corruption step, the insertion of a list, the calibration) return
  options or take fuel, and the theorems that they return say how much is enough: the length of the
  block, of the list, and the iterations after which the counter reaches the limit.

  \<^bold>\<open>Not modelled.\<close> TCG, softfloat, the host bit utilities, system registers and \<open>rand\<close> are parameters.
  Accesses to memory that
  fault are not followed. Left out: the decoders of SIMD of \<open>translate-a64.c\<close> (a parameter of
  \<open>disas_a64_insn\<close>), whose results rest on helpers outside the repository; the copy
  of the translator in \<open>Src_qemu_tofile\<close>, equal but for the helper it calls; the ports of CoreMark, the timing of Dhrystone;
  opening of files, memory and semaphores, and printing; the submissions and the simulator of
  \<open>other_files/cbp2016.eval\<close>, programs of third parties kept for comparison.
\<close>

end
